(* ===== verification/Prelude.thy ===== *)
theory Prelude
  imports Main "HOL-Library.Word" "HOL-Library.List_Lexorder" "HOL-Library.AList"
begin

text \<open>
  Shared vocabulary of the development: bytes and byte strings, the fixed-width
  integers of Go, big-endian encodings (\<open>encoding/binary\<close>), decimal parsing
  (\<open>strconv\<close>), Go maps as association lists, and the state-and-error results
  that the store operations return.  Byte strings are ordered lexicographically
  (\<open>HOL-Library.List_Lexorder\<close>), which is the order of \<open>bytes.Compare\<close> and
  of the keys of Pebble.
\<close>

unbundle bit_operations_syntax

named_theorems codec_simps
named_theorems dict_simps
named_theorems store_simps

type_synonym byte = "8 word"
type_synonym bytes = "byte list"
type_synonym dbid = "16 word"
type_synonym f64 = "64 word"

section \<open>Fixed-width integers\<close>

definition is_int64 :: "int \<Rightarrow> bool" where
  "is_int64 v \<longleftrightarrow> - (2 ^ 63) \<le> v \<and> v < 2 ^ 63"

definition wrap64 :: "int \<Rightarrow> int" where
  "wrap64 v = sint (word_of_int v :: 64 word)"

lemma wrap64_id [simp]: "is_int64 v \<Longrightarrow> wrap64 v = v"
  by (simp add: wrap64_def is_int64_def signed_take_bit_int_eq_self sint_sbintrunc')

lemma is_int64_sint [simp]: "is_int64 (sint (w :: 64 word))"
  using sint_greater_eq [of w] sint_less [of w] by (simp add: is_int64_def)

lemma is_int64_wrap64 [simp]: "is_int64 (wrap64 v)"
  by (simp add: wrap64_def)

lemma is_int64_0 [simp]: "is_int64 0"
  by (simp add: is_int64_def)

lemma unat_bound: "unat (w :: 'a::len word) < 2 ^ LENGTH('a)"
  by (rule unsigned_less)

text \<open>Go's integer division truncates towards zero.\<close>

definition go_div :: "int \<Rightarrow> int \<Rightarrow> int" where
  "go_div a b = sgn a * sgn b * (\<bar>a\<bar> div \<bar>b\<bar>)"

lemma go_div_nonneg [simp]: "0 \<le> a \<Longrightarrow> 0 < b \<Longrightarrow> go_div a b = a div b"
  by (cases "a = 0") (simp_all add: go_div_def)

section \<open>Big-endian integers\<close>

fun be_nat :: "nat \<Rightarrow> nat \<Rightarrow> bytes" where
  "be_nat 0 x = []"
| "be_nat (Suc n) x = be_nat n (x div 256) @ [of_nat x]"

definition be_val :: "bytes \<Rightarrow> nat" where
  "be_val bs = foldl (\<lambda>a b. 256 * a + unat b) 0 bs"

lemma length_be_nat [simp]: "length (be_nat n x) = n"
  by (induction n arbitrary: x) auto

lemma be_val_Nil [simp]: "be_val [] = 0"
  by (simp add: be_val_def)

lemma be_val_snoc [simp]: "be_val (bs @ [b]) = 256 * be_val bs + unat b"
  by (simp add: be_val_def)

lemma be_val_be_nat [simp]: "be_val (be_nat n x) = x mod 256 ^ n"
proof (induction n arbitrary: x)
  case 0
  then show ?case by simp
next
  case (Suc n)
  have "unat (of_nat x :: byte) = x mod 256"
    by (simp add: unat_of_nat)
  then show ?case
    using Suc by (simp add: mod_mult2_eq)
qed

lemma be_val_less: "be_val bs < 256 ^ length bs"
proof (induction bs rule: rev_induct)
  case Nil
  then show ?case by simp
next
  case (snoc b bs)
  have "unat b < 256"
    using unat_bound [of b] by simp
  with snoc have "256 * be_val bs + unat b < 256 * (be_val bs + 1)"
    by simp
  also have "\<dots> \<le> 256 * 256 ^ length bs"
    using snoc by (intro mult_le_mono2) simp
  finally show ?case by simp
qed

lemma be_nat_be_val [simp]: "length bs = n \<Longrightarrow> be_nat n (be_val bs) = bs"
proof (induction bs arbitrary: n rule: rev_induct)
  case Nil
  then show ?case by simp
next
  case (snoc b bs)
  then obtain m where m: "n = Suc m" "length bs = m" by (cases n) auto
  have "(256 * be_val bs + unat b) div 256 = be_val bs"
    using unat_bound [of b] by simp
  moreover have "(of_nat (256 * be_val bs + unat b) :: byte) = b"
  proof -
    have "(256 :: byte) = 0" by simp
    then show ?thesis by (simp only: of_nat_add of_nat_mult of_nat_numeral) simp
  qed
  ultimately show ?case using m snoc.IH by (simp del: of_nat_add of_nat_mult)
qed

lemma be_nat_inj:
  "be_nat n x = be_nat n y \<Longrightarrow> x < 256 ^ n \<Longrightarrow> y < 256 ^ n \<Longrightarrow> x = y"
  by (metis be_val_be_nat mod_less)

definition be16 :: "16 word \<Rightarrow> bytes" where "be16 w = be_nat 2 (unat w)"
definition be32 :: "32 word \<Rightarrow> bytes" where "be32 w = be_nat 4 (unat w)"
definition be64 :: "64 word \<Rightarrow> bytes" where "be64 w = be_nat 8 (unat w)"

definition u16_of :: "bytes \<Rightarrow> 16 word" where "u16_of bs = of_nat (be_val bs)"
definition u32_of :: "bytes \<Rightarrow> 32 word" where "u32_of bs = of_nat (be_val bs)"
definition u64_of :: "bytes \<Rightarrow> 64 word" where "u64_of bs = of_nat (be_val bs)"

lemma length_be [simp]: "length (be16 a) = 2" "length (be32 b) = 4" "length (be64 c) = 8"
  by (simp_all add: be16_def be32_def be64_def)

lemma be_not_Nil [simp]: "be16 a \<noteq> []" "be32 b \<noteq> []" "be64 c \<noteq> []"
  using length_be by (metis list.size(3) zero_neq_numeral)+

lemma u16_be16 [simp]: "u16_of (be16 w) = w"
  using unat_bound [of w] by (simp add: u16_of_def be16_def)

lemma u32_be32 [simp]: "u32_of (be32 w) = w"
  using unat_bound [of w] by (simp add: u32_of_def be32_def)

lemma u64_be64 [simp]: "u64_of (be64 w) = w"
  using unat_bound [of w] by (simp add: u64_of_def be64_def)

lemma be16_inj [simp]: "be16 a = be16 b \<longleftrightarrow> a = b"
  by (metis u16_be16)

lemma be64_inj [simp]: "be64 a = be64 b \<longleftrightarrow> a = b"
  by (metis u64_be64)

lemma be16_u16_of [simp]: "length bs = 2 \<Longrightarrow> be16 (u16_of bs) = bs"
  using be_val_less [of bs] by (simp add: be16_def u16_of_def unat_of_nat)

lemma be64_u64_of [simp]: "length bs = 8 \<Longrightarrow> be64 (u64_of bs) = bs"
  using be_val_less [of bs] by (simp add: be64_def u64_of_def unat_of_nat)

section \<open>Lexicographic order on byte strings\<close>

lemma lex_Nil_less [simp]: "[] < (b # bs :: bytes)"
  by (simp add: list_less_def)

lemma lex_not_less_Nil [simp]: "\<not> (bs :: bytes) < []"
  by (simp add: list_less_def)

lemma lex_Cons_less [simp]: "(a # as :: bytes) < b # bs \<longleftrightarrow> a < b \<or> a = b \<and> as < bs"
  by (simp add: list_less_def)

lemma lex_append_same [simp]: "(p @ as :: bytes) < p @ bs \<longleftrightarrow> as < bs"
  by (induction p) auto

lemma lex_append_same_le [simp]: "(p @ as :: bytes) \<le> p @ bs \<longleftrightarrow> as \<le> bs"
  by (auto simp: list_le_def)

lemma lex_append_eqlen:
  "length xs = length ys \<Longrightarrow>
     (xs @ as :: bytes) < ys @ bs \<longleftrightarrow> xs < ys \<or> xs = ys \<and> as < bs"
  by (induction xs ys rule: list_induct2) auto

lemma lex_Nil_le [simp]: "[] \<le> (s :: bytes)"
  by (cases s) (auto simp: list_le_def)

lemma lex_prefix_le [simp]: "(p :: bytes) \<le> p @ s"
  using lex_append_same_le [of p "[]" s] by simp

lemma div_mod_less_iff:
  fixes x y :: nat
  shows "x div 256 < y div 256 \<or> x div 256 = y div 256 \<and> x mod 256 < y mod 256 \<longleftrightarrow> x < y"
proof -
  have "x = 256 * (x div 256) + x mod 256" "y = 256 * (y div 256) + y mod 256"
    by simp_all
  moreover have "x mod 256 < 256" "y mod 256 < 256"
    by simp_all
  ultimately show ?thesis by linarith
qed

lemma be_nat_less:
  "x < 256 ^ n \<Longrightarrow> y < 256 ^ n \<Longrightarrow> be_nat n x < be_nat n y \<longleftrightarrow> x < y"
proof (induction n arbitrary: x y)
  case 0
  then show ?case by simp
next
  case (Suc n)
  have b: "x div 256 < 256 ^ n" "y div 256 < 256 ^ n"
    using Suc.prems by (simp_all add: less_mult_imp_div_less mult.commute)
  have "be_nat (Suc n) x < be_nat (Suc n) y \<longleftrightarrow>
      be_nat n (x div 256) < be_nat n (y div 256) \<or>
      be_nat n (x div 256) = be_nat n (y div 256) \<and> (of_nat x :: byte) < of_nat y"
    by (simp add: lex_append_eqlen)
  also have "\<dots> \<longleftrightarrow> x div 256 < y div 256 \<or> x div 256 = y div 256 \<and> x mod 256 < y mod 256"
    using Suc.IH [OF b] be_nat_inj [OF _ b] by (auto simp: word_less_nat_alt unat_of_nat)
  also have "\<dots> \<longleftrightarrow> x < y"
    by (rule div_mod_less_iff)
  finally show ?case .
qed

lemma be64_less [simp]: "be64 a < be64 b \<longleftrightarrow> a < b"
  using be_nat_less [of "unat a" 8 "unat b"] unat_bound [of a] unat_bound [of b]
  by (simp add: be64_def word_less_nat_alt)

lemma be16_less [simp]: "be16 a < be16 b \<longleftrightarrow> a < b"
  using be_nat_less [of "unat a" 2 "unat b"] unat_bound [of a] unat_bound [of b]
  by (simp add: be16_def word_less_nat_alt)

section \<open>Decimal integers and ASCII\<close>

definition ascii :: "string \<Rightarrow> bytes" where
  "ascii s = map of_char s"

definition is_digit :: "byte \<Rightarrow> bool" where
  "is_digit b \<longleftrightarrow> 48 \<le> b \<and> b \<le> 57"

definition digits_val :: "bytes \<Rightarrow> int" where
  "digits_val bs = foldl (\<lambda>a b. 10 * a + (uint b - 48)) 0 bs"

text \<open>\<open>strconv.ParseInt(s, 10, 64)\<close>: an optional sign, at least one digit, no other
  character, and a value that fits 64 bits.\<close>

definition parse_int :: "bytes \<Rightarrow> int option" where
  "parse_int s =
     (let neg = (s \<noteq> [] \<and> hd s = 45);
          ds = (if s \<noteq> [] \<and> (hd s = 45 \<or> hd s = 43) then tl s else s)
      in if ds = [] \<or> \<not> list_all is_digit ds then None
         else let v = (if neg then - digits_val ds else digits_val ds)
              in if is_int64 v then Some v else None)"

lemma parse_int_int64: "parse_int s = Some v \<Longrightarrow> is_int64 v"
  by (auto simp: parse_int_def Let_def split: if_splits)

definition to_upper :: "byte \<Rightarrow> byte" where
  "to_upper b = (if 97 \<le> b \<and> b \<le> 122 then b - 32 else b)"

text \<open>\<open>strings.EqualFold\<close> against an ASCII keyword.\<close>

definition fold_equal :: "bytes \<Rightarrow> string \<Rightarrow> bool" where
  "fold_equal b s \<longleftrightarrow> map to_upper b = map to_upper (ascii s)"

section \<open>Go maps as association lists\<close>

definition gmap_ok :: "('k \<times> 'v) list \<Rightarrow> bool" where
  "gmap_ok m \<longleftrightarrow> distinct (map fst m)"

lemma gmap_ok_Nil [simp]: "gmap_ok []"
  by (simp add: gmap_ok_def)

lemma gmap_ok_update [simp]: "gmap_ok m \<Longrightarrow> gmap_ok (AList.update k v m)"
  by (simp add: gmap_ok_def distinct_update)

lemma gmap_ok_delete [simp]: "gmap_ok m \<Longrightarrow> gmap_ok (AList.delete k m)"
  by (simp add: gmap_ok_def distinct_delete)

section \<open>Results with state and errors\<close>

text \<open>
  An operation of the store takes the store and returns either a Go error or a
  result, together with the store as it was left.  \<open>bindE\<close> is the
  \<^verbatim>\<open>if err != nil { return err }\<close> of the source.
\<close>

type_synonym ('err, 'a, 's) res = "('err + 'a) \<times> 's"

definition bindE :: "('err, 'a, 's) res \<Rightarrow> ('a \<Rightarrow> 's \<Rightarrow> ('err, 'b, 's) res) \<Rightarrow> ('err, 'b, 's) res" where
  "bindE r f = (case r of (Inl e, s) \<Rightarrow> (Inl e, s) | (Inr x, s) \<Rightarrow> f x s)"

lemma bindE_Inl [simp]: "bindE (Inl e, s) f = (Inl e, s)"
  by (simp add: bindE_def)

lemma bindE_Inr [simp]: "bindE (Inr x, s) f = f x s"
  by (simp add: bindE_def)

lemma bindE_eq_Inr:
  "bindE r f = (Inr y, s') \<longleftrightarrow> (\<exists>x s. r = (Inr x, s) \<and> f x s = (Inr y, s'))"
  by (auto simp: bindE_def split: prod.splits sum.splits)

end
