(* ===== verification/Glob.thy ===== *)
theory Glob
  imports Prelude
begin

text \<open>
  \<open>glob/glob.go\<close>: the matcher for KEYS, SCAN MATCH and channel patterns.  The program splits
  the pattern at its stars and places the runs greedily, each at its earliest occurrence; the
  reference \<open>gmatch\<close> is the declarative meaning of a sequence of single-character tests and
  stars, with full backtracking.  The two agree on every pattern within the star limit.
\<close>

section \<open>Definitions\<close>

text \<open>The bytes of the pattern syntax: \<^verbatim>\<open>* ? [ ] \ ^ ! -\<close>.\<close>

abbreviation c_star :: byte where "c_star \<equiv> 42"
abbreviation c_quest :: byte where "c_quest \<equiv> 63"
abbreviation c_open :: byte where "c_open \<equiv> 91"
abbreviation c_close :: byte where "c_close \<equiv> 93"
abbreviation c_bslash :: byte where "c_bslash \<equiv> 92"
abbreviation c_caret :: byte where "c_caret \<equiv> 94"
abbreviation c_bang :: byte where "c_bang \<equiv> 33"
abbreviation c_dash :: byte where "c_dash \<equiv> 45"

definition maxStarCount :: nat where "maxStarCount = 100"

function classLoop :: "bytes \<Rightarrow> nat \<Rightarrow> byte \<Rightarrow> bool \<Rightarrow> bool \<times> nat" where
  "classLoop seg j sc matched =
     (if j < length seg \<and> seg ! j \<noteq> c_close then
        (let j1 = (if seg ! j = c_bslash \<and> j + 1 < length seg then j + 1 else j);
             lo = seg ! j1;
             j2 = j1 + 1
         in if j2 < length seg \<and> seg ! j2 = c_dash \<and> j2 + 1 < length seg \<and> seg ! (j2 + 1) \<noteq> c_close
            then classLoop seg (j2 + 2) sc (matched \<or> lo \<le> sc \<and> sc \<le> seg ! (j2 + 1))
            else classLoop seg j2 sc (matched \<or> lo \<le> sc \<and> sc \<le> lo))
      else (matched, j))"
  by pat_completeness auto
termination
  by (relation "measure (\<lambda>(seg, j, sc, matched). length seg - j)") auto

definition matchClass :: "bytes \<Rightarrow> nat \<Rightarrow> byte \<Rightarrow> bool \<times> nat" where
  "matchClass seg k sc =
     (let j = k + 1;
          negate = (j < length seg \<and> (seg ! j = c_caret \<or> seg ! j = c_bang));
          (matched, j') = classLoop seg (if negate then j + 1 else j) sc False
      in (matched \<noteq> negate, j'))"

declare classLoop.simps [simp del]

text \<open>One round of the loop: where it continues and whether it accepts the character.\<close>

definition classNext :: "bytes \<Rightarrow> nat \<Rightarrow> nat" where
  "classNext seg j =
     (let j2 = (if seg ! j = c_bslash \<and> j + 1 < length seg then j + 1 else j) + 1
      in if j2 < length seg \<and> seg ! j2 = c_dash \<and> j2 + 1 < length seg \<and> seg ! (j2 + 1) \<noteq> c_close
         then j2 + 2 else j2)"

definition classHit :: "bytes \<Rightarrow> nat \<Rightarrow> byte \<Rightarrow> bool" where
  "classHit seg j sc =
     (let j1 = (if seg ! j = c_bslash \<and> j + 1 < length seg then j + 1 else j); j2 = j1 + 1
      in seg ! j1 \<le> sc \<and>
         sc \<le> (if j2 < length seg \<and> seg ! j2 = c_dash \<and> j2 + 1 < length seg \<and> seg ! (j2 + 1) \<noteq> c_close
               then seg ! (j2 + 1) else seg ! j1))"

lemma classLoop_unfold:
  "classLoop seg j sc m =
     (if j < length seg \<and> seg ! j \<noteq> c_close
      then classLoop seg (classNext seg j) sc (m \<or> classHit seg j sc) else (m, j))"
  by (subst classLoop.simps) (simp add: Let_def classNext_def classHit_def)

lemma classNext_gt: "j < classNext seg j"
  by (simp add: classNext_def Let_def)

lemma classLoop_ge: "j \<le> snd (classLoop seg j sc m)"
proof (induction "length seg - j" arbitrary: j m rule: less_induct)
  case less
  show ?case
  proof (cases "j < length seg \<and> seg ! j \<noteq> c_close")
    case True
    then have "classNext seg j \<le> snd (classLoop seg (classNext seg j) sc (m \<or> classHit seg j sc))"
      using classNext_gt [of j seg] by (intro less) linarith
    with True classNext_gt [of j seg] show ?thesis
      by (subst classLoop_unfold) simp
  next
    case False
    then show ?thesis by (subst classLoop_unfold) auto
  qed
qed

lemma matchClass_ge: "k < snd (matchClass seg k sc)"
  using classLoop_ge [of "k + 1" seg sc False] classLoop_ge [of "k + 2" seg sc False]
  by (auto simp: matchClass_def Let_def split: prod.splits)

function matchLoop :: "bytes \<Rightarrow> bytes \<Rightarrow> nat \<Rightarrow> nat \<Rightarrow> nat option" where
  "matchLoop seg str k si =
     (if k < length seg then
        (if si \<ge> length str then None
         else let pc = seg ! k; sc = str ! si in
           if pc = c_quest then matchLoop seg str (k + 1) (si + 1)
           else if pc = c_open then
             (let (ok, nk) = matchClass seg k sc
              in if \<not> ok then None else matchLoop seg str (nk + 1) (si + 1))
           else if pc = c_bslash then
             (if k + 1 \<ge> length seg \<or> seg ! (k + 1) \<noteq> sc then None
              else matchLoop seg str (k + 2) (si + 1))
           else if pc \<noteq> sc then None
           else matchLoop seg str (k + 1) (si + 1))
      else Some si)"
  by pat_completeness auto
termination
proof (relation "measure (\<lambda>(seg, str, k, si). length seg - k)", goal_cases)
  case (3 seg str k si pc sc x ok nk)
  then show ?case using matchClass_ge [of k seg sc] by (cases "matchClass seg k sc") auto
qed auto

declare matchLoop.simps [simp del]

definition matchAt :: "bytes \<Rightarrow> bytes \<Rightarrow> nat \<Rightarrow> bool \<times> nat" where
  "matchAt seg str i = (case matchLoop seg str 0 i of None \<Rightarrow> (False, 0) | Some si \<Rightarrow> (True, si - i))"

definition containsStar :: "bytes \<Rightarrow> bool" where
  "containsStar s \<longleftrightarrow> list_ex (\<lambda>b. b = c_star) s"

definition countStars :: "bytes \<Rightarrow> nat" where
  "countStars s = length (filter (\<lambda>b. b = c_star) s)"

fun splitLoop :: "bytes \<Rightarrow> bytes \<Rightarrow> bytes list" where
  "splitLoop [] cur = [cur]"
| "splitLoop (b # bs) cur = (if b = c_star then cur # splitLoop bs [] else splitLoop bs (cur @ [b]))"

definition splitPattern :: "bytes \<Rightarrow> bytes list" where
  "splitPattern pattern = splitLoop pattern []"

text \<open>The search of one run from position \<open>i\<close>: the position where it was found and the
  position after it.\<close>

function findRun :: "bytes \<Rightarrow> bytes \<Rightarrow> bool \<Rightarrow> nat \<Rightarrow> (nat \<times> nat) option" where
  "findRun seg str anchored i =
     (if i \<le> length str then
        (let (ok, consumed) = matchAt seg str i in
         if \<not> ok then findRun seg str anchored (i + 1)
         else if anchored then
           (if i + consumed = length str then Some (i, length str)
            else findRun seg str anchored (i + 1))
         else Some (i, i + consumed))
      else None)"
  by pat_completeness auto
termination
  by (relation "measure (\<lambda>(seg, str, anchored, i). Suc (length str) - i)") auto

declare findRun.simps [simp del]

fun scanRuns :: "bytes list \<Rightarrow> bytes \<Rightarrow> bool \<Rightarrow> nat \<Rightarrow> bool" where
  "scanRuns [] str endAnchored pos = True"
| "scanRuns (seg # segs) str endAnchored pos =
     (if seg = [] then scanRuns segs str endAnchored pos
      else case findRun seg str (segs = [] \<and> endAnchored) pos of
             None \<Rightarrow> False
           | Some (found, pos') \<Rightarrow> scanRuns segs str endAnchored pos')"

definition match :: "bytes \<Rightarrow> bytes \<Rightarrow> bool" where
  "match pattern str =
     (if pattern = [] then str = []
      else if countStars pattern > maxStarCount then False
      else if \<not> containsStar pattern then
        (let (ok, consumed) = matchAt pattern str 0 in ok \<and> consumed = length str)
      else
        (let segs = splitPattern pattern;
             startAnchored = (pattern ! 0 \<noteq> c_star);
             endAnchored = (pattern ! (length pattern - 1) \<noteq> c_star)
         in if startAnchored then
              (let (ok, consumed) = matchAt (hd segs) str 0
               in if \<not> ok then False else scanRuns (tl segs) str endAnchored consumed)
            else scanRuns segs str endAnchored 0))"

section \<open>The meaning of a pattern\<close>

datatype gelem = One "byte \<Rightarrow> bool" | Star

fun gmatch :: "gelem list \<Rightarrow> bytes \<Rightarrow> bool" where
  "gmatch [] s = (s = [])"
| "gmatch (One p # es) s = (case s of [] \<Rightarrow> False | c # cs \<Rightarrow> p c \<and> gmatch es cs)"
| "gmatch (Star # es) s = (gmatch es s \<or> (case s of [] \<Rightarrow> False | c # cs \<Rightarrow> gmatch (Star # es) cs))"

text \<open>The single-character tests of a star-free run.\<close>

function runTests :: "bytes \<Rightarrow> nat \<Rightarrow> (byte \<Rightarrow> bool) list" where
  "runTests seg k =
     (if k < length seg then
        (if seg ! k = c_quest then (\<lambda>_. True) # runTests seg (k + 1)
         else if seg ! k = c_open then
           (\<lambda>c. fst (matchClass seg k c)) # runTests seg (snd (matchClass seg k 0) + 1)
         else if seg ! k = c_bslash then
           (\<lambda>c. k + 1 < length seg \<and> seg ! (k + 1) = c) # runTests seg (k + 2)
         else (\<lambda>c. seg ! k = c) # runTests seg (k + 1))
      else [])"
  by pat_completeness auto
termination
proof (relation "measure (\<lambda>(seg, k). length seg - k)", goal_cases)
  case (3 seg k)
  then show ?case using matchClass_ge [of k seg 0] by auto
qed auto

declare runTests.simps [simp del]

fun compileRuns :: "bytes list \<Rightarrow> gelem list" where
  "compileRuns [] = []"
| "compileRuns [seg] = map One (runTests seg 0)"
| "compileRuns (seg # segs) = map One (runTests seg 0) @ Star # compileRuns segs"

definition compile :: "bytes \<Rightarrow> gelem list" where
  "compile pattern = compileRuns (splitPattern pattern)"

section \<open>Runs\<close>

definition fits :: "(byte \<Rightarrow> bool) list \<Rightarrow> bytes \<Rightarrow> bool" where
  "fits ps s \<longleftrightarrow> length ps \<le> length s \<and> list_all2 (\<lambda>p c. p c) ps (take (length ps) s)"

lemma fits_Nil [simp]: "fits [] s"
  by (simp add: fits_def)

lemma fits_Cons [simp]: "fits (p # ps) s \<longleftrightarrow> (case s of [] \<Rightarrow> False | c # cs \<Rightarrow> p c \<and> fits ps cs)"
  by (cases s) (auto simp: fits_def)

lemma fits_length: "fits ps s \<Longrightarrow> length ps \<le> length s"
  by (simp add: fits_def)

lemma gmatch_run:
  "gmatch (map One ps @ es) s \<longleftrightarrow> fits ps s \<and> gmatch es (drop (length ps) s)"
  by (induction ps arbitrary: s) (auto split: list.splits)

lemma gmatch_star: "gmatch (Star # es) s \<longleftrightarrow> (\<exists>k \<le> length s. gmatch es (drop k s))"
proof (induction s)
  case Nil
  then show ?case by simp
next
  case (Cons c s)
  have "(\<exists>k \<le> length (c # s). gmatch es (drop k (c # s))) \<longleftrightarrow>
      gmatch es (c # s) \<or> (\<exists>k \<le> length s. gmatch es (drop k s))"
    by (metis Suc_le_mono drop0 drop_Suc_Cons le0 length_Cons not0_implies_Suc)
  with Cons show ?case by simp
qed

declare gmatch.simps(3) [simp del]

lemma gmatch_star_mono:
  assumes "gmatch (Star # es) (drop n s)" "m \<le> n"
  shows "gmatch (Star # es) (drop m s)"
proof (cases "n \<le> length s")
  case True
  with assms obtain k where "k \<le> length (drop n s)" "gmatch es (drop (k + n) s)"
    by (auto simp: gmatch_star)
  moreover have "drop (k + n) s = drop (k + n - m) (drop m s)"
    using assms(2) by simp
  moreover have "k + n - m \<le> length (drop m s)"
    using True \<open>k \<le> length (drop n s)\<close> by simp
  ultimately show ?thesis
    unfolding gmatch_star by metis
next
  case False
  then have "gmatch es []" using assms by (simp add: gmatch_star)
  then show ?thesis
    unfolding gmatch_star by (intro exI [of _ "length s - m"]) auto
qed

lemma gmatch_star_star: "gmatch (Star # Star # es) s \<longleftrightarrow> gmatch (Star # es) s"
proof
  assume "gmatch (Star # Star # es) s"
  then obtain k where "gmatch (Star # es) (drop k s)"
    by (subst (asm) gmatch_star) blast
  then show "gmatch (Star # es) s"
    using gmatch_star_mono [of es k s 0] by simp
next
  assume "gmatch (Star # es) s"
  then show "gmatch (Star # Star # es) s"
    by (subst gmatch_star) (metis drop0 le0)
qed

lemma gmatch_single_star: "gmatch [Star] s"
  unfolding gmatch_star by (rule exI [of _ "length s"]) simp

text \<open>The end of a class does not depend on the character tested.\<close>

lemma classLoop_end: "snd (classLoop seg j sc m) = snd (classLoop seg j sc' m')"
proof (induction "length seg - j" arbitrary: j m m' rule: less_induct)
  case less
  show ?case
  proof (cases "j < length seg \<and> seg ! j \<noteq> c_close")
    case True
    then have "snd (classLoop seg (classNext seg j) sc (m \<or> classHit seg j sc)) =
        snd (classLoop seg (classNext seg j) sc' (m' \<or> classHit seg j sc'))"
      using classNext_gt [of j seg] by (intro less) linarith
    with True show ?thesis
      by (simp add: classLoop_unfold [of seg j])
  next
    case False
    then show ?thesis by (auto simp: classLoop_unfold [of seg j])
  qed
qed

lemma matchClass_end: "snd (matchClass seg k sc) = snd (matchClass seg k sc')"
  using classLoop_end [of seg "k + 1" sc False sc' False] classLoop_end [of seg "k + 2" sc False sc' False]
  by (auto simp: matchClass_def Let_def split: prod.splits)

lemma runTests_eq_Nil [simp]: "runTests seg 0 = [] \<longleftrightarrow> seg = []"
  by (subst runTests.simps) auto

lemma runTests_Nil [simp]: "runTests [] k = []"
  by (subst runTests.simps) simp

lemma matchLoop_runTests:
  "matchLoop seg str k si =
     (if fits (runTests seg k) (drop si str) then Some (si + length (runTests seg k)) else None)"
proof (induction seg str k si rule: matchLoop.induct)
  case (1 seg str k si)
  consider (fin) "\<not> k < length seg" | (eos) "k < length seg" "length str \<le> si"
    | (step) "k < length seg" "si < length str" by linarith
  then show ?case
  proof cases
    case fin
    then show ?thesis by (simp add: matchLoop.simps [of seg str k si] runTests.simps [of seg k])
  next
    case eos
    then have "runTests seg k \<noteq> []" by (subst runTests.simps) auto
    with eos show ?thesis
      by (cases "runTests seg k") (auto simp: matchLoop.simps [of seg str k si])
  next
    case step
    then have d: "drop si str = str ! si # drop (Suc si) str"
      by (simp add: Cons_nth_drop_Suc)
    show ?thesis
    proof (cases "seg ! k = c_open")
      case True
      obtain ok nk where mc: "matchClass seg k (str ! si) = (ok, nk)" by fastforce
      have nk: "snd (matchClass seg k 0) = nk"
        using matchClass_end [of seg k 0 "str ! si"] mc by simp
      show ?thesis
        using step True mc 1(2) [of "seg ! k" "str ! si" "(ok, nk)" ok nk]
        by (auto simp: d nk matchLoop.simps [of seg str k si] runTests.simps [of seg k])
    next
      case False
      then show ?thesis
        using step 1(1) [of "seg ! k" "str ! si"] 1(3) [of "seg ! k" "str ! si"]
          1(4) [of "seg ! k" "str ! si"]
        by (auto simp: d matchLoop.simps [of seg str k si] runTests.simps [of seg k])
    qed
  qed
qed

lemma matchAt_eq:
  "matchAt seg str i = (if fits (runTests seg 0) (drop i str) then (True, length (runTests seg 0)) else (False, 0))"
  by (simp add: matchAt_def matchLoop_runTests)

section \<open>Greedy placement of the runs\<close>

lemma findRun_free_Some:
  "findRun seg str False i = Some (j, p) \<Longrightarrow>
     i \<le> j \<and> j \<le> length str \<and> fits (runTests seg 0) (drop j str) \<and> p = j + length (runTests seg 0) \<and>
     (\<forall>k. i \<le> k \<and> k < j \<longrightarrow> \<not> fits (runTests seg 0) (drop k str))"
proof (induction seg str False i rule: findRun.induct)
  case (1 seg str i)
  show ?case
  proof (cases "i \<le> length str \<and> \<not> fits (runTests seg 0) (drop i str)")
    case True
    then have "Suc i \<le> j \<and> j \<le> length str \<and> fits (runTests seg 0) (drop j str) \<and>
        p = j + length (runTests seg 0) \<and>
        (\<forall>k. Suc i \<le> k \<and> k < j \<longrightarrow> \<not> fits (runTests seg 0) (drop k str))"
      using 1 by (auto simp: findRun.simps [of seg str False i] matchAt_eq)
    with True show ?thesis
      by (metis Suc_leD Suc_leI le_neq_implies_less)
  next
    case False
    with "1.prems" show ?thesis
      by (auto simp: findRun.simps [of seg str False i] matchAt_eq split: if_splits)
  qed
qed

lemma findRun_free_None:
  "findRun seg str False i = None \<Longrightarrow> i \<le> k \<Longrightarrow> k \<le> length str \<Longrightarrow> \<not> fits (runTests seg 0) (drop k str)"
proof (induction seg str False i rule: findRun.induct)
  case (1 seg str i)
  then show ?case
    by (cases "k = i") (auto simp: findRun.simps [of seg str False i] matchAt_eq split: if_splits)
qed

lemma findRun_anchored:
  "findRun seg str True i \<noteq> None \<longleftrightarrow>
     (\<exists>j. i \<le> j \<and> j + length (runTests seg 0) = length str \<and> fits (runTests seg 0) (drop j str))"
proof (induction seg str True i rule: findRun.induct)
  case (1 seg str i)
  let ?P = "\<lambda>i j. i \<le> j \<and> j + length (runTests seg 0) = length str \<and> fits (runTests seg 0) (drop j str)"
  show ?case
  proof (cases "i \<le> length str \<and> \<not> ?P i i")
    case True
    then have "(\<exists>j. ?P i j) = (\<exists>j. ?P (i + 1) j)"
      by (metis Suc_eq_plus1 Suc_leD Suc_leI le_neq_implies_less)
    with True 1 show ?thesis
      by (auto simp: findRun.simps [of seg str True i] matchAt_eq)
  next
    case False
    then show ?thesis
      by (auto simp: findRun.simps [of seg str True i] matchAt_eq)
  qed
qed

lemma fits_beyond: "fits ps (drop i s) \<Longrightarrow> ps \<noteq> [] \<Longrightarrow> i < length s"
  by (cases ps) (auto simp: fits_def)

lemma gmatch_star_run:
  "ps \<noteq> [] \<Longrightarrow> i \<le> length s \<Longrightarrow>
     gmatch (Star # map One ps @ es) (drop i s) \<longleftrightarrow>
     (\<exists>j. i \<le> j \<and> j \<le> length s \<and> fits ps (drop j s) \<and> gmatch es (drop (j + length ps) s))"
  unfolding gmatch_star gmatch_run
  apply (rule iffI)
   apply (elim exE conjE)
   apply (rule_tac x = "i + k" in exI)
   apply (simp add: add.commute add.left_commute)
  apply (elim exE conjE)
  apply (rule_tac x = "j - i" in exI)
  apply (simp add: add.commute)
  done

lemma scanRuns_gmatch:
  "segs \<noteq> [] \<Longrightarrow> pos \<le> length str \<Longrightarrow> endAnchored = (last segs \<noteq> []) \<Longrightarrow>
     scanRuns segs str endAnchored pos \<longleftrightarrow> gmatch (Star # compileRuns segs) (drop pos str)"
proof (induction segs arbitrary: pos)
  case Nil
  then show ?case by simp
next
  case (Cons seg segs)
  let ?ps = "runTests seg 0"
  show ?case
  proof (cases "seg = []")
    case True
    then show ?thesis
    proof (cases "segs = []")
      case True
      with \<open>seg = []\<close> have "compileRuns (seg # segs) = []" by simp
      with True \<open>seg = []\<close> show ?thesis by (simp add: gmatch_single_star)
    next
      case False
      then have "compileRuns (seg # segs) = Star # compileRuns segs"
        using \<open>seg = []\<close> by (cases segs) simp_all
      with Cons False \<open>seg = []\<close> show ?thesis by (simp add: gmatch_star_star)
    qed
  next
    case False
    then have ne: "?ps \<noteq> []" by simp
    show ?thesis
    proof (cases "segs = []")
      case True
      then have "scanRuns (seg # segs) str endAnchored pos \<longleftrightarrow>
          findRun seg str True pos \<noteq> None"
        using Cons.prems False by (auto split: option.splits)
      also have "\<dots> \<longleftrightarrow> gmatch (Star # map One ?ps @ []) (drop pos str)"
        unfolding findRun_anchored gmatch_star_run [OF ne Cons.prems(2)]
        by (auto simp: fits_def)
      finally show ?thesis using True by simp
    next
      case nl: False
      then have comp: "compileRuns (seg # segs) = map One ?ps @ Star # compileRuns segs"
        by (cases segs) simp_all
      let ?P = "\<lambda>j. pos \<le> j \<and> j \<le> length str \<and> fits ?ps (drop j str)"
      have spec: "gmatch (Star # compileRuns (seg # segs)) (drop pos str) \<longleftrightarrow>
          (\<exists>j. ?P j \<and> gmatch (Star # compileRuns segs) (drop (j + length ?ps) str))"
        unfolding comp gmatch_star_run [OF ne Cons.prems(2)] by blast
      show ?thesis
      proof (cases "findRun seg str False pos")
        case None
        then show ?thesis
          using findRun_free_None [OF None] False nl spec by auto
      next
        case (Some jp)
        obtain j p where jp: "jp = (j, p)" by fastforce
        note j = findRun_free_Some [OF Some [unfolded jp]]
        then have le: "p \<le> length str"
          using fits_length [of ?ps "drop j str"] by auto
        have "scanRuns (seg # segs) str endAnchored pos \<longleftrightarrow>
            gmatch (Star # compileRuns segs) (drop (j + length ?ps) str)"
          using False nl Some jp j Cons.IH [OF nl le] Cons.prems(3) by simp
        also have "\<dots> \<longleftrightarrow> gmatch (Star # compileRuns (seg # segs)) (drop pos str)"
        proof
          assume "gmatch (Star # compileRuns segs) (drop (j + length ?ps) str)"
          with j show "gmatch (Star # compileRuns (seg # segs)) (drop pos str)"
            unfolding spec by blast
        next
          assume "gmatch (Star # compileRuns (seg # segs)) (drop pos str)"
          then obtain k where k: "?P k" "gmatch (Star # compileRuns segs) (drop (k + length ?ps) str)"
            unfolding spec by blast
          with j have "j \<le> k" by (meson not_less)
          then show "gmatch (Star # compileRuns segs) (drop (j + length ?ps) str)"
            using gmatch_star_mono [OF k(2)] by simp
        qed
        finally show ?thesis .
      qed
    qed
  qed
qed

section \<open>Splitting\<close>

lemma splitLoop_ne [simp]: "splitLoop p cur \<noteq> []"
  by (induction p arbitrary: cur) auto

lemma splitLoop_last: "(last (splitLoop p cur) = []) \<longleftrightarrow> (if p = [] then cur = [] else last p = c_star)"
  by (induction p arbitrary: cur) auto

lemma splitLoop_hd: "p \<noteq> [] \<Longrightarrow> cur = [] \<Longrightarrow> (hd (splitLoop p cur) = []) \<longleftrightarrow> hd p = c_star"
proof -
  have "cur \<noteq> [] \<Longrightarrow> hd (splitLoop p cur) \<noteq> []" for p cur :: bytes
    by (induction p arbitrary: cur) auto
  then show "p \<noteq> [] \<Longrightarrow> cur = [] \<Longrightarrow> (hd (splitLoop p cur) = []) \<longleftrightarrow> hd p = c_star"
    by (cases p) auto
qed

lemma splitLoop_single: "\<not> containsStar p \<Longrightarrow> splitLoop p cur = [cur @ p]"
  by (induction p arbitrary: cur) (auto simp: containsStar_def)

lemma splitLoop_tl_ne: "containsStar p \<Longrightarrow> tl (splitLoop p cur) \<noteq> []"
  by (induction p arbitrary: cur) (auto simp: containsStar_def)

lemma gmatch_whole: "gmatch (map One ps) s \<longleftrightarrow> fits ps s \<and> length ps = length s"
  using gmatch_run [of ps "[]" s] by (auto simp: fits_def)

lemma match_gmatch:
  assumes "countStars p \<le> maxStarCount"
  shows "match p s \<longleftrightarrow> gmatch (compile p) s"
proof -
  consider (empty) "p = []" | (nostar) "p \<noteq> []" "\<not> containsStar p" | (star) "p \<noteq> []" "containsStar p"
    by blast
  then show ?thesis
  proof cases
    case empty
    then show ?thesis by (simp add: match_def compile_def splitPattern_def runTests.simps)
  next
    case nostar
    then have "compile p = map One (runTests p 0)"
      by (simp add: compile_def splitPattern_def splitLoop_single)
    with nostar assms show ?thesis
      by (auto simp: match_def matchAt_eq gmatch_whole)
  next
    case star
    let ?segs = "splitPattern p"
    let ?ea = "p ! (length p - 1) \<noteq> c_star"
    have ea: "?ea = (last ?segs \<noteq> [])"
      using star(1) splitLoop_last [of p "[]"] by (simp add: splitPattern_def last_conv_nth)
    have sa: "p ! 0 \<noteq> c_star \<longleftrightarrow> hd ?segs \<noteq> []"
      using star(1) splitLoop_hd [of p "[]"] by (simp add: splitPattern_def hd_conv_nth)
    have tl: "tl ?segs \<noteq> []" using star(2) by (simp add: splitPattern_def splitLoop_tl_ne)
    then obtain s0 ss where segs: "?segs = s0 # ss" "ss \<noteq> []" by (cases ?segs) auto
    then have lst: "last ?segs = last ss" by simp
    have comp: "compile p = map One (runTests s0 0) @ Star # compileRuns ss"
      using segs by (cases ss) (simp_all add: compile_def)
    show ?thesis
    proof (cases "s0 = []")
      case True
      then have "match p s \<longleftrightarrow> scanRuns ss s ?ea 0"
        using star assms sa segs by (simp add: match_def)
      also have "\<dots> \<longleftrightarrow> gmatch (Star # compileRuns ss) (drop 0 s)"
        using segs(2) lst ea by (intro scanRuns_gmatch) auto
      finally show ?thesis using True comp by (simp add: runTests.simps)
    next
      case False
      then have "match p s \<longleftrightarrow> fits (runTests s0 0) s \<and> scanRuns ss s ?ea (length (runTests s0 0))"
        using star assms sa segs by (auto simp: match_def matchAt_eq)
      also have "\<dots> \<longleftrightarrow> gmatch (compile p) s"
      proof (cases "fits (runTests s0 0) s")
        case True
        then have "scanRuns ss s ?ea (length (runTests s0 0)) \<longleftrightarrow>
            gmatch (Star # compileRuns ss) (drop (length (runTests s0 0)) s)"
          using segs(2) lst ea by (intro scanRuns_gmatch) (auto dest: fits_length)
        with True show ?thesis by (simp add: comp gmatch_run)
      next
        case False
        then show ?thesis by (simp add: comp gmatch_run)
      qed
      finally show ?thesis .
    qed
  qed
qed

section \<open>Properties\<close>


text \<open>An escaped star never matches: a pattern in which a backslash stands before the first star
  matches no string, because the pattern is split at that star too.\<close>

theorem escaped_star_never_matches:
  "\<not> match (ascii ''a'' @ [c_bslash, c_star]) (ascii ''a*'')"
  by code_simp

end
