(* ===== verification/Errors.thy ===== *)
theory Errors
  imports Prelude
begin

text \<open>
  The error values of the program (\<open>errors.go\<close>, \<open>ctx.go\<close> and the sentinel errors
  of \<open>storage/\<close>), and the replies a command writes (\<open>Writer\<close> in \<open>ctx.go\<close>).
  An error is one constructor per Go error value; \<open>PebbleError\<close> stands for an error that
  the storage library returns, other than its not-found sentinel, and \<open>GoPanic\<close> for a run-time panic, which
  \<open>runCommand\<close> turns into an error reply.
\<close>

datatype goerr =
    ErrWrongType | ErrSyntax | ErrNotInteger | ErrNotFloat | ErrOverflow | ErrNoSuchKey
  | ErrDBIndex | ErrInvalidExpire | ErrUnknownCmd | ErrQuit | ErrBusyKey
  | WrongArgs string | UnknownCommand string | OOM string
  | ProtoError string | ErrTooBig | ConfigError string
  | ErrCorruptValue | ErrCorruptObject
  | ErrNotFound | ErrStop | ErrClosed | PebbleError nat | GoPanic

text \<open>What a handler writes to the connection (\<open>ctx.go\<close>, \<open>Writer\<close>): an array is written as
  its length followed by its elements; a negative length is the RESP null array.\<close>

datatype reply =
    RString string | RBulk bytes | RInt int | RNull | RArray int | RError goerr

definition writeBulk :: "bytes option \<Rightarrow> reply" where
  "writeBulk b = (case b of None \<Rightarrow> RNull | Some v \<Rightarrow> RBulk v)"

definition checkArgLen :: "string \<Rightarrow> nat \<Rightarrow> int \<Rightarrow> goerr option" where
  "checkArgLen name n arity =
     (if arity \<ge> 0 then (if int n \<noteq> arity then Some (WrongArgs name) else None)
      else if int n < - arity then Some (WrongArgs name) else None)"

definition checkBulkLen :: "int \<Rightarrow> bytes list \<Rightarrow> goerr option" where
  "checkBulkLen maxBulk args =
     (if maxBulk \<le> 0 then None
      else if list_ex (\<lambda>a. int (length a) > maxBulk) args then Some ErrTooBig else None)"

lemma checkArgLen_exact: "0 \<le> k \<Longrightarrow> checkArgLen nm n k = None \<longleftrightarrow> int n = k"
  by (simp add: checkArgLen_def)

lemma checkArgLen_min: "k < 0 \<Longrightarrow> checkArgLen nm n k = None \<longleftrightarrow> - k \<le> int n"
  by (auto simp: checkArgLen_def)

end
