(* ===== verification/Codec.thy ===== *)
theory Codec
  imports Errors
begin

text \<open>
  \<open>storage/codec.go\<close>: the layout of the single Pebble keyspace.  Data keys, expiry-index
  keys, value headers, and the order-preserving maps of 64-bit integers and of IEEE doubles
  onto unsigned words.  A double is its 64 bits (\<open>math.Float64bits\<close>); its numeric value is
  \<open>f64_scaled\<close>, the exact value in units of \<open>2 ^ (-1074)\<close>.
\<close>

section \<open>Definitions\<close>

definition segData :: byte where "segData = 0x02"
definition segExpire :: byte where "segExpire = 0x08"
definition ValueHeaderSize :: nat where "ValueHeaderSize = 9"
definition dbWidth :: nat where "dbWidth = 2"

definition AppendDataKey :: "bytes \<Rightarrow> dbid \<Rightarrow> bytes \<Rightarrow> bytes" where
  "AppendDataKey dst db key = ((dst @ [segData]) @ be16 db) @ key"

definition EncodeDataKey :: "dbid \<Rightarrow> bytes \<Rightarrow> bytes" where
  "EncodeDataKey db key = AppendDataKey [] db key"

definition DataPrefix :: "dbid \<Rightarrow> bytes" where
  "DataPrefix db = AppendDataKey [] db []"

definition KeyFromDataKey :: "bytes \<Rightarrow> bytes" where
  "KeyFromDataKey dk = (if length dk < 1 + dbWidth then [] else drop (1 + dbWidth) dk)"

definition sign_bit :: "64 word" where "sign_bit = push_bit 63 1"

definition orderPreserving :: "int \<Rightarrow> 64 word" where
  "orderPreserving v = word_of_int v XOR sign_bit"

definition unOrderPreserving :: "64 word \<Rightarrow> int" where
  "unOrderPreserving u = sint (u XOR sign_bit)"

definition AppendExpireKey :: "bytes \<Rightarrow> int \<Rightarrow> dbid \<Rightarrow> bytes \<Rightarrow> bytes" where
  "AppendExpireKey dst expireAtMs db key =
     (((dst @ [segExpire]) @ be64 (orderPreserving expireAtMs)) @ be16 db) @ key"

definition EncodeExpireKey :: "int \<Rightarrow> dbid \<Rightarrow> bytes \<Rightarrow> bytes" where
  "EncodeExpireKey expireAtMs db key = AppendExpireKey [] expireAtMs db key"

definition ExpirePrefix :: bytes where "ExpirePrefix = [segExpire]"
definition ExpireUpperBound :: bytes where "ExpireUpperBound = [segExpire + 1]"

definition DecodeExpireKey :: "bytes \<Rightarrow> (int \<times> dbid \<times> bytes) option" where
  "DecodeExpireKey ek =
     (if length ek < 1 + 8 + dbWidth \<or> ek ! 0 \<noteq> segExpire then None
      else Some (unOrderPreserving (u64_of (take 8 (drop 1 ek))),
                 u16_of (take dbWidth (drop (1 + 8) ek)),
                 drop (1 + 8 + dbWidth) ek))"

definition AppendValue :: "bytes \<Rightarrow> byte \<Rightarrow> int \<Rightarrow> bytes \<Rightarrow> bytes" where
  "AppendValue dst typ expireAtMs payload =
     ((dst @ [typ]) @ be64 (word_of_int expireAtMs)) @ payload"

definition EncodeValue :: "byte \<Rightarrow> int \<Rightarrow> bytes \<Rightarrow> bytes" where
  "EncodeValue typ expireAtMs payload = AppendValue [] typ expireAtMs payload"

definition DecodeValue :: "bytes \<Rightarrow> goerr + (byte \<times> int \<times> bytes)" where
  "DecodeValue v =
     (if length v < ValueHeaderSize then Inl ErrCorruptValue
      else Inr (v ! 0, sint (u64_of (take 8 (drop 1 v))), drop ValueHeaderSize v))"

definition EncodeScore :: "f64 \<Rightarrow> 64 word" where
  "EncodeScore u = (if u AND sign_bit \<noteq> 0 then NOT u else u XOR sign_bit)"

definition DecodeScore :: "64 word \<Rightarrow> f64" where
  "DecodeScore c = (if c AND sign_bit \<noteq> 0 then c XOR sign_bit else NOT c)"

lemmas codec_defs = AppendDataKey_def EncodeDataKey_def DataPrefix_def AppendExpireKey_def
  EncodeExpireKey_def AppendValue_def EncodeValue_def

section \<open>Keys and values\<close>

lemma EncodeDataKey_eq: "EncodeDataKey db key = DataPrefix db @ key"
  by (simp add: codec_defs)

lemma length_DataPrefix [simp]: "length (DataPrefix db) = 3"
  by (simp add: codec_defs)

lemma EncodeDataKey_inj [simp]:
  "EncodeDataKey db key = EncodeDataKey db' key' \<longleftrightarrow> db = db' \<and> key = key'"
  by (auto simp: codec_defs)

lemma hd_EncodeDataKey [simp]: "hd (EncodeDataKey db key) = segData"
  by (simp add: codec_defs)

lemma hd_EncodeExpireKey [simp]: "hd (EncodeExpireKey e db key) = segExpire"
  by (simp add: codec_defs)

lemma KeyFromDataKey_Encode [simp]: "KeyFromDataKey (EncodeDataKey db key) = key"
  by (simp add: KeyFromDataKey_def EncodeDataKey_eq dbWidth_def)

lemma EncodeDataKey_neq_ExpireKey [simp]:
  "EncodeDataKey db key \<noteq> EncodeExpireKey e db' key'"
  "EncodeExpireKey e db' key' \<noteq> EncodeDataKey db key"
  by (auto simp: codec_defs segData_def segExpire_def)

lemma DecodeValue_Encode [simp]:
  "DecodeValue (EncodeValue typ e payload) = Inr (typ, wrap64 e, payload)"
  by (simp add: DecodeValue_def codec_defs ValueHeaderSize_def wrap64_def)

lemma EncodeValue_Decode:
  assumes "DecodeValue v = Inr (typ, e, payload)"
  shows "EncodeValue typ e payload = v"
proof -
  have v: "9 \<le> length v" "typ = v ! 0" "e = sint (u64_of (take 8 (drop 1 v)))" "payload = drop 9 v"
    using assms by (auto simp: DecodeValue_def ValueHeaderSize_def split: if_splits)
  then have "EncodeValue typ e payload = [v ! 0] @ take 8 (drop 1 v) @ drop 9 v"
    by (simp add: codec_defs)
  also have "\<dots> = v"
    using v(1) by (cases v) auto
  finally show ?thesis .
qed

section \<open>Order-preserving integers\<close>

lemma sign_bit_eq: "sign_bit = 2 ^ 63"
  by (simp add: sign_bit_def push_bit_eq_mult)

lemma xor_sign_bit_twice [simp]: "(u XOR sign_bit) XOR sign_bit = u"
  by (simp add: xor.assoc)

lemma xor_sign_bit: "u XOR sign_bit = (if bit u 63 then u - 2 ^ 63 else u + 2 ^ 63)"
proof -
  have "u XOR sign_bit = flip_bit 63 u"
    by (simp add: flip_bit_eq_xor sign_bit_def)
  then show ?thesis
    by (simp add: flip_bit_eq_if unset_bit_eq set_bit_eq)
qed

lemma bit63_iff: "bit (u :: 64 word) 63 \<longleftrightarrow> 2 ^ 63 \<le> unat u"
proof -
  have "bit u 63 \<longleftrightarrow> odd (unat u div 2 ^ 63)"
    using bit_unsigned_iff [where 'a = nat, of u 63] by (simp add: bit_iff_odd [of "unat u"])
  moreover have "unat u div 2 ^ 63 < 2"
    using unat_bound [of u] by (intro less_mult_imp_div_less) simp
  moreover have "unat u div 2 ^ 63 = 0 \<longleftrightarrow> unat u < 2 ^ 63"
    by (simp add: div_eq_0_iff)
  ultimately show ?thesis
    by (auto simp: less_2_cases_iff not_less [symmetric])
qed

lemma and_sign_bit: "u AND sign_bit \<noteq> 0 \<longleftrightarrow> bit u 63"
  using and_exp_eq_0_iff_not_bit [of u 63] by (simp add: sign_bit_eq)

lemma unat_xor_sign_bit:
  "unat (u XOR sign_bit) = (if bit u 63 then unat u - 2 ^ 63 else unat u + 2 ^ 63)"
proof (cases "bit u 63")
  case True
  then have "2 ^ 63 \<le> u"
    by (simp add: bit63_iff word_le_nat_alt)
  with True show ?thesis by (simp add: xor_sign_bit unat_sub)
next
  case False
  then have "unat u + unat (2 ^ 63 :: 64 word) < 2 ^ 64"
    by (simp add: bit63_iff)
  with False show ?thesis by (simp add: xor_sign_bit unat_word_ariths)
qed

lemma unat_not: "unat (NOT u :: 64 word) = 2 ^ 64 - 1 - unat u"
proof -
  have "NOT u = - 1 - u" by (simp add: not_eq_complement)
  moreover have "unat (- 1 :: 64 word) = 2 ^ 64 - 1"
    by (simp add: unsigned_minus_1_eq_mask mask_eq_exp_minus_1)
  ultimately show ?thesis by (simp add: unat_sub)
qed

lemma unat_orderPreserving:
  assumes "is_int64 v"
  shows "int (unat (orderPreserving v)) = v + 2 ^ 63"
proof -
  let ?w = "word_of_int v :: 64 word"
  have r: "- 9223372036854775808 \<le> v" "v < 9223372036854775808"
    using assms by (simp_all add: is_int64_def)
  have u: "int (unat ?w) = v mod 18446744073709551616"
    by (simp add: uint_word_of_int)
  have o: "int (unat (orderPreserving v)) =
      (if 9223372036854775808 \<le> int (unat ?w) then int (unat ?w) - 9223372036854775808
       else int (unat ?w) + 9223372036854775808)"
    unfolding orderPreserving_def unat_xor_sign_bit bit63_iff by (simp del: of_nat_unat)
  show ?thesis
  proof (cases "v < 0")
    case True
    then have "v mod 18446744073709551616 = v + 18446744073709551616"
      using r mod_pos_pos_trivial [of "v + 18446744073709551616" 18446744073709551616] by simp
    then show ?thesis
      using True r u o by (simp del: of_nat_unat)
  next
    case False
    then show ?thesis
      using r u o by (simp del: of_nat_unat)
  qed
qed

lemma orderPreserving_less:
  "is_int64 a \<Longrightarrow> is_int64 b \<Longrightarrow> orderPreserving a < orderPreserving b \<longleftrightarrow> a < b"
  using unat_orderPreserving [of a] unat_orderPreserving [of b]
  by (simp add: word_less_def)

lemma unOrderPreserving_orderPreserving [simp]: "unOrderPreserving (orderPreserving v) = wrap64 v"
  by (simp add: unOrderPreserving_def orderPreserving_def wrap64_def)

lemma orderPreserving_unOrderPreserving [simp]: "orderPreserving (unOrderPreserving u) = u"
  by (simp add: unOrderPreserving_def orderPreserving_def)

section \<open>Expiry-index keys\<close>

lemma EncodeExpireKey_eq:
  "EncodeExpireKey e db key = segExpire # be64 (orderPreserving e) @ be16 db @ key"
  by (simp add: codec_defs)

lemma DecodeExpireKey_Encode [simp]:
  "DecodeExpireKey (EncodeExpireKey e db key) = Some (wrap64 e, db, key)"
  by (simp add: DecodeExpireKey_def EncodeExpireKey_eq dbWidth_def)

lemma DecodeExpireKey_SomeD:
  assumes "DecodeExpireKey ek = Some (e, db, key)"
  shows "ek = EncodeExpireKey e db key" and "is_int64 e"
proof -
  have ek: "11 \<le> length ek" "ek ! 0 = segExpire" "e = unOrderPreserving (u64_of (take 8 (drop 1 ek)))"
    "db = u16_of (take 2 (drop 9 ek))" "key = drop 11 ek"
    using assms by (auto simp: DecodeExpireKey_def dbWidth_def split: if_splits)
  then have "EncodeExpireKey e db key = [ek ! 0] @ take 8 (drop 1 ek) @ take 2 (drop 9 ek) @ drop 11 ek"
    by (simp add: EncodeExpireKey_eq)
  also have "\<dots> = [ek ! 0] @ drop 1 ek"
    using append_take_drop_id [of 8 "drop 1 ek"] append_take_drop_id [of 2 "drop 9 ek"]
    by (simp del: append_take_drop_id)
  also have "\<dots> = ek"
    using ek(1) by (cases ek) auto
  finally show "ek = EncodeExpireKey e db key" by simp
  show "is_int64 e"
    using ek(3) by (simp add: unOrderPreserving_def)
qed

lemma EncodeExpireKey_inj:
  "is_int64 e \<Longrightarrow> is_int64 e' \<Longrightarrow>
     EncodeExpireKey e db key = EncodeExpireKey e' db' key' \<longleftrightarrow> e = e' \<and> db = db' \<and> key = key'"
  by (metis DecodeExpireKey_Encode option.inject prod.inject wrap64_id)

lemma EncodeExpireKey_less:
  "is_int64 e \<Longrightarrow> is_int64 e' \<Longrightarrow>
     EncodeExpireKey e db key < EncodeExpireKey e' db' key' \<longleftrightarrow>
     e < e' \<or> e = e' \<and> (db < db' \<or> db = db' \<and> key < key')"
  by (auto simp: EncodeExpireKey_eq lex_append_eqlen orderPreserving_less)
     (metis unOrderPreserving_orderPreserving wrap64_id)+

section \<open>Scores\<close>

lemma DecodeScore_Encode [simp]: "DecodeScore (EncodeScore f) = f"
proof (cases "bit f 63")
  case True
  then have "\<not> bit (NOT f) 63" by (simp add: bit_not_iff)
  with True show ?thesis by (simp add: EncodeScore_def DecodeScore_def and_sign_bit)
next
  case False
  then have "bit (f XOR sign_bit) 63"
    by (simp add: bit_xor_iff sign_bit_def bit_simps)
  with False show ?thesis by (simp add: EncodeScore_def DecodeScore_def and_sign_bit)
qed

lemma EncodeScore_Decode [simp]: "EncodeScore (DecodeScore c) = c"
proof (cases "bit c 63")
  case True
  then have "\<not> bit (c XOR sign_bit) 63"
    by (simp add: bit_xor_iff sign_bit_def bit_simps)
  with True show ?thesis by (simp add: EncodeScore_def DecodeScore_def and_sign_bit)
next
  case False
  then have "bit (NOT c) 63" by (simp add: bit_not_iff)
  with False show ?thesis by (simp add: EncodeScore_def DecodeScore_def and_sign_bit)
qed

lemma EncodeScore_inj [simp]: "EncodeScore a = EncodeScore b \<longleftrightarrow> a = b"
  by (metis DecodeScore_Encode)

text \<open>The numeric value of a double: sign, 11 exponent bits, 52 fraction bits; an infinity
  counts as the next power of two above the largest finite double.\<close>

definition f64_mag :: "nat \<Rightarrow> nat" where
  "f64_mag n = (let e = n div 2 ^ 52; m = n mod 2 ^ 52
                in if e = 0 then m else (2 ^ 52 + m) * 2 ^ (e - 1))"

definition f64_scaled :: "f64 \<Rightarrow> int" where
  "f64_scaled f = (if unat f < 2 ^ 63 then int (f64_mag (unat f))
                   else - int (f64_mag (unat f - 2 ^ 63)))"

definition f64_nan :: "f64 \<Rightarrow> bool" where
  "f64_nan f \<longleftrightarrow> unat f mod 2 ^ 63 > 0x7FF0000000000000"

definition f64_less :: "f64 \<Rightarrow> f64 \<Rightarrow> bool" where
  "f64_less a b \<longleftrightarrow> \<not> f64_nan a \<and> \<not> f64_nan b \<and> f64_scaled a < f64_scaled b"

definition f64_eq :: "f64 \<Rightarrow> f64 \<Rightarrow> bool" where
  "f64_eq a b \<longleftrightarrow> \<not> f64_nan a \<and> \<not> f64_nan b \<and> f64_scaled a = f64_scaled b"

lemma f64_mag_Suc: "f64_mag n < f64_mag (Suc n)"
proof (cases "n mod 2 ^ 52 = 2 ^ 52 - 1")
  case True
  let ?e = "n div 2 ^ 52"
  have "n = ?e * 2 ^ 52 + (2 ^ 52 - 1)"
    using True div_mult_mod_eq [of n "2 ^ 52"] by metis
  then have s: "Suc n = (?e + 1) * 2 ^ 52" by simp
  have d: "Suc n div 2 ^ 52 = ?e + 1" "Suc n mod 2 ^ 52 = 0"
    unfolding s by simp_all
  show ?thesis
  proof (cases "?e = 0")
    case True
    then show ?thesis using d \<open>n mod 2 ^ 52 = 2 ^ 52 - 1\<close> by (simp add: f64_mag_def Let_def)
  next
    case False
    then have "f64_mag n = (2 ^ 52 + (2 ^ 52 - 1)) * 2 ^ (?e - 1)"
      using True by (simp add: f64_mag_def Let_def)
    also have "\<dots> < (2 ^ 52 * 2) * 2 ^ (?e - 1)"
      by (intro mult_strict_right_mono) simp_all
    also have "\<dots> = 2 ^ 52 * 2 ^ ?e"
      using False by (simp add: power_eq_if)
    also have "\<dots> = f64_mag (Suc n)"
      using d by (simp add: f64_mag_def Let_def)
    finally show ?thesis .
  qed
next
  case False
  then have "Suc n mod 2 ^ 52 = Suc (n mod 2 ^ 52)"
    by (simp add: mod_Suc)
  moreover from this have "Suc n div 2 ^ 52 = n div 2 ^ 52"
    by (metis False Suc_eq_plus1 add_diff_cancel_right' div_Suc mod_Suc nat.simps(3))
  ultimately show ?thesis
    by (simp add: f64_mag_def Let_def)
qed

lemma f64_mag_less: "f64_mag m < f64_mag n \<longleftrightarrow> m < n"
  by (metis f64_mag_Suc lift_Suc_mono_less linorder_neqE_nat order_less_asym)

lemma f64_mag_eq: "f64_mag m = f64_mag n \<longleftrightarrow> m = n"
  by (metis f64_mag_less linorder_neqE_nat order_less_irrefl)

lemma f64_mag_le: "f64_mag m \<le> f64_mag n \<longleftrightarrow> m \<le> n"
  by (meson f64_mag_less not_less)

lemma f64_mag_0 [simp]: "f64_mag 0 = 0"
  by (simp add: f64_mag_def)

lemma unat_EncodeScore:
  "unat (EncodeScore f) = (if unat f < 2 ^ 63 then unat f + 2 ^ 63 else 2 ^ 64 - 1 - unat f)"
  by (auto simp: EncodeScore_def and_sign_bit unat_xor_sign_bit unat_not bit63_iff)

lemma EncodeScore_less_iff:
  "EncodeScore a < EncodeScore b \<longleftrightarrow>
     f64_scaled a < f64_scaled b \<or> a = 2 ^ 63 \<and> b = 0"
proof -
  have b: "unat a < 2 ^ 64" "unat b < 2 ^ 64"
    using unat_bound [of a] unat_bound [of b] by simp_all
  have z: "a = 2 ^ 63 \<longleftrightarrow> unat a = 2 ^ 63" "b = 0 \<longleftrightarrow> unat b = 0"
    using word_unat_eq_iff [of a "2 ^ 63"] word_unat_eq_iff [of b 0] by simp_all
  have pos: "f64_mag n > 0 \<longleftrightarrow> n > 0" for n
    using f64_mag_less [of 0 n] by simp
  consider (pp) "unat a < 2 ^ 63" "unat b < 2 ^ 63" | (pn) "unat a < 2 ^ 63" "2 ^ 63 \<le> unat b"
    | (np) "2 ^ 63 \<le> unat a" "unat b < 2 ^ 63" | (nn) "2 ^ 63 \<le> unat a" "2 ^ 63 \<le> unat b"
    by linarith
  then show ?thesis
  proof cases
    case pp
    then show ?thesis
      using z by (simp add: word_less_nat_alt unat_EncodeScore f64_scaled_def f64_mag_less)
  next
    case pn
    then show ?thesis
      using z b by (simp add: word_less_nat_alt unat_EncodeScore f64_scaled_def)
  next
    case np
    then show ?thesis
      using z b pos [of "unat a - 2 ^ 63"] pos [of "unat b"]
      by (simp add: word_less_nat_alt unat_EncodeScore f64_scaled_def) linarith
  next
    case nn
    then show ?thesis
      using z b by (auto simp: word_less_nat_alt unat_EncodeScore f64_scaled_def f64_mag_less)
  qed
qed

section \<open>Properties\<close>

text \<open>C36: the expiry index sorts by time, then database, then key, for all signed 64-bit times,
  so the first index key that is not due ends the scan of the due keys.\<close>

theorem expire_key_order:
  assumes "is_int64 e" "is_int64 e'"
  shows "EncodeExpireKey e db key < EncodeExpireKey e' db' key' \<longleftrightarrow>
           e < e' \<or> e = e' \<and> (db < db' \<or> db = db' \<and> key < key')"
  using assms by (rule EncodeExpireKey_less)

theorem expire_key_order_witness:
  "EncodeExpireKey (-5) 1 [7] < EncodeExpireKey 3 0 [2]"
proof -
  have "is_int64 (-5)" "is_int64 3" by (simp_all add: is_int64_def)
  from expire_key_order [OF this, of 1 "[7]" 0 "[2]"] show ?thesis by simp
qed

text \<open>Decoding an expiry-index key succeeds exactly on the keys the encoder produces from a
  64-bit time, and returns the time, database and key that were encoded.\<close>

theorem expire_key_roundtrip:
  "DecodeExpireKey ek = Some (e, db, key) \<longleftrightarrow> ek = EncodeExpireKey e db key \<and> is_int64 e"
  using DecodeExpireKey_SomeD by (metis DecodeExpireKey_Encode wrap64_id)

text \<open>C38: a stored value decodes to exactly the type, expiry and payload it was encoded from,
  every byte string of at least nine bytes is such a value, and a shorter one is reported as
  corrupt.\<close>

theorem value_roundtrip:
  "(DecodeValue v = Inr (typ, e, payload) \<longleftrightarrow> v = EncodeValue typ e payload \<and> is_int64 e) \<and>
   (DecodeValue v = Inl err \<longleftrightarrow> length v < ValueHeaderSize \<and> err = ErrCorruptValue)"
proof (intro conjI)
  show "DecodeValue v = Inr (typ, e, payload) \<longleftrightarrow> v = EncodeValue typ e payload \<and> is_int64 e"
  proof
    assume d: "DecodeValue v = Inr (typ, e, payload)"
    then have "is_int64 e" by (auto simp: DecodeValue_def split: if_splits)
    with EncodeValue_Decode [OF d] show "v = EncodeValue typ e payload \<and> is_int64 e" by simp
  qed simp
  show "DecodeValue v = Inl err \<longleftrightarrow> length v < ValueHeaderSize \<and> err = ErrCorruptValue"
    by (auto simp: DecodeValue_def)
qed

text \<open>C37: the score encoding is a bijection on 64-bit patterns whose unsigned order is the order
  of the numbers, negative numbers and infinities included; it only separates the two zeros.\<close>

theorem score_encoding_order:
  "(EncodeScore a < EncodeScore b \<longleftrightarrow> f64_scaled a < f64_scaled b \<or> a = 2 ^ 63 \<and> b = 0) \<and>
   DecodeScore (EncodeScore a) = a \<and> EncodeScore (DecodeScore c) = c"
  using EncodeScore_less_iff by simp

end
