(* ===== verification/Objects.thy ===== *)
theory Objects
  imports Codec "HOL-Library.Sublist"
begin

text \<open>
  \<open>storage/object.go\<close>: the inline encodings of small hashes, lists, sets and sorted sets,
  the header of a sparse collection, and the per-element keys of sparse collections.  A
  decoding loop over \<open>data[i:]\<close> is a recursion on the bytes that remain.  Go maps are
  association lists in insertion order, Go sets are duplicate-free lists.
\<close>

section \<open>Definitions\<close>

definition EncInline :: byte where "EncInline = 0"
definition EncSparse :: byte where "EncSparse = 1"
definition InlineMaxEntries :: nat where "InlineMaxEntries = 128"
definition InlineMaxValueSize :: nat where "InlineMaxValueSize = 64"

record Member =
  m_member :: bytes
  m_score :: f64

record Object =
  o_Enc :: byte
  o_Count :: int
  o_Data :: bytes
  o_Head :: int
  o_Tail :: int

definition EncodeSparseHeader :: "byte \<Rightarrow> nat \<Rightarrow> int \<Rightarrow> int \<Rightarrow> bytes" where
  "EncodeSparseHeader typ count head tail =
     [EncSparse] @ be32 (of_nat count) @ be64 (word_of_int head) @ be64 (word_of_int tail)"

definition DecodeObjectHeader :: "bytes \<Rightarrow> goerr + Object" where
  "DecodeObjectHeader payload =
     (if length payload < 1 then Inl ErrCorruptObject
      else if payload ! 0 = EncInline then
        (if length payload < 5 then Inl ErrCorruptObject
         else Inr \<lparr>o_Enc = EncInline, o_Count = uint (u32_of (take 4 (drop 1 payload))),
                    o_Data = drop 5 payload, o_Head = 0, o_Tail = 0\<rparr>)
      else if payload ! 0 \<noteq> EncSparse then Inl ErrCorruptObject
      else if length payload < 21 then Inl ErrCorruptObject
      else Inr \<lparr>o_Enc = EncSparse, o_Count = uint (u32_of (take 4 (drop 1 payload))), o_Data = [],
                 o_Head = sint (u64_of (take 8 (drop 5 payload))),
                 o_Tail = sint (u64_of (take 8 (drop 13 payload)))\<rparr>)"

definition enc_field :: "bytes \<times> bytes \<Rightarrow> bytes" where
  "enc_field fv = be16 (of_nat (length (fst fv))) @ fst fv @
                  be32 (of_nat (length (snd fv))) @ snd fv"

definition EncodeHashInline :: "bytes list \<Rightarrow> (bytes \<Rightarrow> bytes) \<Rightarrow> bytes" where
  "EncodeHashInline fs valueOf =
     ([EncInline] @ be32 (of_nat (length fs))) @
     concat (map (\<lambda>f. enc_field (f, valueOf f)) fs)"

function hashLoop :: "bytes \<Rightarrow> (bytes \<times> bytes) list \<Rightarrow> goerr + (bytes \<times> bytes) list" where
  "hashLoop data out =
     (if data = [] then Inr out
      else if length data < 2 then Inl ErrCorruptObject
      else let flen = unat (u16_of (take 2 data)); d1 = drop 2 data in
           if length d1 < flen then Inl ErrCorruptObject
           else let field = take flen d1; d2 = drop flen d1 in
                if length d2 < 4 then Inl ErrCorruptObject
                else let vlen = unat (u32_of (take 4 d2)); d3 = drop 4 d2 in
                     if length d3 < vlen then Inl ErrCorruptObject
                     else hashLoop (drop vlen d3) (AList.update field (take vlen d3) out))"
  by pat_completeness auto
termination
  by (relation "measure (\<lambda>(data, out). length data)") auto

definition DecodeHashInline :: "bytes \<Rightarrow> goerr + (bytes \<times> bytes) list" where
  "DecodeHashInline data = hashLoop data []"

definition enc_elem :: "bytes \<Rightarrow> bytes" where
  "enc_elem e = be32 (of_nat (length e)) @ e"

definition EncodeListInline :: "bytes list \<Rightarrow> bytes" where
  "EncodeListInline elems =
     ([EncInline] @ be32 (of_nat (length elems))) @ concat (map enc_elem elems)"

function listLoop :: "bytes \<Rightarrow> bytes list \<Rightarrow> goerr + bytes list" where
  "listLoop data out =
     (if data = [] then Inr out
      else if length data < 4 then Inl ErrCorruptObject
      else let n = unat (u32_of (take 4 data)); d1 = drop 4 data in
           if length d1 < n then Inl ErrCorruptObject
           else listLoop (drop n d1) (out @ [take n d1]))"
  by pat_completeness auto
termination
  by (relation "measure (\<lambda>(data, out). length data)") auto

definition DecodeListInline :: "bytes \<Rightarrow> goerr + bytes list" where
  "DecodeListInline data = listLoop data []"

definition enc_member :: "bytes \<Rightarrow> bytes" where
  "enc_member m = be16 (of_nat (length m)) @ m"

definition EncodeSetInline :: "bytes list \<Rightarrow> bytes" where
  "EncodeSetInline members =
     ([EncInline] @ be32 (of_nat (length members))) @ concat (map enc_member members)"

definition gset_add :: "bytes \<Rightarrow> bytes list \<Rightarrow> bytes list" where
  "gset_add m s = (if m \<in> set s then s else s @ [m])"

function setLoop :: "bytes \<Rightarrow> bytes list \<Rightarrow> goerr + bytes list" where
  "setLoop data out =
     (if data = [] then Inr out
      else if length data < 2 then Inl ErrCorruptObject
      else let n = unat (u16_of (take 2 data)); d1 = drop 2 data in
           if length d1 < n then Inl ErrCorruptObject
           else setLoop (drop n d1) (gset_add (take n d1) out))"
  by pat_completeness auto
termination
  by (relation "measure (\<lambda>(data, out). length data)") auto

definition DecodeSetInline :: "bytes \<Rightarrow> goerr + bytes list" where
  "DecodeSetInline data = setLoop data []"

definition enc_scored :: "Member \<Rightarrow> bytes" where
  "enc_scored m = be16 (of_nat (length (m_member m))) @ m_member m @ be64 (EncodeScore (m_score m))"

definition EncodeZSetInline :: "Member list \<Rightarrow> bytes" where
  "EncodeZSetInline members =
     ([EncInline] @ be32 (of_nat (length members))) @ concat (map enc_scored members)"

function zsetLoop :: "bytes \<Rightarrow> (bytes \<times> f64) list \<Rightarrow> goerr + (bytes \<times> f64) list" where
  "zsetLoop data out =
     (if data = [] then Inr out
      else if length data < 2 then Inl ErrCorruptObject
      else let n = unat (u16_of (take 2 data)); d1 = drop 2 data in
           if length d1 < n + 8 then Inl ErrCorruptObject
           else let member = take n d1; d2 = drop n d1 in
                zsetLoop (drop 8 d2) (AList.update member (DecodeScore (u64_of (take 8 d2))) out))"
  by pat_completeness auto
termination
  by (relation "measure (\<lambda>(data, out). length data)") auto

definition DecodeZSetInline :: "bytes \<Rightarrow> goerr + (bytes \<times> f64) list" where
  "DecodeZSetInline data = zsetLoop data []"

definition SegHash :: byte where "SegHash = 0x03"
definition SegList :: byte where "SegList = 0x04"
definition SegSet :: byte where "SegSet = 0x05"
definition SegZSetM :: byte where "SegZSetM = 0x06"
definition SegZSetS :: byte where "SegZSetS = 0x07"

lemmas seg_defs = segData_def segExpire_def SegHash_def SegList_def SegSet_def SegZSetM_def
  SegZSetS_def

definition SegmentFor :: "byte \<Rightarrow> byte option" where
  "SegmentFor typ = (if typ = 1 then Some SegHash else if typ = 2 then Some SegList
     else if typ = 3 then Some SegSet else if typ = 4 then Some SegZSetM else None)"

definition AppendElemKey :: "bytes \<Rightarrow> byte \<Rightarrow> dbid \<Rightarrow> bytes \<Rightarrow> bytes \<Rightarrow> bytes" where
  "AppendElemKey dst seg db key elem = ((((dst @ [seg]) @ be16 db) @ key) @ [0x00]) @ elem"

definition EncodeElemKey :: "byte \<Rightarrow> dbid \<Rightarrow> bytes \<Rightarrow> bytes \<Rightarrow> bytes" where
  "EncodeElemKey seg db key elem = AppendElemKey [] seg db key elem"

definition EncodeListSeqKey :: "dbid \<Rightarrow> bytes \<Rightarrow> int \<Rightarrow> bytes" where
  "EncodeListSeqKey db key seq =
     ((([SegList] @ be16 db) @ key) @ [0x00]) @ be64 (word_of_int seq)"

definition ElemPrefix :: "byte \<Rightarrow> dbid \<Rightarrow> bytes \<Rightarrow> bytes" where
  "ElemPrefix seg db key = (([seg] @ be16 db) @ key) @ [0x00]"

definition ElemFromKey :: "bytes \<Rightarrow> bytes \<Rightarrow> bytes" where
  "ElemFromKey pfx k = (if length k < length pfx then [] else drop (length pfx) k)"

definition EncodeScoreKey :: "dbid \<Rightarrow> bytes \<Rightarrow> f64 \<Rightarrow> bytes \<Rightarrow> bytes" where
  "EncodeScoreKey db key score member =
     (((([SegZSetS] @ be16 db) @ key) @ [0x00]) @ be64 (EncodeScore score)) @ member"

definition ScorePrefix :: "dbid \<Rightarrow> bytes \<Rightarrow> bytes" where
  "ScorePrefix db key = (([SegZSetS] @ be16 db) @ key) @ [0x00]"

definition ScoreOf :: "bytes \<Rightarrow> bytes \<Rightarrow> f64" where
  "ScoreOf pfx k = (if length k < length pfx + 8 then 0
     else DecodeScore (u64_of (take 8 (drop (length pfx) k))))"

definition MemberOf :: "bytes \<Rightarrow> bytes \<Rightarrow> bytes" where
  "MemberOf pfx k = (if length k < length pfx + 8 then [] else drop (length pfx + 8) k)"

definition InfScore :: "f64 \<Rightarrow> bool" where
  "InfScore f \<longleftrightarrow> unat f mod 2 ^ 63 = 0x7FF0000000000000"

declare hashLoop.simps [simp del] listLoop.simps [simp del] setLoop.simps [simp del]
  zsetLoop.simps [simp del]

section \<open>Decoding a concatenation of framed items\<close>

text \<open>
  The contract the four decoding loops share with their encoders: at the end of the data the
  accumulator is returned, and a well-sized encoded item in front of the data is consumed and
  handed to \<open>step\<close>.  Decoding a concatenation then folds \<open>step\<close> over the items.
\<close>

locale framed_items =
  fixes enc :: "'a \<Rightarrow> bytes"
    and sized :: "'a \<Rightarrow> bool"
    and step :: "'acc \<Rightarrow> 'a \<Rightarrow> 'acc"
    and loop :: "bytes \<Rightarrow> 'acc \<Rightarrow> goerr + 'acc"
  assumes loop_end: "loop [] acc = Inr acc"
    and loop_item: "sized x \<Longrightarrow> loop (enc x @ rest) acc = loop rest (step acc x)"
begin

lemma decode_concat:
  "list_all sized xs \<Longrightarrow> loop (concat (map enc xs)) acc = Inr (foldl step acc xs)"
  by (induction xs arbitrary: acc) (simp_all add: loop_end loop_item)

end

definition sized_field :: "bytes \<times> bytes \<Rightarrow> bool" where
  "sized_field fv \<longleftrightarrow> length (fst fv) < 2 ^ 16 \<and> length (snd fv) < 2 ^ 32"

definition sized_elem :: "bytes \<Rightarrow> bool" where
  "sized_elem e \<longleftrightarrow> length e < 2 ^ 32"

definition sized_member :: "bytes \<Rightarrow> bool" where
  "sized_member m \<longleftrightarrow> length m < 2 ^ 16"

definition sized_scored :: "Member \<Rightarrow> bool" where
  "sized_scored m \<longleftrightarrow> length (m_member m) < 2 ^ 16"

lemma unat_len16: "n < 2 ^ 16 \<Longrightarrow> unat (of_nat n :: 16 word) = n"
  by (simp add: unat_of_nat)

lemma unat_len32: "n < 2 ^ 32 \<Longrightarrow> unat (of_nat n :: 32 word) = n"
  by (simp add: unat_of_nat)

interpretation hash_items: framed_items enc_field sized_field
  "\<lambda>acc fv. AList.update (fst fv) (snd fv) acc" hashLoop
proof
  show "hashLoop [] acc = Inr acc" for acc by (simp add: hashLoop.simps)
  show "hashLoop (enc_field x @ rest) acc = hashLoop rest (AList.update (fst x) (snd x) acc)"
    if "sized_field x" for x rest acc
    using that
    by (subst hashLoop.simps) (simp add: enc_field_def sized_field_def unat_len16 unat_len32)
qed

interpretation list_items: framed_items enc_elem sized_elem "\<lambda>acc e. acc @ [e]" listLoop
proof
  show "listLoop [] acc = Inr acc" for acc by (simp add: listLoop.simps)
  show "listLoop (enc_elem x @ rest) acc = listLoop rest (acc @ [x])"
    if "sized_elem x" for x rest acc
    using that by (subst listLoop.simps) (simp add: enc_elem_def sized_elem_def unat_len32)
qed

interpretation set_items: framed_items enc_member sized_member "\<lambda>acc m. gset_add m acc" setLoop
proof
  show "setLoop [] acc = Inr acc" for acc by (simp add: setLoop.simps)
  show "setLoop (enc_member x @ rest) acc = setLoop rest (gset_add x acc)"
    if "sized_member x" for x rest acc
    using that by (subst setLoop.simps) (simp add: enc_member_def sized_member_def unat_len16)
qed

interpretation zset_items: framed_items enc_scored sized_scored
  "\<lambda>acc m. AList.update (m_member m) (m_score m) acc" zsetLoop
proof
  show "zsetLoop [] acc = Inr acc" for acc by (simp add: zsetLoop.simps)
  show "zsetLoop (enc_scored x @ rest) acc = zsetLoop rest (AList.update (m_member x) (m_score x) acc)"
    if "sized_scored x" for x rest acc
    using that by (subst zsetLoop.simps) (simp add: enc_scored_def sized_scored_def unat_len16)
qed

section \<open>Round trips\<close>

lemma foldl_update_append:
  "distinct (map fst (acc @ map f xs)) \<Longrightarrow>
     foldl (\<lambda>a x. AList.update (fst (f x)) (snd (f x)) a) acc xs = acc @ map f xs"
proof (induction xs arbitrary: acc)
  case Nil
  then show ?case by simp
next
  case (Cons x xs)
  then have "fst (f x) \<notin> set (map fst acc)" by auto
  then have "AList.update (fst (f x)) (snd (f x)) acc = acc @ [f x]"
    by (induction acc) (auto split: prod.splits)
  with Cons show ?case by simp
qed

lemma foldl_gset_add:
  "distinct (acc @ ms) \<Longrightarrow> foldl (\<lambda>a m. gset_add m a) acc ms = acc @ ms"
  by (induction ms arbitrary: acc) (auto simp: gset_add_def)

lemma foldl_snoc: "foldl (\<lambda>acc e. acc @ [e]) acc xs = acc @ xs"
  by (induction xs arbitrary: acc) auto

lemma DecodeObjectHeader_inline:
  "DecodeObjectHeader (([EncInline] @ be32 n) @ body) =
     Inr \<lparr>o_Enc = EncInline, o_Count = uint n, o_Data = body, o_Head = 0, o_Tail = 0\<rparr>"
  by (simp add: DecodeObjectHeader_def)

lemma DecodeObjectHeader_sparse:
  "DecodeObjectHeader (EncodeSparseHeader typ n h t) =
     Inr \<lparr>o_Enc = EncSparse, o_Count = uint (of_nat n :: 32 word), o_Data = [],
           o_Head = wrap64 h, o_Tail = wrap64 t\<rparr>"
  by (simp add: DecodeObjectHeader_def EncodeSparseHeader_def EncSparse_def EncInline_def wrap64_def)

lemma o_Data_inline:
  assumes "DecodeObjectHeader (([EncInline] @ be32 n) @ body) = Inr ob"
  shows "o_Data ob = body" "o_Enc ob = EncInline"
  using assms by (auto simp: DecodeObjectHeader_inline simp del: append_assoc append.simps)

lemma DecodeHashInline_concat:
  "distinct (map fst kvs) \<Longrightarrow> list_all sized_field kvs \<Longrightarrow>
     DecodeHashInline (concat (map enc_field kvs)) = Inr kvs"
  using foldl_update_append [of "[]" "\<lambda>x. x" kvs]
  by (simp add: DecodeHashInline_def hash_items.decode_concat)

lemma DecodeListInline_concat:
  "list_all sized_elem xs \<Longrightarrow> DecodeListInline (concat (map enc_elem xs)) = Inr xs"
  by (simp add: DecodeListInline_def list_items.decode_concat foldl_snoc)

lemma DecodeSetInline_concat:
  "distinct ms \<Longrightarrow> list_all sized_member ms \<Longrightarrow>
     DecodeSetInline (concat (map enc_member ms)) = Inr ms"
  by (simp add: DecodeSetInline_def set_items.decode_concat foldl_gset_add)

lemma DecodeZSetInline_concat:
  "distinct (map m_member ms) \<Longrightarrow> list_all sized_scored ms \<Longrightarrow>
     DecodeZSetInline (concat (map enc_scored ms)) = Inr (map (\<lambda>m. (m_member m, m_score m)) ms)"
  using foldl_update_append [of "[]" "\<lambda>m. (m_member m, m_score m)" ms]
  by (simp add: DecodeZSetInline_def zset_items.decode_concat comp_def)

text \<open>A decoded set is duplicate-free, a decoded hash or sorted set has distinct keys.\<close>

lemma setLoop_distinct: "setLoop data out = Inr s \<Longrightarrow> distinct out \<Longrightarrow> distinct s"
proof (induction data out arbitrary: s rule: setLoop.induct)
  case (1 data out)
  then show ?case
    by (subst (asm) (2) setLoop.simps) (auto simp: Let_def gset_add_def split: if_splits)
qed

lemma hashLoop_gmap_ok: "hashLoop data out = Inr m \<Longrightarrow> gmap_ok out \<Longrightarrow> gmap_ok m"
proof (induction data out arbitrary: m rule: hashLoop.induct)
  case (1 data out)
  then show ?case
    by (subst (asm) (2) hashLoop.simps) (auto simp: Let_def split: if_splits)
qed

lemma zsetLoop_gmap_ok: "zsetLoop data out = Inr m \<Longrightarrow> gmap_ok out \<Longrightarrow> gmap_ok m"
proof (induction data out arbitrary: m rule: zsetLoop.induct)
  case (1 data out)
  then show ?case
    by (subst (asm) (2) zsetLoop.simps) (auto simp: Let_def split: if_splits)
qed

section \<open>Element keys\<close>

lemma EncodeElemKey_eq: "EncodeElemKey seg db key elem = ElemPrefix seg db key @ elem"
  by (simp add: EncodeElemKey_def AppendElemKey_def ElemPrefix_def)

lemma EncodeListSeqKey_eq:
  "EncodeListSeqKey db key seq = ElemPrefix SegList db key @ be64 (word_of_int seq)"
  by (simp add: EncodeListSeqKey_def ElemPrefix_def)

lemma EncodeScoreKey_eq:
  "EncodeScoreKey db key sc m = ScorePrefix db key @ be64 (EncodeScore sc) @ m"
  by (simp add: EncodeScoreKey_def ScorePrefix_def)

lemma ScorePrefix_eq: "ScorePrefix db key = ElemPrefix SegZSetS db key"
  by (simp add: ScorePrefix_def ElemPrefix_def)

lemma ElemFromKey_Encode [simp]:
  "ElemFromKey (ElemPrefix seg db key) (EncodeElemKey seg db key elem) = elem"
  by (simp add: ElemFromKey_def EncodeElemKey_eq)

lemma EncodeElemKey_inj [simp]:
  "EncodeElemKey seg db key e = EncodeElemKey seg db key e' \<longleftrightarrow> e = e'"
  by (simp add: EncodeElemKey_eq)

lemma ScoreOf_Encode [simp]: "ScoreOf (ScorePrefix db key) (EncodeScoreKey db key sc m) = sc"
  by (simp add: ScoreOf_def EncodeScoreKey_eq)

lemma MemberOf_Encode [simp]: "MemberOf (ScorePrefix db key) (EncodeScoreKey db key sc m) = m"
  by (simp add: MemberOf_def EncodeScoreKey_eq)

lemma EncodeScoreKey_less:
  "EncodeScoreKey db key a m < EncodeScoreKey db key b n \<longleftrightarrow>
     EncodeScore a < EncodeScore b \<or> a = b \<and> m < n"
  by (simp add: EncodeScoreKey_eq lex_append_eqlen)

text \<open>Two keys without a zero byte never share an element prefix.\<close>

lemma prefix_nul_sep:
  "prefix (k @ [0]) (k' @ 0 # rest) \<Longrightarrow> (0 :: byte) \<notin> set k \<Longrightarrow> 0 \<notin> set k' \<Longrightarrow> k = k'"
proof (induction k arbitrary: k')
  case Nil
  then show ?case by (cases k') auto
next
  case (Cons b k)
  then show ?case by (cases k') auto
qed

lemma ElemPrefix_disjoint:
  assumes "prefix (ElemPrefix seg db key) (EncodeElemKey seg' db' key' elem)"
    and "0 \<notin> set key" "0 \<notin> set key'"
  shows "seg = seg' \<and> db = db' \<and> key = key'"
proof -
  have *: "prefix (([seg] @ be16 db) @ (key @ [0])) (([seg'] @ be16 db') @ (key' @ 0 # elem))"
    using assms(1) by (simp add: ElemPrefix_def EncodeElemKey_eq)
  have "[seg] @ be16 db = [seg'] @ be16 db'"
  proof -
    have "take 3 (([seg] @ be16 db) @ (key @ [0])) = take 3 (([seg'] @ be16 db') @ (key' @ 0 # elem))"
      using * by (auto simp: prefix_def)
    then show ?thesis by simp
  qed
  then have eq: "seg = seg'" "db = db'" by auto
  with * have "prefix (key @ [0]) (key' @ 0 # elem)" by simp
  then show ?thesis using assms(2,3) eq prefix_nul_sep by blast
qed

text \<open>Keys of sequence numbers sort numerically as long as the numbers have the same sign.\<close>

lemma EncodeListSeqKey_less:
  "EncodeListSeqKey db key a < EncodeListSeqKey db key b \<longleftrightarrow>
     (word_of_int a :: 64 word) < word_of_int b"
  by (simp add: EncodeListSeqKey_eq)

section \<open>Properties\<close>

lemma inline_wrap:
  "DecodeObjectHeader (([EncInline] @ be32 n) @ body) = Inr ob \<longleftrightarrow>
     ob = \<lparr>o_Enc = EncInline, o_Count = uint n, o_Data = body, o_Head = 0, o_Tail = 0\<rparr>"
  using DecodeObjectHeader_inline [of n body] by auto

text \<open>A hash written inline is read back unchanged, field by field, provided field names are
  shorter than 64 KiB and values shorter than 4 GiB.\<close>

theorem hash_inline_roundtrip:
  assumes "distinct fs" "\<forall>f \<in> set fs. length f < 2 ^ 16 \<and> length (valueOf f) < 2 ^ 32"
    and "DecodeObjectHeader (EncodeHashInline fs valueOf) = Inr ob"
  shows "o_Enc ob = EncInline \<and> DecodeHashInline (o_Data ob) = Inr (map (\<lambda>f. (f, valueOf f)) fs)"
proof -
  let ?kvs = "map (\<lambda>f. (f, valueOf f)) fs"
  have "DecodeHashInline (concat (map enc_field ?kvs)) = Inr ?kvs"
    using assms(1,2) by (intro DecodeHashInline_concat) (auto simp: comp_def list_all_iff sized_field_def)
  then show ?thesis
    using assms(3) unfolding EncodeHashInline_def inline_wrap by (simp add: comp_def)
qed

theorem hash_inline_roundtrip_witness:
  "DecodeHashInline (concat (map (\<lambda>f. enc_field (f, [9, 8])) [[1], [2, 3]])) = Inr [([1], [9, 8]), ([2, 3], [9, 8])]"
proof -
  let ?ob = "\<lparr>o_Enc = EncInline, o_Count = 2,
    o_Data = concat (map (\<lambda>f. enc_field (f, [9, 8])) [[1], [2, 3]]), o_Head = 0, o_Tail = 0\<rparr>"
  have "DecodeObjectHeader (EncodeHashInline [[1], [2, 3]] (\<lambda>_. [9, 8])) = Inr ?ob"
    unfolding EncodeHashInline_def inline_wrap by simp
  from hash_inline_roundtrip [OF _ _ this] show ?thesis by simp
qed

text \<open>A list written inline is read back unchanged, in order.\<close>

theorem list_inline_roundtrip:
  assumes "\<forall>e \<in> set elems. length e < 2 ^ 32"
    and "DecodeObjectHeader (EncodeListInline elems) = Inr ob"
  shows "o_Enc ob = EncInline \<and> DecodeListInline (o_Data ob) = Inr elems"
  using assms DecodeListInline_concat [of elems] unfolding EncodeListInline_def inline_wrap
  by (simp add: list_all_iff sized_elem_def)

theorem list_inline_roundtrip_witness:
  "DecodeListInline (concat (map enc_elem [[1], [], [1]])) = Inr [[1], [], [1]]"
proof -
  let ?ob = "\<lparr>o_Enc = EncInline, o_Count = 3, o_Data = concat (map enc_elem [[1], [], [1]]), o_Head = 0, o_Tail = 0\<rparr>"
  have "DecodeObjectHeader (EncodeListInline [[1], [], [1]]) = Inr ?ob"
    unfolding EncodeListInline_def inline_wrap by simp
  from list_inline_roundtrip [OF _ this] show ?thesis by simp
qed

text \<open>a sorted set written inline is read back with the same members and bit-identical scores,
  provided members are shorter than 64 KiB.\<close>

theorem zset_inline_roundtrip:
  assumes "distinct (map m_member ms)" "\<forall>m \<in> set ms. length (m_member m) < 2 ^ 16"
    and "DecodeObjectHeader (EncodeZSetInline ms) = Inr ob"
  shows "o_Enc ob = EncInline \<and> DecodeZSetInline (o_Data ob) = Inr (map (\<lambda>m. (m_member m, m_score m)) ms)"
  using assms DecodeZSetInline_concat [of ms] unfolding EncodeZSetInline_def inline_wrap
  by (simp add: list_all_iff sized_scored_def)

theorem zset_inline_roundtrip_witness:
  "DecodeZSetInline (concat (map enc_scored [\<lparr>m_member = [65], m_score = 7\<rparr>])) = Inr [([65], 7)]"
proof -
  let ?ob = "\<lparr>o_Enc = EncInline, o_Count = 1,
    o_Data = concat (map enc_scored [\<lparr>m_member = [65], m_score = 7\<rparr>]), o_Head = 0, o_Tail = 0\<rparr>"
  have "DecodeObjectHeader (EncodeZSetInline [\<lparr>m_member = [65], m_score = 7\<rparr>]) = Inr ?ob"
    unfolding EncodeZSetInline_def inline_wrap by simp
  from zset_inline_roundtrip [OF _ _ this] show ?thesis by simp
qed

lemma setLoop_zeros_step: "setLoop (replicate (2 * Suc n) 0) acc = setLoop (replicate (2 * n) 0) (gset_add [] acc)"
proof -
  have "u16_of [0, 0] = 0" by (simp add: u16_of_def be_val_def)
  then show ?thesis by (subst setLoop.simps) simp
qed

lemma setLoop_zeros: "setLoop (replicate (2 * n) 0) [[]] = Inr [[]]"
proof (induction n)
  case 0
  then show ?case by (simp add: setLoop.simps)
next
  case (Suc n)
  then show ?case unfolding setLoop_zeros_step by (simp add: gset_add_def)
qed

lemma DecodeSetInline_zeros: "0 < n \<Longrightarrow> DecodeSetInline (replicate (2 * n) 0) = Inr [[]]"
  using setLoop_zeros [of "n - 1"] setLoop_zeros_step [of "n - 1" "[]"]
  by (simp add: DecodeSetInline_def gset_add_def)

lemma enc_member_wrapped:
  "length m = 65536 \<Longrightarrow> enc_member m = [0, 0] @ m"
proof -
  assume len: "length m = 65536"
  have "be16 0 = [0, 0]" by (simp add: be16_def numeral_2_eq_2)
  moreover have "(of_nat 65536 :: 16 word) = 0" by simp
  ultimately show ?thesis unfolding enc_member_def len by (simp only:)
qed

text \<open>A set member of exactly 64 KiB is lost by the inline form: its length wraps to zero in
  the 16-bit length field, and a set holding only 65536 zero bytes is read back as the set holding
  only the empty member.\<close>

theorem set_inline_oversized_member:
  "DecodeObjectHeader (EncodeSetInline [replicate 65536 0]) = Inr ob \<longleftrightarrow>
     ob = \<lparr>o_Enc = EncInline, o_Count = 1, o_Data = replicate (2 * 32769) 0, o_Head = 0, o_Tail = 0\<rparr> \<and>
     DecodeSetInline (o_Data ob) = Inr [[]]"
proof -
  have "enc_member (replicate 65536 0) = replicate 2 0 @ replicate 65536 0"
    by (subst enc_member_wrapped) (simp_all add: numeral_2_eq_2)
  then have body: "concat (map enc_member [replicate 65536 0]) = replicate (2 * 32769) 0"
    unfolding replicate_add [symmetric] by simp
  have dec: "DecodeSetInline (replicate (2 * 32769) 0) = Inr [[]]"
    by (rule DecodeSetInline_zeros) simp
  show ?thesis
    unfolding EncodeSetInline_def body inline_wrap using dec by auto
qed

text \<open>C39: the element keys of two collections never mix as long as neither name contains a zero
  byte: no element key of one lies under the scan prefix of the other.\<close>

theorem elem_keys_separated:
  assumes "0 \<notin> set key" "0 \<notin> set key'" "(seg, db, key) \<noteq> (seg', db', key')"
  shows "\<not> prefix (ElemPrefix seg db key) (EncodeElemKey seg' db' key' elem)"
  using ElemPrefix_disjoint [of seg db key seg' db' key' elem] assms by auto

theorem elem_keys_separated_witness:
  "\<not> prefix (ElemPrefix SegHash 0 [97]) (EncodeElemKey SegHash 0 [97, 98] [99])"
  using elem_keys_separated [of "[97]" "[97, 98]" SegHash 0 SegHash 0 "[99]"] by simp

text \<open>With a zero byte in a name the separation fails: every element of the collection
  \<open>key, 0, rest\<close> also lies under the scan prefix of the collection \<open>key\<close>, where it is read as
  the element \<open>rest, 0, elem\<close>.\<close>

theorem elem_keys_nul_collision:
  "prefix (ElemPrefix seg db key) (EncodeElemKey seg db (key @ 0 # rest) elem) \<and>
   ElemFromKey (ElemPrefix seg db key) (EncodeElemKey seg db (key @ 0 # rest) elem) = rest @ 0 # elem"
  by (simp add: ElemPrefix_def EncodeElemKey_eq ElemFromKey_def)

text \<open>The keys of the score index sort by score and then by member, and both are recovered
  from a key.\<close>

theorem score_index_order:
  "(EncodeScoreKey db key a m < EncodeScoreKey db key b n \<longleftrightarrow>
      f64_scaled a < f64_scaled b \<or> a = 2 ^ 63 \<and> b = 0 \<or> a = b \<and> m < n) \<and>
   ScoreOf (ScorePrefix db key) (EncodeScoreKey db key a m) = a \<and>
   MemberOf (ScorePrefix db key) (EncodeScoreKey db key a m) = m"
  by (auto simp: EncodeScoreKey_less EncodeScore_less_iff)

text \<open>The keys of the elements of a sparse list do not sort by sequence number: every negative
  sequence number, as LPUSH assigns them, sorts after every non-negative one.\<close>

theorem list_seq_keys_misordered:
  assumes "is_int64 a" "is_int64 b" "a < 0" "0 \<le> b"
  shows "EncodeListSeqKey db key b < EncodeListSeqKey db key a"
proof -
  have "- 9223372036854775808 \<le> a" "b < 9223372036854775808"
    using assms(1,2) by (simp_all add: is_int64_def)
  then have "a mod 18446744073709551616 = a + 18446744073709551616" "b mod 18446744073709551616 = b"
    using assms(3,4) mod_pos_pos_trivial [of "a + 18446744073709551616" 18446744073709551616] by simp_all
  then show ?thesis
    using assms(3,4) \<open>- 9223372036854775808 \<le> a\<close> \<open>b < 9223372036854775808\<close>
    by (simp add: EncodeListSeqKey_less word_less_def uint_word_of_int)
qed

theorem list_seq_keys_misordered_witness:
  "EncodeListSeqKey 0 [107] 0 < EncodeListSeqKey 0 [107] (-1)"
  by (rule list_seq_keys_misordered) (simp_all add: is_int64_def)

end
