(* ===== verification/Engine.thy ===== *)
theory Engine
  imports Objects
begin

text \<open>
  \<open>storage/pebble.go\<close>: the wrapper around the Pebble library.  The library is a parameter: a
  record of the calls the wrapper makes (\<open>pebble\<close>), over an arbitrary state type.  What the
  wrapper relies on is the locale \<open>pebble_engine\<close>: when a call succeeds, it has the documented
  effect on the key-value contents \<open>kv\<close>, and what an iterator yields before an error is a prefix of
  the listing; the library knows nothing of the wrapper's \<open>ErrStop\<close>.  Nothing is promised of a call that fails.  The locale
  \<open>pebble_reliable\<close> adds that calls do succeed.
\<close>

section \<open>The library calls\<close>

datatype bop = BSet bytes bytes | BDelete bytes | BDeleteRange bytes bytes

record 'e pebble =
  p_get :: "'e \<Rightarrow> bytes \<Rightarrow> goerr + bytes"
  p_set :: "'e \<Rightarrow> bytes \<Rightarrow> bytes \<Rightarrow> goerr option \<times> 'e"
  p_delete :: "'e \<Rightarrow> bytes \<Rightarrow> goerr option \<times> 'e"
  p_delete_range :: "'e \<Rightarrow> bytes \<Rightarrow> bytes \<Rightarrow> goerr option \<times> 'e"
  p_apply :: "'e \<Rightarrow> bop list \<Rightarrow> goerr option \<times> 'e"
  p_iter :: "'e \<Rightarrow> bytes \<Rightarrow> bytes option \<Rightarrow> bytes option \<Rightarrow> goerr + (bytes \<times> bytes) list \<times> goerr option"
  p_last :: "'e \<Rightarrow> bytes \<Rightarrow> bytes option \<Rightarrow> goerr + (bytes \<times> bytes) option"

section \<open>The wrapper\<close>

definition eng_Get :: "'e pebble \<Rightarrow> 'e \<Rightarrow> bytes \<Rightarrow> goerr + bytes" where
  "eng_Get P e key = p_get P e key"

definition eng_Put :: "'e pebble \<Rightarrow> 'e \<Rightarrow> bytes \<Rightarrow> bytes \<Rightarrow> goerr option \<times> 'e" where
  "eng_Put P e key value = p_set P e key value"

definition eng_Delete :: "'e pebble \<Rightarrow> 'e \<Rightarrow> bytes \<Rightarrow> goerr option \<times> 'e" where
  "eng_Delete P e key = p_delete P e key"

definition eng_Apply :: "'e pebble \<Rightarrow> 'e \<Rightarrow> bop list \<Rightarrow> goerr option \<times> 'e" where
  "eng_Apply P e batch = p_apply P e batch"

definition eng_DeleteRange :: "'e pebble \<Rightarrow> 'e \<Rightarrow> bytes \<Rightarrow> bytes \<Rightarrow> goerr option \<times> 'e" where
  "eng_DeleteRange P e lo hi = p_delete_range P e lo hi"

text \<open>The loop of \<open>prefixEnd\<close> walks from the last byte to the first; its argument is the reversed
  prefix.\<close>

fun prefixEndLoop :: "bytes \<Rightarrow> bytes option" where
  "prefixEndLoop [] = None"
| "prefixEndLoop (b # bs) = (if b < 0xff then Some (rev ((b + 1) # bs)) else prefixEndLoop bs)"

definition prefixEnd :: "bytes \<Rightarrow> bytes option" where
  "prefixEnd p = prefixEndLoop (rev p)"

text \<open>A visitor returns an error to stop the scan, and updates the variables it captures.\<close>

fun visit :: "('s \<Rightarrow> bytes \<Rightarrow> bytes \<Rightarrow> goerr option \<times> 's) \<Rightarrow> (bytes \<times> bytes) list \<Rightarrow> 's \<Rightarrow> goerr option \<times> 's" where
  "visit f [] st = (None, st)"
| "visit f ((k, v) # kvs) st =
     (case f st k v of (Some err, st') \<Rightarrow> (Some err, st') | (None, st') \<Rightarrow> visit f kvs st')"

text \<open>An iterator yields its pairs from the first one (\<open>First\<close>) or from a given key on
  (\<open>SeekGE\<close>), and ends with \<open>iter.Error()\<close>.\<close>

definition iterate ::
  "'e pebble \<Rightarrow> 'e \<Rightarrow> bytes \<Rightarrow> bytes option \<Rightarrow> bytes option \<Rightarrow> ('s \<Rightarrow> bytes \<Rightarrow> bytes \<Rightarrow> goerr option \<times> 's) \<Rightarrow> 's
     \<Rightarrow> goerr option \<times> 's" where
  "iterate P e lo up seek f st =
     (case p_iter P e lo up seek of
        Inl err \<Rightarrow> (Some err, st)
      | Inr (kvs, iterErr) \<Rightarrow>
          (case visit f kvs st of (Some err, st') \<Rightarrow> (Some err, st') | (None, st') \<Rightarrow> (iterErr, st')))"

definition ScanRange ::
  "'e pebble \<Rightarrow> 'e \<Rightarrow> bytes \<Rightarrow> bytes option \<Rightarrow> ('s \<Rightarrow> bytes \<Rightarrow> bytes \<Rightarrow> goerr option \<times> 's) \<Rightarrow> 's \<Rightarrow> goerr option \<times> 's" where
  "ScanRange P e lo up f st = iterate P e lo up None f st"

definition Scan ::
  "'e pebble \<Rightarrow> 'e \<Rightarrow> bytes \<Rightarrow> ('s \<Rightarrow> bytes \<Rightarrow> bytes \<Rightarrow> goerr option \<times> 's) \<Rightarrow> 's \<Rightarrow> goerr option \<times> 's" where
  "Scan P e p f st = ScanRange P e p (prefixEnd p) f st"

definition ScanKeys ::
  "'e pebble \<Rightarrow> 'e \<Rightarrow> bytes \<Rightarrow> ('s \<Rightarrow> bytes \<Rightarrow> goerr option \<times> 's) \<Rightarrow> 's \<Rightarrow> goerr option \<times> 's" where
  "ScanKeys P e p f st = iterate P e p (prefixEnd p) None (\<lambda>s k v. f s k) st"

definition ScanKeysFrom ::
  "'e pebble \<Rightarrow> 'e \<Rightarrow> bytes \<Rightarrow> bytes \<Rightarrow> ('s \<Rightarrow> bytes \<Rightarrow> goerr option \<times> 's) \<Rightarrow> 's \<Rightarrow> goerr option \<times> 's" where
  "ScanKeysFrom P e p startKey f st =
     iterate P e p (prefixEnd p) (if length startKey = 0 then None else Some (startKey @ [0x00])) (\<lambda>s k v. f s k) st"

definition LastInRange :: "'e pebble \<Rightarrow> 'e \<Rightarrow> bytes \<Rightarrow> bytes \<Rightarrow> goerr + (bytes \<times> bytes) option" where
  "LastInRange P e start fin = p_last P e start (prefixEnd fin)"

section \<open>The contract of the library\<close>

fun run_bop :: "bop \<Rightarrow> (bytes \<rightharpoonup> bytes) \<Rightarrow> (bytes \<rightharpoonup> bytes)" where
  "run_bop (BSet k v) m = m(k \<mapsto> v)"
| "run_bop (BDelete k) m = m(k := None)"
| "run_bop (BDeleteRange lo hi) m = (\<lambda>k. if lo \<le> k \<and> k < hi then None else m k)"

definition run_bops :: "bop list \<Rightarrow> (bytes \<rightharpoonup> bytes) \<Rightarrow> (bytes \<rightharpoonup> bytes)" where
  "run_bops ops m = fold run_bop ops m"

lemma run_bops_simps [simp]:
  "run_bops [] m = m" "run_bops (x # xs) m = run_bops xs (run_bop x m)"
  "run_bops (xs @ ys) m = run_bops ys (run_bops xs m)"
  by (simp_all add: run_bops_def)

definition in_range :: "bytes \<Rightarrow> bytes option \<Rightarrow> bytes \<Rightarrow> bool" where
  "in_range lo hi k \<longleftrightarrow> lo \<le> k \<and> (case hi of None \<Rightarrow> True | Some h \<Rightarrow> k < h)"

definition lists_range :: "(bytes \<rightharpoonup> bytes) \<Rightarrow> bytes \<Rightarrow> bytes option \<Rightarrow> (bytes \<times> bytes) list \<Rightarrow> bool" where
  "lists_range m lo hi kvs \<longleftrightarrow> sorted_wrt (<) (map fst kvs) \<and>
     (\<forall>k v. (k, v) \<in> set kvs \<longleftrightarrow> m k = Some v \<and> in_range lo hi k)"

definition start_at :: "bytes \<Rightarrow> bytes option \<Rightarrow> bytes" where
  "start_at lo seek = (case seek of None \<Rightarrow> lo | Some s \<Rightarrow> max lo s)"

definition is_last :: "(bytes \<rightharpoonup> bytes) \<Rightarrow> bytes \<Rightarrow> bytes option \<Rightarrow> bytes \<Rightarrow> bytes \<Rightarrow> bool" where
  "is_last m lo up k v \<longleftrightarrow> m k = Some v \<and> in_range lo up k \<and> (\<forall>k'\<in>dom m. in_range lo up k' \<longrightarrow> k' \<le> k)"

locale pebble_engine =
  fixes P :: "'e pebble" and kv :: "'e \<Rightarrow> (bytes \<rightharpoonup> bytes)"
  assumes get_found: "p_get P e k = Inr v \<Longrightarrow> kv e k = Some v"
    and get_missing: "p_get P e k = Inl ErrNotFound \<Longrightarrow> kv e k = None"
    and set_done: "p_set P e k v = (None, e') \<Longrightarrow> kv e' = (kv e)(k \<mapsto> v)"
    and delete_done: "p_delete P e k = (None, e') \<Longrightarrow> kv e' = (kv e)(k := None)"
    and delete_range_done: "p_delete_range P e lo hi = (None, e') \<Longrightarrow> kv e' = run_bop (BDeleteRange lo hi) (kv e)"
    and apply_done: "p_apply P e ops = (None, e') \<Longrightarrow> kv e' = run_bops ops (kv e)"
    and iter_prefix: "p_iter P e lo up seek = Inr (kvs, err) \<Longrightarrow>
      \<exists>rest. lists_range (kv e) (start_at lo seek) up (kvs @ rest) \<and> (err = None \<longrightarrow> rest = [])"
    and iter_errors: "p_iter P e lo up seek \<noteq> Inl ErrStop" "p_iter P e lo up seek \<noteq> Inr (kvs, Some ErrStop)"
    and last_some: "p_last P e lo up = Inr (Some (k, v)) \<Longrightarrow> is_last (kv e) lo up k v"
    and last_none: "p_last P e lo up = Inr None \<Longrightarrow> in_range lo up k \<Longrightarrow> kv e k = None"
begin

lemma iter_done: "p_iter P e lo up seek = Inr (kvs, None) \<Longrightarrow> lists_range (kv e) (start_at lo seek) up kvs"
  using iter_prefix by fastforce

end

locale pebble_reliable = pebble_engine +
  assumes get_ok: "kv e k = Some v \<Longrightarrow> p_get P e k = Inr v"
    and get_nf: "kv e k = None \<Longrightarrow> p_get P e k = Inl ErrNotFound"
    and set_ok: "fst (p_set P e k v) = None"
    and delete_ok: "fst (p_delete P e k) = None"
    and delete_range_ok: "fst (p_delete_range P e lo hi) = None"
    and apply_ok: "fst (p_apply P e ops) = None"
    and iter_ok: "\<exists>kvs. p_iter P e lo up seek = Inr (kvs, None)"
    and last_ok: "\<exists>x. p_last P e lo up = Inr x"
begin

lemma get_eq: "p_get P e k = (case kv e k of None \<Rightarrow> Inl ErrNotFound | Some v \<Rightarrow> Inr v)"
  by (auto simp: get_ok get_nf split: option.splits)

lemma kv_apply: "kv (snd (p_apply P e ops)) = run_bops ops (kv e)"
  using apply_done [of e ops "snd (p_apply P e ops)"] apply_ok [of e ops] by (metis prod.collapse)

lemma kv_set: "kv (snd (p_set P e k v)) = (kv e)(k \<mapsto> v)"
  using set_done [of e k v "snd (p_set P e k v)"] set_ok [of e k v] by (metis prod.collapse)

lemma kv_delete: "kv (snd (p_delete P e k)) = (kv e)(k := None)"
  using delete_done [of e k "snd (p_delete P e k)"] delete_ok [of e k] by (metis prod.collapse)

lemma kv_delete_range: "kv (snd (p_delete_range P e lo hi)) = run_bop (BDeleteRange lo hi) (kv e)"
  using delete_range_done [of e lo hi "snd (p_delete_range P e lo hi)"] delete_range_ok [of e lo hi]
  by (metis prod.collapse)

end

section \<open>A reference instance\<close>

text \<open>Association lists with newest-first shadowing implement the contract.\<close>

definition ref_list :: "(bytes \<times> bytes) list \<Rightarrow> bytes \<Rightarrow> bytes option \<Rightarrow> (bytes \<times> bytes) list" where
  "ref_list e lo up =
     map (\<lambda>k. (k, the (map_of e k))) (sort (remdups (filter (in_range lo up) (map fst e))))"

fun ref_bop :: "bop \<Rightarrow> (bytes \<times> bytes) list \<Rightarrow> (bytes \<times> bytes) list" where
  "ref_bop (BSet k v) e = (k, v) # e"
| "ref_bop (BDelete k) e = filter (\<lambda>kv. fst kv \<noteq> k) e"
| "ref_bop (BDeleteRange lo hi) e = filter (\<lambda>kv. \<not> (lo \<le> fst kv \<and> fst kv < hi)) e"

definition ref_pebble :: "(bytes \<times> bytes) list pebble" where
  "ref_pebble = \<lparr>
     p_get = (\<lambda>e k. case map_of e k of None \<Rightarrow> Inl ErrNotFound | Some v \<Rightarrow> Inr v),
     p_set = (\<lambda>e k v. (None, ref_bop (BSet k v) e)),
     p_delete = (\<lambda>e k. (None, ref_bop (BDelete k) e)),
     p_delete_range = (\<lambda>e lo hi. (None, ref_bop (BDeleteRange lo hi) e)),
     p_apply = (\<lambda>e ops. (None, fold ref_bop ops e)),
     p_iter = (\<lambda>e lo up seek. Inr (ref_list e (start_at lo seek) up, None)),
     p_last = (\<lambda>e lo up. let l = ref_list e lo up in Inr (if l = [] then None else Some (last l)))\<rparr>"

lemma ref_pebble_calls [simp]:
  "p_get ref_pebble e k = (case map_of e k of None \<Rightarrow> Inl ErrNotFound | Some v \<Rightarrow> Inr v)"
  "p_set ref_pebble e k v = (None, ref_bop (BSet k v) e)"
  "p_delete ref_pebble e k = (None, ref_bop (BDelete k) e)"
  "p_delete_range ref_pebble e lo hi = (None, ref_bop (BDeleteRange lo hi) e)"
  "p_apply ref_pebble e ops = (None, fold ref_bop ops e)"
  "p_iter ref_pebble e lo up seek = Inr (ref_list e (start_at lo seek) up, None)"
  "p_last ref_pebble e lo up = (let l = ref_list e lo up in Inr (if l = [] then None else Some (last l)))"
  by (simp_all add: ref_pebble_def)

lemma map_of_filter_fst: "map_of (filter (\<lambda>kv. Q (fst kv)) e) k = (if Q k then map_of e k else None)"
  by (induction e) auto

lemma map_of_ref_bop: "map_of (ref_bop b e) = run_bop b (map_of e)"
proof (cases b)
  case (BDelete k)
  then show ?thesis by (auto simp: fun_eq_iff map_of_filter_fst [of "\<lambda>x. x \<noteq> k"])
next
  case (BDeleteRange lo hi)
  then show ?thesis
    by (auto simp: fun_eq_iff map_of_filter_fst [of "\<lambda>x. \<not> (lo \<le> x \<and> x < hi)", simplified])
qed simp

lemma map_of_ref_bops: "map_of (fold ref_bop ops e) = run_bops ops (map_of e)"
  by (induction ops arbitrary: e) (simp_all add: map_of_ref_bop)

lemma ref_list_lists: "lists_range (map_of e) lo up (ref_list e lo up)"
proof -
  let ?ks = "sort (remdups (filter (in_range lo up) (map fst e)))"
  have "sorted_wrt (<) ?ks" by (simp add: strict_sorted_iff)
  moreover have "map fst (ref_list e lo up) = ?ks" by (simp add: ref_list_def comp_def)
  moreover have "(k, v) \<in> set (ref_list e lo up) \<longleftrightarrow> map_of e k = Some v \<and> in_range lo up k" for k v
  proof -
    have "(\<exists>v. map_of e k = Some v) \<longleftrightarrow> k \<in> fst ` set e"
      using map_of_eq_None_iff [of e k] by (metis not_None_eq)
    then show ?thesis by (auto simp: ref_list_def image_iff)
  qed
  ultimately show ?thesis by (simp add: lists_range_def)
qed

lemma sorted_last: "sorted_wrt (<) (xs :: 'a::linorder list) \<Longrightarrow> x \<in> set xs \<Longrightarrow> x \<le> last xs"
  by (induction xs) (auto split: if_splits dest: less_imp_le)

lemma lists_range_last:
  assumes "lists_range m lo up l" "l \<noteq> []"
  shows "is_last m lo up (fst (last l)) (snd (last l))"
proof -
  have "last l \<in> set l" using assms by simp
  then have m: "m (fst (last l)) = Some (snd (last l))" "in_range lo up (fst (last l))"
    using assms unfolding lists_range_def by (metis prod.collapse)+
  have "k \<le> fst (last l)" if k: "m k = Some v" "in_range lo up k" for k v
  proof -
    have "k \<in> set (map fst l)" using assms k by (force simp: lists_range_def)
    then show ?thesis
      using sorted_last [of "map fst l" k] assms by (simp add: lists_range_def last_map)
  qed
  then show ?thesis using m by (auto simp: is_last_def)
qed

lemma lists_range_Nil: "lists_range m lo up [] \<Longrightarrow> in_range lo up k \<Longrightarrow> m k = None"
  by (cases "m k") (auto simp: lists_range_def)

interpretation ref: pebble_reliable ref_pebble map_of
proof
  fix e k v e' lo hi ops up seek kvs err
  show "p_get ref_pebble e k = Inr v \<Longrightarrow> map_of e k = Some v"
    and "p_get ref_pebble e k = Inl ErrNotFound \<Longrightarrow> map_of e k = None"
    by (auto split: option.splits)
  show "p_set ref_pebble e k v = (None, e') \<Longrightarrow> map_of e' = (map_of e)(k \<mapsto> v)"
    by auto
  show "p_delete ref_pebble e k = (None, e') \<Longrightarrow> map_of e' = (map_of e)(k := None)"
    using map_of_ref_bop [of "BDelete k" e] by auto
  show "p_delete_range ref_pebble e lo hi = (None, e') \<Longrightarrow> map_of e' = run_bop (BDeleteRange lo hi) (map_of e)"
    using map_of_ref_bop [of "BDeleteRange lo hi" e] by auto
  show "p_apply ref_pebble e ops = (None, e') \<Longrightarrow> map_of e' = run_bops ops (map_of e)"
    by (auto simp: map_of_ref_bops)
  show "p_iter ref_pebble e lo up seek = Inr (kvs, err) \<Longrightarrow>
      \<exists>rest. lists_range (map_of e) (start_at lo seek) up (kvs @ rest) \<and> (err = None \<longrightarrow> rest = [])"
    using ref_list_lists [of e "start_at lo seek" up] by auto
  show "p_iter ref_pebble e lo up seek \<noteq> Inl ErrStop" "p_iter ref_pebble e lo up seek \<noteq> Inr (kvs, Some ErrStop)"
    by (simp_all)
  show "p_last ref_pebble e lo up = Inr (Some (k, v)) \<Longrightarrow> is_last (map_of e) lo up k v"
    using lists_range_last [OF ref_list_lists [of e lo up]] by (auto simp: Let_def split: if_splits)
  show "p_last ref_pebble e lo up = Inr None \<Longrightarrow> in_range lo up k \<Longrightarrow> map_of e k = None"
    using lists_range_Nil [of "map_of e" lo up k] ref_list_lists [of e lo up]
    by (auto simp: Let_def split: if_splits)
qed (auto simp: Let_def)

section \<open>Ranges\<close>

fun prefix_succ :: "bytes \<Rightarrow> bytes option" where
  "prefix_succ [] = None"
| "prefix_succ (b # bs) =
     (case prefix_succ bs of Some e \<Rightarrow> Some (b # e) | None \<Rightarrow> if b < 0xff then Some [b + 1] else None)"

lemma prefixEndLoop_append:
  "prefixEndLoop (xs @ [b]) =
     (case prefixEndLoop xs of Some e \<Rightarrow> Some (b # e) | None \<Rightarrow> if b < 0xff then Some [b + 1] else None)"
  by (induction xs) auto

lemma prefixEnd_succ: "prefixEnd p = prefix_succ p"
  by (induction p) (auto simp: prefixEnd_def prefixEndLoop_append)

lemma byte_lt_succ: "(b :: byte) < 0xff \<Longrightarrow> c < b + 1 \<longleftrightarrow> c \<le> b"
proof -
  assume b: "b < 0xff"
  then have "unat (b + 1) = unat b + 1"
    by (simp add: unat_word_ariths word_less_nat_alt)
  then show ?thesis by (simp add: word_less_nat_alt word_le_nat_alt less_Suc_eq_le)
qed

lemma byte_max: "\<not> (b :: byte) < 0xff \<Longrightarrow> \<not> b < c"
proof -
  assume "\<not> b < 0xff"
  then have "unat b \<ge> 255" by (simp add: word_less_nat_alt)
  moreover have "unat c < 256" using unat_bound [of c] by simp
  ultimately show ?thesis by (simp add: word_less_nat_alt)
qed

lemma lex_Cons_le: "(a # as :: bytes) \<le> b # bs \<longleftrightarrow> a < b \<or> a = b \<and> as \<le> bs"
  by (auto simp: list_le_def)

lemma in_range_prefix: "in_range p (prefixEnd p) k \<longleftrightarrow> prefix p k"
  unfolding prefixEnd_succ
proof (induction p arbitrary: k)
  case Nil
  then show ?case by (simp add: in_range_def)
next
  case (Cons b p)
  show ?case
  proof (cases k)
    case Nil
    then show ?thesis by (auto simp: in_range_def list_le_def)
  next
    case (Cons c ks)
    show ?thesis
    proof (cases "prefix_succ p")
      case (Some e)
      then show ?thesis
        using Cons.IH [of ks] \<open>k = c # ks\<close> by (auto simp: in_range_def lex_Cons_le)
    next
      case None
      then show ?thesis
        using Cons.IH [of ks] \<open>k = c # ks\<close> byte_lt_succ [of b c] byte_max [of b c]
        by (auto simp: in_range_def lex_Cons_le)
    qed
  qed
qed

lemma lex_succ: "(k :: bytes) < x \<longleftrightarrow> k @ [0] \<le> x"
proof (induction k arbitrary: x)
  case Nil
  then show ?case by (cases x) (auto simp: lex_Cons_le word_gt_0)
next
  case (Cons b k)
  then show ?case by (cases x) (auto simp: lex_Cons_le list_le_def [of "b # _"])
qed


lemma visit_collect: "visit (\<lambda>s k v. (None, s @ [g k v])) kvs st = (None, st @ map (\<lambda>kv. g (fst kv) (snd kv)) kvs)"
  by (induction kvs arbitrary: st) auto

lemma in_range_start_at:
  "in_range (start_at lo seek) up k \<longleftrightarrow> in_range lo up k \<and> (case seek of None \<Rightarrow> True | Some s \<Rightarrow> s \<le> k)"
  by (auto simp: in_range_def start_at_def split: option.splits)

lemma lists_range_keys:
  assumes "lists_range m lo up kvs"
  shows "set (map fst kvs) = {k \<in> dom m. in_range lo up k}"
  using assms by (force simp: lists_range_def image_iff)

context pebble_engine
begin

lemma iterate_collect:
  assumes "iterate P e lo up seek (\<lambda>s k v. (None, s @ [g k v])) st = (None, st')"
  obtains kvs where "lists_range (kv e) (start_at lo seek) up kvs"
    and "st' = st @ map (\<lambda>kv. g (fst kv) (snd kv)) kvs"
  using assms by (auto simp: iterate_def visit_collect split: sum.splits dest: iter_done)

lemma scan_keys_from:
  assumes "ScanKeysFrom P e p startKey (\<lambda>s k. (None, s @ [k])) [] = (None, ks)"
  shows "sorted_wrt (<) ks \<and>
    set ks = {k \<in> dom (kv e). prefix p k \<and> (startKey = [] \<or> startKey < k)}"
proof -
  let ?seek = "if length startKey = 0 then None else Some (startKey @ [0x00])"
  obtain kvs where l: "lists_range (kv e) (start_at p ?seek) (prefixEnd p) kvs" and ks: "ks = map fst kvs"
    using iterate_collect [where g = "\<lambda>k v. k", OF assms [unfolded ScanKeysFrom_def]] by auto
  show ?thesis
    using l lists_range_keys [OF l] lex_succ [of startKey]
    by (auto simp: ks lists_range_def in_range_start_at in_range_prefix)
qed

lemma last_in_range:
  "LastInRange P e start fin = Inr (Some (k, v)) \<Longrightarrow> is_last (kv e) start (prefixEnd fin) k v"
  "LastInRange P e start fin = Inr None \<Longrightarrow> in_range start (prefixEnd fin) k \<Longrightarrow> kv e k = None"
  by (auto simp: LastInRange_def last_some last_none)

end

section \<open>Properties\<close>

text \<open>\<open>prefixEnd\<close> is exact: the range from a prefix (inclusive) to its \<open>prefixEnd\<close> (exclusive,
  or unbounded when every byte is \<open>0xff\<close>) holds exactly the keys that start with the prefix.\<close>

theorem prefixEnd_exact:
  "p \<le> k \<and> (case prefixEnd p of None \<Rightarrow> True | Some h \<Rightarrow> k < h) \<longleftrightarrow> prefix p k"
  using in_range_prefix [of p k] by (simp add: in_range_def)

text \<open>C35: \<open>ScanKeysFrom\<close> pages through a prefix without repetition or omission: a scan that
  completes has visited, in strictly increasing order, exactly the stored keys under the prefix that
  are strictly greater than the resume key (all of them when it is empty).\<close>

theorem ScanKeysFrom_resumes:
  assumes "pebble_engine P kv"
    and "ScanKeysFrom P e p startKey (\<lambda>s k. (None, s @ [k])) [] = (None, ks)"
  shows "sorted_wrt (<) ks \<and>
    set ks = {k \<in> dom (kv e). prefix p k \<and> (startKey = [] \<or> startKey < k)}"
  by (rule pebble_engine.scan_keys_from [OF assms])

theorem ScanKeysFrom_resumes_witness:
  "set [ascii ''b2'', ascii ''b3''] =
     {k \<in> dom (map_of [(ascii ''b3'', [] :: bytes), (ascii ''a'', []), (ascii ''b1'', []), (ascii ''b2'', [])]).
        prefix (ascii ''b'') k \<and> (ascii ''b1'' = [] \<or> ascii ''b1'' < k)}"
proof -
  have "ScanKeysFrom ref_pebble [(ascii ''b3'', []), (ascii ''a'', []), (ascii ''b1'', []), (ascii ''b2'', [])]
      (ascii ''b'') (ascii ''b1'') (\<lambda>s k. (None, s @ [k])) [] = (None, [ascii ''b2'', ascii ''b3''])"
    by code_simp
  from ScanKeysFrom_resumes [OF ref.pebble_engine_axioms this] show ?thesis by blast
qed

end
