(* ===== verification/Config.thy ===== *)
theory Config
  imports Codec
begin

text \<open>
  \<open>config/config.go\<close>: type tags, the configuration record, its validation and the
  predicates on the eviction policy.  Policies, modes and levels are strings, as in the
  source; the target ratio is the bits of a double; durations are nanoseconds.
\<close>

definition NoEviction :: string where "NoEviction = ''noeviction''"
definition AllKeysLRU :: string where "AllKeysLRU = ''allkeys-lru''"
definition AllKeysRandom :: string where "AllKeysRandom = ''allkeys-random''"
definition VolatileLRU :: string where "VolatileLRU = ''volatile-lru''"
definition VolatileRandom :: string where "VolatileRandom = ''volatile-random''"
definition VolatileTTL :: string where "VolatileTTL = ''volatile-ttl''"
definition AllKeysLFU :: string where "AllKeysLFU = ''allkeys-lfu''"
definition VolatileLFU :: string where "VolatileLFU = ''volatile-lfu''"

definition EvictPersist :: string where "EvictPersist = ''persist''"
definition EvictCache :: string where "EvictCache = ''cache''"
definition LoadAll :: string where "LoadAll = ''load-all''"
definition LoadLazy :: string where "LoadLazy = ''lazy''"
definition SyncGroup :: string where "SyncGroup = ''group''"
definition SyncAlways :: string where "SyncAlways = ''always''"
definition SyncNever :: string where "SyncNever = ''never''"

lemmas policy_defs = NoEviction_def AllKeysLRU_def AllKeysRandom_def VolatileLRU_def
  VolatileRandom_def VolatileTTL_def AllKeysLFU_def VolatileLFU_def
lemmas mode_defs = EvictPersist_def EvictCache_def LoadAll_def LoadLazy_def SyncGroup_def
  SyncAlways_def SyncNever_def

definition TypeString :: byte where "TypeString = 0"
definition TypeHash :: byte where "TypeHash = 1"
definition TypeList :: byte where "TypeList = 2"
definition TypeSet :: byte where "TypeSet = 3"
definition TypeZSet :: byte where "TypeZSet = 4"

lemmas type_defs = TypeString_def TypeHash_def TypeList_def TypeSet_def TypeZSet_def

definition TypeName :: "byte \<Rightarrow> string" where
  "TypeName t = (if t = TypeString then ''string'' else if t = TypeHash then ''hash''
     else if t = TypeList then ''list'' else if t = TypeSet then ''set''
     else if t = TypeZSet then ''zset'' else ''none'')"

record Config =
  Dir :: string
  RequirePass :: string
  MaxMemory :: "64 word"
  EvictionPolicy :: string
  EvictionMode :: string
  EvictionSample :: int
  LFUDecayMinutes :: int
  EvictionTargetRatio :: f64
  LuaTimeLimit :: int
  Databases :: int
  ShardCount :: int
  InlineValueMaxSize :: int
  LoadMode :: string
  BlockCacheSize :: int
  MemTableSize :: "64 word"
  L0CompactionThreshold :: int
  L0StopWritesThreshold :: int
  SyncPolicy :: string
  WALMinSyncInterval :: int
  ExpireCycleInterval :: int
  ExpireCycleBudget :: int
  ExpireBatch :: int

text \<open>The literal \<open>0.95\<close> is the double \<open>0x3FEE666666666666\<close>.\<close>

definition DefaultConfig :: Config where
  "DefaultConfig = \<lparr>Dir = '''', RequirePass = '''', MaxMemory = 0, EvictionPolicy = NoEviction,
     EvictionMode = EvictPersist, EvictionSample = 5, LFUDecayMinutes = 1,
     EvictionTargetRatio = 0x3FEE666666666666, LuaTimeLimit = 0, Databases = 16,
     ShardCount = 1024, InlineValueMaxSize = 256, LoadMode = LoadAll,
     BlockCacheSize = 64 * 2 ^ 20, MemTableSize = 64 * 2 ^ 20, L0CompactionThreshold = 8,
     L0StopWritesThreshold = 24, SyncPolicy = SyncGroup, WALMinSyncInterval = 200 * 1000,
     ExpireCycleInterval = 100 * 1000000, ExpireCycleBudget = 1000000, ExpireBatch = 256\<rparr>"

text \<open>\<open>strings.ToLower\<close> on ASCII text.\<close>

definition to_lower_char :: "char \<Rightarrow> char" where
  "to_lower_char c = (let n = of_char c :: nat in if 65 \<le> n \<and> n \<le> 90 then char_of (n + 32) else c)"

definition ToLower :: "string \<Rightarrow> string" where
  "ToLower s = map to_lower_char s"

definition f64_zero :: f64 where "f64_zero = 0"
definition f64_one :: f64 where "f64_one = 0x3FF0000000000000"

definition f64_le :: "f64 \<Rightarrow> f64 \<Rightarrow> bool" where
  "f64_le a b \<longleftrightarrow> \<not> f64_nan a \<and> \<not> f64_nan b \<and> f64_scaled a \<le> f64_scaled b"

definition policies :: "string list" where
  "policies = [NoEviction, AllKeysLRU, AllKeysRandom, VolatileLRU, VolatileRandom, VolatileTTL,
     AllKeysLFU, VolatileLFU]"

text \<open>The defaults that \<open>Validate\<close> fills in for unset or impossible numbers.\<close>

definition normalise :: "Config \<Rightarrow> Config" where
  "normalise c = c\<lparr>
     EvictionSample := (if EvictionSample c \<le> 0 then 5 else EvictionSample c),
     InlineValueMaxSize := (if InlineValueMaxSize c < 0 then 0 else InlineValueMaxSize c),
     BlockCacheSize := (if BlockCacheSize c \<le> 0 then 8 * 2 ^ 20 else BlockCacheSize c),
     MemTableSize := (if MemTableSize c = 0 then 64 * 2 ^ 20 else MemTableSize c),
     L0CompactionThreshold := (if L0CompactionThreshold c = 0 then 8 else L0CompactionThreshold c),
     L0StopWritesThreshold := (if L0StopWritesThreshold c = 0 then 24 else L0StopWritesThreshold c),
     WALMinSyncInterval := (if WALMinSyncInterval c \<le> 0 then 200 * 1000 else WALMinSyncInterval c),
     ExpireCycleInterval := (if ExpireCycleInterval c \<le> 0 then 100 * 1000000 else ExpireCycleInterval c),
     ExpireCycleBudget := (if ExpireCycleBudget c \<le> 0 then 1000000 else ExpireCycleBudget c),
     ExpireBatch := (if ExpireBatch c \<le> 0 then 256 else ExpireBatch c)\<rparr>"

definition Validate :: "Config \<Rightarrow> goerr + Config" where
  "Validate c0 =
     (if ShardCount c0 \<le> 0 \<or> ShardCount c0 AND (ShardCount c0 - 1) \<noteq> 0
      then Inl (ConfigError ''ShardCount must be a power of two'')
      else if f64_le (EvictionTargetRatio c0) f64_zero \<or> f64_le f64_one (EvictionTargetRatio c0)
      then Inl (ConfigError ''EvictionTargetRatio must be in (0,1)'')
      else let c = normalise c0 in
        if ToLower (EvictionPolicy c) \<notin> set policies
        then Inl (ConfigError ''unknown eviction policy'')
        else let c = c\<lparr>EvictionPolicy := ToLower (EvictionPolicy c)\<rparr> in
          if ToLower (EvictionMode c) \<notin> {EvictPersist, EvictCache}
          then Inl (ConfigError ''unknown eviction mode'')
          else let c = c\<lparr>EvictionMode := ToLower (EvictionMode c)\<rparr> in
            if ToLower (LoadMode c) \<notin> {LoadAll, LoadLazy}
            then Inl (ConfigError ''unknown load mode'')
            else let c = c\<lparr>LoadMode := ToLower (LoadMode c)\<rparr> in
              if ToLower (SyncPolicy c) \<notin> {SyncGroup, SyncAlways, SyncNever}
              then Inl (ConfigError ''unknown sync policy'')
              else let c = c\<lparr>SyncPolicy := ToLower (SyncPolicy c)\<rparr> in
                if MaxMemory c = 0 \<and> EvictionPolicy c \<noteq> NoEviction
                then Inl (ConfigError ''EvictionPolicy requires a non-zero MaxMemory'')
                else Inr c)"

definition EvictionEnabled :: "Config \<Rightarrow> bool" where
  "EvictionEnabled c \<longleftrightarrow> MaxMemory c > 0 \<and> EvictionPolicy c \<noteq> NoEviction"

definition TracksLRU :: "Config \<Rightarrow> bool" where
  "TracksLRU c \<longleftrightarrow> EvictionPolicy c \<in> {AllKeysLRU, VolatileLRU, VolatileTTL}"

definition TracksLFU :: "Config \<Rightarrow> bool" where
  "TracksLFU c \<longleftrightarrow> EvictionPolicy c \<in> {AllKeysLFU, VolatileLFU}"

definition VolatileOnly :: "Config \<Rightarrow> bool" where
  "VolatileOnly c \<longleftrightarrow> EvictionPolicy c \<in> {VolatileLRU, VolatileRandom, VolatileTTL, VolatileLFU}"

section \<open>What a validated configuration guarantees\<close>

text \<open>\<open>n AND (n - 1) = 0\<close> holds exactly for the powers of two.\<close>

lemma int_and_pred:
  fixes n :: int
  assumes "0 < n" "n AND (n - 1) = 0"
  shows "\<exists>k. n = 2 ^ k"
  using assms
proof (induction "nat n" arbitrary: n rule: less_induct)
  case less
  show ?case
  proof (cases "odd n")
    case True
    show ?thesis
    proof (cases "n = 1")
      case True
      then show ?thesis by (intro exI [of _ 0]) simp
    next
      case False
      have "(n AND (n - 1)) div 2 = n div 2 AND (n - 1) div 2"
        by (simp add: drop_bit_Suc [of 0, simplified, symmetric] flip: drop_bit_and)
      moreover have "(n - 1) div 2 = n div 2" using True by presburger
      ultimately have "n div 2 = 0" using less.prems by simp
      with False less.prems show ?thesis by presburger
    qed
  next
    case False
    define m where "m = n div 2"
    have n: "n = 2 * m" using False by (simp add: m_def)
    have m: "0 < m" using n less.prems by simp
    have "(n AND (n - 1)) div 2 = n div 2 AND (n - 1) div 2"
      by (simp add: drop_bit_Suc [of 0, simplified, symmetric] flip: drop_bit_and)
    moreover have "(n - 1) div 2 = m - 1" using n by presburger
    ultimately have "m AND (m - 1) = 0" using less.prems n by simp
    then obtain k where "m = 2 ^ k" using less.hyps [of m] n m by auto
    then show ?thesis using n by (intro exI [of _ "Suc k"]) simp
  qed
qed

lemma ToLower_policy: "p \<in> set policies \<Longrightarrow> ToLower p = p"
  by (auto simp: policies_def policy_defs ToLower_def to_lower_char_def)

lemma ToLower_mode: "m \<in> {EvictPersist, EvictCache, LoadAll, LoadLazy, SyncGroup, SyncAlways, SyncNever}
    \<Longrightarrow> ToLower m = m"
  by (auto simp: mode_defs ToLower_def to_lower_char_def)

lemma normalise_idem: "normalise (normalise c) = normalise c"
  by (simp add: normalise_def)

text \<open>A configuration that has passed validation.\<close>

definition config_ok :: "Config \<Rightarrow> bool" where
  "config_ok c \<longleftrightarrow> (\<exists>k. ShardCount c = 2 ^ k) \<and>
     \<not> f64_le (EvictionTargetRatio c) f64_zero \<and> \<not> f64_le f64_one (EvictionTargetRatio c) \<and>
     0 < EvictionSample c \<and> 0 \<le> InlineValueMaxSize c \<and> 0 < ExpireBatch c \<and>
     0 < ExpireCycleInterval c \<and> 0 < ExpireCycleBudget c \<and>
     EvictionPolicy c \<in> set policies \<and> EvictionMode c \<in> {EvictPersist, EvictCache} \<and>
     LoadMode c \<in> {LoadAll, LoadLazy} \<and> SyncPolicy c \<in> {SyncGroup, SyncAlways, SyncNever} \<and>
     (EvictionPolicy c = NoEviction \<or> EvictionEnabled c)"

lemma normalise_sel [simp]:
  "EvictionPolicy (normalise c) = EvictionPolicy c" "EvictionMode (normalise c) = EvictionMode c"
  "LoadMode (normalise c) = LoadMode c" "SyncPolicy (normalise c) = SyncPolicy c"
  "MaxMemory (normalise c) = MaxMemory c" "ShardCount (normalise c) = ShardCount c"
  "EvictionTargetRatio (normalise c) = EvictionTargetRatio c"
  by (simp_all add: normalise_def)

lemma Validate_shape:
  assumes "Validate c = Inr c'"
  shows "c' = (normalise c)\<lparr>EvictionPolicy := ToLower (EvictionPolicy c),
      EvictionMode := ToLower (EvictionMode c), LoadMode := ToLower (LoadMode c),
      SyncPolicy := ToLower (SyncPolicy c)\<rparr>"
    and "ToLower (EvictionPolicy c) \<in> set policies" "ToLower (EvictionMode c) \<in> {EvictPersist, EvictCache}"
    and "ToLower (LoadMode c) \<in> {LoadAll, LoadLazy}" "ToLower (SyncPolicy c) \<in> {SyncGroup, SyncAlways, SyncNever}"
    and "0 < ShardCount c" "ShardCount c AND (ShardCount c - 1) = 0"
    and "\<not> f64_le (EvictionTargetRatio c) f64_zero" "\<not> f64_le f64_one (EvictionTargetRatio c)"
    and "MaxMemory c = 0 \<Longrightarrow> ToLower (EvictionPolicy c) = NoEviction"
  using assms unfolding Validate_def Let_def
  by (simp_all split: if_split_asm del: insert_iff)

lemma Validate_config_ok:
  assumes "Validate c = Inr c'"
  shows "config_ok c'"
  using Validate_shape [OF assms] int_and_pred [of "ShardCount c"]
  by (auto simp: config_ok_def normalise_def EvictionEnabled_def word_gt_0)

lemma upd_same:
  "c\<lparr>EvictionPolicy := EvictionPolicy c\<rparr> = c" "c\<lparr>EvictionMode := EvictionMode c\<rparr> = c"
  "c\<lparr>LoadMode := LoadMode c\<rparr> = c" "c\<lparr>SyncPolicy := SyncPolicy c\<rparr> = c"
  by simp_all

lemma Validate_fixed:
  assumes "0 < ShardCount c" "ShardCount c AND (ShardCount c - 1) = 0"
    "\<not> f64_le (EvictionTargetRatio c) f64_zero" "\<not> f64_le f64_one (EvictionTargetRatio c)"
    "normalise c = c" "EvictionPolicy c \<in> set policies" "EvictionMode c \<in> {EvictPersist, EvictCache}"
    "LoadMode c \<in> {LoadAll, LoadLazy}" "SyncPolicy c \<in> {SyncGroup, SyncAlways, SyncNever}"
    "MaxMemory c = 0 \<Longrightarrow> EvictionPolicy c = NoEviction"
  shows "Validate c = Inr c"
proof -
  have l: "ToLower (EvictionPolicy c) = EvictionPolicy c" "ToLower (EvictionMode c) = EvictionMode c"
    "ToLower (LoadMode c) = LoadMode c" "ToLower (SyncPolicy c) = SyncPolicy c"
    using assms ToLower_policy ToLower_mode by auto
  have "\<not> ShardCount c \<le> 0" using assms(1) by simp
  then show ?thesis
    unfolding Validate_def Let_def assms(5) l upd_same using assms by auto
qed

lemma Validate_idem:
  assumes "Validate c = Inr c'"
  shows "Validate c' = Inr c'"
proof (rule Validate_fixed)
  note v = Validate_shape [OF assms]
  show "normalise c' = c'" using v(1) by (simp add: normalise_def)
  show "0 < ShardCount c'" "ShardCount c' AND (ShardCount c' - 1) = 0"
    "\<not> f64_le (EvictionTargetRatio c') f64_zero" "\<not> f64_le f64_one (EvictionTargetRatio c')"
    using v by (simp_all add: normalise_def)
  show "EvictionPolicy c' \<in> set policies" "EvictionMode c' \<in> {EvictPersist, EvictCache}"
    "LoadMode c' \<in> {LoadAll, LoadLazy}" "SyncPolicy c' \<in> {SyncGroup, SyncAlways, SyncNever}"
    using v(1-5) by simp_all
  show "EvictionPolicy c' = NoEviction" if "MaxMemory c' = 0"
    using that v(1,10) by (simp add: normalise_def)
qed

section \<open>Properties\<close>

lemma DefaultConfig_valid: "Validate DefaultConfig = Inr DefaultConfig"
proof -
  have "\<not> f64_le 0x3FEE666666666666 f64_zero" "\<not> f64_le f64_one 0x3FEE666666666666"
    using f64_mag_less [of 0 "0x3FEE666666666666"]
    by (simp_all add: f64_le_def f64_scaled_def f64_zero_def f64_one_def f64_mag_le)
  then show ?thesis by (intro Validate_fixed) (simp_all add: DefaultConfig_def normalise_def policies_def)
qed

text \<open>A configuration accepted by \<open>Validate\<close> has a power-of-two shard count, a target ratio
  strictly between 0 and 1, positive limits, known policy, mode and levels, and eviction only with
  a memory budget; validating it again changes nothing.\<close>

theorem validate_establishes:
  assumes "Validate c = Inr c'"
  shows "config_ok c' \<and> Validate c' = Inr c'"
  using assms Validate_config_ok Validate_idem by blast

theorem validate_establishes_witness:
  "config_ok DefaultConfig \<and> Validate DefaultConfig = Inr DefaultConfig"
  using validate_establishes[OF DefaultConfig_valid] .

end
