(* ===== verification/Entries.thy ===== *)
theory Entries
  imports Config
begin

text \<open>
  \<open>memory/clock.go\<close> and \<open>memory/entry.go\<close>: the cached clock, the 24-bit LRU clock, and the
  index entry with its packed LRU/LFU word.  The compare-and-swap loops of the source retry
  until no other writer interferes, so one operation is one update.  The random draw of
  \<open>shouldIncrFreq\<close> is the argument \<open>grow\<close>.
\<close>

section \<open>The clock\<close>

record Clock =
  cached :: int
  offset :: int

definition clock_tick :: "int \<Rightarrow> Clock \<Rightarrow> Clock" where
  "clock_tick wall c = c\<lparr>cached := wall + offset c\<rparr>"

definition NowMilli :: "int \<Rightarrow> Clock \<Rightarrow> int" where
  "NowMilli wall c = (if offset c \<noteq> 0 then wall + offset c else cached c)"

definition Advance :: "int \<Rightarrow> int \<Rightarrow> Clock \<Rightarrow> Clock" where
  "Advance wall d c = (let c' = c\<lparr>offset := offset c + d\<rparr> in c'\<lparr>cached := wall + offset c'\<rparr>)"

definition lruClockResolution :: int where "lruClockResolution = 1000"
definition LRUClockBits :: nat where "LRUClockBits = 24"
definition lruClockMask :: "32 word" where "lruClockMask = push_bit LRUClockBits 1 - 1"

definition LRUClock :: "int \<Rightarrow> 32 word" where
  "LRUClock nowMs = word_of_int (go_div nowMs lruClockResolution) AND lruClockMask"

definition Idle :: "32 word \<Rightarrow> 32 word \<Rightarrow> 32 word" where
  "Idle nowClock0 entryClock0 =
     (let nowClock = nowClock0 AND lruClockMask; entryClock = entryClock0 AND lruClockMask
      in if nowClock \<ge> entryClock then nowClock - entryClock
         else (lruClockMask + 1) + nowClock - entryClock)"

lemma lruClockMask_eq: "lruClockMask = mask 24"
  by (simp add: lruClockMask_def LRUClockBits_def push_bit_eq_mult mask_eq_exp_minus_1)

lemma and_lruClockMask: "w AND lruClockMask = take_bit 24 w"
  by (simp add: lruClockMask_eq take_bit_eq_mask)

lemma unat_take_bit24: "unat (take_bit 24 (w :: 32 word)) = unat w mod 2 ^ 24"
proof -
  have "unat (take_bit 24 w) = take_bit 24 (unat w)" by (rule unsigned_take_bit_eq)
  then show ?thesis by (simp only: take_bit_eq_mod [of 24 "unat w"])
qed

lemma Idle_mod:
  "int (unat (Idle n e)) = (int (unat n) - int (unat e)) mod 2 ^ 24"
proof -
  define a where "a = take_bit 24 n"
  define b where "b = take_bit 24 e"
  have ab: "unat a < 16777216" "unat b < 16777216"
    by (simp_all add: a_def b_def unat_take_bit24)
  have m: "(int (unat n) - int (unat e)) mod 16777216 = (int (unat a) - int (unat b)) mod 16777216"
    by (simp add: a_def b_def unat_take_bit24 zmod_int mod_diff_eq)
  have i: "Idle n e = (if b \<le> a then a - b else 16777216 + a - b)"
    by (simp add: Idle_def Let_def and_lruClockMask a_def b_def) (simp add: lruClockMask_eq mask_eq_exp_minus_1)
  show ?thesis
  proof (cases "b \<le> a")
    case True
    then have "unat b \<le> unat a" by (simp add: word_le_nat_alt)
    with True ab m i show ?thesis by (simp add: unat_sub del: of_nat_unat)
  next
    case False
    then have lt: "unat a < unat b" by (simp add: word_le_nat_alt)
    have s: "unat (16777216 + a) = 16777216 + unat a"
      using ab by (simp add: unat_word_ariths)
    have "b \<le> 16777216 + a" using ab s by (simp add: word_le_nat_alt)
    then have "unat (16777216 + a - b) = 16777216 + unat a - unat b"
      by (simp add: unat_sub s)
    moreover have "(int (unat a) - int (unat b)) mod 16777216 = int (unat a) - int (unat b) + 16777216"
      using lt ab mod_pos_pos_trivial [of "int (unat a) - int (unat b) + 16777216" 16777216]
      by (simp del: of_nat_unat)
    ultimately show ?thesis using False ab m i lt by (simp del: of_nat_unat)
  qed
qed

section \<open>The entry\<close>

definition lfuInitVal :: "32 word" where "lfuInitVal = 5"
definition lfuCounterMax :: "32 word" where "lfuCounterMax = 255"
definition entryBaseSize :: nat where "entryBaseSize = 64"

record Entry =
  e_key :: bytes
  e_typ :: byte
  e_expireAt :: int
  e_lru :: "32 word"
  e_size :: "32 word"
  e_version :: "64 word"
  e_inline :: bytes
  e_counter :: bool

definition entryMem :: "bytes \<Rightarrow> bytes \<Rightarrow> 32 word" where
  "entryMem key inl = of_nat (entryBaseSize + length key + length inl)"

definition newEntry :: "bytes \<Rightarrow> byte \<Rightarrow> int \<Rightarrow> bytes \<Rightarrow> int \<Rightarrow> 32 word \<Rightarrow> Entry" where
  "newEntry key typ expireAt payload inlineMax lruClock =
     (let inl = (if length payload > 0 \<and> int (length payload) \<le> inlineMax then payload else [])
      in \<lparr>e_key = key, e_typ = typ, e_expireAt = expireAt, e_lru = lruClock AND lruClockMask,
          e_size = entryMem key inl, e_version = 0, e_inline = inl, e_counter = False\<rparr>)"

definition Entry_SetExpiry :: "int \<Rightarrow> Entry \<Rightarrow> Entry" where
  "Entry_SetExpiry expireAt e = e\<lparr>e_expireAt := expireAt\<rparr>"

definition Expired :: "Entry \<Rightarrow> int \<Rightarrow> bool" where
  "Expired e nowMs \<longleftrightarrow> e_expireAt e \<noteq> 0 \<and> e_expireAt e \<le> nowMs"

definition EntryClock :: "Entry \<Rightarrow> 32 word" where
  "EntryClock e = e_lru e AND lruClockMask"

definition Freq :: "Entry \<Rightarrow> 8 word" where
  "Freq e = ucast (drop_bit LRUClockBits (e_lru e))"

definition Entry_Touch :: "32 word \<Rightarrow> Entry \<Rightarrow> Entry" where
  "Entry_Touch lruClock e =
     e\<lparr>e_lru := (e_lru e AND NOT lruClockMask) OR (lruClock AND lruClockMask)\<rparr>"

definition IncrFreq :: "bool \<Rightarrow> Entry \<Rightarrow> Entry" where
  "IncrFreq grow e =
     (let old = e_lru e; freq = drop_bit LRUClockBits old
      in if freq \<ge> lfuCounterMax then e
         else if \<not> grow then e
         else e\<lparr>e_lru := old + push_bit LRUClockBits 1\<rparr>)"

definition DecayFreq :: "Entry \<Rightarrow> Entry" where
  "DecayFreq e =
     (let old = e_lru e; freq = drop_bit LRUClockBits old
      in if freq \<le> lfuInitVal then e
         else e\<lparr>e_lru := push_bit LRUClockBits (freq div 2) OR (old AND lruClockMask)\<rparr>)"

definition Decay :: "32 word \<Rightarrow> int \<Rightarrow> Entry \<Rightarrow> Entry" where
  "Decay nowClock decayMinutes e =
     (if decayMinutes \<le> 0 then e
      else let elapsedSec = Idle nowClock (EntryClock e) in
        if elapsedSec = 0 then e
        else let periods = go_div (uint elapsedSec) (60 * decayMinutes) in
          if periods \<le> 0 then e
          else let old = e_lru e; freq = drop_bit LRUClockBits old in
            if freq \<le> lfuInitVal then e
            else let next = freq - word_of_int periods;
                     next' = (if next < lfuInitVal then lfuInitVal else next)
                 in e\<lparr>e_lru := push_bit LRUClockBits next' OR (old AND lruClockMask)\<rparr>)"

definition SetFreq :: "8 word \<Rightarrow> Entry \<Rightarrow> Entry" where
  "SetFreq freq e =
     e\<lparr>e_lru := push_bit LRUClockBits (ucast freq) OR (e_lru e AND lruClockMask)\<rparr>"

definition bumpVersion :: "Entry \<Rightarrow> 64 word" where
  "bumpVersion e = e_version e + 1"

definition Entry_SetCounter :: "bool \<Rightarrow> Entry \<Rightarrow> Entry" where
  "Entry_SetCounter v e = e\<lparr>e_counter := v\<rparr>"

section \<open>Packing of the two counters\<close>

text \<open>The packed word is a frequency in the high 8 bits and a clock in the low 24 bits.\<close>

definition pack :: "32 word \<Rightarrow> 32 word \<Rightarrow> 32 word" where
  "pack freq clk = push_bit LRUClockBits freq OR (clk AND lruClockMask)"

lemma low_pack [simp]: "pack freq clk AND lruClockMask = clk AND lruClockMask"
  by (rule bit_word_eqI) (auto simp: pack_def lruClockMask_eq LRUClockBits_def bit_simps)

lemma high_pack [simp]: "(ucast (drop_bit LRUClockBits (pack freq clk)) :: 8 word) = ucast freq"
  by (rule bit_word_eqI) (auto simp: pack_def lruClockMask_eq LRUClockBits_def bit_simps)

lemma high_touch:
  "drop_bit LRUClockBits ((old AND NOT lruClockMask) OR (c AND lruClockMask)) = drop_bit LRUClockBits old"
  by (rule bit_word_eqI)
     (auto simp: lruClockMask_eq LRUClockBits_def bit_simps dest: bit_imp_le_length)

lemma low_touch:
  "((old AND NOT lruClockMask) OR (c AND lruClockMask)) AND lruClockMask = c AND lruClockMask"
  by (rule bit_word_eqI) (auto simp: lruClockMask_eq LRUClockBits_def bit_simps)

lemma Entry_Touch_keeps:
  "Freq (Entry_Touch c e) = Freq e" "EntryClock (Entry_Touch c e) = c AND lruClockMask"
  using high_touch [of "e_lru e" c] low_touch [of "e_lru e" c]
  by (simp_all add: Freq_def EntryClock_def Entry_Touch_def del: drop_bit_or)

lemma ucast_ucast_byte: "(ucast (ucast (f :: 8 word) :: 32 word) :: 8 word) = f"
  by (rule bit_word_eqI) (auto simp: bit_simps)

lemma SetFreq_Freq: "Freq (SetFreq f e) = f" "EntryClock (SetFreq f e) = EntryClock e"
  by (simp_all add: Freq_def EntryClock_def SetFreq_def ucast_ucast_byte flip: pack_def)

definition decay_periods :: "32 word \<Rightarrow> int \<Rightarrow> Entry \<Rightarrow> int" where
  "decay_periods nowClock decayMinutes e = int (unat (Idle nowClock (EntryClock e))) div (60 * decayMinutes)"

lemma freq_lt: "unat (drop_bit LRUClockBits (w :: 32 word)) < 256"
proof -
  have "unat (drop_bit LRUClockBits w) = drop_bit LRUClockBits (unat w)"
    by (rule unat_drop_bit_eq)
  then have "unat (drop_bit LRUClockBits w) = unat w div 2 ^ 24"
    by (simp only: LRUClockBits_def drop_bit_eq_div [of 24 "unat w"])
  then show ?thesis
    using unat_bound [of w] by (simp add: less_mult_imp_div_less)
qed

lemma unat_Freq: "unat (Freq e) = unat (drop_bit LRUClockBits (e_lru e))"
  using freq_lt [of "e_lru e"] by (simp add: Freq_def unsigned_ucast_eq take_bit_nat_eq_self)

lemma Decay_eq:
  assumes "0 < decayMinutes" "0 < decay_periods nowClock decayMinutes e" "5 < unat (Freq e)"
  shows "Decay nowClock decayMinutes e =
    (let next = drop_bit LRUClockBits (e_lru e) - word_of_int (decay_periods nowClock decayMinutes e)
     in e\<lparr>e_lru := pack (if next < lfuInitVal then lfuInitVal else next) (e_lru e)\<rparr>)"
proof -
  have "Idle nowClock (EntryClock e) \<noteq> 0"
    using assms(2) by (auto simp: decay_periods_def)
  moreover have "\<not> drop_bit LRUClockBits (e_lru e) \<le> lfuInitVal"
    using assms(3) by (simp add: unat_Freq word_le_nat_alt lfuInitVal_def)
  moreover have "go_div (uint (Idle nowClock (EntryClock e))) (60 * decayMinutes) =
      decay_periods nowClock decayMinutes e"
    using assms(1) by (simp add: decay_periods_def)
  ultimately show ?thesis
    using assms(1,2) by (simp add: Decay_def pack_def Let_def)
qed

lemma Decay_Freq:
  assumes "0 < decayMinutes" "0 < decay_periods nowClock decayMinutes e" "5 < unat (Freq e)"
    and "decay_periods nowClock decayMinutes e \<le> int (unat (Freq e))"
  shows "int (unat (Freq (Decay nowClock decayMinutes e))) =
      max 5 (int (unat (Freq e)) - decay_periods nowClock decayMinutes e)"
    and "EntryClock (Decay nowClock decayMinutes e) = EntryClock e"
proof -
  define p where "p = decay_periods nowClock decayMinutes e"
  define f where "f = drop_bit LRUClockBits (e_lru e)"
  define w :: "32 word" where "w = word_of_int p"
  define n where "n = (if f - w < lfuInitVal then lfuInitVal else f - w)"
  have f: "unat f = unat (Freq e)" "unat f < 256" by (simp_all add: f_def unat_Freq freq_lt)
  have p: "0 < p" "p \<le> int (unat f)" using assms(2,4) f by (simp_all add: p_def)
  have "p < 256" using p f(2) by linarith
  then have w: "int (unat w) = p"
    using p(1) by (simp add: w_def uint_word_of_int)
  have "w \<le> f" using p w by (simp add: word_le_nat_alt del: of_nat_unat)
  then have "unat (f - w) = unat f - unat w" by (rule unat_sub)
  then have n: "unat n = max 5 (unat f - unat w)"
    by (auto simp: n_def word_less_nat_alt lfuInitVal_def)
  then have "unat (ucast n :: 8 word) = max 5 (unat f - unat w)"
    using f by (simp add: unsigned_ucast_eq take_bit_nat_eq_self)
  moreover have "Freq (Decay nowClock decayMinutes e) = ucast n"
    unfolding Decay_eq [OF assms(1-3)] Let_def
    by (simp add: Freq_def n_def f_def w_def p_def)
  ultimately show "int (unat (Freq (Decay nowClock decayMinutes e))) =
      max 5 (int (unat (Freq e)) - decay_periods nowClock decayMinutes e)"
    using p w f(1) unfolding p_def [symmetric] by (simp del: of_nat_unat)
  show "EntryClock (Decay nowClock decayMinutes e) = EntryClock e"
    unfolding Decay_eq [OF assms(1-3)] by (simp add: EntryClock_def Let_def)
qed

section \<open>Properties\<close>

text \<open>The idle time of an entry is the difference of the two clocks modulo the 24 bits of the
  LRU clock, so a clock that has wrapped around is handled.\<close>

theorem idle_wraps:
  "int (unat (Idle n e)) = (int (unat n) - int (unat e)) mod 2 ^ 24"
  by (rule Idle_mod)

text \<open>LFU decay lowers the counter by one per idle period, never below 5, and leaves the clock
  bits alone, as long as the idle periods do not exceed the counter.\<close>

theorem decay_lowers_frequency:
  assumes "0 < decayMinutes" "0 < decay_periods nowClock decayMinutes e" "5 < unat (Freq e)"
    and "decay_periods nowClock decayMinutes e \<le> int (unat (Freq e))"
  shows "int (unat (Freq (Decay nowClock decayMinutes e))) =
           max 5 (int (unat (Freq e)) - decay_periods nowClock decayMinutes e) \<and>
         EntryClock (Decay nowClock decayMinutes e) = EntryClock e"
  using Decay_Freq [OF assms] by simp

definition sample_entry :: Entry where
  "sample_entry = \<lparr>e_key = [], e_typ = 0, e_expireAt = 0, e_lru = 0x0A000000, e_size = 64,
     e_version = 1, e_inline = [], e_counter = False\<rparr>"

theorem decay_lowers_frequency_witness:
  "int (unat (Freq (Decay 180 1 sample_entry))) = 7 \<and> EntryClock (Decay 180 1 sample_entry) = 0"
proof -
  have c: "EntryClock sample_entry = 0" "unat (Freq sample_entry) = 10"
    by code_simp+
  have p: "decay_periods 180 1 sample_entry = 3" by code_simp
  from decay_lowers_frequency [of 1 180 sample_entry] c p show ?thesis by simp
qed

text \<open>An entry idle for more periods than its counter is not decayed but promoted: the 32-bit
  subtraction wraps, and a counter of 10 after 20 idle minutes becomes 246.\<close>

theorem decay_wraps_to_hot:
  "unat (Freq sample_entry) = 10 \<and> decay_periods 1200 1 sample_entry = 20 \<and>
   unat (Freq (Decay 1200 1 sample_entry)) = 246"
  by code_simp

end
