(* ===== verification/Dict.thy ===== *)
theory Dict
  imports Entries
begin

text \<open>
  \<open>memory/dict.go\<close>: the sharded in-memory index.  A database is a list of shards, each a Go map
  from keys to entries, plus the list of the shards that hold keys and the position of each in
  that list.  The seeded hash of \<open>hash/maphash\<close> is the field \<open>env_hash\<close> of the environment.
  Every operation holds the shard's lock, so it is one step.
\<close>

section \<open>Definitions\<close>

record Env =
  env_now :: int
  env_cfg :: Config
  env_hash :: "bytes \<Rightarrow> 64 word"
  env_coin :: "bytes \<Rightarrow> bool"

type_synonym shard = "(bytes \<times> Entry) list"

record dbShards =
  ds_shards :: "shard list"
  ds_nonEmpty :: "nat list"
  ds_pos :: "nat \<Rightarrow> nat option"

record Dict =
  d_dbCount :: nat
  d_dbs :: "dbid \<Rightarrow> dbShards option"
  d_used :: int

definition newDBShards :: "nat \<Rightarrow> dbShards" where
  "newDBShards n = \<lparr>ds_shards = replicate n [], ds_nonEmpty = [], ds_pos = (\<lambda>_. None)\<rparr>"

definition shardFor :: "(bytes \<Rightarrow> 64 word) \<Rightarrow> dbShards \<Rightarrow> bytes \<Rightarrow> nat" where
  "shardFor h ds key = unat (h key AND of_nat (length (ds_shards ds) - 1))"

definition trackInsert :: "nat \<Rightarrow> dbShards \<Rightarrow> dbShards" where
  "trackInsert i ds =
     (if ds_pos ds i \<noteq> None then ds
      else ds\<lparr>ds_pos := (ds_pos ds)(i \<mapsto> length (ds_nonEmpty ds)), ds_nonEmpty := ds_nonEmpty ds @ [i]\<rparr>)"

definition trackEmpty :: "nat \<Rightarrow> dbShards \<Rightarrow> dbShards" where
  "trackEmpty i ds =
     (case ds_pos ds i of
        None \<Rightarrow> ds
      | Some p \<Rightarrow>
          let lst = length (ds_nonEmpty ds) - 1;
              ne = (ds_nonEmpty ds)[p := ds_nonEmpty ds ! lst];
              ps = (ds_pos ds)(ne ! p \<mapsto> p)
          in ds\<lparr>ds_nonEmpty := take lst ne, ds_pos := ps(i := None)\<rparr>)"

definition randomShard :: "nat \<Rightarrow> dbShards \<Rightarrow> nat option" where
  "randomShard r ds =
     (if ds_nonEmpty ds = [] then None
      else Some (ds_nonEmpty ds ! (r mod length (ds_nonEmpty ds))))"

definition NewDict :: "Config \<Rightarrow> Dict" where
  "NewDict c = \<lparr>d_dbCount = (if Databases c \<le> 0 then 16 else nat (Databases c)),
                d_dbs = (\<lambda>_. None), d_used = 0\<rparr>"

definition Valid :: "dbid \<Rightarrow> Dict \<Rightarrow> bool" where
  "Valid db d \<longleftrightarrow> unat db < d_dbCount d"

definition openDB :: "Env \<Rightarrow> dbid \<Rightarrow> Dict \<Rightarrow> dbShards \<times> Dict" where
  "openDB E db d =
     (case d_dbs d db of
        Some ds \<Rightarrow> (ds, d)
      | None \<Rightarrow> let fresh = newDBShards (nat (ShardCount (env_cfg E)))
                in (fresh, d\<lparr>d_dbs := (d_dbs d)(db \<mapsto> fresh)\<rparr>))"

definition setDB :: "dbid \<Rightarrow> dbShards \<Rightarrow> Dict \<Rightarrow> Dict" where
  "setDB db ds d = d\<lparr>d_dbs := (d_dbs d)(db \<mapsto> ds)\<rparr>"

definition addUsed :: "int \<Rightarrow> Dict \<Rightarrow> Dict" where
  "addUsed n d = d\<lparr>d_used := d_used d + n\<rparr>"

definition putShard :: "nat \<Rightarrow> shard \<Rightarrow> dbShards \<Rightarrow> dbShards" where
  "putShard i m ds = ds\<lparr>ds_shards := (ds_shards ds)[i := m]\<rparr>"

text \<open>Removal of a present entry, shared by \<open>Delete\<close>, \<open>DeleteExpired\<close> and \<open>SetExpiry\<close>.\<close>

definition dropEntry :: "dbid \<Rightarrow> nat \<Rightarrow> bytes \<Rightarrow> Entry \<Rightarrow> dbShards \<Rightarrow> Dict \<Rightarrow> Dict" where
  "dropEntry db i key e ds d =
     (let m' = AList.delete key (ds_shards ds ! i);
          ds' = putShard i m' ds
      in addUsed (- uint (e_size e)) (setDB db (if m' = [] then trackEmpty i ds' else ds') d))"

definition Delete :: "Env \<Rightarrow> dbid \<Rightarrow> bytes \<Rightarrow> Dict \<Rightarrow> Entry option \<times> Dict" where
  "Delete E db key d0 =
     (let (ds, d) = openDB E db d0; i = shardFor (env_hash E) ds key
      in case map_of (ds_shards ds ! i) key of
           None \<Rightarrow> (None, d)
         | Some e \<Rightarrow> (Some e, dropEntry db i key e ds d))"

definition Lookup :: "Env \<Rightarrow> dbid \<Rightarrow> bytes \<Rightarrow> Dict \<Rightarrow> Entry option \<times> Dict" where
  "Lookup E db key d0 =
     (let (ds, d) = openDB E db d0; i = shardFor (env_hash E) ds key
      in case map_of (ds_shards ds ! i) key of
           None \<Rightarrow> (None, d)
         | Some e \<Rightarrow> if Expired e (env_now E) then (None, snd (Delete E db key d)) else (Some e, d))"

definition freshLru :: "Env \<Rightarrow> 32 word" where
  "freshLru E = push_bit LRUClockBits lfuInitVal OR (LRUClock (env_now E) AND lruClockMask)"

definition SetCounter :: "Env \<Rightarrow> dbid \<Rightarrow> bytes \<Rightarrow> int \<Rightarrow> Dict \<Rightarrow> Dict" where
  "SetCounter E db key expireAt d0 =
     (let (ds, d) = openDB E db d0; i = shardFor (env_hash E) ds key; m = ds_shards ds ! i
      in case map_of m key of
           Some old \<Rightarrow>
             let e = (Entry_SetExpiry expireAt (Entry_SetCounter True old))\<lparr>e_version := bumpVersion old\<rparr>
             in setDB db (putShard i (AList.update key e m) ds) d
         | None \<Rightarrow>
             let e = (newEntry key TypeString expireAt [] (InlineValueMaxSize (env_cfg E))
                       (LRUClock (env_now E)))
                     \<lparr>e_counter := True, e_lru := freshLru E, e_version := 1\<rparr>
             in addUsed (uint (e_size e))
                  (setDB db (trackInsert i (putShard i (AList.update key e m) ds)) d))"

definition Touch :: "Env \<Rightarrow> dbid \<Rightarrow> bytes \<Rightarrow> Dict \<Rightarrow> Dict" where
  "Touch E db key d0 =
     (let clock = LRUClock (env_now E); decay = LFUDecayMinutes (env_cfg E);
          (ds, d) = openDB E db d0; i = shardFor (env_hash E) ds key; m = ds_shards ds ! i
      in case map_of m key of
           None \<Rightarrow> d
         | Some e \<Rightarrow>
             let e' = IncrFreq (env_coin E key) (Entry_Touch clock (Decay clock decay e))
             in setDB db (putShard i (AList.update key e' m) ds) d)"

definition Set :: "Env \<Rightarrow> dbid \<Rightarrow> bytes \<Rightarrow> byte \<Rightarrow> int \<Rightarrow> bytes \<Rightarrow> Dict \<Rightarrow> Dict" where
  "Set E db key typ expireAt payload d0 =
     (let (ds, d) = openDB E db d0; i = shardFor (env_hash E) ds key; m = ds_shards ds ! i;
          e = (newEntry key typ expireAt payload (InlineValueMaxSize (env_cfg E)) (LRUClock (env_now E)))
              \<lparr>e_lru := freshLru E\<rparr>
      in case map_of m key of
           Some old \<Rightarrow>
             let e' = e\<lparr>e_lru := e_lru old, e_version := bumpVersion old\<rparr>
             in addUsed (uint (e_size e') - uint (e_size old))
                  (setDB db (putShard i (AList.update key e' m) ds) d)
         | None \<Rightarrow>
             let e' = e\<lparr>e_version := 1\<rparr>
             in addUsed (uint (e_size e'))
                  (setDB db (trackInsert i (putShard i (AList.update key e' m) ds)) d))"

definition SetExpiry :: "Env \<Rightarrow> dbid \<Rightarrow> bytes \<Rightarrow> int \<Rightarrow> Dict \<Rightarrow> Entry option \<times> Dict" where
  "SetExpiry E db key expireAt d0 =
     (let (ds, d) = openDB E db d0; i = shardFor (env_hash E) ds key; m = ds_shards ds ! i
      in case map_of m key of
           None \<Rightarrow> (None, d)
         | Some e \<Rightarrow>
             if Expired e (env_now E) then (None, dropEntry db i key e ds d)
             else let e' = Entry_SetExpiry expireAt e
                  in (Some e', setDB db (putShard i (AList.update key e' m) ds) d))"

definition DeleteExpired :: "Env \<Rightarrow> dbid \<Rightarrow> bytes \<Rightarrow> int \<Rightarrow> Dict \<Rightarrow> bool \<times> Dict" where
  "DeleteExpired E db key nowMs d0 =
     (let (ds, d) = openDB E db d0; i = shardFor (env_hash E) ds key
      in case map_of (ds_shards ds ! i) key of
           None \<Rightarrow> (False, d)
         | Some e \<Rightarrow> if \<not> Expired e nowMs then (False, d) else (True, dropEntry db i key e ds d))"

text \<open>\<open>Rename\<close> moves an entry between shards; only one of the two shards is re-tracked.\<close>

definition Rename :: "Env \<Rightarrow> dbid \<Rightarrow> bytes \<Rightarrow> bytes \<Rightarrow> Dict \<Rightarrow> Entry option \<times> Dict" where
  "Rename E db src dst d0 =
     (if src = dst then Lookup E db src d0
      else
        let (ds, d) = openDB E db d0;
            i = shardFor (env_hash E) ds src; j = shardFor (env_hash E) ds dst
        in case map_of (ds_shards ds ! i) src of
             None \<Rightarrow> (None, d)
           | Some e \<Rightarrow>
               let ds1 = putShard i (AList.delete src (ds_shards ds ! i)) ds;
                   d1 = (case map_of (ds_shards ds1 ! j) dst of
                           Some old \<Rightarrow> addUsed (- uint (e_size old)) d | None \<Rightarrow> d);
                   e' = e\<lparr>e_key := dst, e_size := entryMem dst (e_inline e)\<rparr>;
                   d2 = addUsed (uint (e_size e') - uint (e_size e)) d1;
                   ds2 = putShard j (AList.update dst e' (ds_shards ds1 ! j)) ds1
               in (Some e',
                   setDB db (if i = j then ds2
                             else if ds_shards ds2 ! i = [] then trackEmpty i ds2
                             else trackInsert j ds2) d2))"

definition Len :: "dbid \<Rightarrow> Dict \<Rightarrow> nat" where
  "Len db d = (case d_dbs d db of None \<Rightarrow> 0 | Some ds \<Rightarrow> sum_list (map length (ds_shards ds)))"

definition Keys :: "dbid \<Rightarrow> Dict \<Rightarrow> bytes list" where
  "Keys db d = (case d_dbs d db of None \<Rightarrow> [] | Some ds \<Rightarrow> concat (map (map fst) (ds_shards ds)))"

definition ds_bytes :: "dbShards \<Rightarrow> int" where
  "ds_bytes ds = sum_list (map (\<lambda>m. sum_list (map (\<lambda>ke. uint (e_size (snd ke))) m)) (ds_shards ds))"

definition db_bytes :: "dbShards option \<Rightarrow> int" where
  "db_bytes dso = (case dso of None \<Rightarrow> 0 | Some ds \<Rightarrow> ds_bytes ds)"

definition recomputeUsed :: "Dict \<Rightarrow> Dict" where
  "recomputeUsed d =
     d\<lparr>d_used := sum_list (map (\<lambda>db. db_bytes (d_dbs d (of_nat db))) [0..<d_dbCount d])\<rparr>"

definition Flush :: "Env \<Rightarrow> dbid \<Rightarrow> Dict \<Rightarrow> Dict" where
  "Flush E db d = recomputeUsed (setDB db (newDBShards (nat (ShardCount (env_cfg E)))) d)"

text \<open>\<open>r\<close> is the random shard draw, \<open>k\<close> picks the entry the randomised map range meets first.\<close>

definition RandomKey :: "nat \<Rightarrow> nat \<Rightarrow> dbid \<Rightarrow> Dict \<Rightarrow> bytes option" where
  "RandomKey r k db d =
     (case d_dbs d db of None \<Rightarrow> None
      | Some ds \<Rightarrow> (case randomShard r ds of None \<Rightarrow> None
          | Some i \<Rightarrow> (let m = ds_shards ds ! i in
                        if m = [] then None else Some (fst (m ! (k mod length m))))))"

section \<open>The index as a map\<close>

definition dlook :: "Env \<Rightarrow> Dict \<Rightarrow> dbid \<Rightarrow> bytes \<Rightarrow> Entry option" where
  "dlook E d db key =
     (case d_dbs d db of None \<Rightarrow> None
      | Some ds \<Rightarrow> map_of (ds_shards ds ! shardFor (env_hash E) ds key) key)"

definition env_ok :: "Env \<Rightarrow> bool" where
  "env_ok E \<longleftrightarrow> 0 < ShardCount (env_cfg E)"

definition dict_wf :: "Dict \<Rightarrow> bool" where
  "dict_wf d \<longleftrightarrow> (\<forall>db ds. d_dbs d db = Some ds \<longrightarrow> ds_shards ds \<noteq> [])"

lemma shardFor_less: "ds_shards ds \<noteq> [] \<Longrightarrow> shardFor h ds key < length (ds_shards ds)"
proof -
  assume ne: "ds_shards ds \<noteq> []"
  have "h key AND of_nat (length (ds_shards ds) - 1) \<le> of_nat (length (ds_shards ds) - 1)"
    by (rule word_and_le1)
  then have "shardFor h ds key \<le> unat (of_nat (length (ds_shards ds) - 1) :: 64 word)"
    by (simp add: shardFor_def word_le_nat_alt)
  also have "\<dots> \<le> length (ds_shards ds) - 1"
    by (simp add: unat_of_nat)
  finally show ?thesis using ne by (metis Suc_pred' le_imp_less_Suc length_greater_0_conv)
qed

lemma shards_track [simp]:
  "ds_shards (trackInsert i ds) = ds_shards ds" "ds_shards (trackEmpty i ds) = ds_shards ds"
  by (auto simp: trackInsert_def trackEmpty_def Let_def split: option.splits)

lemma shards_putShard [simp]: "ds_shards (putShard i m ds) = (ds_shards ds)[i := m]"
  by (simp add: putShard_def)

lemma shardFor_cong: "length (ds_shards ds) = length (ds_shards ds') \<Longrightarrow> shardFor h ds = shardFor h ds'"
  by (rule ext) (simp add: shardFor_def)

lemma openDB_facts:
  assumes "openDB E db d0 = (ds, d)" "dict_wf d0" "env_ok E"
  shows "d_dbs d db = Some ds" "ds_shards ds \<noteq> []" "dict_wf d" "dlook E d = dlook E d0"
    "d_used d = d_used d0" "d_dbCount d = d_dbCount d0"
    "\<And>db'. db' \<noteq> db \<Longrightarrow> d_dbs d db' = d_dbs d0 db'"
proof -
  have n: "newDBShards (nat (ShardCount (env_cfg E))) = ds \<Longrightarrow> ds_shards ds \<noteq> []"
    using assms(3) by (auto simp: newDBShards_def env_ok_def)
  show "d_dbs d db = Some ds" "d_used d = d_used d0" "d_dbCount d = d_dbCount d0"
    using assms(1) by (auto simp: openDB_def Let_def split: option.splits)
  show "\<And>db'. db' \<noteq> db \<Longrightarrow> d_dbs d db' = d_dbs d0 db'"
    using assms(1) by (auto simp: openDB_def Let_def split: option.splits)
  show ne: "ds_shards ds \<noteq> []"
    using assms n by (auto simp: openDB_def dict_wf_def Let_def split: option.splits)
  show "dict_wf d"
    using assms ne by (auto simp: openDB_def dict_wf_def Let_def split: option.splits if_splits)
  have "newDBShards (nat (ShardCount (env_cfg E))) = ds \<Longrightarrow>
      ds_shards ds ! shardFor h ds key = []" for h key
    using shardFor_less [OF ne, of h key] by (auto simp: newDBShards_def)
  then show "dlook E d = dlook E d0"
    using assms(1) by (auto simp: openDB_def dlook_def fun_eq_iff Let_def split: option.splits if_splits)
qed

text \<open>Replacing one shard of one database changes the map at the keys of that shard only.\<close>

lemma dlook_setDB:
  assumes "d_dbs d db = Some ds" "ds_shards ds \<noteq> []"
    and "ds_shards ds' = (ds_shards ds)[shardFor (env_hash E) ds key := m']"
    and "\<And>k. k \<noteq> key \<Longrightarrow> map_of m' k = map_of (ds_shards ds ! shardFor (env_hash E) ds key) k"
  shows "dlook E (setDB db ds' d) = (\<lambda>x y. if x = db \<and> y = key then map_of m' key else dlook E d x y)"
proof (intro ext)
  fix x y
  have s: "shardFor (env_hash E) ds' = shardFor (env_hash E) ds"
    by (rule shardFor_cong) (simp add: assms(3))
  show "dlook E (setDB db ds' d) x y = (if x = db \<and> y = key then map_of m' key else dlook E d x y)"
    using assms shardFor_less [OF assms(2), of "env_hash E" key] s
    by (auto simp: dlook_def setDB_def nth_list_update)
qed

lemma dlook_addUsed [simp]: "dlook E (addUsed n d) = dlook E d"
  by (simp add: dlook_def addUsed_def fun_eq_iff)

lemma dict_wf_addUsed [simp]: "dict_wf (addUsed n d) = dict_wf d"
  by (simp add: dict_wf_def addUsed_def)

lemma dict_wf_setDB [simp]: "dict_wf d \<Longrightarrow> ds_shards ds \<noteq> [] \<Longrightarrow> dict_wf (setDB db ds d)"
  by (auto simp: dict_wf_def setDB_def)

lemma dlook_open: "d_dbs d db = Some ds \<Longrightarrow> dlook E d db key = map_of (ds_shards ds ! shardFor (env_hash E) ds key) key"
  by (simp add: dlook_def)

lemma dlook_upd:
  assumes "d_dbs d db = Some ds" "ds_shards ds \<noteq> []"
    and "ds_shards ds' = (ds_shards ds)[shardFor (env_hash E) ds key :=
           AList.update key e (ds_shards ds ! shardFor (env_hash E) ds key)]"
  shows "dlook E (setDB db ds' d) = (\<lambda>x y. if x = db \<and> y = key then Some e else dlook E d x y)"
  using dlook_setDB [OF assms] by (simp add: update_conv' fun_eq_iff)

lemma dlook_del:
  assumes "d_dbs d db = Some ds" "ds_shards ds \<noteq> []"
    and "ds_shards ds' = (ds_shards ds)[shardFor (env_hash E) ds key :=
           AList.delete key (ds_shards ds ! shardFor (env_hash E) ds key)]"
  shows "dlook E (setDB db ds' d) = (\<lambda>x y. if x = db \<and> y = key then None else dlook E d x y)"
  using dlook_setDB [OF assms] by (simp add: delete_conv' fun_eq_iff)

lemma dlook_dropEntry:
  assumes "d_dbs d db = Some ds" "ds_shards ds \<noteq> []"
  shows "dlook E (dropEntry db (shardFor (env_hash E) ds key) key e ds d) =
           (\<lambda>x y. if x = db \<and> y = key then None else dlook E d x y)"
  unfolding dropEntry_def Let_def dlook_addUsed by (rule dlook_del [OF assms]) simp

lemma dict_wf_dropEntry [simp]:
  "dict_wf d \<Longrightarrow> ds_shards ds \<noteq> [] \<Longrightarrow> dict_wf (dropEntry db i key e ds d)"
  by (simp add: dropEntry_def Let_def)

lemma Delete_spec:
  assumes "dict_wf d" "env_ok E"
  shows "fst (Delete E db key d) = dlook E d db key"
    and "dlook E (snd (Delete E db key d)) = (\<lambda>x y. if x = db \<and> y = key then None else dlook E d x y)"
    and "dict_wf (snd (Delete E db key d))"
proof -
  obtain ds d1 where o: "openDB E db d = (ds, d1)" by fastforce
  note f = openDB_facts [OF o assms]
  have k: "dlook E d db key = map_of (ds_shards ds ! shardFor (env_hash E) ds key) key"
    using dlook_open [OF f(1), of E key] f(4) by simp
  show "fst (Delete E db key d) = dlook E d db key"
    by (simp add: Delete_def Let_def o k split: option.splits)
  show "dlook E (snd (Delete E db key d)) = (\<lambda>x y. if x = db \<and> y = key then None else dlook E d x y)"
    using f k by (auto simp: Delete_def Let_def o dlook_dropEntry fun_eq_iff split: option.splits)
  show "dict_wf (snd (Delete E db key d))"
    using f by (simp add: Delete_def Let_def o split: option.splits)
qed

lemma Lookup_spec:
  assumes "dict_wf d" "env_ok E"
  shows "fst (Lookup E db key d) =
      (case dlook E d db key of None \<Rightarrow> None | Some e \<Rightarrow> if Expired e (env_now E) then None else Some e)"
    and "dlook E (snd (Lookup E db key d)) =
      (\<lambda>x y. if x = db \<and> y = key then fst (Lookup E db key d) else dlook E d x y)"
    and "dict_wf (snd (Lookup E db key d))"
proof -
  obtain ds d1 where o: "openDB E db d = (ds, d1)" by fastforce
  note f = openDB_facts [OF o assms]
  have k: "dlook E d db key = map_of (ds_shards ds ! shardFor (env_hash E) ds key) key"
    using dlook_open [OF f(1), of E key] f(4) by simp
  show 1: "fst (Lookup E db key d) =
      (case dlook E d db key of None \<Rightarrow> None | Some e \<Rightarrow> if Expired e (env_now E) then None else Some e)"
    by (simp add: Lookup_def Let_def o k split: option.splits)
  show "dlook E (snd (Lookup E db key d)) =
      (\<lambda>x y. if x = db \<and> y = key then fst (Lookup E db key d) else dlook E d x y)"
    using f k Delete_spec(2) [OF f(3) assms(2)]
    by (auto simp: Lookup_def Let_def o fun_eq_iff split: option.splits)
  show "dict_wf (snd (Lookup E db key d))"
    using f Delete_spec(3) [OF f(3) assms(2)] by (simp add: Lookup_def Let_def o split: option.splits)
qed

text \<open>The entry that \<open>Set\<close> stores, up to its access history and version.\<close>

definition set_entry :: "Env \<Rightarrow> bytes \<Rightarrow> byte \<Rightarrow> int \<Rightarrow> bytes \<Rightarrow> Entry option \<Rightarrow> Entry" where
  "set_entry E key typ expireAt payload old =
     (newEntry key typ expireAt payload (InlineValueMaxSize (env_cfg E)) (LRUClock (env_now E)))
       \<lparr>e_lru := (case old of None \<Rightarrow> freshLru E | Some e \<Rightarrow> e_lru e),
        e_version := (case old of None \<Rightarrow> 1 | Some e \<Rightarrow> bumpVersion e)\<rparr>"

lemma Set_spec:
  assumes "dict_wf d" "env_ok E"
  shows "dlook E (Set E db key typ expireAt payload d) =
      (\<lambda>x y. if x = db \<and> y = key then Some (set_entry E key typ expireAt payload (dlook E d db key))
             else dlook E d x y)"
    and "dict_wf (Set E db key typ expireAt payload d)"
proof -
  obtain ds d1 where o: "openDB E db d = (ds, d1)" by fastforce
  note f = openDB_facts [OF o assms]
  have k: "dlook E d db key = map_of (ds_shards ds ! shardFor (env_hash E) ds key) key"
    using dlook_open [OF f(1), of E key] f(4) by simp
  show "dlook E (Set E db key typ expireAt payload d) =
      (\<lambda>x y. if x = db \<and> y = key then Some (set_entry E key typ expireAt payload (dlook E d db key))
             else dlook E d x y)"
    using k [symmetric] f(4)
    by (cases "dlook E d db key")
       (simp_all add: Set_def o Let_def set_entry_def dlook_upd [OF f(1,2)] fun_eq_iff)
  show "dict_wf (Set E db key typ expireAt payload d)"
    using f by (simp add: Set_def o Let_def split: option.splits)
qed

definition counter_entry :: "Env \<Rightarrow> bytes \<Rightarrow> int \<Rightarrow> Entry option \<Rightarrow> Entry" where
  "counter_entry E key expireAt old =
     (case old of
        Some e \<Rightarrow> e\<lparr>e_counter := True, e_expireAt := expireAt, e_version := bumpVersion e\<rparr>
      | None \<Rightarrow> (newEntry key TypeString expireAt [] (InlineValueMaxSize (env_cfg E)) (LRUClock (env_now E)))
                 \<lparr>e_counter := True, e_lru := freshLru E, e_version := 1\<rparr>)"

lemma SetCounter_spec:
  assumes "dict_wf d" "env_ok E"
  shows "dlook E (SetCounter E db key expireAt d) =
      (\<lambda>x y. if x = db \<and> y = key then Some (counter_entry E key expireAt (dlook E d db key))
             else dlook E d x y)"
    and "dict_wf (SetCounter E db key expireAt d)"
proof -
  obtain ds d1 where o: "openDB E db d = (ds, d1)" by fastforce
  note f = openDB_facts [OF o assms]
  have k: "dlook E d db key = map_of (ds_shards ds ! shardFor (env_hash E) ds key) key"
    using dlook_open [OF f(1), of E key] f(4) by simp
  show "dlook E (SetCounter E db key expireAt d) =
      (\<lambda>x y. if x = db \<and> y = key then Some (counter_entry E key expireAt (dlook E d db key))
             else dlook E d x y)"
    using k [symmetric] f(4)
    by (cases "dlook E d db key")
       (simp_all add: SetCounter_def o Let_def counter_entry_def Entry_SetExpiry_def
          Entry_SetCounter_def dlook_upd [OF f(1,2)] fun_eq_iff)
  show "dict_wf (SetCounter E db key expireAt d)"
    using f by (simp add: SetCounter_def o Let_def split: option.splits)
qed

text \<open>\<open>Touch\<close> changes nothing but the access word.\<close>

definition same_but_lru :: "Entry \<Rightarrow> Entry \<Rightarrow> bool" where
  "same_but_lru e e' \<longleftrightarrow> (\<exists>w. e' = e\<lparr>e_lru := w\<rparr>)"

lemma touched_same_but_lru: "same_but_lru e (IncrFreq g (Entry_Touch c (Decay c dm e)))"
proof -
  have d: "\<exists>w. Decay c dm e = e\<lparr>e_lru := w\<rparr>"
    by (auto simp: Decay_def Let_def intro: exI [of _ "e_lru e"])
  then have t: "\<exists>w. Entry_Touch c (Decay c dm e) = e\<lparr>e_lru := w\<rparr>"
    by (auto simp: Entry_Touch_def)
  have "\<exists>w. IncrFreq g e' = e'\<lparr>e_lru := w\<rparr>" for e' :: Entry
    by (auto simp: IncrFreq_def Let_def intro: exI [of _ "e_lru e'"])
  with t show ?thesis unfolding same_but_lru_def by (metis Entry.update_convs(4) Entry.surjective)
qed

lemma Touch_spec:
  assumes "dict_wf d" "env_ok E"
  shows "\<exists>f. (\<forall>e. same_but_lru e (f e)) \<and> dlook E (Touch E db key d) =
      (\<lambda>x y. if x = db \<and> y = key then map_option f (dlook E d db key) else dlook E d x y)"
    and "dict_wf (Touch E db key d)"
proof -
  obtain ds d1 where o: "openDB E db d = (ds, d1)" by fastforce
  note f = openDB_facts [OF o assms]
  have k: "dlook E d db key = map_of (ds_shards ds ! shardFor (env_hash E) ds key) key"
    using dlook_open [OF f(1), of E key] f(4) by simp
  let ?f = "\<lambda>e. IncrFreq (env_coin E key) (Entry_Touch (LRUClock (env_now E))
      (Decay (LRUClock (env_now E)) (LFUDecayMinutes (env_cfg E)) e))"
  have "dlook E (Touch E db key d) =
      (\<lambda>x y. if x = db \<and> y = key then map_option ?f (dlook E d db key) else dlook E d x y)"
    using k [symmetric] f(4)
    by (cases "dlook E d db key")
       (simp_all add: Touch_def o Let_def dlook_upd [OF f(1,2)] fun_eq_iff)
  then show "\<exists>f. (\<forall>e. same_but_lru e (f e)) \<and> dlook E (Touch E db key d) =
      (\<lambda>x y. if x = db \<and> y = key then map_option f (dlook E d db key) else dlook E d x y)"
    using touched_same_but_lru by (intro exI [of _ ?f]) auto
  show "dict_wf (Touch E db key d)"
    using f by (simp add: Touch_def o Let_def split: option.splits)
qed

lemmas dict_specs = Delete_spec Lookup_spec Set_spec SetCounter_spec

end
