(* ===== verification/Accounting.thy ===== *)
theory Accounting
  imports Dict
begin

text \<open>
  The representation invariant of the index (\<open>memory/dict.go\<close>): every key sits in the shard its
  hash selects, the list of non-empty shards and the position table describe each other and are
  exact, and \<open>used\<close> is the sum of the entry sizes.  Every operation that the store calls keeps it.
\<close>

section \<open>The invariant\<close>

definition track_ok :: "dbShards \<Rightarrow> bool" where
  "track_ok ds \<longleftrightarrow>
     (\<forall>i p. ds_pos ds i = Some p \<longleftrightarrow> p < length (ds_nonEmpty ds) \<and> ds_nonEmpty ds ! p = i) \<and>
     (\<forall>i. i \<in> set (ds_nonEmpty ds) \<longleftrightarrow> i < length (ds_shards ds) \<and> ds_shards ds ! i \<noteq> [])"

definition shard_ok :: "(bytes \<Rightarrow> 64 word) \<Rightarrow> dbShards \<Rightarrow> nat \<Rightarrow> shard \<Rightarrow> bool" where
  "shard_ok h ds i m \<longleftrightarrow> gmap_ok m \<and>
     (\<forall>k e. map_of m k = Some e \<longrightarrow> shardFor h ds k = i \<and> e_key e = k \<and> e_size e = entryMem k (e_inline e))"

definition ds_ok :: "(bytes \<Rightarrow> 64 word) \<Rightarrow> dbShards \<Rightarrow> bool" where
  "ds_ok h ds \<longleftrightarrow> ds_shards ds \<noteq> [] \<and> track_ok ds \<and>
     (\<forall>i < length (ds_shards ds). shard_ok h ds i (ds_shards ds ! i))"

definition dict_ok :: "Env \<Rightarrow> Dict \<Rightarrow> bool" where
  "dict_ok E d \<longleftrightarrow>
     (\<forall>db ds. d_dbs d db = Some ds \<longrightarrow> ds_ok (env_hash E) ds \<and> Valid db d) \<and>
     d_used d = (\<Sum>db | unat db < d_dbCount d. db_bytes (d_dbs d db))"

lemma dict_ok_wf: "dict_ok E d \<Longrightarrow> dict_wf d"
  by (auto simp: dict_ok_def dict_wf_def ds_ok_def)

section \<open>Sums of entry sizes\<close>

abbreviation msize :: "shard \<Rightarrow> int" where
  "msize m \<equiv> sum_list (map (\<lambda>ke. uint (e_size (snd ke))) m)"

lemma msize_update:
  "gmap_ok m \<Longrightarrow> msize (AList.update k e m) =
     msize m + uint (e_size e) - (case map_of m k of None \<Rightarrow> 0 | Some old \<Rightarrow> uint (e_size old))"
  by (induction m) (auto simp: gmap_ok_def split: option.splits dest: map_of_SomeD)

lemma delete_notin: "k \<notin> fst ` set m \<Longrightarrow> AList.delete k m = m"
  by (simp add: delete_id)

lemma msize_delete:
  "gmap_ok m \<Longrightarrow> map_of m k = Some e \<Longrightarrow> msize (AList.delete k m) = msize m - uint (e_size e)"
proof (induction m)
  case Nil
  then show ?case by simp
next
  case (Cons x m)
  obtain k' e' where x: "x = (k', e')" by fastforce
  show ?case
  proof (cases "k' = k")
    case True
    with Cons.prems x have "k \<notin> fst ` set m" by (auto simp: gmap_ok_def)
    with True Cons.prems x show ?thesis by (simp add: delete_notin)
  next
    case False
    with Cons x show ?thesis by (auto simp: gmap_ok_def)
  qed
qed

lemma sum_list_upd:
  fixes xs :: "int list"
  shows "i < length xs \<Longrightarrow> sum_list (xs[i := x]) = sum_list xs + x - xs ! i"
proof (induction xs arbitrary: i)
  case Nil
  then show ?case by simp
next
  case (Cons a xs)
  then show ?case by (cases i) auto
qed

lemma ds_bytes_putShard:
  "i < length (ds_shards ds) \<Longrightarrow> ds_bytes (putShard i m ds) = ds_bytes ds + msize m - msize (ds_shards ds ! i)"
  by (simp add: ds_bytes_def map_update sum_list_upd)

lemma ds_bytes_track [simp]:
  "ds_bytes (trackInsert i ds) = ds_bytes ds" "ds_bytes (trackEmpty i ds) = ds_bytes ds"
  by (simp_all add: ds_bytes_def)

lemma ds_bytes_new [simp]: "ds_bytes (newDBShards n) = 0"
  by (simp add: ds_bytes_def newDBShards_def sum_list_replicate)

lemma db_sum_upd:
  assumes "unat (db :: dbid) < n"
  shows "(\<Sum>x | unat (x :: dbid) < n. db_bytes ((f(db \<mapsto> ds)) x)) =
         (\<Sum>x | unat x < n. db_bytes (f x)) + ds_bytes ds - db_bytes (f db)"
proof -
  have fin: "finite {x :: dbid. unat x < n}" by simp
  have mem: "db \<in> {x. unat x < n}" using assms by simp
  have "(\<Sum>x\<in>{x. unat x < n} - {db}. db_bytes ((f(db \<mapsto> ds)) x)) =
        (\<Sum>x\<in>{x. unat x < n} - {db}. db_bytes (f x))"
    by (rule sum.cong) auto
  then show ?thesis
    by (simp add: sum.remove [OF fin mem] db_bytes_def)
qed

section \<open>Tracking of the non-empty shards\<close>

lemma track_ok_insert:
  assumes "track_ok ds" "i < length (ds_shards ds)" "m \<noteq> []"
  shows "track_ok (trackInsert i (putShard i m ds))"
proof (cases "ds_pos ds i")
  case (Some p)
  then have "ds_shards ds ! i \<noteq> []"
    using assms(1) by (metis nth_mem track_ok_def)
  with Some assms show ?thesis
    by (auto simp: track_ok_def trackInsert_def putShard_def nth_list_update)
next
  case None
  then have i: "i \<notin> set (ds_nonEmpty ds)"
    using assms(1) by (metis in_set_conv_nth option.distinct(1) track_ok_def)
  with None assms show ?thesis
    by (auto simp: track_ok_def trackInsert_def putShard_def nth_list_update nth_append less_Suc_eq)
qed

lemma track_ok_put:
  assumes "track_ok ds" "i < length (ds_shards ds)" "(m = []) = (ds_shards ds ! i = [])"
  shows "track_ok (putShard i m ds)"
  using assms by (auto simp: track_ok_def putShard_def nth_list_update)

lemma swap_remove:
  fixes ne :: "nat list" and pos :: "nat \<Rightarrow> nat option"
  assumes pos: "\<And>j q. pos j = Some q \<longleftrightarrow> q < length ne \<and> ne ! q = j"
    and p: "pos i = Some p"
  defines "lst \<equiv> length ne - 1"
  defines "ne' \<equiv> take lst (ne[p := ne ! lst])"
  shows "((pos(ne[p := ne ! lst] ! p \<mapsto> p))(i := None)) j = Some q \<longleftrightarrow> q < length ne' \<and> ne' ! q = j"
    and "set ne' = set ne - {i}"
proof -
  have inj: "ne ! a = ne ! b \<longleftrightarrow> a = b" if "a < length ne" "b < length ne" for a b
    using that pos by (metis option.inject)
  have p': "p < length ne" "ne ! p = i" using pos p by blast+
  have lst: "lst < length ne" "length ne' = lst" using p' by (auto simp: lst_def ne'_def)
  have nth: "q < lst \<Longrightarrow> ne' ! q = (if q = p then ne ! lst else ne ! q)" for q
    using p' by (simp add: ne'_def nth_list_update)
  have iff: "((pos(ne ! lst \<mapsto> p))(i := None)) j = Some q \<longleftrightarrow> q < lst \<and> ne' ! q = j" for j q
  proof (cases "q < lst")
    case True
    then show ?thesis
      using nth [OF True] pos [of j q] p' lst(1) inj [of q lst] inj [of q p] inj [of lst p] pos [of j p]
      by auto
  next
    case False
    then have "q < length ne \<longleftrightarrow> q = lst" using lst(1) by (auto simp: lst_def)
    with False show ?thesis
      using pos [of j q] p' lst(1) inj [of lst p] by auto
  qed
  then show "((pos(ne[p := ne ! lst] ! p \<mapsto> p))(i := None)) j = Some q \<longleftrightarrow> q < length ne' \<and> ne' ! q = j"
    using p' lst by simp
  have "j \<in> set ne' \<longleftrightarrow> (\<exists>q. ((pos(ne ! lst \<mapsto> p))(i := None)) j = Some q)" for j
    using iff [of j] lst by (auto simp: in_set_conv_nth)
  moreover have "j \<in> set ne \<longleftrightarrow> (\<exists>q. pos j = Some q)" for j
    using pos [of j] by (auto simp: in_set_conv_nth)
  moreover have "\<exists>q. pos (ne ! lst) = Some q" using pos lst by blast
  ultimately show "set ne' = set ne - {i}" by (auto split: if_splits)
qed

lemma track_ok_empty:
  assumes "track_ok ds" "i < length (ds_shards ds)" "ds_shards ds ! i \<noteq> []"
  shows "track_ok (trackEmpty i (putShard i [] ds))"
proof -
  have pos: "\<And>j q. ds_pos ds j = Some q \<longleftrightarrow> q < length (ds_nonEmpty ds) \<and> ds_nonEmpty ds ! q = j"
    and ne: "\<And>j. j \<in> set (ds_nonEmpty ds) \<longleftrightarrow> j < length (ds_shards ds) \<and> ds_shards ds ! j \<noteq> []"
    using assms(1) by (auto simp: track_ok_def)
  from ne [of i] assms(2,3) obtain p where p: "ds_pos ds i = Some p"
    using pos by (metis in_set_conv_nth)
  show ?thesis
    using swap_remove [OF pos p] p ne assms(2)
    by (auto simp: track_ok_def trackEmpty_def putShard_def Let_def nth_list_update)
qed

section \<open>Preservation\<close>

lemma shard_ok_cong: "length (ds_shards ds) = length (ds_shards ds') \<Longrightarrow> shard_ok h ds = shard_ok h ds'"
  using shardFor_cong [of ds ds' h] by (simp add: shard_ok_def fun_eq_iff)

lemma ds_ok_put:
  assumes "ds_ok h ds" "track_ok ds'" "ds_shards ds' = (ds_shards ds)[i := m]" "shard_ok h ds i m"
    "i < length (ds_shards ds)"
  shows "ds_ok h ds'"
proof -
  have "shard_ok h ds' j (ds_shards ds' ! j)" if "j < length (ds_shards ds)" for j
    using assms that shard_ok_cong [of ds ds' h]
    by (cases "j = i") (simp_all add: ds_ok_def)
  then show ?thesis using assms by (simp add: ds_ok_def)
qed

lemma shard_ok_update:
  assumes "shard_ok h ds i m" "shardFor h ds k = i" "e_key e = k" "e_size e = entryMem k (e_inline e)"
  shows "shard_ok h ds i (AList.update k e m)"
  using assms by (auto simp: shard_ok_def update_conv' split: if_splits)

lemma shard_ok_delete: "shard_ok h ds i m \<Longrightarrow> shard_ok h ds i (AList.delete k m)"
  by (auto simp: shard_ok_def delete_conv' split: if_splits)

lemma update_not_Nil [simp]: "AList.update k e m \<noteq> []"
  by (cases m) (auto split: prod.splits)

lemma ds_ok_new: "0 < n \<Longrightarrow> ds_ok h (newDBShards n)"
  by (simp add: ds_ok_def newDBShards_def track_ok_def shard_ok_def)

lemma dict_ok_setDB:
  assumes "dict_ok E d" "d_dbs d db = Some ds" "ds_ok (env_hash E) ds'" "n = ds_bytes ds' - ds_bytes ds"
  shows "dict_ok E (addUsed n (setDB db ds' d))"
proof -
  have v: "unat db < d_dbCount d" using assms(1,2) by (auto simp: dict_ok_def Valid_def)
  show ?thesis
    using assms db_sum_upd [OF v, of "d_dbs d" ds']
    by (auto simp: dict_ok_def addUsed_def setDB_def Valid_def db_bytes_def)
qed

lemma addUsed_0: "addUsed 0 d = d"
  by (simp add: addUsed_def)

lemma dict_ok_open:
  assumes "openDB E db d0 = (ds, d)" "dict_ok E d0" "env_ok E" "Valid db d0"
  shows "dict_ok E d" "d_dbs d db = Some ds" "ds_ok (env_hash E) ds"
    "d_dbCount d = d_dbCount d0" "Valid db d"
proof -
  note f = openDB_facts [OF assms(1) dict_ok_wf [OF assms(2)] assms(3)]
  show "d_dbs d db = Some ds" "d_dbCount d = d_dbCount d0" by (fact f)+
  then show "Valid db d" using assms(4) by (simp add: Valid_def)
  show "ds_ok (env_hash E) ds"
    using assms ds_ok_new by (auto simp: openDB_def dict_ok_def env_ok_def Let_def split: option.splits)
  then show "dict_ok E d"
    using assms db_sum_upd [of db "d_dbCount d0" "d_dbs d0" ds]
    by (auto simp: openDB_def dict_ok_def Let_def Valid_def db_bytes_def split: option.splits if_splits)
qed

text \<open>The three ways an operation changes a shard.\<close>

lemma dict_ok_replace:
  assumes d: "dict_ok E d" "d_dbs d db = Some ds"
    and old: "map_of (ds_shards ds ! shardFor (env_hash E) ds k) k = Some old"
    and e: "e_key e = k" "e_size e = entryMem k (e_inline e)"
  shows "dict_ok E (addUsed (uint (e_size e) - uint (e_size old))
     (setDB db (putShard (shardFor (env_hash E) ds k)
        (AList.update k e (ds_shards ds ! shardFor (env_hash E) ds k)) ds) d))"
proof (rule dict_ok_setDB [OF d])
  let ?i = "shardFor (env_hash E) ds k" and ?m = "ds_shards ds ! shardFor (env_hash E) ds k"
  have ok: "ds_ok (env_hash E) ds" using d by (auto simp: dict_ok_def)
  then have i: "?i < length (ds_shards ds)" and s: "shard_ok (env_hash E) ds ?i ?m" and t: "track_ok ds"
    using shardFor_less [of ds "env_hash E" k] by (auto simp: ds_ok_def)
  have g: "gmap_ok ?m" using s unfolding shard_ok_def by blast
  show "ds_ok (env_hash E) (putShard ?i (AList.update k e ?m) ds)"
  proof (rule ds_ok_put [OF ok, where i = ?i and m = "AList.update k e ?m"])
    show "track_ok (putShard ?i (AList.update k e ?m) ds)"
      using old by (intro track_ok_put [OF t i]) (auto split: prod.splits)
  qed (use s e i in \<open>simp_all add: shard_ok_update\<close>)
  show "uint (e_size e) - uint (e_size old) = ds_bytes (putShard ?i (AList.update k e ?m) ds) - ds_bytes ds"
    using g old by (simp add: ds_bytes_putShard [OF i] msize_update)
qed

lemma dict_ok_insert:
  assumes d: "dict_ok E d" "d_dbs d db = Some ds"
    and new: "map_of (ds_shards ds ! shardFor (env_hash E) ds k) k = None"
    and e: "e_key e = k" "e_size e = entryMem k (e_inline e)"
  shows "dict_ok E (addUsed (uint (e_size e))
     (setDB db (trackInsert (shardFor (env_hash E) ds k) (putShard (shardFor (env_hash E) ds k)
        (AList.update k e (ds_shards ds ! shardFor (env_hash E) ds k)) ds)) d))"
proof (rule dict_ok_setDB [OF d])
  let ?i = "shardFor (env_hash E) ds k" and ?m = "ds_shards ds ! shardFor (env_hash E) ds k"
  have ok: "ds_ok (env_hash E) ds" using d by (auto simp: dict_ok_def)
  then have i: "?i < length (ds_shards ds)" and s: "shard_ok (env_hash E) ds ?i ?m" and t: "track_ok ds"
    using shardFor_less [of ds "env_hash E" k] by (auto simp: ds_ok_def)
  have g: "gmap_ok ?m" using s unfolding shard_ok_def by blast
  show "ds_ok (env_hash E) (trackInsert ?i (putShard ?i (AList.update k e ?m) ds))"
    by (rule ds_ok_put [OF ok, where i = ?i and m = "AList.update k e ?m"])
       (use s e i t in \<open>simp_all add: shard_ok_update track_ok_insert\<close>)
  show "uint (e_size e) = ds_bytes (trackInsert ?i (putShard ?i (AList.update k e ?m) ds)) - ds_bytes ds"
    using g new by (simp add: ds_bytes_putShard [OF i] msize_update)
qed

lemma dict_ok_drop:
  assumes d: "dict_ok E d" "d_dbs d db = Some ds"
    and old: "map_of (ds_shards ds ! shardFor (env_hash E) ds k) k = Some e"
  shows "dict_ok E (dropEntry db (shardFor (env_hash E) ds k) k e ds d)"
  unfolding dropEntry_def Let_def
proof (rule dict_ok_setDB [OF d])
  let ?i = "shardFor (env_hash E) ds k" and ?m = "ds_shards ds ! shardFor (env_hash E) ds k"
  let ?ds = "if AList.delete k ?m = [] then trackEmpty ?i (putShard ?i (AList.delete k ?m) ds)
             else putShard ?i (AList.delete k ?m) ds"
  have ok: "ds_ok (env_hash E) ds" using d by (auto simp: dict_ok_def)
  then have i: "?i < length (ds_shards ds)" and s: "shard_ok (env_hash E) ds ?i ?m" and t: "track_ok ds"
    using shardFor_less [of ds "env_hash E" k] by (auto simp: ds_ok_def)
  have g: "gmap_ok ?m" using s unfolding shard_ok_def by blast
  have ne: "?m \<noteq> []" using old by auto
  show "ds_ok (env_hash E) ?ds"
    by (rule ds_ok_put [OF ok, where i = ?i and m = "AList.delete k ?m"])
       (use s i t ne in \<open>simp_all add: shard_ok_delete track_ok_empty track_ok_put\<close>)
  show "- uint (e_size e) = ds_bytes ?ds - ds_bytes ds"
  proof -
    have "ds_bytes ?ds = ds_bytes ds + msize (AList.delete k ?m) - msize ?m"
      using ds_bytes_putShard [OF i, of "AList.delete k ?m"] by auto
    then show ?thesis using msize_delete [OF g old] by simp
  qed
qed

section \<open>Every operation keeps the invariant\<close>

lemma setDB_keeps:
  assumes "dict_ok E d" "d_dbs d db = Some ds"
    "map_of (ds_shards ds ! shardFor (env_hash E) ds k) k = Some old"
    "e_key e = e_key old" "e_size e = e_size old" "e_inline e = e_inline old"
  shows "dict_ok E (setDB db (putShard (shardFor (env_hash E) ds k)
        (AList.update k e (ds_shards ds ! shardFor (env_hash E) ds k)) ds) d)"
proof -
  have ok: "ds_ok (env_hash E) ds" using assms(1,2) by (auto simp: dict_ok_def)
  then have "shard_ok (env_hash E) ds (shardFor (env_hash E) ds k) (ds_shards ds ! shardFor (env_hash E) ds k)"
    using shardFor_less [of ds "env_hash E" k] by (auto simp: ds_ok_def)
  then have o: "e_key old = k" "e_size old = entryMem k (e_inline old)"
    using assms(3) unfolding shard_ok_def by blast+
  then have "e_key e = k" "e_size e = entryMem k (e_inline e)" using assms(4-6) by simp_all
  from dict_ok_replace [OF assms(1-3) this] show ?thesis
    using assms(5) by (simp add: addUsed_0)
qed

lemma newEntry_sized:
  "e_key (newEntry key typ x p im c) = key"
  "e_size (newEntry key typ x p im c) = entryMem key (e_inline (newEntry key typ x p im c))"
  by (simp_all add: newEntry_def Let_def)

lemma same_but_lru_sel:
  "same_but_lru e e' \<Longrightarrow> e_key e' = e_key e \<and> e_size e' = e_size e \<and> e_inline e' = e_inline e \<and>
     e_typ e' = e_typ e \<and> e_expireAt e' = e_expireAt e \<and> e_version e' = e_version e \<and> e_counter e' = e_counter e"
  by (auto simp: same_but_lru_def)

lemma dict_ok_Set:
  assumes "dict_ok E d" "env_ok E" "Valid db d"
  shows "dict_ok E (Set E db key typ x p d)"
proof -
  obtain ds d1 where o: "openDB E db d = (ds, d1)" by fastforce
  note f = dict_ok_open [OF o assms]
  show ?thesis
  proof (cases "map_of (ds_shards ds ! shardFor (env_hash E) ds key) key")
    case None
    show ?thesis
      unfolding Set_def Let_def o prod.case None option.case
      by (rule dict_ok_insert [OF f(1,2) None]) (simp_all add: newEntry_sized)
  next
    case (Some old)
    show ?thesis
      unfolding Set_def Let_def o prod.case Some option.case
      by (rule dict_ok_replace [OF f(1,2) Some]) (simp_all add: newEntry_sized)
  qed
qed

lemma dict_ok_SetCounter:
  assumes "dict_ok E d" "env_ok E" "Valid db d"
  shows "dict_ok E (SetCounter E db key x d)"
proof -
  obtain ds d1 where o: "openDB E db d = (ds, d1)" by fastforce
  note f = dict_ok_open [OF o assms]
  show ?thesis
  proof (cases "map_of (ds_shards ds ! shardFor (env_hash E) ds key) key")
    case None
    show ?thesis
      unfolding SetCounter_def Let_def o prod.case None option.case
      by (rule dict_ok_insert [OF f(1,2) None]) (simp_all add: newEntry_sized)
  next
    case (Some old)
    then show ?thesis
      using setDB_keeps [OF f(1,2) Some]
      by (simp add: SetCounter_def o Let_def Entry_SetExpiry_def Entry_SetCounter_def)
  qed
qed

lemma dict_ok_Touch:
  assumes "dict_ok E d" "env_ok E" "Valid db d"
  shows "dict_ok E (Touch E db key d)"
proof -
  obtain ds d1 where o: "openDB E db d = (ds, d1)" by fastforce
  note f = dict_ok_open [OF o assms]
  show ?thesis
  proof (cases "map_of (ds_shards ds ! shardFor (env_hash E) ds key) key")
    case None
    then show ?thesis using f by (simp add: Touch_def o Let_def)
  next
    case (Some old)
    let ?e = "IncrFreq (env_coin E key) (Entry_Touch (LRUClock (env_now E))
      (Decay (LRUClock (env_now E)) (LFUDecayMinutes (env_cfg E)) old))"
    have "same_but_lru old ?e" by (rule touched_same_but_lru)
    then show ?thesis
      using setDB_keeps [OF f(1,2) Some, of ?e] same_but_lru_sel [of old ?e] Some
      by (simp add: Touch_def o Let_def)
  qed
qed

lemma dict_ok_Delete:
  assumes "dict_ok E d" "env_ok E" "Valid db d"
  shows "dict_ok E (snd (Delete E db key d))"
proof -
  obtain ds d1 where o: "openDB E db d = (ds, d1)" by fastforce
  note f = dict_ok_open [OF o assms]
  show ?thesis
    using f dict_ok_drop [OF f(1,2)] by (simp add: Delete_def o Let_def split: option.splits)
qed

lemma dict_ok_Lookup:
  assumes "dict_ok E d" "env_ok E" "Valid db d"
  shows "dict_ok E (snd (Lookup E db key d))"
proof -
  obtain ds d1 where o: "openDB E db d = (ds, d1)" by fastforce
  note f = dict_ok_open [OF o assms]
  show ?thesis
    using f dict_ok_Delete [OF f(1) assms(2) f(5)] by (simp add: Lookup_def o Let_def split: option.splits)
qed

lemma dict_ok_SetExpiry:
  assumes "dict_ok E d" "env_ok E" "Valid db d"
  shows "dict_ok E (snd (SetExpiry E db key x d))"
proof -
  obtain ds d1 where o: "openDB E db d = (ds, d1)" by fastforce
  note f = dict_ok_open [OF o assms]
  show ?thesis
    using f dict_ok_drop [OF f(1,2)] setDB_keeps [OF f(1,2)]
    by (simp add: SetExpiry_def o Let_def Entry_SetExpiry_def split: option.splits)
qed

lemma dict_ok_DeleteExpired:
  assumes "dict_ok E d" "env_ok E" "Valid db d"
  shows "dict_ok E (snd (DeleteExpired E db key now d))"
proof -
  obtain ds d1 where o: "openDB E db d = (ds, d1)" by fastforce
  note f = dict_ok_open [OF o assms]
  show ?thesis
    using f dict_ok_drop [OF f(1,2)] by (simp add: DeleteExpired_def o Let_def split: option.splits)
qed

lemma dbid_list_sum:
  assumes "n \<le> 65536"
  shows "sum_list (map (\<lambda>i. (f :: dbid \<Rightarrow> int) (of_nat i)) [0..<n]) = (\<Sum>db | unat db < n. f db)"
proof -
  have inj: "inj_on (of_nat :: nat \<Rightarrow> dbid) {0..<n}"
  proof (rule inj_onI)
    fix x y assume "x \<in> {0..<n}" "y \<in> {0..<n}" "(of_nat x :: dbid) = of_nat y"
    then have "unat (of_nat x :: dbid) = unat (of_nat y :: dbid)" "x < 65536" "y < 65536"
      using assms by simp_all
    then show "x = y" unfolding unat_of_nat by simp
  qed
  have "(of_nat :: nat \<Rightarrow> dbid) ` {0..<n} = {db. unat db < n}"
  proof (intro set_eqI iffI)
    fix db :: dbid
    assume "db \<in> {db. unat db < n}"
    then show "db \<in> of_nat ` {0..<n}" by (intro image_eqI [of _ _ "unat db"]) auto
  qed (use assms in \<open>auto simp: unat_of_nat\<close>)
  then have "(\<Sum>db | unat db < n. f db) = (\<Sum>i = 0..<n. f (of_nat i))"
    using sum.reindex [OF inj, of f] by simp
  then show ?thesis by (simp add: sum_list_distinct_conv_sum_set)
qed

lemma dict_ok_Flush:
  assumes "dict_ok E d" "env_ok E" "Valid db d" "d_dbCount d \<le> 65536"
  shows "dict_ok E (Flush E db d)"
proof -
  have "ds_ok (env_hash E) (newDBShards (nat (ShardCount (env_cfg E))))"
    using assms(2) by (intro ds_ok_new) (simp add: env_ok_def)
  then show ?thesis
    using assms dbid_list_sum [OF assms(4)]
    by (auto simp: Flush_def dict_ok_def recomputeUsed_def setDB_def Valid_def)
qed

lemma dict_ok_New: "dict_ok E (NewDict c)"
  by (simp add: dict_ok_def NewDict_def db_bytes_def)

section \<open>Properties\<close>

text \<open>C24: the index behaves as a map: storing a key makes exactly that key map to the new entry,
  deleting it removes exactly that key, and a lookup returns the entry unless it has expired, in
  which case it is removed.\<close>

theorem dict_is_a_map:
  assumes "dict_wf d" "env_ok E"
  shows "dlook E (Set E db key typ x p d) =
           (\<lambda>a b. if a = db \<and> b = key then Some (set_entry E key typ x p (dlook E d db key)) else dlook E d a b) \<and>
         dlook E (snd (Delete E db key d)) = (\<lambda>a b. if a = db \<and> b = key then None else dlook E d a b) \<and>
         fst (Delete E db key d) = dlook E d db key \<and>
         fst (Lookup E db key d) =
           (case dlook E d db key of None \<Rightarrow> None | Some e \<Rightarrow> if Expired e (env_now E) then None else Some e) \<and>
         dlook E (snd (Lookup E db key d)) =
           (\<lambda>a b. if a = db \<and> b = key then fst (Lookup E db key d) else dlook E d a b)"
  using Set_spec(1) [OF assms] Delete_spec(1,2) [OF assms] Lookup_spec(1,2) [OF assms] by auto

definition sample_env :: Env where
  "sample_env = \<lparr>env_now = 1000, env_cfg = DefaultConfig, env_hash = (\<lambda>_. 5), env_coin = (\<lambda>_. True)\<rparr>"

lemma sample_env_ok [simp]: "env_ok sample_env"
  by (simp add: env_ok_def sample_env_def DefaultConfig_def)

theorem dict_is_a_map_witness:
  "dlook sample_env (Set sample_env 0 [1] TypeString 0 [2] (NewDict DefaultConfig)) 0 [1] =
     Some (set_entry sample_env [1] TypeString 0 [2] None)"
proof -
  have "dict_wf (NewDict DefaultConfig)" by (rule dict_ok_wf [OF dict_ok_New])
  moreover have "dlook sample_env (NewDict DefaultConfig) 0 [1] = None"
    by (simp add: dlook_def NewDict_def)
  ultimately show ?thesis
    using dict_is_a_map [of "NewDict DefaultConfig" sample_env 0 "[1]" TypeString 0 "[2]"] by simp
qed



end
