(* ===== verification/State.thy ===== *)
theory State
  imports Engine Accounting
begin

text \<open>
  \<open>Store\<close> (\<open>store.go\<close>): the state every component of the store shares: the Pebble contents, the
  in-memory index and the counters.  The counters of \<open>Expirer\<close> and \<open>Evictor\<close> are kept here too, and of
  \<open>blocker\<close> (\<open>blocking.go\<close>) its version and the channels of the sleeping commands.  Of the
  configuration and the clock the store reads, an operation sees the snapshot in its environment
  \<open>Env\<close>.
\<close>

record 'e Store =
  s_eng :: 'e
  s_dict :: Dict
  s_hits :: int
  s_misses :: int
  s_expired :: int
  s_keyChanges :: int
  s_reaped :: int
  s_evicted :: int
  s_blockSeq :: "64 word"
  s_blockChans :: "nat list"

definition upd_dict :: "(Dict \<Rightarrow> Dict) \<Rightarrow> 'e Store \<Rightarrow> 'e Store" where
  "upd_dict f s = s\<lparr>s_dict := f (s_dict s)\<rparr>"

definition hit :: "'e Store \<Rightarrow> 'e Store" where "hit s = s\<lparr>s_hits := s_hits s + 1\<rparr>"
definition miss :: "'e Store \<Rightarrow> 'e Store" where "miss s = s\<lparr>s_misses := s_misses s + 1\<rparr>"
definition keyChange :: "'e Store \<Rightarrow> 'e Store" where "keyChange s = s\<lparr>s_keyChanges := s_keyChanges s + 1\<rparr>"

definition memoryFull :: "Config \<Rightarrow> 'e Store \<Rightarrow> bool" where
  "memoryFull c s \<longleftrightarrow> MaxMemory c > 0 \<and> EvictionPolicy c = NoEviction \<and>
     (word_of_int (d_used (s_dict s)) :: 64 word) \<ge> MaxMemory c"

text \<open>\<open>Engine.Apply\<close> on the store; a failed commit is the Go error of the operation.\<close>

definition applyBatch :: "'e pebble \<Rightarrow> bop list \<Rightarrow> 'e Store \<Rightarrow> (goerr, unit, 'e Store) res" where
  "applyBatch P b s =
     (case eng_Apply P (s_eng s) b of
        (Some err, e') \<Rightarrow> (Inl err, s\<lparr>s_eng := e'\<rparr>)
      | (None, e') \<Rightarrow> (Inr (), s\<lparr>s_eng := e'\<rparr>))"

definition engDelete :: "'e pebble \<Rightarrow> bytes \<Rightarrow> 'e Store \<Rightarrow> (goerr, unit, 'e Store) res" where
  "engDelete P k s =
     (case eng_Delete P (s_eng s) k of
        (Some err, e') \<Rightarrow> (Inl err, s\<lparr>s_eng := e'\<rparr>)
      | (None, e') \<Rightarrow> (Inr (), s\<lparr>s_eng := e'\<rparr>))"

definition engDeleteRange :: "'e pebble \<Rightarrow> bytes \<Rightarrow> bytes \<Rightarrow> 'e Store \<Rightarrow> (goerr, unit, 'e Store) res" where
  "engDeleteRange P lo hi s =
     (case eng_DeleteRange P (s_eng s) lo hi of
        (Some err, e') \<Rightarrow> (Inl err, s\<lparr>s_eng := e'\<rparr>)
      | (None, e') \<Rightarrow> (Inr (), s\<lparr>s_eng := e'\<rparr>))"

definition deletePersisted :: "'e pebble \<Rightarrow> dbid \<Rightarrow> bytes \<Rightarrow> 'e Store \<Rightarrow> (goerr, unit, 'e Store) res" where
  "deletePersisted P db key s = engDelete P (EncodeDataKey db key) s"

lemma upd_sel [simp]:
  "s_eng (upd_dict f s) = s_eng s" "s_dict (upd_dict f s) = f (s_dict s)"
  "s_eng (hit s) = s_eng s" "s_dict (hit s) = s_dict s"
  "s_eng (miss s) = s_eng s" "s_dict (miss s) = s_dict s"
  "s_eng (keyChange s) = s_eng s" "s_dict (keyChange s) = s_dict s"
  by (simp_all add: upd_dict_def hit_def miss_def keyChange_def)

lemma applyBatch_dict [simp]: "s_dict (snd (applyBatch P b s)) = s_dict s"
  by (auto simp: applyBatch_def split: prod.splits option.splits)

lemma engDelete_dict [simp]: "s_dict (snd (engDelete P k s)) = s_dict s"
  by (auto simp: engDelete_def split: prod.splits option.splits)

context pebble_engine
begin

lemma applyBatch_done:
  "applyBatch P b s = (Inr u, s') \<Longrightarrow> kv (s_eng s') = run_bops b (kv (s_eng s)) \<and> s_dict s' = s_dict s"
  by (auto simp: applyBatch_def eng_Apply_def split: prod.splits option.splits dest: apply_done)

lemma engDelete_done:
  "engDelete P k s = (Inr u, s') \<Longrightarrow> kv (s_eng s') = (kv (s_eng s))(k := None) \<and> s_dict s' = s_dict s"
  by (auto simp: engDelete_def eng_Delete_def split: prod.splits option.splits dest: delete_done)

lemma engDeleteRange_done:
  "engDeleteRange P lo hi s = (Inr u, s') \<Longrightarrow>
     kv (s_eng s') = run_bop (BDeleteRange lo hi) (kv (s_eng s)) \<and> s_dict s' = s_dict s"
  by (auto simp: engDeleteRange_def eng_DeleteRange_def split: prod.splits option.splits dest: delete_range_done)

end

context pebble_reliable
begin

lemma applyBatch_ok: "\<exists>s'. applyBatch P b s = (Inr (), s')"
  using apply_ok [of "s_eng s" b] by (auto simp: applyBatch_def eng_Apply_def split: prod.splits option.splits)

lemma engDelete_ok: "\<exists>s'. engDelete P k s = (Inr (), s')"
  using delete_ok [of "s_eng s" k] by (auto simp: engDelete_def eng_Delete_def split: prod.splits option.splits)

lemma engDeleteRange_ok: "\<exists>s'. engDeleteRange P lo hi s = (Inr (), s')"
  using delete_range_ok [of "s_eng s" lo hi]
  by (auto simp: engDeleteRange_def eng_DeleteRange_def split: prod.splits option.splits)

end

end
