(* ===== verification/Floats.thy ===== *)
theory Floats
  imports Config
begin

text \<open>
  The double arithmetic the program uses: rounding of an exact ratio to the nearest double (ties to
  even), from which conversion of integers, addition and multiplication follow, and truncation of a
  double to an integer.  Exact values are counted in units of \<open>2 ^ (-1074)\<close>, the smallest double,
  as in \<open>f64_scaled\<close>.
\<close>

section \<open>Rounding\<close>

definition f64_inf :: nat where "f64_inf = 0x7FF0000000000000"

definition div_even :: "nat \<Rightarrow> nat \<Rightarrow> nat" where
  "div_even n d =
     (let q = n div d; r = n mod d
      in if 2 * r < d then q else if d < 2 * r then q + 1 else if even q then q else q + 1)"

text \<open>The binade of \<open>n / d\<close>: the least \<open>e\<close> with \<open>n / d < 2 ^ (53 + e)\<close>, counting up from \<open>e\<close>.\<close>

function f64_binade :: "nat \<Rightarrow> nat \<Rightarrow> nat \<Rightarrow> nat" where
  "f64_binade n d e = (if n < 2 ^ 53 * (d * 2 ^ e) \<or> d = 0 then e else f64_binade n d (Suc e))"
  by auto
termination
proof (relation "measure (\<lambda>(n, d, e). n - 2 ^ e)")
  fix n d e :: nat
  assume a: "\<not> (n < 2 ^ 53 * (d * 2 ^ e) \<or> d = 0)"
  have "2 ^ e * 1 < 2 ^ e * (2 ^ 53 * d)"
    using a by (intro mult_strict_left_mono) (auto intro: less_le_trans [of _ "2 ^ 53"])
  also have "\<dots> = 2 ^ 53 * (d * 2 ^ e)" by (simp only: mult_ac)
  also have "\<dots> \<le> n" using a by simp
  finally have "2 ^ e < n" by simp
  then show "((n, d, Suc e), (n, d, e)) \<in> measure (\<lambda>(n, d, e). n - 2 ^ e)"
    by (simp add: diff_less_mono2)
qed auto

declare f64_binade.simps [simp del]

definition f64_mag_of :: "nat \<Rightarrow> nat \<Rightarrow> nat" where
  "f64_mag_of n d = (let e = f64_binade n d 0 in min f64_inf (e * 2 ^ 52 + div_even n (d * 2 ^ e)))"

definition f64_round :: "int \<Rightarrow> nat \<Rightarrow> f64" where
  "f64_round n d = (if n < 0 then of_nat (2 ^ 63 + f64_mag_of (nat (- n)) d) else of_nat (f64_mag_of (nat n) d))"

definition f64_of_int :: "int \<Rightarrow> f64" where
  "f64_of_int n = f64_round (n * 2 ^ 1074) 1"

text \<open>Finite product and sum; the sign of a zero result and the non-finite cases are written out
  where the program depends on them.\<close>

definition f64_mult :: "f64 \<Rightarrow> f64 \<Rightarrow> f64" where
  "f64_mult a b = f64_round (f64_scaled a * f64_scaled b) (2 ^ 1074)"

text \<open>Go's conversion of a double to \<open>int64\<close>, in the range where it is defined.\<close>

definition f64_trunc :: "f64 \<Rightarrow> int" where
  "f64_trunc a = go_div (f64_scaled a) (2 ^ 1074)"

section \<open>Exactness\<close>

lemma div_even_exact [simp]: "0 < d \<Longrightarrow> div_even (k * d) d = k"
  by (simp add: div_even_def)

lemma f64_binade_upper: "0 < d \<Longrightarrow> n < 2 ^ 53 * (d * 2 ^ f64_binade n d e)"
proof (induction n d e rule: f64_binade.induct)
  case (1 n d e)
  then show ?case by (subst f64_binade.simps) auto
qed

lemma f64_binade_lower:
  "f64_binade n d e = e \<or> 2 ^ 53 * (d * 2 ^ (f64_binade n d e - 1)) \<le> n \<and> e < f64_binade n d e"
proof (induction n d e rule: f64_binade.induct)
  case (1 n d e)
  show ?case
  proof (cases "n < 2 ^ 53 * (d * 2 ^ e) \<or> d = 0")
    case True
    then show ?thesis by (subst f64_binade.simps) simp
  next
    case False
    then have f: "f64_binade n d e = f64_binade n d (Suc e)"
      by (subst f64_binade.simps) simp
    show ?thesis
      using 1 [OF False] False unfolding f by (auto simp: not_less)
  qed
qed

text \<open>A value that is a whole number of units and whose binade leaves no remainder is represented
  exactly.\<close>

lemma f64_mag_of_small: "n < 2 ^ 53 \<Longrightarrow> f64_mag_of n 1 = n"
proof -
  assume n: "n < 2 ^ 53"
  then have "f64_binade n 1 0 = 0" by (subst f64_binade.simps) simp
  then show ?thesis using n div_even_exact [of 1 n] by (simp add: f64_mag_of_def f64_inf_def)
qed

lemma f64_mag_of_normal:
  assumes "2 ^ 52 \<le> m" "m < 2 ^ 53" "e \<le> 2045"
  shows "f64_mag_of (m * 2 ^ e) 1 = e * 2 ^ 52 + m"
proof -
  let ?b = "f64_binade (m * 2 ^ e) 1 0"
  have up: "m * 2 ^ e < 2 ^ (53 + ?b)"
    using f64_binade_upper [of 1 "m * 2 ^ e" 0] by (simp add: power_add)
  have "2 ^ (52 + e) \<le> m * 2 ^ e" using assms(1) by (simp add: power_add)
  then have "2 ^ (52 + e) < (2 :: nat) ^ (53 + ?b)" using up by linarith
  then have le: "e \<le> ?b" by (simp add: power_less_imp_less_exp)
  have "?b \<le> e"
  proof (rule ccontr)
    assume "\<not> ?b \<le> e"
    then have lo: "2 ^ 53 * 2 ^ (?b - 1) \<le> m * 2 ^ e" and ge: "e \<le> ?b - 1"
      using f64_binade_lower [of "m * 2 ^ e" 1 0] by auto
    have "m * 2 ^ e < 2 ^ 53 * 2 ^ e" using assms(2) by simp
    also have "\<dots> \<le> 2 ^ 53 * 2 ^ (?b - 1)" using ge by simp
    finally show False using lo by simp
  qed
  with le have b: "?b = e" by simp
  have "e * 2 ^ 52 + m \<le> f64_inf"
  proof -
    have "e * 2 ^ 52 \<le> 2045 * 2 ^ 52" using assms(3) by (intro mult_le_mono1)
    then show ?thesis using assms(2) by (simp add: f64_inf_def)
  qed
  then show ?thesis
    using div_even_exact [of "2 ^ e" m] by (simp add: f64_mag_of_def Let_def b del: One_nat_def)
qed

text \<open>Rounding is the identity on finite doubles.\<close>

lemma f64_mag_of_mag:
  assumes "n < f64_inf"
  shows "f64_mag_of (f64_mag n) 1 = n"
proof (cases "n div 2 ^ 52 = 0")
  case True
  then have "n < 2 ^ 52" by (simp add: div_eq_0_iff)
  then show ?thesis by (simp add: f64_mag_def f64_mag_of_small del: One_nat_def)
next
  case False
  let ?e = "n div 2 ^ 52" and ?m = "n mod 2 ^ 52"
  have m: "?m < 2 ^ 52" by simp
  have n: "n = ?e * 2 ^ 52 + ?m" by simp
  have "?e < 2047"
  proof (rule ccontr)
    assume "\<not> ?e < 2047"
    then have "2047 * 2 ^ 52 \<le> ?e * 2 ^ 52" by (intro mult_le_mono1) simp
    then have "2047 * 2 ^ 52 \<le> n" using n by linarith
    then show False using assms by (simp add: f64_inf_def)
  qed
  then have "f64_mag_of ((2 ^ 52 + ?m) * 2 ^ (?e - 1)) 1 = (?e - 1) * 2 ^ 52 + (2 ^ 52 + ?m)"
    using m by (intro f64_mag_of_normal) auto
  also have "\<dots> = n"
  proof -
    obtain q where q: "?e = Suc q" using False by (cases ?e) auto
    have "?e * 2 ^ 52 + ?m = n" by (rule div_mult_mod_eq)
    then show ?thesis unfolding q by simp
  qed
  finally show ?thesis using False by (simp add: f64_mag_def)
qed

end
