(* ===== verification/Evict.thy ===== *)
theory Evict
  imports State Floats
begin

text \<open>
  \<open>memory/evict.go\<close>: sampling eviction.  The random shard draws, the order in which Go ranges over
  the map of a shard, and whether the round's deadline has passed are parameters (\<open>Draws\<close>).
\<close>

section \<open>Definitions\<close>

record candidate =
  c_db :: dbid
  c_key :: bytes
  c_size :: int
  c_idle :: "32 word"
  c_freq :: "8 word"
  c_expireAt :: int

record evictSnapshot =
  sn_enabled :: bool
  sn_maxMemory :: "64 word"
  sn_targetRatio :: f64
  sn_sample :: int
  sn_mode :: string
  sn_policy :: string
  sn_volatileOnly :: bool

text \<open>The choices of one round: for database \<open>db\<close> and draw \<open>i\<close>, the shard number before reduction
  and the order of the map range; and whether the deadline has passed when the round starts.\<close>

record Draws =
  dr_shard :: "nat \<Rightarrow> nat \<Rightarrow> nat"
  dr_order :: "nat \<Rightarrow> nat \<Rightarrow> shard \<Rightarrow> shard"
  dr_late :: bool

definition snapshot :: "Config \<Rightarrow> evictSnapshot" where
  "snapshot c = \<lparr>sn_enabled = EvictionEnabled c, sn_maxMemory = MaxMemory c,
     sn_targetRatio = EvictionTargetRatio c, sn_sample = EvictionSample c, sn_mode = EvictionMode c,
     sn_policy = EvictionPolicy c, sn_volatileOnly = VolatileOnly c\<rparr>"

fun pickFromShard :: "shard \<Rightarrow> dbid \<Rightarrow> int \<Rightarrow> 32 word \<Rightarrow> bool \<Rightarrow> candidate option" where
  "pickFromShard [] db nowMs nowClock volatileOnly = None"
| "pickFromShard ((key, e) # m) db nowMs nowClock volatileOnly =
     (if Expired e nowMs then
        Some \<lparr>c_db = db, c_key = key, c_size = uint (e_size e), c_idle = NOT 0, c_freq = 0,
              c_expireAt = e_expireAt e\<rparr>
      else if volatileOnly \<and> e_expireAt e = 0 then pickFromShard m db nowMs nowClock volatileOnly
      else Some \<lparr>c_db = db, c_key = key, c_size = uint (e_size e),
                 c_idle = Idle nowClock (EntryClock e), c_freq = Freq e, c_expireAt = e_expireAt e\<rparr>)"

definition sampleDB :: "Env \<Rightarrow> Draws \<Rightarrow> nat \<Rightarrow> nat \<Rightarrow> bool \<Rightarrow> Dict \<Rightarrow> candidate list" where
  "sampleDB E dr n db volatileOnly d =
     (case d_dbs d (of_nat db) of
        None \<Rightarrow> []
      | Some ds \<Rightarrow>
          List.map_filter
            (\<lambda>i. case randomShard (dr_shard dr db i) ds of
                   None \<Rightarrow> None
                 | Some sh \<Rightarrow> pickFromShard (dr_order dr db i (ds_shards ds ! sh)) (of_nat db) (env_now E)
                                (LRUClock (env_now E)) volatileOnly)
            [0..<n])"

definition sample :: "Env \<Rightarrow> Draws \<Rightarrow> int \<Rightarrow> bool \<Rightarrow> Dict \<Rightarrow> candidate list" where
  "sample E dr n0 volatileOnly d =
     (let n = (if n0 \<le> 0 then 5 else nat n0)
      in concat (map (\<lambda>db. sampleDB E dr n db volatileOnly d) [0..<d_dbCount d]))"

definition pick_best :: "string \<Rightarrow> candidate list \<Rightarrow> candidate" where
  "pick_best policy samples =
     (if policy \<in> {AllKeysLRU, VolatileLRU} then
        foldl (\<lambda>best c. if c_idle c > c_idle best then c else best) (hd samples) (tl samples)
      else if policy \<in> {AllKeysLFU, VolatileLFU} then
        foldl (\<lambda>best c. if c_freq c < c_freq best then c else best) (hd samples) (tl samples)
      else if policy = VolatileTTL then
        foldl (\<lambda>best c. if c_expireAt c \<noteq> 0 \<and> (c_expireAt best = 0 \<or> c_expireAt c < c_expireAt best)
                        then c else best) (hd samples) (tl samples)
      else hd samples)"

definition pick :: "Env \<Rightarrow> Draws \<Rightarrow> evictSnapshot \<Rightarrow> Dict \<Rightarrow> candidate option" where
  "pick E dr snap d =
     (let samples = sample E dr (sn_sample snap) (sn_volatileOnly snap) d
      in if samples = [] then None else Some (pick_best (sn_policy snap) samples))"

text \<open>\<open>deleteFn\<close>, installed by \<open>Open\<close>, is \<open>deletePersisted\<close> in cache mode.\<close>

definition evictOne :: "'e pebble \<Rightarrow> Env \<Rightarrow> Draws \<Rightarrow> evictSnapshot \<Rightarrow> 'e Store \<Rightarrow> bool \<times> 'e Store" where
  "evictOne P E dr snap s =
     (case pick E dr snap (s_dict s) of
        None \<Rightarrow> (False, s)
      | Some c \<Rightarrow>
          (case (if sn_mode snap = EvictCache then deletePersisted P (c_db c) (c_key c) s else (Inr (), s)) of
             (Inl err, s1) \<Rightarrow> (False, s1)
           | (Inr u, s1) \<Rightarrow>
               (case Delete E (c_db c) (c_key c) (s_dict s1) of
                  (None, d) \<Rightarrow> (False, s1\<lparr>s_dict := d\<rparr>)
                | (Some e, d) \<Rightarrow> (True, s1\<lparr>s_dict := d, s_evicted := s_evicted s1 + 1\<rparr>))))"

definition evictTarget :: "evictSnapshot \<Rightarrow> int" where
  "evictTarget snap = f64_trunc (f64_mult (f64_of_int (uint (sn_maxMemory snap))) (sn_targetRatio snap))"

text \<open>The round loop; \<open>drs\<close> holds the choices of the remaining rounds.\<close>

fun evictRounds :: "'e pebble \<Rightarrow> Env \<Rightarrow> evictSnapshot \<Rightarrow> int \<Rightarrow> Draws list \<Rightarrow> 'e Store \<Rightarrow> 'e Store" where
  "evictRounds P E snap target [] s = s"
| "evictRounds P E snap target (dr # drs) s =
     (if d_used (s_dict s) \<le> target \<or> dr_late dr then s
      else case evictOne P E dr snap s of
             (False, s') \<Rightarrow> s'
           | (True, s') \<Rightarrow> evictRounds P E snap target drs s')"

definition roundLimit :: nat where "roundLimit = 64"

definition MaybeEvict :: "'e pebble \<Rightarrow> Env \<Rightarrow> (nat \<Rightarrow> Draws) \<Rightarrow> 'e Store \<Rightarrow> 'e Store" where
  "MaybeEvict P E drs s =
     (let snap = snapshot (env_cfg E)
      in if \<not> sn_enabled snap then s
         else let target = evictTarget snap
              in if d_used (s_dict s) \<le> target then s
                 else evictRounds P E snap target (map drs [0..<roundLimit]) s)"

section \<open>The sample\<close>

definition draws_ok :: "Draws \<Rightarrow> bool" where
  "draws_ok dr \<longleftrightarrow> (\<forall>db i m. set (dr_order dr db i m) = set m)"

definition cand_of :: "Env \<Rightarrow> bool \<Rightarrow> Dict \<Rightarrow> candidate \<Rightarrow> bool" where
  "cand_of E vol d c \<longleftrightarrow> (\<exists>e. dlook E d (c_db c) (c_key c) = Some e \<and> c_expireAt c = e_expireAt e \<and>
     c_size c = uint (e_size e) \<and> (vol \<longrightarrow> e_expireAt e \<noteq> 0))"

lemma pickFromShard_Some:
  "pickFromShard m db now clk vol = Some c \<Longrightarrow>
     c_db c = db \<and> (\<exists>e. (c_key c, e) \<in> set m \<and> c_expireAt c = e_expireAt e \<and>
       c_size c = uint (e_size e) \<and> (vol \<longrightarrow> e_expireAt e \<noteq> 0))"
  by (induction m) (fastforce simp: Expired_def split: if_splits)+

lemma pickFromShard_None:
  "pickFromShard m db now clk vol = None \<longleftrightarrow> vol \<and> (\<forall>(k, e)\<in>set m. e_expireAt e = 0) \<or> m = []"
  by (induction m) (auto simp: Expired_def split: if_splits)

lemma shard_entry:
  assumes "dict_ok E d" "d_dbs d db = Some ds" "i < length (ds_shards ds)" "(k, e) \<in> set (ds_shards ds ! i)"
  shows "dlook E d db k = Some e"
proof -
  have s: "shard_ok (env_hash E) ds i (ds_shards ds ! i)"
    using assms(1-3) by (auto simp: dict_ok_def ds_ok_def)
  then have "map_of (ds_shards ds ! i) k = Some e"
    using assms(4) by (auto simp: shard_ok_def gmap_ok_def)
  then show ?thesis using s assms(2) by (auto simp: dlook_def shard_ok_def)
qed

lemma randomShard_Some:
  "track_ok ds \<Longrightarrow> randomShard r ds = Some i \<Longrightarrow> i < length (ds_shards ds) \<and> ds_shards ds ! i \<noteq> []"
  by (auto simp: randomShard_def track_ok_def split: if_splits)

lemma sampleDB_cand:
  assumes "dict_ok E d" "draws_ok dr" "c \<in> set (sampleDB E dr n db vol d)"
  shows "cand_of E vol d c"
proof -
  obtain ds i sh where ds: "d_dbs d (of_nat db) = Some ds" "randomShard (dr_shard dr db i) ds = Some sh"
    and c: "pickFromShard (dr_order dr db i (ds_shards ds ! sh)) (of_nat db) (env_now E)
              (LRUClock (env_now E)) vol = Some c"
    using assms(3) by (cases "d_dbs d (of_nat db)") (auto simp: sampleDB_def map_filter_def split: option.splits)
  have "track_ok ds" using assms(1) ds(1) by (auto simp: dict_ok_def ds_ok_def)
  then have sh: "sh < length (ds_shards ds)" using randomShard_Some ds(2) by blast
  obtain e where e: "c_db c = of_nat db" "(c_key c, e) \<in> set (ds_shards ds ! sh)" "c_expireAt c = e_expireAt e"
      "c_size c = uint (e_size e)" "vol \<longrightarrow> e_expireAt e \<noteq> 0"
    using pickFromShard_Some [OF c] assms(2) by (auto simp: draws_ok_def)
  then show ?thesis using shard_entry [OF assms(1) ds(1) sh] by (auto simp: cand_of_def)
qed

lemma foldl_pick_in: "foldl (\<lambda>b c. if Q b c then c else b) x xs \<in> insert x (set xs)"
proof (induction xs arbitrary: x)
  case Nil
  then show ?case by simp
next
  case (Cons a xs)
  show ?case using Cons.IH [of "if Q x a then a else x"] by (auto split: if_splits)
qed

lemma pick_best_in: "xs \<noteq> [] \<Longrightarrow> pick_best p xs \<in> set xs"
proof -
  assume "xs \<noteq> []"
  then obtain y ys where xs: "xs = y # ys" by (cases xs) auto
  show ?thesis
    unfolding xs pick_best_def
    using foldl_pick_in [of "\<lambda>b c. c_idle c > c_idle b" y ys] foldl_pick_in [of "\<lambda>b c. c_freq c < c_freq b" y ys]
      foldl_pick_in [of "\<lambda>b c. c_expireAt c \<noteq> 0 \<and> (c_expireAt b = 0 \<or> c_expireAt c < c_expireAt b)" y ys]
    by simp
qed

lemma pick_cand:
  "dict_ok E d \<Longrightarrow> draws_ok dr \<Longrightarrow> pick E dr snap d = Some c \<Longrightarrow> cand_of E (sn_volatileOnly snap) d c"
  using pick_best_in [of "sample E dr (sn_sample snap) (sn_volatileOnly snap) d" "sn_policy snap"] sampleDB_cand [of E d dr]
  by (auto simp: pick_def sample_def Let_def split: if_splits)

text \<open>The fold keeps the best candidate seen, whatever the ranking.\<close>

lemma foldl_best:
  assumes refl: "\<And>b. R b b" and trans: "\<And>a b c. R a b \<Longrightarrow> R b c \<Longrightarrow> R a c"
    and pick: "\<And>b c. Q b c \<Longrightarrow> R c b" and keep: "\<And>b c. \<not> Q b c \<Longrightarrow> R b c"
  shows "y \<in> insert x (set xs) \<Longrightarrow> R (foldl (\<lambda>b c. if Q b c then c else b) x xs) y"
proof (induction xs arbitrary: x y)
  case Nil
  then show ?case using refl by simp
next
  case (Cons z xs)
  let ?w = "if Q x z then z else x"
  have w: "R (foldl (\<lambda>b c. if Q b c then c else b) ?w xs) ?w" using Cons.IH [of ?w ?w] by simp
  show ?case
  proof (cases "y \<in> set xs")
    case True
    then show ?thesis using Cons.IH [of y ?w] by simp
  next
    case False
    then have "R ?w y" using Cons.prems refl pick keep by auto
    then show ?thesis using trans [OF w] by simp
  qed
qed

definition no_worse :: "string \<Rightarrow> candidate \<Rightarrow> candidate \<Rightarrow> bool" where
  "no_worse policy b c \<longleftrightarrow>
     (policy \<in> {AllKeysLRU, VolatileLRU} \<longrightarrow> c_idle c \<le> c_idle b) \<and>
     (policy \<in> {AllKeysLFU, VolatileLFU} \<longrightarrow> c_freq b \<le> c_freq c) \<and>
     (policy = VolatileTTL \<longrightarrow> c_expireAt c \<noteq> 0 \<longrightarrow> c_expireAt b \<noteq> 0 \<and> c_expireAt b \<le> c_expireAt c)"

lemma pick_best_no_worse: "c \<in> set xs \<Longrightarrow> no_worse p (pick_best p xs) c"
proof -
  assume c: "c \<in> set xs"
  then obtain y ys where xs: "xs = y # ys" by (cases xs) auto
  have "c_idle c \<le> c_idle (foldl (\<lambda>b c. if c_idle c > c_idle b then c else b) y ys)"
    using c xs by (intro foldl_best [where R = "\<lambda>b c. c_idle c \<le> c_idle b"]) auto
  moreover have "c_freq (foldl (\<lambda>b c. if c_freq c < c_freq b then c else b) y ys) \<le> c_freq c"
    using c xs by (intro foldl_best [where R = "\<lambda>b c. c_freq b \<le> c_freq c"]) auto
  moreover have "c_expireAt c \<noteq> 0 \<longrightarrow> (\<lambda>r. c_expireAt r \<noteq> 0 \<and> c_expireAt r \<le> c_expireAt c)
      (foldl (\<lambda>b c. if c_expireAt c \<noteq> 0 \<and> (c_expireAt b = 0 \<or> c_expireAt c < c_expireAt b) then c else b) y ys)"
    using c xs by (intro foldl_best [where R = "\<lambda>b c. c_expireAt c \<noteq> 0 \<longrightarrow> c_expireAt b \<noteq> 0 \<and> c_expireAt b \<le> c_expireAt c"]) auto
  ultimately show ?thesis
    unfolding xs pick_best_def no_worse_def by (simp add: policy_defs)
qed

section \<open>Eviction\<close>

lemma Delete_used:
  assumes "dict_wf d" "env_ok E" "dlook E d db k = Some e"
  shows "d_used (snd (Delete E db k d)) = d_used d - uint (e_size e)"
proof -
  obtain ds d1 where o: "openDB E db d = (ds, d1)" by fastforce
  note f = openDB_facts [OF o assms(1,2)]
  have "map_of (ds_shards ds ! shardFor (env_hash E) ds k) k = Some e"
    using f(1,4) assms(3) by (auto simp: dlook_def fun_eq_iff split: option.splits)
  then show ?thesis
    using f(5) by (simp add: Delete_def o Let_def dropEntry_def addUsed_def setDB_def)
qed

lemma Delete_dbCount: "d_dbCount (snd (Delete E db k d)) = d_dbCount d"
  by (auto simp: Delete_def openDB_def dropEntry_def addUsed_def setDB_def Let_def split: option.splits prod.splits)

lemma dlook_valid: "dict_ok E d \<Longrightarrow> dlook E d db k = Some e \<Longrightarrow> Valid db d"
  by (auto simp: dict_ok_def dlook_def split: option.splits)

text \<open>One eviction in persist mode drops one entry from the index and nothing else.\<close>

lemma evictOne_persist:
  assumes ok: "dict_ok E (s_dict s)" "env_ok E" "draws_ok dr" and mode: "sn_mode snap \<noteq> EvictCache"
    and c: "pick E dr snap (s_dict s) = Some c"
  obtains e s' where "evictOne P E dr snap s = (True, s')" "s_eng s' = s_eng s"
    "dict_ok E (s_dict s')" "dlook E (s_dict s) (c_db c) (c_key c) = Some e"
    "sn_volatileOnly snap \<longrightarrow> e_expireAt e \<noteq> 0"
    "dlook E (s_dict s') = (\<lambda>x y. if x = c_db c \<and> y = c_key c then None else dlook E (s_dict s) x y)"
    "d_used (s_dict s') = d_used (s_dict s) - uint (e_size e)" "s_evicted s' = s_evicted s + 1"
proof -
  obtain e where e: "dlook E (s_dict s) (c_db c) (c_key c) = Some e" "sn_volatileOnly snap \<longrightarrow> e_expireAt e \<noteq> 0"
    using pick_cand [OF ok(1,3) c] by (auto simp: cand_of_def)
  note wf = dict_ok_wf [OF ok(1)]
  let ?r = "Delete E (c_db c) (c_key c) (s_dict s)"
  have r: "?r = (Some e, snd ?r)" using Delete_spec(1) [OF wf ok(2), of "c_db c" "c_key c"] e by (metis prod.collapse)
  have "evictOne P E dr snap s = (True, s\<lparr>s_dict := snd ?r, s_evicted := s_evicted s + 1\<rparr>)"
    using mode by (subst evictOne_def) (simp add: c, subst r, simp)
  then show ?thesis
    using that [of "s\<lparr>s_dict := snd ?r, s_evicted := s_evicted s + 1\<rparr>" e] e
      Delete_spec(2) [OF wf ok(2)] Delete_used [OF wf ok(2) e(1)]
      dict_ok_Delete [OF ok(1,2) dlook_valid [OF ok(1) e(1)]] by simp
qed

definition evicted_from :: "Env \<Rightarrow> bool \<Rightarrow> 'e Store \<Rightarrow> 'e Store \<Rightarrow> bool" where
  "evicted_from E vol s s' \<longleftrightarrow> s_eng s' = s_eng s \<and> dict_ok E (s_dict s') \<and>
     (\<forall>db k e. dlook E (s_dict s') db k = Some e \<longrightarrow> dlook E (s_dict s) db k = Some e) \<and>
     (vol \<longrightarrow> (\<forall>db k e. dlook E (s_dict s) db k = Some e \<longrightarrow> e_expireAt e = 0 \<longrightarrow> dlook E (s_dict s') db k = Some e))"

lemma evicted_from_trans: "evicted_from E vol a b \<Longrightarrow> evicted_from E vol b c \<Longrightarrow> evicted_from E vol a c"
  unfolding evicted_from_def by metis

lemma evictRounds_persist:
  assumes "env_ok E" "sn_mode snap \<noteq> EvictCache" "dict_ok E (s_dict s)" "\<forall>dr\<in>set drs. draws_ok dr"
  shows "evicted_from E (sn_volatileOnly snap) s (evictRounds P E snap target drs s) \<and>
         s_evicted (evictRounds P E snap target drs s) \<le> s_evicted s + int (length drs)"
  using assms(3,4)
proof (induction drs arbitrary: s)
  case Nil
  then show ?case by (simp add: evicted_from_def)
next
  case (Cons dr drs)
  show ?case
  proof (cases "pick E dr snap (s_dict s)")
    case None
    then show ?thesis using Cons.prems by (simp add: evictOne_def evicted_from_def)
  next
    case (Some c)
    have dr: "draws_ok dr" using Cons.prems by simp
    obtain e s' where s': "evictOne P E dr snap s = (True, s')" "s_eng s' = s_eng s"
      "dict_ok E (s_dict s')" "dlook E (s_dict s) (c_db c) (c_key c) = Some e"
      "sn_volatileOnly snap \<longrightarrow> e_expireAt e \<noteq> 0"
      "dlook E (s_dict s') = (\<lambda>x y. if x = c_db c \<and> y = c_key c then None else dlook E (s_dict s) x y)"
      "d_used (s_dict s') = d_used (s_dict s) - uint (e_size e)" "s_evicted s' = s_evicted s + 1"
      by (rule evictOne_persist [OF Cons.prems(1) assms(1) dr assms(2) Some])
    have "evicted_from E (sn_volatileOnly snap) s s'" using s'(2-6) by (auto simp: evicted_from_def)
    moreover have "evicted_from E (sn_volatileOnly snap) s s" using Cons.prems by (simp add: evicted_from_def)
    ultimately show ?thesis
    proof (cases "d_used (s_dict s) \<le> target \<or> dr_late dr")
      case False
      then have r: "evictRounds P E snap target (dr # drs) s = evictRounds P E snap target drs s'" using s'(1) by simp
      have "evicted_from E (sn_volatileOnly snap) s' (evictRounds P E snap target drs s')"
        and "s_evicted (evictRounds P E snap target drs s') \<le> s_evicted s' + int (length drs)"
        using Cons.IH [OF s'(3)] Cons.prems by simp_all
      then show ?thesis
        using evicted_from_trans [OF \<open>evicted_from E (sn_volatileOnly snap) s s'\<close>] s'(8) unfolding r by simp
    qed simp
  qed
qed

text \<open>With a policy over all keys, a non-empty index always yields a victim.\<close>

lemma sample_progress:
  assumes ok: "dict_ok E d" "draws_ok dr" and e: "dlook E d db k = Some e"
  shows "sample E dr n False d \<noteq> []"
proof -
  obtain ds where ds: "d_dbs d db = Some ds" "map_of (ds_shards ds ! shardFor (env_hash E) ds k) k = Some e"
    using e by (auto simp: dlook_def split: option.splits)
  have t: "track_ok ds" "ds_shards ds \<noteq> []" using ok(1) ds by (auto simp: dict_ok_def ds_ok_def)
  have ne: "ds_nonEmpty ds \<noteq> []"
  proof -
    have "shardFor (env_hash E) ds k \<in> set (ds_nonEmpty ds)"
      using t ds(2) shardFor_less [OF t(2)] unfolding track_ok_def by (metis list.simps(3) map_of.simps(1) option.distinct(1))
    then show ?thesis by auto
  qed
  let ?n = "if n \<le> 0 then 5 else nat n"
  obtain sh where sh: "randomShard (dr_shard dr (unat db) 0) ds = Some sh" using ne by (simp add: randomShard_def)
  have "dr_order dr (unat db) 0 (ds_shards ds ! sh) \<noteq> []"
    using randomShard_Some [OF t(1) sh] ok(2) unfolding draws_ok_def by (metis set_empty)
  then obtain c where c: "pickFromShard (dr_order dr (unat db) 0 (ds_shards ds ! sh)) (of_nat (unat db)) (env_now E)
      (LRUClock (env_now E)) False = Some c"
    using pickFromShard_None by (metis option.exhaust)
  have "c \<in> set (sampleDB E dr ?n (unat db) False d)"
    using ds(1) sh c by (auto simp: sampleDB_def map_filter_def intro!: bexI [of _ 0] image_eqI [of _ _ 0])
  moreover have "unat db < d_dbCount d" using dlook_valid [OF ok(1) e] by (simp add: Valid_def)
  ultimately show ?thesis unfolding sample_def Let_def by fastforce
qed

lemma evictRounds_progress:
  fixes P :: "'e pebble" and target :: int
  assumes "env_ok E" "sn_mode snap \<noteq> EvictCache" "\<not> sn_volatileOnly snap" "dict_ok E (s_dict s)"
    "\<forall>dr\<in>set drs. draws_ok dr \<and> \<not> dr_late dr"
  defines "s' \<equiv> evictRounds P E snap target drs s"
  shows "d_used (s_dict s') \<le> target \<or> s_evicted s' = s_evicted s + int (length drs) \<or> (\<forall>db k. dlook E (s_dict s') db k = None)"
  using assms(4,5) unfolding s'_def
proof (induction drs arbitrary: s)
  case Nil
  then show ?case by simp
next
  case (Cons dr drs)
  show ?case
  proof (cases "pick E dr snap (s_dict s)")
    case None
    then have "dlook E (s_dict s) db k = None" for db k
      using sample_progress [of E "s_dict s" dr db k] Cons.prems assms(3)
      by (cases "dlook E (s_dict s) db k") (auto simp: pick_def Let_def split: if_splits)
    then show ?thesis using None by (simp add: evictOne_def)
  next
    case (Some c)
    have dr: "draws_ok dr" using Cons.prems by simp
    obtain e s' where s': "evictOne P E dr snap s = (True, s')" "s_eng s' = s_eng s"
      "dict_ok E (s_dict s')" "dlook E (s_dict s) (c_db c) (c_key c) = Some e"
      "sn_volatileOnly snap \<longrightarrow> e_expireAt e \<noteq> 0"
      "dlook E (s_dict s') = (\<lambda>x y. if x = c_db c \<and> y = c_key c then None else dlook E (s_dict s) x y)"
      "d_used (s_dict s') = d_used (s_dict s) - uint (e_size e)" "s_evicted s' = s_evicted s + 1"
      by (rule evictOne_persist [OF Cons.prems(1) assms(1) dr assms(2) Some])
    then show ?thesis using Cons.IH [OF s'(3)] Cons.prems by auto
  qed
qed

section \<open>Properties\<close>

text \<open>C22: eviction never loses data in persist mode: however the samples fall, \<open>MaybeEvict\<close> leaves
  the persisted contents untouched, keeps the invariant of the index, removes at most 64 entries and
  changes none, and under a \<open>volatile-*\<close> policy it never removes a key without expiry.\<close>

theorem eviction_safe:
  assumes "dict_ok E (s_dict s)" "env_ok E" "\<forall>i. draws_ok (drs i)" "EvictionMode (env_cfg E) \<noteq> EvictCache"
  shows "evicted_from E (VolatileOnly (env_cfg E)) s (MaybeEvict P E drs s) \<and>
         s_evicted (MaybeEvict P E drs s) \<le> s_evicted s + 64"
proof -
  have "evicted_from E (VolatileOnly (env_cfg E)) s s" using assms(1) by (simp add: evicted_from_def)
  then show ?thesis
    using evictRounds_persist [of E "snapshot (env_cfg E)" s "map drs [0..<roundLimit]" P
        "evictTarget (snapshot (env_cfg E))"] assms
    by (auto simp: MaybeEvict_def Let_def snapshot_def roundLimit_def)
qed


text \<open>The victim is the best of the sample: no sampled key has been idle longer (LRU), is used
  less often (LFU), or expires sooner (TTL) than the one picked, and it is a key of the index.\<close>

theorem pick_is_best:
  assumes "dict_ok E d" "draws_ok dr" "pick E dr snap d = Some c"
  shows "cand_of E (sn_volatileOnly snap) d c \<and>
         (\<forall>x \<in> set (sample E dr (sn_sample snap) (sn_volatileOnly snap) d). no_worse (sn_policy snap) c x)"
  using pick_cand [OF assms] pick_best_no_worse assms(3) by (auto simp: pick_def Let_def split: if_splits)

definition sample_draws :: Draws where
  "sample_draws = \<lparr>dr_shard = (\<lambda>_ i. i), dr_order = (\<lambda>_ _ m. m), dr_late = False\<rparr>"

definition evict_env :: Env where
  "evict_env = sample_env\<lparr>env_cfg := DefaultConfig\<lparr>MaxMemory := 50, EvictionPolicy := AllKeysLRU, ShardCount := 2\<rparr>\<rparr>"

definition evict_store :: "(bytes \<times> bytes) list Store" where
  "evict_store = \<lparr>s_eng = [], s_dict = Set evict_env 0 [1] TypeString 0 [2] (NewDict DefaultConfig),
     s_hits = 0, s_misses = 0, s_expired = 0, s_keyChanges = 0, s_reaped = 0, s_evicted = 0, s_blockSeq = 0, s_blockChans = []\<rparr>"

lemma evict_setup:
  "env_ok evict_env" "draws_ok sample_draws" "\<not> dr_late sample_draws" "dict_ok evict_env (s_dict evict_store)"
  "EvictionMode (env_cfg evict_env) \<noteq> EvictCache" "EvictionEnabled (env_cfg evict_env)" "\<not> VolatileOnly (env_cfg evict_env)"
proof -
  show e: "env_ok evict_env" by (simp add: env_ok_def evict_env_def sample_env_def)
  show "draws_ok sample_draws" "\<not> dr_late sample_draws" by (simp_all add: draws_ok_def sample_draws_def)
  show "dict_ok evict_env (s_dict evict_store)"
    using dict_ok_Set [OF dict_ok_New [of evict_env DefaultConfig] e, of 0 "[1]" TypeString 0 "[2]"]
    by (simp add: evict_store_def Valid_def NewDict_def DefaultConfig_def)
  show "EvictionMode (env_cfg evict_env) \<noteq> EvictCache" "EvictionEnabled (env_cfg evict_env)"
    "\<not> VolatileOnly (env_cfg evict_env)"
    by (simp_all add: evict_env_def sample_env_def DefaultConfig_def EvictionEnabled_def VolatileOnly_def
        policy_defs mode_defs)
qed

theorem eviction_safe_witness:
  "s_eng (MaybeEvict ref_pebble evict_env (\<lambda>_. sample_draws) evict_store) = []"
  using eviction_safe [OF evict_setup(4,1), of "\<lambda>_. sample_draws" ref_pebble] evict_setup
  by (simp add: evicted_from_def evict_store_def)


theorem pick_is_best_witness:
  "\<exists>c. pick evict_env sample_draws (snapshot (env_cfg evict_env)) (s_dict evict_store) = Some c \<and>
       cand_of evict_env False (s_dict evict_store) c"
proof -
  have "dlook evict_env (s_dict evict_store) 0 [1] \<noteq> None"
    using Set_spec(1) [OF dict_ok_wf [OF dict_ok_New] evict_setup(1)] by (simp add: evict_store_def)
  then obtain e where "dlook evict_env (s_dict evict_store) 0 [1] = Some e" by auto
  from sample_progress [OF evict_setup(4,2) this] obtain c
    where c: "pick evict_env sample_draws (snapshot (env_cfg evict_env)) (s_dict evict_store) = Some c"
    using evict_setup(7) by (auto simp: pick_def Let_def snapshot_def)
  from pick_is_best [OF evict_setup(4,2) c] c show ?thesis using evict_setup(7) by (auto simp: snapshot_def)
qed

end
