(* ===== verification/View.thy ===== *)
theory View
  imports State
begin

text \<open>
  The abstract state of the store: the map from a database and a key to the typed value stored there
  (\<open>view\<close>), and the part of it a client can see at a given time (\<open>live\<close>).  The invariant \<open>store_ok\<close>
  ties the three representations together, key by key: the expiry index holds exactly the expiry
  of the stored value, and an entry of the in-memory index agrees with the stored value it caches.
\<close>

type_synonym tval = "byte \<times> int \<times> bytes"

definition view :: "(bytes \<rightharpoonup> bytes) \<Rightarrow> dbid \<Rightarrow> bytes \<Rightarrow> tval option" where
  "view m db key =
     (case m (EncodeDataKey db key) of
        None \<Rightarrow> None
      | Some v \<Rightarrow> (case DecodeValue v of Inl _ \<Rightarrow> None | Inr t \<Rightarrow> Some t))"

definition past :: "int \<Rightarrow> int \<Rightarrow> bool" where
  "past now x \<longleftrightarrow> x \<noteq> 0 \<and> x \<le> now"

definition live_val :: "int \<Rightarrow> tval option \<Rightarrow> tval option" where
  "live_val now t = (case t of None \<Rightarrow> None | Some (typ, x, p) \<Rightarrow> if past now x then None else Some (typ, x, p))"

definition live :: "int \<Rightarrow> (bytes \<rightharpoonup> bytes) \<Rightarrow> dbid \<Rightarrow> bytes \<Rightarrow> tval option" where
  "live now m db key = live_val now (view m db key)"

definition index_ok :: "(bytes \<rightharpoonup> bytes) \<Rightarrow> dbid \<Rightarrow> bytes \<Rightarrow> bool" where
  "index_ok m db key \<longleftrightarrow>
     (\<forall>x. is_int64 x \<longrightarrow>
        (m (EncodeExpireKey x db key) \<noteq> None \<longleftrightarrow> x \<noteq> 0 \<and> (\<exists>typ p. view m db key = Some (typ, x, p))))"

definition caches :: "Entry \<Rightarrow> tval option \<Rightarrow> bool" where
  "caches e t \<longleftrightarrow> (\<exists>p. t = Some (e_typ e, e_expireAt e, p) \<and> (\<not> e_counter e \<and> e_inline e \<noteq> [] \<longrightarrow> e_inline e = p))"

definition key_ok :: "(bytes \<rightharpoonup> bytes) \<Rightarrow> Entry option \<Rightarrow> dbid \<Rightarrow> bytes \<Rightarrow> bool" where
  "key_ok m eo db key \<longleftrightarrow> index_ok m db key \<and> (\<forall>e. eo = Some e \<longrightarrow> caches e (view m db key))"

definition store_ok :: "Env \<Rightarrow> (bytes \<rightharpoonup> bytes) \<Rightarrow> Dict \<Rightarrow> bool" where
  "store_ok E m d \<longleftrightarrow> dict_wf d \<and> env_ok E \<and> (\<forall>db key. key_ok m (dlook E d db key) db key)"

section \<open>Frames\<close>

text \<open>What the data and expiry segments hold for one key.\<close>

definition agree :: "(bytes \<rightharpoonup> bytes) \<Rightarrow> (bytes \<rightharpoonup> bytes) \<Rightarrow> dbid \<Rightarrow> bytes \<Rightarrow> bool" where
  "agree m m' db key \<longleftrightarrow> m' (EncodeDataKey db key) = m (EncodeDataKey db key) \<and>
     (\<forall>x. is_int64 x \<longrightarrow> m' (EncodeExpireKey x db key) = m (EncodeExpireKey x db key))"

lemma agree_refl [simp]: "agree m m db key"
  by (simp add: agree_def)

lemma agree_view: "agree m m' db key \<Longrightarrow> view m' db key = view m db key"
  by (simp add: agree_def view_def)

lemma agree_live: "agree m m' db key \<Longrightarrow> live now m' db key = live now m db key"
  by (simp add: live_def agree_view)

lemma agree_index: "agree m m' db key \<Longrightarrow> index_ok m db key \<Longrightarrow> index_ok m' db key"
  by (simp add: index_ok_def agree_view) (simp add: agree_def)

lemma agree_key_ok: "agree m m' db key \<Longrightarrow> key_ok m eo db key \<Longrightarrow> key_ok m' eo db key"
  by (simp add: key_ok_def agree_index agree_view)

text \<open>The step of one operation: it concerns one key only.\<close>

lemma store_ok_step:
  assumes "store_ok E m d" "dict_wf d'"
    and "\<And>x y. (x, y) \<noteq> (db, key) \<Longrightarrow> agree m m' x y \<and> dlook E d' x y = dlook E d x y"
    and "key_ok m' (dlook E d' db key) db key"
  shows "store_ok E m' d'"
  unfolding store_ok_def
proof (intro conjI allI)
  show "dict_wf d'" "env_ok E" using assms(1,2) by (simp_all add: store_ok_def)
  fix x y
  show "key_ok m' (dlook E d' x y) x y"
  proof (cases "(x, y) = (db, key)")
    case True
    then show ?thesis using assms(4) by simp
  next
    case False
    then show ?thesis
      using assms(1) assms(3) [OF False] agree_key_ok [of m m' x y] by (simp add: store_ok_def)
  qed
qed

lemma live_step:
  assumes "\<And>x y. (x, y) \<noteq> (db, key) \<Longrightarrow> agree m m' x y"
  shows "live now m' = (\<lambda>x y. if x = db \<and> y = key then live now m' db key else live now m x y)"
proof (intro ext)
  fix x y
  show "live now m' x y = (if x = db \<and> y = key then live now m' db key else live now m x y)"
    using assms [of x y] agree_live [of m m' x y now] by auto
qed

section \<open>Batches\<close>

lemma run_deletes:
  "\<forall>b\<in>set ops. \<exists>k. b = BDelete k \<Longrightarrow> run_bops ops m = (\<lambda>k. if BDelete k \<in> set ops then None else m k)"
proof (induction ops arbitrary: m)
  case Nil
  then show ?case by simp
next
  case (Cons b ops)
  then obtain k where "b = BDelete k" by auto
  with Cons show ?case by (auto simp: fun_eq_iff)
qed

definition putBatch :: "dbid \<Rightarrow> bytes \<Rightarrow> byte \<Rightarrow> bytes \<Rightarrow> int \<Rightarrow> int \<Rightarrow> bop list" where
  "putBatch db key typ val expireAtMs prevExpire =
     [BSet (EncodeDataKey db key) (EncodeValue typ expireAtMs val)]
     @ (if prevExpire \<noteq> 0 \<and> prevExpire \<noteq> expireAtMs then [BDelete (EncodeExpireKey prevExpire db key)] else [])
     @ (if expireAtMs \<noteq> 0 \<and> expireAtMs \<noteq> prevExpire then [BSet (EncodeExpireKey expireAtMs db key) []] else [])"

text \<open>A write keeps the expiry index in step when the previous expiry it is given is the one the
  stored value has.\<close>

definition expiry_of :: "(bytes \<rightharpoonup> bytes) \<Rightarrow> dbid \<Rightarrow> bytes \<Rightarrow> int" where
  "expiry_of m db key = (case view m db key of None \<Rightarrow> 0 | Some (typ, x, p) \<Rightarrow> x)"

lemma is_int64_DecodeValue: "DecodeValue v = Inr (typ, x, p) \<Longrightarrow> is_int64 x"
  by (auto simp: DecodeValue_def split: if_splits)

lemma view_int64: "view m db key = Some (typ, x, p) \<Longrightarrow> is_int64 x"
  by (auto simp: view_def is_int64_DecodeValue split: option.splits sum.splits)

lemma expiry_of_int64 [simp]: "is_int64 (expiry_of m db key)"
  using view_int64 by (auto simp: expiry_of_def split: option.splits)

lemma putBatch_view:
  "is_int64 x \<Longrightarrow> view (run_bops (putBatch db key typ val x prev) m) db key = Some (typ, x, val)"
  by (cases "x = prev") (simp_all add: putBatch_def view_def)

lemma putBatch_agree:
  "is_int64 x \<Longrightarrow> is_int64 prev \<Longrightarrow> (a, b) \<noteq> (db, key) \<Longrightarrow> agree m (run_bops (putBatch db key typ val x prev) m) a b"
  by (auto simp: putBatch_def agree_def EncodeExpireKey_inj)

lemma putBatch_index:
  assumes "index_ok m db key" "is_int64 x" "prev = expiry_of m db key"
  shows "index_ok (run_bops (putBatch db key typ val x prev) m) db key"
proof -
  have prev: "is_int64 prev" using assms(3) by simp
  have old: "m (EncodeExpireKey y db key) \<noteq> None \<longleftrightarrow> y \<noteq> 0 \<and> y = prev" if "is_int64 y" for y
    using assms(1) that by (auto simp: index_ok_def assms(3) expiry_of_def split: option.splits)
  show ?thesis
    unfolding index_ok_def putBatch_view [OF assms(2)]
  proof (intro allI impI)
    fix y
    assume y: "is_int64 y"
    show "(run_bops (putBatch db key typ val x prev) m (EncodeExpireKey y db key) \<noteq> None) =
          (y \<noteq> 0 \<and> (\<exists>typ' p. Some (typ, x, val) = Some (typ', y, p)))"
      using old [OF y] y prev assms(2) by (auto simp: putBatch_def EncodeExpireKey_inj)
  qed
qed

lemma index_ok_unset:
  assumes "index_ok m db key" and "x = expiry_of m db key"
    and "m' (EncodeDataKey db key) = None"
    and "\<And>y. is_int64 y \<Longrightarrow> m' (EncodeExpireKey y db key) = (if y = x \<and> x \<noteq> 0 then None else m (EncodeExpireKey y db key))"
  shows "index_ok m' db key"
proof -
  have "view m' db key = None" using assms(3) by (simp add: view_def)
  moreover have "m' (EncodeExpireKey y db key) = None" if "is_int64 y" for y
    using assms(1,2) assms(4) [OF that] that by (force simp: index_ok_def expiry_of_def split: option.splits)
  ultimately show ?thesis by (simp add: index_ok_def)
qed

section \<open>Caching\<close>

lemma caches_set_entry: "is_int64 x \<Longrightarrow> caches (set_entry E key typ x p old) (Some (typ, x, p))"
  by (simp add: caches_def set_entry_def newEntry_def Let_def)

lemma caches_sel: "caches e t \<Longrightarrow> \<exists>p. t = Some (e_typ e, e_expireAt e, p)"
  by (auto simp: caches_def)

lemma caches_same_but_lru: "same_but_lru e e' \<Longrightarrow> caches e' t = caches e t"
  by (auto simp: caches_def same_but_lru_def)

lemma caches_Expired: "caches e t \<Longrightarrow> Expired e now \<longleftrightarrow> live_val now t = None"
  by (auto simp: caches_def Expired_def live_val_def past_def split: if_splits)

lemma store_okD:
  assumes "store_ok E m d"
  shows "dict_wf d" "env_ok E" "index_ok m db key" "dlook E d db key = Some e \<Longrightarrow> caches e (view m db key)"
  using assms by (auto simp: store_ok_def key_ok_def)

text \<open>A lookup that finds an expired entry drops it; the store stays consistent.\<close>

lemma store_ok_Lookup:
  assumes "store_ok E m d"
  shows "store_ok E m (snd (Lookup E db key d))"
proof (rule store_ok_step [OF assms, where db = db and key = key])
  note L = Lookup_spec [OF store_okD(1,2) [OF assms], of db key]
  show "dict_wf (snd (Lookup E db key d))" by (fact L(3))
  show "(x, y) \<noteq> (db, key) \<Longrightarrow> agree m m x y \<and> dlook E (snd (Lookup E db key d)) x y = dlook E d x y" for x y
    by (simp add: L(2)) auto
  show "key_ok m (dlook E (snd (Lookup E db key d)) db key) db key"
    using store_okD(3,4) [OF assms, of db key] by (auto simp: L(1,2) key_ok_def split: option.splits if_splits)
qed

lemma Lookup_live:
  assumes "store_ok E m d" "fst (Lookup E db key d) = Some e"
  shows "caches e (live (env_now E) m db key)" "dlook E (snd (Lookup E db key d)) db key = Some e"
proof -
  note L = Lookup_spec [OF store_okD(1,2) [OF assms(1)], of db key]
  have e: "dlook E d db key = Some e" "\<not> Expired e (env_now E)"
    using assms(2) L(1) by (auto split: option.splits if_splits)
  then have c: "caches e (view m db key)" using store_okD(4) [OF assms(1)] by simp
  then show "caches e (live (env_now E) m db key)"
    using e(2) by (auto simp: live_def caches_Expired caches_def live_val_def past_def Expired_def)
  show "dlook E (snd (Lookup E db key d)) db key = Some e" using assms(2) by (simp add: L(2))
qed

lemma store_ok_Touch:
  assumes "store_ok E m d"
  shows "store_ok E m (Touch E db key d)"
proof (rule store_ok_step [OF assms, where db = db and key = key])
  obtain f where f: "\<forall>e. same_but_lru e (f e)"
    "dlook E (Touch E db key d) = (\<lambda>x y. if x = db \<and> y = key then map_option f (dlook E d db key) else dlook E d x y)"
    using Touch_spec(1) [OF store_okD(1,2) [OF assms]] by blast
  show "dict_wf (Touch E db key d)" by (rule Touch_spec(2) [OF store_okD(1,2) [OF assms]])
  show "(x, y) \<noteq> (db, key) \<Longrightarrow> agree m m x y \<and> dlook E (Touch E db key d) x y = dlook E d x y" for x y
    by (simp add: f(2)) auto
  show "key_ok m (dlook E (Touch E db key d) db key) db key"
    using store_okD(3,4) [OF assms, of db key] caches_same_but_lru [OF spec [OF f(1)]]
    by (auto simp: f(2) key_ok_def)
qed

lemma store_ok_Delete_entry:
  assumes "store_ok E m d"
  shows "store_ok E m (snd (Delete E db key d))"
proof (rule store_ok_step [OF assms, where db = db and key = key])
  note D = Delete_spec [OF store_okD(1,2) [OF assms], of db key]
  show "dict_wf (snd (Delete E db key d))" by (fact D(3))
  show "(x, y) \<noteq> (db, key) \<Longrightarrow> agree m m x y \<and> dlook E (snd (Delete E db key d)) x y = dlook E d x y" for x y
    by (simp add: D(2)) auto
  show "key_ok m (dlook E (snd (Delete E db key d)) db key) db key"
    using store_okD(3) [OF assms, of db key] by (simp add: D(2) key_ok_def)
qed

text \<open>Re-admitting the stored value of a key into the index.\<close>

lemma store_ok_Set:
  assumes "store_ok E m d" "view m db key = Some (typ, x, p)"
  shows "store_ok E m (Set E db key typ x p d)"
proof (rule store_ok_step [OF assms(1), where db = db and key = key])
  note S = Set_spec [OF store_okD(1,2) [OF assms(1)], of db key "typ" x p]
  show "dict_wf (Set E db key typ x p d)" by (fact S(2))
  show "(a, b) \<noteq> (db, key) \<Longrightarrow> agree m m a b \<and> dlook E (Set E db key typ x p d) a b = dlook E d a b" for a b
    by (simp add: S(1)) auto
  show "key_ok m (dlook E (Set E db key typ x p d) db key) db key"
    using store_okD(3) [OF assms(1), of db key] caches_set_entry [OF view_int64, OF assms(2)]
    by (simp add: S(1) key_ok_def assms(2))
qed

lemma store_ok_SetCounter:
  assumes "store_ok E m d" "view m db key = Some (typ, x, p)" "dlook E d db key = Some e"
  shows "store_ok E m (SetCounter E db key x d)"
proof (rule store_ok_step [OF assms(1), where db = db and key = key])
  note S = SetCounter_spec [OF store_okD(1,2) [OF assms(1)], of db key x]
  show "dict_wf (SetCounter E db key x d)" by (fact S(2))
  show "(a, b) \<noteq> (db, key) \<Longrightarrow> agree m m a b \<and> dlook E (SetCounter E db key x d) a b = dlook E d a b" for a b
    by (simp add: S(1)) auto
  show "key_ok m (dlook E (SetCounter E db key x d) db key) db key"
    unfolding S(1)
    using store_okD(3,4) [OF assms(1), of db key] assms(2,3)
    by (auto simp: key_ok_def counter_entry_def caches_def)
qed

text \<open>A committed write, with the matching update of the index.\<close>

lemma store_ok_put:
  assumes ok: "store_ok E m d" and x: "is_int64 x" and prev: "prev = expiry_of m db key"
  shows "store_ok E (run_bops (putBatch db key typ val x prev) m) (Set E db key typ x val d)"
proof (rule store_ok_step [OF ok])
  note S = Set_spec [OF store_okD(1,2) [OF ok], of db key "typ" x val]
  show "dict_wf (Set E db key typ x val d)" by (fact S(2))
  show "(a, b) \<noteq> (db, key) \<Longrightarrow> agree m (run_bops (putBatch db key typ val x prev) m) a b \<and>
      dlook E (Set E db key typ x val d) a b = dlook E d a b" for a b
    using putBatch_agree [OF x, of prev a b db key m "typ" val] prev by (auto simp: S(1))
  show "key_ok (run_bops (putBatch db key typ val x prev) m) (dlook E (Set E db key typ x val d) db key) db key"
    using putBatch_index [OF store_okD(3) [OF ok] x prev] caches_set_entry [OF x]
    by (simp add: key_ok_def S(1) putBatch_view [OF x])
qed

lemma store_ok_agree: "store_ok E m d \<Longrightarrow> (\<And>a b. agree m m' a b) \<Longrightarrow> store_ok E m' d"
  using agree_key_ok unfolding store_ok_def by blast

end
