(* ===== verification/Options.thy ===== *)
theory Options
  imports Errors Entries
begin

text \<open>
  \<open>option.go\<close>: the option grammars of \<open>SET\<close> and of the \<open>EXPIRE\<close> family.  A \<open>time.Time\<close> is its Unix
  second and the nanosecond within it; a \<open>time.Duration\<close> is an \<open>int64\<close> count of nanoseconds, whose
  products wrap.
\<close>

section \<open>Times\<close>

record gotime =
  t_sec :: int
  t_nsec :: int

definition zero_time :: gotime where
  "zero_time = \<lparr>t_sec = -62135596800, t_nsec = 0\<rparr>"

definition IsZero :: "gotime \<Rightarrow> bool" where
  "IsZero t \<longleftrightarrow> t = zero_time"

definition time_Unix :: "int \<Rightarrow> int \<Rightarrow> gotime" where
  "time_Unix sec nsec = \<lparr>t_sec = sec + nsec div 10 ^ 9, t_nsec = nsec mod 10 ^ 9\<rparr>"

definition time_UnixMilli :: "int \<Rightarrow> gotime" where
  "time_UnixMilli v = time_Unix (go_div v 1000) ((v - 1000 * go_div v 1000) * 10 ^ 6)"

definition UnixMilli :: "gotime \<Rightarrow> int" where
  "UnixMilli t = wrap64 (t_sec t * 1000 + t_nsec t div 10 ^ 6)"

definition time_Add :: "gotime \<Rightarrow> int \<Rightarrow> gotime" where
  "time_Add t d = time_Unix (t_sec t) (t_nsec t + d)"

definition clock_Now :: "int \<Rightarrow> gotime" where
  "clock_Now nowMs = time_UnixMilli nowMs"

definition Millisecond :: int where "Millisecond = 10 ^ 6"
definition Second :: int where "Second = 10 ^ 9"

section \<open>Options of SET\<close>

record SetOption =
  so_EX :: int
  so_PX :: int
  so_EXAT :: gotime
  so_PXAT :: gotime
  so_NX :: bool
  so_XX :: bool
  so_KEEPTTL :: bool
  so_GET :: bool

definition noSetOption :: SetOption where
  "noSetOption = \<lparr>so_EX = 0, so_PX = 0, so_EXAT = zero_time, so_PXAT = zero_time,
     so_NX = False, so_XX = False, so_KEEPTTL = False, so_GET = False\<rparr>"

definition ExpireAt :: "SetOption \<Rightarrow> gotime \<Rightarrow> gotime" where
  "ExpireAt opt now =
     (if so_EX opt > 0 then time_Add now (so_EX opt)
      else if so_PX opt > 0 then time_Add now (so_PX opt)
      else if \<not> IsZero (so_EXAT opt) then so_EXAT opt
      else if \<not> IsZero (so_PXAT opt) then so_PXAT opt
      else zero_time)"

text \<open>The raw operands seen so far: \<open>givenEX\<close>, \<open>rawEX\<close> and so on.\<close>

record rawExpire =
  rawEX :: "int option"
  rawPX :: "int option"
  rawEXAT :: "int option"
  rawPXAT :: "int option"

definition noRaw :: rawExpire where
  "noRaw = \<lparr>rawEX = None, rawPX = None, rawEXAT = None, rawPXAT = None\<rparr>"

definition nextInt :: "bytes list \<Rightarrow> goerr + (int \<times> bytes list)" where
  "nextInt rest =
     (case rest of
        [] \<Rightarrow> Inl ErrSyntax
      | a # rest' \<Rightarrow> (case parse_int a of None \<Rightarrow> Inl ErrNotInteger | Some v \<Rightarrow> Inr (v, rest')))"

lemma nextInt_shorter: "nextInt rest = Inr (v, rest') \<Longrightarrow> length rest' < length rest"
  by (auto simp: nextInt_def split: list.splits option.splits)

function parseSetLoop :: "bytes list \<Rightarrow> SetOption \<Rightarrow> rawExpire \<Rightarrow> goerr + (SetOption \<times> rawExpire)" where
  "parseSetLoop [] opt raw = Inr (opt, raw)"
| "parseSetLoop (arg # rest) opt raw =
     (if fold_equal arg ''EX'' then
        (case nextInt rest of Inl err \<Rightarrow> Inl err
         | Inr (v, rest') \<Rightarrow> parseSetLoop rest' (opt\<lparr>so_EX := wrap64 (v * Second)\<rparr>) (raw\<lparr>rawEX := Some v\<rparr>))
      else if fold_equal arg ''PX'' then
        (case nextInt rest of Inl err \<Rightarrow> Inl err
         | Inr (v, rest') \<Rightarrow> parseSetLoop rest' (opt\<lparr>so_PX := wrap64 (v * Millisecond)\<rparr>) (raw\<lparr>rawPX := Some v\<rparr>))
      else if fold_equal arg ''EXAT'' then
        (case nextInt rest of Inl err \<Rightarrow> Inl err
         | Inr (v, rest') \<Rightarrow> parseSetLoop rest' (opt\<lparr>so_EXAT := time_Unix v 0\<rparr>) (raw\<lparr>rawEXAT := Some v\<rparr>))
      else if fold_equal arg ''PXAT'' then
        (case nextInt rest of Inl err \<Rightarrow> Inl err
         | Inr (v, rest') \<Rightarrow> parseSetLoop rest' (opt\<lparr>so_PXAT := time_UnixMilli v\<rparr>) (raw\<lparr>rawPXAT := Some v\<rparr>))
      else if fold_equal arg ''KEEPTTL'' then parseSetLoop rest (opt\<lparr>so_KEEPTTL := True\<rparr>) raw
      else if fold_equal arg ''NX'' then parseSetLoop rest (opt\<lparr>so_NX := True\<rparr>) raw
      else if fold_equal arg ''XX'' then parseSetLoop rest (opt\<lparr>so_XX := True\<rparr>) raw
      else if fold_equal arg ''GET'' then parseSetLoop rest (opt\<lparr>so_GET := True\<rparr>) raw
      else Inl ErrSyntax)"
  by pat_completeness auto
termination
  by (relation "measure (\<lambda>(args, opt, raw). length args)") (auto dest: nextInt_shorter)

definition expireKinds :: "rawExpire \<Rightarrow> int list" where
  "expireKinds raw = List.map_filter id [rawEX raw, rawPX raw, rawEXAT raw, rawPXAT raw]"

definition expiryGiven :: "SetOption \<Rightarrow> bool" where
  "expiryGiven opt \<longleftrightarrow> so_EX opt > 0 \<or> so_PX opt > 0 \<or> \<not> IsZero (so_EXAT opt) \<or> \<not> IsZero (so_PXAT opt)"

definition checkSetOption :: "SetOption \<Rightarrow> rawExpire \<Rightarrow> goerr + SetOption" where
  "checkSetOption opt raw =
     (if so_NX opt \<and> so_XX opt then Inl ErrSyntax
      else if length (expireKinds raw) > 1 then Inl ErrSyntax
      else if list_ex (\<lambda>v. v \<le> 0) (expireKinds raw) then Inl ErrInvalidExpire
      else
        let keep = (\<lambda>opt. if so_KEEPTTL opt \<and> expiryGiven opt then Inl ErrSyntax else Inr opt) in
        case rawEX raw of
          None \<Rightarrow> keep opt
        | Some v \<Rightarrow>
            let ms = wrap64 (v * 1000)
            in if go_div ms 1000 \<noteq> v then Inl ErrInvalidExpire
               else keep (opt\<lparr>so_EX := wrap64 (ms * Millisecond)\<rparr>))"

definition parseSetOption :: "bytes list \<Rightarrow> goerr + SetOption" where
  "parseSetOption rest =
     (case parseSetLoop rest noSetOption noRaw of Inl err \<Rightarrow> Inl err | Inr (opt, raw) \<Rightarrow> checkSetOption opt raw)"

section \<open>Options of EXPIRE\<close>

definition go_string :: "bytes \<Rightarrow> string" where
  "go_string b = map (\<lambda>c. char_of (unat c)) b"

record ExpireOption =
  eo_NX :: bool
  eo_XX :: bool
  eo_GT :: bool
  eo_LT :: bool

definition noExpireOption :: ExpireOption where
  "noExpireOption = \<lparr>eo_NX = False, eo_XX = False, eo_GT = False, eo_LT = False\<rparr>"

fun parseExpireLoop :: "bytes list \<Rightarrow> ExpireOption \<Rightarrow> goerr + ExpireOption" where
  "parseExpireLoop [] opt = Inr opt"
| "parseExpireLoop (arg # rest) opt =
     (if fold_equal arg ''NX'' then parseExpireLoop rest (opt\<lparr>eo_NX := True\<rparr>)
      else if fold_equal arg ''XX'' then parseExpireLoop rest (opt\<lparr>eo_XX := True\<rparr>)
      else if fold_equal arg ''GT'' then parseExpireLoop rest (opt\<lparr>eo_GT := True\<rparr>)
      else if fold_equal arg ''LT'' then parseExpireLoop rest (opt\<lparr>eo_LT := True\<rparr>)
      else Inl (ProtoError (''ERR Unsupported option '' @ go_string arg)))"

definition parseExpireOption :: "bytes list \<Rightarrow> goerr + ExpireOption" where
  "parseExpireOption rest =
     (case parseExpireLoop rest noExpireOption of
        Inl err \<Rightarrow> Inl err
      | Inr opt \<Rightarrow>
          if eo_NX opt \<and> eo_XX opt
          then Inl (ProtoError ''ERR NX and XX options at the same time are not compatible'')
          else if eo_GT opt \<and> eo_LT opt
          then Inl (ProtoError ''ERR GT, LT, and/or NX options at the same time are not compatible'')
          else if eo_NX opt \<and> (eo_GT opt \<or> eo_LT opt)
          then Inl (ProtoError ''ERR GT, LT, and/or NX options at the same time are not compatible'')
          else Inr opt)"

definition toInt64 :: "bytes \<Rightarrow> goerr + int" where
  "toInt64 b = (case parse_int b of None \<Rightarrow> Inl ErrNotInteger | Some v \<Rightarrow> Inr v)"

section \<open>Deadlines\<close>

lemma time_UnixMilli_eq: "time_UnixMilli v = \<lparr>t_sec = v div 1000, t_nsec = v mod 1000 * 10 ^ 6\<rparr>"
proof -
  let ?k = "v div 1000 - go_div v 1000"
  have m: "v - 1000 * go_div v 1000 = v mod 1000 + 1000 * ?k"
    by (simp add: algebra_simps)
  have e: "(a + 1000 * b) * 10 ^ 6 = a * 10 ^ 6 + 10 ^ 9 * b" for a b :: int by simp
  have r: "0 \<le> v mod 1000 * 10 ^ 6" "v mod 1000 * 10 ^ 6 < 10 ^ 9" by simp_all
  have dm: "(a + 10 ^ 9 * b) div 10 ^ 9 = b" "(a + 10 ^ 9 * b) mod 10 ^ 9 = a" if "0 \<le> a" "a < 10 ^ 9" for a b :: int
    using that by simp_all
  show ?thesis
    unfolding time_UnixMilli_def time_Unix_def m e dm [OF r] by simp
qed

lemma UnixMilli_UnixMilli: "UnixMilli (time_UnixMilli v) = wrap64 v"
proof -
  have "v div 1000 * 1000 + v mod 1000 = v" by simp
  then show ?thesis by (simp add: UnixMilli_def time_UnixMilli_eq)
qed

lemma UnixMilli_Add:
  "UnixMilli (time_Add (clock_Now now) (ms * Millisecond)) = wrap64 (now + ms)"
proof -
  have "t_nsec (time_UnixMilli now) + ms * 10 ^ 6 = (now mod 1000 + ms) * 10 ^ 6"
    by (simp add: time_UnixMilli_eq algebra_simps)
  moreover have "((now mod 1000 + ms) * 10 ^ 6) div 10 ^ 9 = (now mod 1000 + ms) div 1000"
    using div_mult_mult1 [of "10 ^ 6 :: int" "now mod 1000 + ms" 1000] by (simp add: mult.commute)
  moreover have "((now mod 1000 + ms) * 10 ^ 6) mod 10 ^ 9 = ((now mod 1000 + ms) mod 1000) * 10 ^ 6"
    using mod_mult_mult1 [of "10 ^ 6 :: int" "now mod 1000 + ms" 1000] by (simp add: mult.commute)
  ultimately have "UnixMilli (time_Add (clock_Now now) (ms * Millisecond)) =
      wrap64 ((now div 1000 + (now mod 1000 + ms) div 1000) * 1000 + (now mod 1000 + ms) mod 1000)"
    by (simp add: clock_Now_def time_Add_def time_Unix_def UnixMilli_def Millisecond_def time_UnixMilli_eq)
  also have "(now div 1000 + (now mod 1000 + ms) div 1000) * 1000 + (now mod 1000 + ms) mod 1000 = now + ms"
    by (simp add: algebra_simps)
  finally show ?thesis .
qed

text \<open>What the grammar guarantees of an accepted option list.\<close>

lemma checkSetOption_Inr:
  assumes "checkSetOption opt raw = Inr opt'"
  shows "so_NX opt' = so_NX opt" "so_XX opt' = so_XX opt" "so_GET opt' = so_GET opt"
    "\<not> (so_NX opt' \<and> so_XX opt')" "so_KEEPTTL opt' \<Longrightarrow> \<not> expiryGiven opt'"
    "length (expireKinds raw) \<le> 1" "\<forall>v\<in>set (expireKinds raw). 0 < v"
  using assms by (auto simp: checkSetOption_def Let_def list_ex_iff not_le split: if_splits option.splits)

lemma ExpireAt_not_given: "\<not> expiryGiven opt \<Longrightarrow> IsZero (ExpireAt opt now)"
  by (auto simp: expiryGiven_def ExpireAt_def IsZero_def)

lemma fold_equal_upper: "fold_equal (ascii s) t \<longleftrightarrow> map to_upper (ascii s) = map to_upper (ascii t)"
  by (simp add: fold_equal_def)

lemma parse_EX:
  assumes "parse_int a = Some v" "0 < v"
  shows "parseSetOption [ascii ''EX'', a] =
    (let ms = wrap64 (v * 1000) in
     if go_div ms 1000 \<noteq> v then Inl ErrInvalidExpire else Inr (noSetOption\<lparr>so_EX := wrap64 (ms * Millisecond)\<rparr>))"
proof -
  have "fold_equal (ascii ''EX'') ''EX''" by (simp add: fold_equal_def)
  then show ?thesis
    using assms
    by (simp add: parseSetOption_def nextInt_def checkSetOption_def expireKinds_def map_filter_simps
        noRaw_def noSetOption_def Let_def)
qed

lemma parse_PX:
  assumes "parse_int a = Some v" "0 < v"
  shows "parseSetOption [ascii ''PX'', a] = Inr (noSetOption\<lparr>so_PX := wrap64 (v * Millisecond)\<rparr>)"
proof -
  have "fold_equal (ascii ''PX'') ''PX''" "\<not> fold_equal (ascii ''PX'') ''EX''"
    by (simp add: fold_equal_def, code_simp)
  then show ?thesis
    using assms
    by (simp add: parseSetOption_def nextInt_def checkSetOption_def expireKinds_def map_filter_simps
        noRaw_def noSetOption_def Let_def)
qed

section \<open>Properties\<close>

text \<open>An option list that \<open>parseSetOption\<close> accepts never combines \<open>NX\<close> with \<open>XX\<close>, nor \<open>KEEPTTL\<close>
  with an expiry.\<close>

theorem set_options_consistent:
  assumes "parseSetOption args = Inr opt"
  shows "\<not> (so_NX opt \<and> so_XX opt) \<and> (so_KEEPTTL opt \<longrightarrow> IsZero (ExpireAt opt now))"
proof -
  obtain o1 raw where "checkSetOption o1 raw = Inr opt"
    using assms by (auto simp: parseSetOption_def split: sum.splits)
  from checkSetOption_Inr(4,5) [OF this] ExpireAt_not_given show ?thesis by blast
qed

theorem set_options_consistent_witness:
  "\<not> (so_NX (noSetOption\<lparr>so_XX := True, so_KEEPTTL := True\<rparr>) \<and> so_XX (noSetOption\<lparr>so_XX := True, so_KEEPTTL := True\<rparr>)) \<and>
   IsZero (ExpireAt (noSetOption\<lparr>so_XX := True, so_KEEPTTL := True\<rparr>) (clock_Now 0))"
proof -
  have "parseSetOption [ascii ''xx'', ascii ''KeepTTL''] = Inr (noSetOption\<lparr>so_XX := True, so_KEEPTTL := True\<rparr>)"
    by code_simp
  from set_options_consistent [OF this, of "clock_Now 0"] show ?thesis by simp
qed

text \<open>\<open>SET key value EX n\<close> and \<open>PX n\<close> set the deadline to the current time plus the given number
  of seconds or milliseconds, as long as the duration in nanoseconds fits 64 bits.\<close>

theorem set_expiry_deadline:
  assumes "parse_int a = Some v" "0 < v"
  shows "(v \<le> 9223372036 \<longrightarrow> (\<exists>opt. parseSetOption [ascii ''EX'', a] = Inr opt \<and>
           UnixMilli (ExpireAt opt (clock_Now now)) = wrap64 (now + v * 1000))) \<and>
         (v \<le> 9223372036854 \<longrightarrow> (\<exists>opt. parseSetOption [ascii ''PX'', a] = Inr opt \<and>
           UnixMilli (ExpireAt opt (clock_Now now)) = wrap64 (now + v)))"
proof -
  have ms: "is_int64 (v * 1000)" "is_int64 (v * 1000 * Millisecond)" if "v \<le> 9223372036"
    using assms(2) that by (auto simp: is_int64_def Millisecond_def)
  have px: "is_int64 (v * Millisecond)" if "v \<le> 9223372036854"
    using assms(2) that by (auto simp: is_int64_def Millisecond_def)
  show ?thesis
    using parse_EX [OF assms] parse_PX [OF assms] assms(2) ms px UnixMilli_Add [of now "v * 1000"] UnixMilli_Add [of now v]
    by (auto simp: Let_def ExpireAt_def noSetOption_def Millisecond_def)
qed

theorem set_expiry_deadline_witness:
  "\<exists>opt. parseSetOption [ascii ''EX'', ascii ''10''] = Inr opt \<and> UnixMilli (ExpireAt opt (clock_Now 5)) = 10005"
proof -
  have p: "parse_int (ascii ''10'') = Some 10" by code_simp
  have "wrap64 10005 = 10005" by (simp add: is_int64_def)
  with set_expiry_deadline [OF p, of 5] show ?thesis by auto
qed

text \<open>Beyond that range the expiry is silently lost: \<open>SET key value EX 10000000000\<close> passes the
  overflow check, which is made in milliseconds, but the duration in nanoseconds wraps to a negative
  number, so that the option carries no expiry at all and the key is stored without one.\<close>

theorem set_expiry_overflow_lost:
  "\<exists>opt. parseSetOption [ascii ''EX'', ascii ''10000000000''] = Inr opt \<and>
         (\<forall>now. IsZero (ExpireAt opt (clock_Now now)))"
proof -
  have p: "parse_int (ascii ''10000000000'') = Some 10000000000" by code_simp
  have w: "wrap64 (10000000000 * 1000) = 10000000000000" by (simp add: is_int64_def)
  have "wrap64 (10000000000000 * Millisecond) = -8446744073709551616" by code_simp
  then show ?thesis
    using parse_EX [OF p] w by (auto simp: ExpireAt_def noSetOption_def IsZero_def)
qed

end
