(* ===== verification/Data.thy ===== *)
theory Data
  imports View Evict Options
begin

text \<open>
  \<open>data.go\<close>: the data path shared by the command handlers and the embedded API, with
  \<open>dropElems\<close> of \<open>aggregate.go\<close>, which deleting a key calls, \<open>streamExists\<close> of \<open>stream.go\<close> and
  \<open>loadAll\<close> of \<open>store.go\<close>.  An operation takes the library \<open>P\<close>, the environment \<open>E\<close> and the store and
  returns a Go error or a result, with the store as it leaves it.  The per-key lock that the
  caller holds makes each operation one step on its key.
\<close>

section \<open>Reading\<close>

definition touch :: "Env \<Rightarrow> dbid \<Rightarrow> bytes \<Rightarrow> 'e Store \<Rightarrow> 'e Store" where
  "touch E db key s =
     (if TracksLRU (env_cfg E) \<or> TracksLFU (env_cfg E) then upd_dict (Touch E db key) s else s)"

definition deleteExpired :: "'e pebble \<Rightarrow> Env \<Rightarrow> dbid \<Rightarrow> bytes \<Rightarrow> int \<Rightarrow> 'e Store \<Rightarrow> (goerr, unit, 'e Store) res" where
  "deleteExpired P E db key expireAt s =
     applyBatch P
       ([BDelete (EncodeDataKey db key)]
        @ (if expireAt \<noteq> 0 then [BDelete (EncodeExpireKey expireAt db key)] else []))
       (upd_dict (\<lambda>d. snd (Delete E db key d)) s)"

text \<open>The second half of \<open>getTyped\<close>: the read from Pebble after the index missed.\<close>

definition getCold :: "'e pebble \<Rightarrow> Env \<Rightarrow> dbid \<Rightarrow> bytes \<Rightarrow> bool \<Rightarrow> 'e Store \<Rightarrow> (goerr, tval option, 'e Store) res" where
  "getCold P E db key wasCounter s =
     (case eng_Get P (s_eng s) (EncodeDataKey db key) of
        Inl err \<Rightarrow> if err = ErrNotFound then (Inr None, miss s) else (Inl err, s)
      | Inr v \<Rightarrow>
          (case DecodeValue v of
             Inl err \<Rightarrow> (Inl err, s)
           | Inr (typ, expireAt, payload) \<Rightarrow>
               if expireAt \<noteq> 0 \<and> expireAt \<le> env_now E then
                 bindE (deleteExpired P E db key expireAt s)
                   (\<lambda>_ s1. (Inr None, (miss s1)\<lparr>s_expired := s_expired s1 + 1\<rparr>))
               else
                 let s1 = upd_dict (if wasCounter then SetCounter E db key expireAt
                                    else Set E db key typ expireAt payload) s
                 in (Inr (Some (typ, expireAt, payload)), touch E db key (hit s1))))"

definition getTyped :: "'e pebble \<Rightarrow> Env \<Rightarrow> dbid \<Rightarrow> bytes \<Rightarrow> 'e Store \<Rightarrow> (goerr, tval option, 'e Store) res" where
  "getTyped P E db key s =
     (case Lookup E db key (s_dict s) of
        (None, d) \<Rightarrow> getCold P E db key False (s\<lparr>s_dict := d\<rparr>)
      | (Some e, d) \<Rightarrow>
          let s1 = s\<lparr>s_dict := d\<rparr> in
          if e_counter e then getCold P E db key True s1
          else if length (e_inline e) > 0
          then (Inr (Some (e_typ e, e_expireAt e, e_inline e)), touch E db key (hit s1))
          else getCold P E db key False s1)"

definition getString :: "'e pebble \<Rightarrow> Env \<Rightarrow> dbid \<Rightarrow> bytes \<Rightarrow> 'e Store \<Rightarrow> (goerr, bytes option, 'e Store) res" where
  "getString P E db key s =
     bindE (getTyped P E db key s) (\<lambda>r s1.
       case r of
         None \<Rightarrow> (Inr None, s1)
       | Some (typ, x, payload) \<Rightarrow> if typ \<noteq> TypeString then (Inl ErrWrongType, s1) else (Inr (Some payload), s1))"

definition oldExpiry :: "'e pebble \<Rightarrow> Env \<Rightarrow> dbid \<Rightarrow> bytes \<Rightarrow> 'e Store \<Rightarrow> int \<times> 'e Store" where
  "oldExpiry P E db key s =
     (case Lookup E db key (s_dict s) of
        (Some e, d) \<Rightarrow> (e_expireAt e, s\<lparr>s_dict := d\<rparr>)
      | (None, d) \<Rightarrow>
          (case eng_Get P (s_eng s) (EncodeDataKey db key) of
             Inl err \<Rightarrow> 0
           | Inr v \<Rightarrow> (case DecodeValue v of Inl err \<Rightarrow> 0 | Inr (typ, expireAt, payload) \<Rightarrow> expireAt),
           s\<lparr>s_dict := d\<rparr>))"

definition lookupForWrite :: "'e pebble \<Rightarrow> Env \<Rightarrow> dbid \<Rightarrow> bytes \<Rightarrow> 'e Store \<Rightarrow> (goerr, (bytes \<times> int) option, 'e Store) res" where
  "lookupForWrite P E db key s =
     bindE (getTyped P E db key s) (\<lambda>r s1.
       case r of None \<Rightarrow> (Inr None, s1) | Some (typ, x, payload) \<Rightarrow> (Inr (Some (payload, x)), s1))"

definition typeOf :: "'e pebble \<Rightarrow> Env \<Rightarrow> dbid \<Rightarrow> bytes \<Rightarrow> 'e Store \<Rightarrow> (goerr, byte option, 'e Store) res" where
  "typeOf P E db key s =
     bindE (getTyped P E db key s) (\<lambda>r s1.
       case r of None \<Rightarrow> (Inr None, s1) | Some (typ, x, payload) \<Rightarrow> (Inr (Some typ), s1))"

definition ttlOf :: "'e pebble \<Rightarrow> Env \<Rightarrow> dbid \<Rightarrow> bytes \<Rightarrow> 'e Store \<Rightarrow> int \<times> 'e Store" where
  "ttlOf P E db key s =
     (case getTyped P E db key s of
        (Inl err, s1) \<Rightarrow> (-2, s1)
      | (Inr None, s1) \<Rightarrow> (-2, s1)
      | (Inr (Some (typ, expireAt, payload)), s1) \<Rightarrow>
          if expireAt = 0 then (-1, s1)
          else let remain = wrap64 (expireAt - env_now E) in (if remain < 0 then 0 else remain, s1))"

section \<open>Writing\<close>

definition putValue ::
  "'e pebble \<Rightarrow> Env \<Rightarrow> dbid \<Rightarrow> bytes \<Rightarrow> byte \<Rightarrow> bytes \<Rightarrow> int \<Rightarrow> int \<Rightarrow> 'e Store \<Rightarrow> (goerr, unit, 'e Store) res" where
  "putValue P E db key typ val expireAtMs prevExpire s =
     bindE (applyBatch P (putBatch db key typ val expireAtMs prevExpire) s)
       (\<lambda>_ s1. (Inr (), upd_dict (Set E db key typ expireAtMs val) s1))"

text \<open>A nil upper bound is the empty byte string, below which there is no key.\<close>

definition end_bytes :: "bytes option \<Rightarrow> bytes" where
  "end_bytes e = (case e of None \<Rightarrow> [] | Some b \<Rightarrow> b)"

definition dropElemsBatch :: "dbid \<Rightarrow> bytes \<Rightarrow> byte \<Rightarrow> bop list" where
  "dropElemsBatch db key typ =
     (case SegmentFor typ of
        None \<Rightarrow> []
      | Some seg \<Rightarrow>
          [BDeleteRange (ElemPrefix seg db key) (end_bytes (prefixEnd (ElemPrefix seg db key)))]
          @ (if typ = TypeZSet
             then [BDeleteRange (ScorePrefix db key) (end_bytes (prefixEnd (ScorePrefix db key)))] else []))"

definition dropElems :: "'e pebble \<Rightarrow> dbid \<Rightarrow> bytes \<Rightarrow> byte \<Rightarrow> 'e Store \<Rightarrow> (goerr, unit, 'e Store) res" where
  "dropElems P db key typ s = applyBatch P (dropElemsBatch db key typ) s"

definition deleteKeyLocked :: "'e pebble \<Rightarrow> Env \<Rightarrow> dbid \<Rightarrow> bytes \<Rightarrow> 'e Store \<Rightarrow> (goerr, bool, 'e Store) res" where
  "deleteKeyLocked P E db key s =
     bindE (typeOf P E db key s) (\<lambda>t s1.
       case t of
         None \<Rightarrow> (Inr False, s1)
       | Some typ \<Rightarrow>
           bindE (if typ \<noteq> TypeString then dropElems P db key typ s1 else (Inr (), s1)) (\<lambda>_ s2.
             let (prevExpire, s3) = oldExpiry P E db key s2;
                 s4 = upd_dict (\<lambda>d. snd (Delete E db key d)) s3
             in bindE (deletePersisted P db key s4) (\<lambda>_ s5.
                  bindE (if prevExpire \<noteq> 0 then engDelete P (EncodeExpireKey prevExpire db key) s5
                         else (Inr (), s5))
                    (\<lambda>_ s6. (Inr True, keyChange s6)))))"

definition deleteKey :: "'e pebble \<Rightarrow> Env \<Rightarrow> dbid \<Rightarrow> bytes \<Rightarrow> 'e Store \<Rightarrow> (goerr, bool, 'e Store) res" where
  "deleteKey P E db key s = deleteKeyLocked P E db key s"

text \<open>\<open>setString\<close> returns the previous value, whether there was one, and whether it wrote.\<close>

definition setString ::
  "'e pebble \<Rightarrow> Env \<Rightarrow> (nat \<Rightarrow> Draws) \<Rightarrow> dbid \<Rightarrow> bytes \<Rightarrow> bytes \<Rightarrow> SetOption \<Rightarrow> 'e Store
     \<Rightarrow> (goerr, bytes option \<times> bool \<times> bool, 'e Store) res" where
  "setString P E drs db key val opt s =
     bindE (lookupForWrite P E db key s) (\<lambda>prev s1.
     bindE (if prev \<noteq> None \<and> so_GET opt
            then bindE (typeOf P E db key s1) (\<lambda>t s2.
                   if t \<noteq> None \<and> t \<noteq> Some TypeString then (Inl ErrWrongType, s2) else (Inr (), s2))
            else (Inr (), s1)) (\<lambda>_ s2.
       let old = map_option fst prev; existed = (prev \<noteq> None);
           prevExpire = (case prev of None \<Rightarrow> 0 | Some (p, x) \<Rightarrow> x)
       in if so_NX opt \<and> existed then (Inr (old, existed, False), s2)
          else if so_XX opt \<and> \<not> existed then (Inr (old, existed, False), s2)
          else
            let at = ExpireAt opt (clock_Now (env_now E));
                expireAtMs = (if so_KEEPTTL opt then prevExpire
                              else if \<not> IsZero at then UnixMilli at else 0)
            in if expireAtMs \<noteq> 0 \<and> expireAtMs \<le> UnixMilli (clock_Now (env_now E)) then
                 bindE (deleteKey P E db key s2) (\<lambda>_ s3. (Inr (old, existed, True), keyChange s3))
               else
                 bindE (putValue P E db key TypeString val expireAtMs prevExpire s2)
                   (\<lambda>_ s3. (Inr (old, existed, True), MaybeEvict P E drs (keyChange s3)))))"

definition setStringSimple ::
  "'e pebble \<Rightarrow> Env \<Rightarrow> (nat \<Rightarrow> Draws) \<Rightarrow> dbid \<Rightarrow> bytes \<Rightarrow> bytes \<Rightarrow> int \<Rightarrow> 'e Store \<Rightarrow> (goerr, unit, 'e Store) res" where
  "setStringSimple P E drs db key val expireAtMs s =
     (let (prevExpire, s1) = oldExpiry P E db key s
      in bindE (putValue P E db key TypeString val expireAtMs prevExpire s1)
           (\<lambda>_ s2. (Inr (), MaybeEvict P E drs (keyChange s2))))"

definition MaxInt64 :: int where "MaxInt64 = 2 ^ 63 - 1"

definition setExpiry ::
  "'e pebble \<Rightarrow> Env \<Rightarrow> dbid \<Rightarrow> bytes \<Rightarrow> gotime \<Rightarrow> ExpireOption \<Rightarrow> 'e Store \<Rightarrow> (goerr, int, 'e Store) res" where
  "setExpiry P E db key at opt s =
     bindE (getTyped P E db key s) (\<lambda>r s1.
       case r of
         None \<Rightarrow> (Inr 0, s1)
       | Some (typ, curExpire, val) \<Rightarrow>
           let newExpire = UnixMilli at; cur = (if curExpire = 0 then MaxInt64 else curExpire)
           in if eo_NX opt \<and> curExpire \<noteq> 0 then (Inr 0, s1)
              else if eo_XX opt \<and> curExpire = 0 then (Inr 0, s1)
              else if eo_GT opt \<and> newExpire \<le> cur then (Inr 0, s1)
              else if eo_LT opt \<and> newExpire \<ge> cur then (Inr 0, s1)
              else if newExpire \<le> env_now E then bindE (deleteKey P E db key s1) (\<lambda>_ s2. (Inr 1, s2))
              else bindE (putValue P E db key typ val newExpire curExpire s1) (\<lambda>_ s2. (Inr 1, s2)))"

definition persist :: "'e pebble \<Rightarrow> Env \<Rightarrow> dbid \<Rightarrow> bytes \<Rightarrow> 'e Store \<Rightarrow> (goerr, bool, 'e Store) res" where
  "persist P E db key s =
     bindE (getTyped P E db key s) (\<lambda>r s1.
       case r of
         None \<Rightarrow> (Inr False, s1)
       | Some (typ, curExpire, val) \<Rightarrow>
           if curExpire = 0 then (Inr False, s1)
           else bindE (putValue P E db key typ val 0 curExpire s1) (\<lambda>_ s2. (Inr True, s2)))"

definition rename :: "'e pebble \<Rightarrow> Env \<Rightarrow> dbid \<Rightarrow> bytes \<Rightarrow> bytes \<Rightarrow> bool \<Rightarrow> 'e Store \<Rightarrow> (goerr, unit, 'e Store) res" where
  "rename P E db src dst nx s =
     bindE (getTyped P E db src s) (\<lambda>r s1.
       case r of
         None \<Rightarrow> (Inl ErrNoSuchKey, s1)
       | Some (typ, expireAt, val) \<Rightarrow>
           let (taken, s2) = (if nx then case getTyped P E db dst s1 of
                                           (Inr (Some v), s2) \<Rightarrow> (True, s2) | (q, s2) \<Rightarrow> (False, s2)
                              else (False, s1))
           in if taken then (Inr (), s2)
              else if src = dst then (Inr (), s2)
              else let (dstExpire, s3) = oldExpiry P E db dst s2
                   in bindE (putValue P E db dst typ val expireAt dstExpire s3) (\<lambda>_ s4.
                      bindE (deleteKey P E db src s4) (\<lambda>_ s5. (Inr (), s5))))"

section \<open>Whole databases\<close>

definition SegStreamEntry :: byte where "SegStreamEntry = 0x0B"
definition SegStreamGroup :: byte where "SegStreamGroup = 0x0C"
definition SegStreamPEL :: byte where "SegStreamPEL = 0x0D"

definition streamEntryPrefix :: "dbid \<Rightarrow> bytes \<Rightarrow> bytes" where
  "streamEntryPrefix db key = (([SegStreamEntry] @ be16 db) @ key) @ [0x00]"

definition streamExists :: "'e pebble \<Rightarrow> dbid \<Rightarrow> bytes \<Rightarrow> 'e Store \<Rightarrow> goerr + bool" where
  "streamExists P db key s =
     (case Scan P (s_eng s) (streamEntryPrefix db key) (\<lambda>_ k v. (Some ErrStop, True)) False of
        (err, found) \<Rightarrow> if err \<noteq> None \<and> err \<noteq> Some ErrStop then Inl (the err) else Inr found)"

fun exists :: "'e pebble \<Rightarrow> Env \<Rightarrow> dbid \<Rightarrow> bytes list \<Rightarrow> int \<Rightarrow> 'e Store \<Rightarrow> (goerr, int, 'e Store) res" where
  "exists P E db [] n s = (Inr n, s)"
| "exists P E db (k # ks) n s =
     bindE (getTyped P E db k s) (\<lambda>r s1.
       if r \<noteq> None then exists P E db ks (n + 1) s1
       else case streamExists P db k s1 of
              Inl err \<Rightarrow> (Inl err, s1)
            | Inr ok2 \<Rightarrow> exists P E db ks (if ok2 then n + 1 else n) s1)"

definition flushSegs :: "byte list" where
  "flushSegs = [SegHash, SegList, SegSet, SegZSetM, SegZSetS, SegStreamEntry, SegStreamGroup, SegStreamPEL]"

fun flushSegments :: "'e pebble \<Rightarrow> dbid \<Rightarrow> byte list \<Rightarrow> 'e Store \<Rightarrow> (goerr, unit, 'e Store) res" where
  "flushSegments P db [] s = (Inr (), s)"
| "flushSegments P db (seg # segs) s =
     bindE (engDeleteRange P ([seg] @ be16 db) ([seg] @ be16 (db + 1)) s) (\<lambda>_ s1. flushSegments P db segs s1)"

definition flushVisit :: "dbid \<Rightarrow> bop list \<Rightarrow> bytes \<Rightarrow> goerr option \<times> bop list" where
  "flushVisit db batch k =
     (case DecodeExpireKey k of
        None \<Rightarrow> (None, batch)
      | Some (x, edb, key) \<Rightarrow> if edb \<noteq> db then (None, batch) else (None, batch @ [BDelete k]))"

definition flushDB :: "'e pebble \<Rightarrow> Env \<Rightarrow> dbid \<Rightarrow> 'e Store \<Rightarrow> (goerr, unit, 'e Store) res" where
  "flushDB P E db s =
     bindE (flushSegments P db flushSegs (upd_dict (Flush E db) s)) (\<lambda>_ s1.
     bindE (engDeleteRange P (DataPrefix db) (end_bytes (prefixEnd (DataPrefix db))) s1) (\<lambda>_ s2.
       case ScanKeys P (s_eng s2) ExpirePrefix (flushVisit db) [] of
         (Some err, batch) \<Rightarrow> (Inl err, s2)
       | (None, batch) \<Rightarrow> applyBatch P batch s2))"

definition keyAlive :: "'e pebble \<Rightarrow> Env \<Rightarrow> dbid \<Rightarrow> bytes \<Rightarrow> int \<Rightarrow> 'e Store \<Rightarrow> bool \<times> 'e Store" where
  "keyAlive P E db key nowMs s =
     (case Lookup E db key (s_dict s) of
        (Some e, d) \<Rightarrow> (\<not> Expired e nowMs, s\<lparr>s_dict := d\<rparr>)
      | (None, d) \<Rightarrow>
          (case getTyped P E db key (s\<lparr>s_dict := d\<rparr>) of
             (Inr (Some v), s1) \<Rightarrow> (True, s1)
           | (q, s1) \<Rightarrow> (False, s1)))"

text \<open>\<open>loadAll\<close> rebuilds the index from the data segment; corrupt records are skipped.\<close>

definition loadVisit :: "Env \<Rightarrow> dbid \<Rightarrow> nat \<times> bop list \<times> Dict \<Rightarrow> bytes \<Rightarrow> bytes \<Rightarrow> goerr option \<times> nat \<times> bop list \<times> Dict" where
  "loadVisit E db st k v =
     (case st of (pending, batch, d) \<Rightarrow>
        case DecodeValue v of
          Inl err \<Rightarrow> (None, st)
        | Inr (typ, expireAt, payload) \<Rightarrow>
            let key = KeyFromDataKey k in
            if expireAt \<noteq> 0 \<and> expireAt \<le> env_now E
            then (None, pending + 1,
                  batch @ [BDelete (EncodeDataKey db key), BDelete (EncodeExpireKey expireAt db key)], d)
            else (None, pending, batch, Set E db key typ expireAt payload d))"

fun loadDBs :: "'e pebble \<Rightarrow> Env \<Rightarrow> 'e \<Rightarrow> nat list \<Rightarrow> nat \<times> bop list \<times> Dict \<Rightarrow> goerr option \<times> nat \<times> bop list \<times> Dict" where
  "loadDBs P E e [] st = (None, st)"
| "loadDBs P E e (db # dbs) st =
     (case Scan P e (DataPrefix (of_nat db)) (loadVisit E (of_nat db)) st of
        (Some err, st') \<Rightarrow> (Some err, st')
      | (None, st') \<Rightarrow> loadDBs P E e dbs st')"

definition loadAll :: "'e pebble \<Rightarrow> Env \<Rightarrow> 'e Store \<Rightarrow> (goerr, unit, 'e Store) res" where
  "loadAll P E s =
     (case loadDBs P E (s_eng s) [0..<nat (Databases (env_cfg E))] (0, [], s_dict s) of
        (Some err, pending, batch, d) \<Rightarrow> (Inl err, s\<lparr>s_dict := d\<rparr>)
      | (None, pending, batch, d) \<Rightarrow>
          let s1 = s\<lparr>s_dict := d\<rparr> in
          if pending > 0 then
            bindE (applyBatch P batch s1) (\<lambda>_ s2. (Inr (), s2\<lparr>s_expired := s_expired s2 + int pending\<rparr>))
          else (Inr (), s1))"

end
