(* ===== verification/Refine.thy ===== *)
theory Refine
  imports Data
begin

text \<open>
  The data path implements a map with expiry.  \<open>st_live\<close> is the abstract state: what a client can see
  at the operation's time.  Every operation that returns a result keeps the invariant \<open>st_ok\<close> and has
  the effect on \<open>st_live\<close> that its specification states; the lazy deletion of expired values,
  the caching in the index and eviction are invisible.  The laws of Pebble are those of the locale
  \<open>pebble_engine\<close>: nothing is assumed of a call that fails.
\<close>

definition st_ok :: "('e \<Rightarrow> (bytes \<rightharpoonup> bytes)) \<Rightarrow> Env \<Rightarrow> 'e Store \<Rightarrow> bool" where
  "st_ok kv E s \<longleftrightarrow> store_ok E (kv (s_eng s)) (s_dict s)"

definition st_live :: "('e \<Rightarrow> (bytes \<rightharpoonup> bytes)) \<Rightarrow> Env \<Rightarrow> 'e Store \<Rightarrow> dbid \<Rightarrow> bytes \<Rightarrow> tval option" where
  "st_live kv E s = live (env_now E) (kv (s_eng s))"

definition only_key :: "(bytes \<rightharpoonup> bytes) \<Rightarrow> (bytes \<rightharpoonup> bytes) \<Rightarrow> dbid \<Rightarrow> bytes \<Rightarrow> bool" where
  "only_key m m' db key \<longleftrightarrow>
     (\<forall>k. k \<noteq> EncodeDataKey db key \<longrightarrow> (\<forall>x. is_int64 x \<longrightarrow> k \<noteq> EncodeExpireKey x db key) \<longrightarrow> m' k = m k)"

definition upd2 :: "(dbid \<Rightarrow> bytes \<Rightarrow> 'v option) \<Rightarrow> dbid \<Rightarrow> bytes \<Rightarrow> 'v option \<Rightarrow> dbid \<Rightarrow> bytes \<Rightarrow> 'v option" where
  "upd2 f db key v = (\<lambda>a b. if a = db \<and> b = key then v else f a b)"

lemma upd2_same [simp]: "upd2 f db key v db key = v"
  by (simp add: upd2_def)

lemma upd2_upd2 [simp]: "upd2 (upd2 f db key v) db key w = upd2 f db key w"
  by (simp add: upd2_def fun_eq_iff)

lemma upd2_id: "f db key = v \<Longrightarrow> upd2 f db key v = f"
  by (auto simp: upd2_def fun_eq_iff)

lemma only_key_refl [simp]: "only_key m m db key"
  by (simp add: only_key_def)

lemma only_key_trans: "only_key a b db key \<Longrightarrow> only_key b c db key \<Longrightarrow> only_key a c db key"
  by (simp add: only_key_def)

lemma only_key_agree: "only_key m m' db key \<Longrightarrow> (a, b) \<noteq> (db, key) \<Longrightarrow> agree m m' a b"
  by (auto simp: only_key_def agree_def EncodeExpireKey_inj)

lemma only_key_put:
  "is_int64 x \<Longrightarrow> is_int64 prev \<Longrightarrow> only_key m (run_bops (putBatch db key typ val x prev) m) db key"
  by (auto simp: only_key_def putBatch_def)

lemma live_upd2:
  assumes "\<And>a b. (a, b) \<noteq> (db, key) \<Longrightarrow> agree m m' a b"
  shows "live now m' = upd2 (live now m) db key (live now m' db key)"
  using live_step [OF assms, of db key now] by (simp add: upd2_def)

lemma st_okD: "st_ok kv E s \<Longrightarrow> dict_wf (s_dict s) \<and> env_ok E"
  by (simp add: st_ok_def store_ok_def)

lemma st_ok_cong [simp]:
  "st_ok kv E (hit s) = st_ok kv E s" "st_ok kv E (miss s) = st_ok kv E s"
  "st_ok kv E (keyChange s) = st_ok kv E s" "st_ok kv E (s\<lparr>s_expired := n\<rparr>) = st_ok kv E s"
  by (simp_all add: st_ok_def)

lemma touch_sel [simp]: "s_eng (touch E db key s) = s_eng s"
  by (simp add: touch_def)

lemma touch_ok: "st_ok kv E s \<Longrightarrow> st_ok kv E (touch E db key s)"
  by (simp add: touch_def st_ok_def store_ok_Touch)

lemma touch_cached:
  assumes "st_ok kv E s"
  shows "dlook E (s_dict (touch E db key s)) db key = None \<longleftrightarrow> dlook E (s_dict s) db key = None"
  using Touch_spec(1) [of "s_dict s" E db key] st_okD [OF assms] by (auto simp: touch_def)

lemma view_live: "view m db key = Some (typ, x, p) \<Longrightarrow> \<not> past now x \<Longrightarrow> live now m db key = Some (typ, x, p)"
  by (simp add: live_def live_val_def)

lemma live_SomeD: "live now m db key = Some (typ, x, p) \<Longrightarrow> view m db key = Some (typ, x, p) \<and> \<not> past now x"
  by (auto simp: live_def live_val_def split: option.splits if_splits)

text \<open>What a successful read establishes.\<close>

definition read_ok :: "('e \<Rightarrow> (bytes \<rightharpoonup> bytes)) \<Rightarrow> Env \<Rightarrow> dbid \<Rightarrow> bytes \<Rightarrow> 'e Store \<Rightarrow> tval option \<Rightarrow> 'e Store \<Rightarrow> bool" where
  "read_ok kv E db key s r s' \<longleftrightarrow>
     st_ok kv E s' \<and> st_live kv E s' = st_live kv E s \<and> r = st_live kv E s db key \<and>
     view (kv (s_eng s')) db key = r \<and> only_key (kv (s_eng s)) (kv (s_eng s')) db key \<and>
     (r \<noteq> None \<longrightarrow> s_eng s' = s_eng s \<and> dlook E (s_dict s') db key \<noteq> None)"

text \<open>\<open>EXPIRE\<close> with its conditions: whether the new deadline applies to a key whose expiry is \<open>cur\<close>.\<close>

definition expire_applies :: "ExpireOption \<Rightarrow> int \<Rightarrow> int \<Rightarrow> bool" where
  "expire_applies opt cur new \<longleftrightarrow>
     (eo_NX opt \<longrightarrow> cur = 0) \<and> (eo_XX opt \<longrightarrow> cur \<noteq> 0) \<and>
     (eo_GT opt \<longrightarrow> cur \<noteq> 0 \<and> cur < new) \<and> (eo_LT opt \<longrightarrow> cur = 0 \<or> new < cur)"

text \<open>The expiry that \<open>SET\<close> gives the key.\<close>

definition set_deadline :: "Env \<Rightarrow> SetOption \<Rightarrow> int \<Rightarrow> int" where
  "set_deadline E opt cur =
     (if so_KEEPTTL opt then cur
      else let at = ExpireAt opt (clock_Now (env_now E)) in if IsZero at then 0 else UnixMilli at)"

definition set_refused :: "SetOption \<Rightarrow> bool \<Rightarrow> bool" where
  "set_refused opt existed \<longleftrightarrow> so_NX opt \<and> existed \<or> so_XX opt \<and> \<not> existed"

context pebble_engine
begin

lemma deleteExpired_done:
  assumes ok: "st_ok kv E s" and v: "view (kv (s_eng s)) db key = Some (typ, x, p)" "past (env_now E) x"
    and r: "deleteExpired P E db key x s = (Inr u, s')"
  shows "st_ok kv E s'" "st_live kv E s' = st_live kv E s" "view (kv (s_eng s')) db key = None"
    "only_key (kv (s_eng s)) (kv (s_eng s')) db key"
proof -
  let ?m = "kv (s_eng s)" and ?m' = "kv (s_eng s')"
  have x: "is_int64 x" "x \<noteq> 0" using v view_int64 by (auto simp: past_def)
  have m': "?m' = ?m(EncodeDataKey db key := None, EncodeExpireKey x db key := None)"
    and d': "s_dict s' = snd (Delete E db key (s_dict s))"
    using applyBatch_done [OF r [unfolded deleteExpired_def]] x by simp_all
  note D = Delete_spec [of "s_dict s" E db key]
  show ok_: "only_key ?m ?m' db key" using x by (auto simp: only_key_def m')
  show n: "view ?m' db key = None" by (simp add: view_def m')
  have ix: "index_ok ?m' db key"
  proof (rule index_ok_unset)
    show "index_ok ?m db key" using ok by (simp add: st_ok_def store_ok_def key_ok_def)
    show "x = expiry_of ?m db key" using v(1) by (simp add: expiry_of_def)
  qed (use x in \<open>auto simp: m' EncodeExpireKey_inj\<close>)
  show "st_ok kv E s'"
    unfolding st_ok_def
  proof (rule store_ok_step)
    show "store_ok E ?m (s_dict s)" using ok by (simp add: st_ok_def)
    show "dict_wf (s_dict s')" using D(3) st_okD [OF ok] by (simp add: d')
    show "(a, b) \<noteq> (db, key) \<Longrightarrow> agree ?m ?m' a b \<and> dlook E (s_dict s') a b = dlook E (s_dict s) a b" for a b
      using only_key_agree [OF ok_] D(2) st_okD [OF ok] by (auto simp: d')
    show "key_ok ?m' (dlook E (s_dict s') db key) db key"
      using ix D(2) st_okD [OF ok] by (simp add: key_ok_def d')
  qed
  have "live (env_now E) ?m' db key = live (env_now E) ?m db key"
    using n v by (simp add: live_def live_val_def)
  then show "st_live kv E s' = st_live kv E s"
    using live_upd2 [OF only_key_agree [OF ok_]] unfolding st_live_def by (metis upd2_id)
qed

lemma getCold_done:
  assumes ok: "st_ok kv E s" and c: "wasCounter \<longrightarrow> dlook E (s_dict s) db key \<noteq> None"
    and r: "getCold P E db key wasCounter s = (Inr r, s')"
  shows "read_ok kv E db key s r s'"
proof (cases "p_get P (s_eng s) (EncodeDataKey db key)")
  case (Inl err)
  then have "r = None" "s' = miss s" "kv (s_eng s) (EncodeDataKey db key) = None"
    using r get_missing [of "s_eng s"] by (auto simp: getCold_def eng_Get_def split: if_splits)
  then show ?thesis using ok by (simp add: read_ok_def st_live_def live_def live_val_def view_def)
next
  case (Inr v)
  obtain t x p where d: "DecodeValue v = Inr (t, x, p)"
    using r Inr by (auto simp: getCold_def eng_Get_def split: sum.splits)
  have v: "view (kv (s_eng s)) db key = Some (t, x, p)" using get_found [OF Inr] d by (simp add: view_def)
  show ?thesis
  proof (cases "past (env_now E) x")
    case True
    then obtain s1 where s1: "deleteExpired P E db key x s = (Inr (), s1)" "r = None"
        "s' = (miss s1)\<lparr>s_expired := s_expired s1 + 1\<rparr>"
      using r Inr d by (auto simp: getCold_def eng_Get_def past_def bindE_eq_Inr)
    from deleteExpired_done [OF ok v True s1(1)] v True show ?thesis
      by (simp add: read_ok_def s1 st_live_def live_def live_val_def)
  next
    case False
    let ?d = "if wasCounter then SetCounter E db key x (s_dict s) else Set E db key t x p (s_dict s)"
    let ?s1 = "upd_dict (if wasCounter then SetCounter E db key x else Set E db key t x p) s"
    have s': "r = Some (t, x, p)" "s' = touch E db key (hit ?s1)"
      using r Inr d False by (auto simp: getCold_def eng_Get_def past_def Let_def)
    have ok1: "st_ok kv E (hit ?s1)"
      using ok c v store_ok_Set [of E "kv (s_eng s)" "s_dict s"] store_ok_SetCounter [of E "kv (s_eng s)" "s_dict s"]
      by (auto simp: st_ok_def)
    have "dlook E (s_dict ?s1) db key \<noteq> None"
      using st_okD [OF ok] by (auto simp: Set_spec SetCounter_spec)
    then show ?thesis
      using ok1 touch_ok [OF ok1] touch_cached [OF ok1, of db key] v view_live [OF v False]
      by (simp add: read_ok_def s' st_live_def)
  qed
qed

theorem getTyped_done:
  assumes ok: "st_ok kv E s" and r: "getTyped P E db key s = (Inr r, s')"
  shows "read_ok kv E db key s r s'"
proof -
  obtain eo d where L: "Lookup E db key (s_dict s) = (eo, d)" by fastforce
  let ?s1 = "s\<lparr>s_dict := d\<rparr>"
  have ok1: "st_ok kv E ?s1"
    using ok store_ok_Lookup [of E "kv (s_eng s)" "s_dict s" db key] by (simp add: st_ok_def L)
  have cold: "read_ok kv E db key s r s'" if "getCold P E db key c ?s1 = (Inr r, s')" "c \<longrightarrow> dlook E d db key \<noteq> None" for c
    using getCold_done [OF ok1 _ that(1)] that(2) by (simp add: read_ok_def st_live_def)
  show ?thesis
  proof (cases eo)
    case None
    then show ?thesis using r cold [of False] by (simp add: getTyped_def L)
  next
    case (Some e)
    have e: "caches e (live (env_now E) (kv (s_eng s)) db key)" "dlook E d db key = Some e"
      using Lookup_live [of E "kv (s_eng s)" "s_dict s" db key e] ok Some by (simp_all add: L st_ok_def)
    show ?thesis
    proof (cases "\<not> e_counter e \<and> e_inline e \<noteq> []")
      case True
      then have s': "r = Some (e_typ e, e_expireAt e, e_inline e)" "s' = touch E db key (hit ?s1)"
        using r Some by (auto simp: getTyped_def L Let_def)
      have l: "live (env_now E) (kv (s_eng s)) db key = r" using e(1) True s'(1) by (auto simp: caches_def)
      have "st_ok kv E (hit ?s1)" using ok1 by simp
      note t = touch_ok [OF this] touch_cached [OF this, of db key]
      then show ?thesis
        using l e(2) live_SomeD [of "env_now E" "kv (s_eng s)" db key] by (simp add: read_ok_def s' st_live_def)
    next
      case False
      then show ?thesis
        using r Some e(2) cold [of "e_counter e"] by (auto simp: getTyped_def L Let_def split: if_splits)
    qed
  qed
qed

end

section \<open>Range deletions\<close>

lemma prefixEnd_Cons: "b < 0xff \<Longrightarrow> prefixEnd (b # bs) \<noteq> None"
  by (simp add: prefixEnd_succ split: option.splits)

lemma delete_prefix:
  assumes "b < 0xff"
  shows "run_bop (BDeleteRange (b # bs) (end_bytes (prefixEnd (b # bs)))) m =
         (\<lambda>k. if prefix (b # bs) k then None else m k)"
proof -
  obtain e where e: "prefixEnd (b # bs) = Some e" using prefixEnd_Cons [OF assms] by auto
  show ?thesis
    using in_range_prefix [of "b # bs"] by (simp add: e end_bytes_def in_range_def fun_eq_iff)
qed

lemma SegmentFor_bound: "SegmentFor typ = Some seg \<Longrightarrow> seg < 0xff \<and> seg \<noteq> segData \<and> seg \<noteq> segExpire"
  by (auto simp: SegmentFor_def seg_defs split: if_splits)

lemma ElemPrefix_Cons: "ElemPrefix seg db key = seg # be16 db @ key @ [0]"
  by (simp add: ElemPrefix_def)

text \<open>Which keys deleting the elements of an aggregate removes.\<close>

definition elem_key :: "dbid \<Rightarrow> bytes \<Rightarrow> byte \<Rightarrow> bytes \<Rightarrow> bool" where
  "elem_key db key typ k \<longleftrightarrow>
     (\<exists>seg. SegmentFor typ = Some seg \<and> prefix (ElemPrefix seg db key) k) \<or>
     typ = TypeZSet \<and> prefix (ScorePrefix db key) k"

lemma run_dropElems:
  "run_bops (dropElemsBatch db key typ) m = (\<lambda>k. if elem_key db key typ k then None else m k)"
proof (cases "SegmentFor typ")
  case None
  then have "typ \<noteq> TypeZSet" by (auto simp: SegmentFor_def type_defs split: if_splits)
  with None show ?thesis by (simp add: dropElemsBatch_def elem_key_def)
next
  case (Some seg)
  have s: "seg < 0xff" "SegZSetS < 0xff" using SegmentFor_bound [OF Some] by (simp_all add: SegZSetS_def)
  show ?thesis
    using Some
    by (auto simp: dropElemsBatch_def elem_key_def ElemPrefix_Cons ScorePrefix_eq fun_eq_iff
        delete_prefix [OF s(1)] delete_prefix [OF s(2)] simp del: run_bop.simps(3))
qed

lemma elem_key_other:
  "\<not> elem_key db key typ (EncodeDataKey a b)" "\<not> elem_key db key typ (EncodeExpireKey x a b)"
proof -
  have "seg \<noteq> c" if "SegmentFor typ = Some seg" "c = segData \<or> c = segExpire" for seg c
    using SegmentFor_bound [OF that(1)] that(2) by auto
  moreover have "SegZSetS \<noteq> segData" "SegZSetS \<noteq> segExpire" by (simp_all add: seg_defs)
  ultimately show "\<not> elem_key db key typ (EncodeDataKey a b)" "\<not> elem_key db key typ (EncodeExpireKey x a b)"
    by (auto simp: elem_key_def ElemPrefix_Cons ScorePrefix_eq codec_defs)
qed

section \<open>Writes\<close>

lemma st_ok_agree:
  assumes "st_ok kv E s" "s_dict s' = s_dict s" "\<And>a b. agree (kv (s_eng s)) (kv (s_eng s')) a b"
  shows "st_ok kv E s'" "st_live kv E s' = st_live kv E s"
  using assms agree_key_ok [OF assms(3)] by (auto simp: st_ok_def store_ok_def st_live_def fun_eq_iff agree_live)

context pebble_engine
begin

lemma putValue_done:
  assumes ok: "st_ok kv E s" and x: "is_int64 x" and prev: "prev = expiry_of (kv (s_eng s)) db key"
    and r: "putValue P E db key typ val x prev s = (Inr u, s')"
  shows "st_ok kv E s'" "st_live kv E s' = upd2 (st_live kv E s) db key (live_val (env_now E) (Some (typ, x, val)))"
    "view (kv (s_eng s')) db key = Some (typ, x, val)" "only_key (kv (s_eng s)) (kv (s_eng s')) db key"
    "dlook E (s_dict s') db key \<noteq> None"
    "(a, b) \<noteq> (db, key) \<Longrightarrow> dlook E (s_dict s') a b = dlook E (s_dict s) a b"
proof -
  let ?m = "kv (s_eng s)" and ?m' = "kv (s_eng s')"
  have m': "?m' = run_bops (putBatch db key typ val x prev) ?m" and d': "s_dict s' = Set E db key typ x val (s_dict s)"
    using r applyBatch_done [of "putBatch db key typ val x prev" s] by (auto simp: putValue_def bindE_eq_Inr)
  show v: "view ?m' db key = Some (typ, x, val)" by (simp add: m' putBatch_view [OF x])
  show o: "only_key ?m ?m' db key" unfolding m' by (rule only_key_put) (simp_all add: x prev)
  note wf = conjunct1 [OF st_okD [OF ok]] conjunct2 [OF st_okD [OF ok]]
  note S = Set_spec [OF wf, of db key "typ" x val]
  show "dlook E (s_dict s') db key \<noteq> None" by (simp add: d' S)
  show "(a, b) \<noteq> (db, key) \<Longrightarrow> dlook E (s_dict s') a b = dlook E (s_dict s) a b"
    by (auto simp: d' S)
  show "st_ok kv E s'"
    using store_ok_put [OF _ x prev, of E "s_dict s"] ok by (simp add: st_ok_def m' d')
  show "st_live kv E s' = upd2 (st_live kv E s) db key (live_val (env_now E) (Some (typ, x, val)))"
    using live_upd2 [OF only_key_agree [OF o]] by (simp add: st_live_def live_def v)
qed

lemma oldExpiry_cached:
  assumes ok: "st_ok kv E s" and c: "dlook E (s_dict s) db key \<noteq> None" and l: "st_live kv E s db key = Some (typ, x, p)"
    and r: "oldExpiry P E db key s = (x', s')"
  shows "x' = x" "st_ok kv E s'" "s_eng s' = s_eng s"
proof -
  have L: "Lookup E db key (s_dict s) = (fst (Lookup E db key (s_dict s)), snd (Lookup E db key (s_dict s)))" by simp
  have so: "store_ok E (kv (s_eng s)) (s_dict s)" using ok by (simp add: st_ok_def)
  obtain e where e: "dlook E (s_dict s) db key = Some e" using c by auto
  then have ce: "caches e (view (kv (s_eng s)) db key)" using store_okD(4) [OF so] by simp
  then have "\<not> Expired e (env_now E)" "e_expireAt e = x"
    using l caches_Expired [OF ce] live_SomeD [of "env_now E" "kv (s_eng s)" db key "typ" x p] by (auto simp: st_live_def live_def caches_def)
  then have f: "fst (Lookup E db key (s_dict s)) = Some e" using Lookup_spec(1) [OF store_okD(1,2) [OF so]] e by simp
  have "oldExpiry P E db key s = (x, s\<lparr>s_dict := snd (Lookup E db key (s_dict s))\<rparr>)"
    unfolding oldExpiry_def by (subst L) (simp add: f \<open>e_expireAt e = x\<close>)
  then show "x' = x" "st_ok kv E s'" "s_eng s' = s_eng s"
    using r store_ok_Lookup [OF so] by (auto simp: st_ok_def)
qed

lemma dropElems_done:
  assumes ok: "st_ok kv E s" and r: "dropElems P db key typ s = (Inr u, s')"
  shows "st_ok kv E s'" "st_live kv E s' = st_live kv E s" "s_dict s' = s_dict s"
    "kv (s_eng s') = (\<lambda>k. if elem_key db key typ k then None else kv (s_eng s) k)"
proof -
  show m': "kv (s_eng s') = (\<lambda>k. if elem_key db key typ k then None else kv (s_eng s) k)"
    and d: "s_dict s' = s_dict s"
    using applyBatch_done [OF r [unfolded dropElems_def]] by (simp_all add: run_dropElems)
  have "agree (kv (s_eng s)) (kv (s_eng s')) a b" for a b by (simp add: agree_def m' elem_key_other)
  from st_ok_agree [OF ok d this] show "st_ok kv E s'" "st_live kv E s' = st_live kv E s" by simp_all
qed

lemma typeOf_done:
  assumes "st_ok kv E s" "typeOf P E db key s = (Inr t, s')"
  shows "\<exists>r. read_ok kv E db key s r s' \<and> t = map_option fst r"
proof -
  obtain r where "getTyped P E db key s = (Inr r, s')" "t = map_option fst r"
    using assms(2) by (fastforce simp: typeOf_def bindE_eq_Inr split: option.splits prod.splits)
  then show ?thesis using getTyped_done [OF assms(1)] by blast
qed

text \<open>The removal of a key that is present: value and index entry, one after the other.\<close>

lemma remove_done:
  assumes ok: "st_ok kv E s" and x: "x = expiry_of (kv (s_eng s)) db key"
    and d: "deletePersisted P db key (upd_dict (\<lambda>d. snd (Delete E db key d)) s) = (Inr u, s1)"
    and e: "(if x \<noteq> 0 then engDelete P (EncodeExpireKey x db key) s1 else (Inr (), s1)) = (Inr u', s2)"
  shows "st_ok kv E s2" "st_live kv E s2 = upd2 (st_live kv E s) db key None"
    "only_key (kv (s_eng s)) (kv (s_eng s2)) db key" "view (kv (s_eng s2)) db key = None"
proof -
  let ?m = "kv (s_eng s)" and ?m2 = "kv (s_eng s2)"
  have xi: "is_int64 x" using x by simp
  have m1: "kv (s_eng s1) = ?m(EncodeDataKey db key := None)" and d1: "s_dict s1 = snd (Delete E db key (s_dict s))"
    using engDelete_done [OF d [unfolded deletePersisted_def]] by simp_all
  have m2: "?m2 = (if x \<noteq> 0 then (kv (s_eng s1))(EncodeExpireKey x db key := None) else kv (s_eng s1))"
    and d2: "s_dict s2 = s_dict s1"
    using e engDelete_done [of "EncodeExpireKey x db key" s1] by (auto split: if_splits)
  note D = Delete_spec [of "s_dict s" E db key]
  show o: "only_key ?m ?m2 db key" using xi by (auto simp: only_key_def m1 m2)
  show n: "view ?m2 db key = None" by (auto simp: view_def m1 m2)
  have ix: "index_ok ?m2 db key"
  proof (rule index_ok_unset)
    show "index_ok ?m db key" using ok by (simp add: st_ok_def store_ok_def key_ok_def)
  qed (use x xi in \<open>auto simp: m1 m2 EncodeExpireKey_inj\<close>)
  show "st_ok kv E s2"
    unfolding st_ok_def
  proof (rule store_ok_step)
    show "store_ok E ?m (s_dict s)" using ok by (simp add: st_ok_def)
    show "dict_wf (s_dict s2)" using D(3) st_okD [OF ok] by (simp add: d1 d2)
    show "(a, b) \<noteq> (db, key) \<Longrightarrow> agree ?m ?m2 a b \<and> dlook E (s_dict s2) a b = dlook E (s_dict s) a b" for a b
      using only_key_agree [OF o] D(2) st_okD [OF ok] by (auto simp: d1 d2)
    show "key_ok ?m2 (dlook E (s_dict s2) db key) db key"
      using ix D(2) st_okD [OF ok] by (simp add: key_ok_def d1 d2)
  qed
  show "st_live kv E s2 = upd2 (st_live kv E s) db key None"
    using live_upd2 [OF only_key_agree [OF o]] n by (simp add: st_live_def live_def live_val_def)
qed

lemma read_ok_live: "read_ok kv E db key s r s' \<Longrightarrow> r = st_live kv E s db key \<and> st_live kv E s' = st_live kv E s \<and> st_ok kv E s'"
  by (simp add: read_ok_def)

lemma read_ok_expiry:
  "read_ok kv E db key s r s' \<Longrightarrow> expiry_of (kv (s_eng s')) db key = (case r of None \<Rightarrow> 0 | Some (t, x, p) \<Rightarrow> x)"
  by (auto simp: read_ok_def expiry_of_def)

text \<open>What deleting a key of type \<open>typ\<close> leaves alone.\<close>

lemma deleteKey_done:
  assumes ok: "st_ok kv E s" and r: "deleteKey P E db key s = (Inr b, s')"
  shows "st_ok kv E s'" "b \<longleftrightarrow> st_live kv E s db key \<noteq> None" "st_live kv E s' = upd2 (st_live kv E s) db key None"
    "view (kv (s_eng s')) db key = None"
    "st_live kv E s db key = Some (typ, x, p) \<Longrightarrow> typ \<noteq> TypeString \<Longrightarrow> elem_key db key typ k \<Longrightarrow> kv (s_eng s') k = None"
    "st_live kv E s db key = Some (typ, x, p) \<Longrightarrow> \<not> elem_key db key typ k \<Longrightarrow> k \<noteq> EncodeDataKey db key \<Longrightarrow>
       (\<forall>y. is_int64 y \<longrightarrow> k \<noteq> EncodeExpireKey y db key) \<Longrightarrow> kv (s_eng s') k = kv (s_eng s) k"
proof -
  obtain t s1 where t: "typeOf P E db key s = (Inr t, s1)"
    using r by (auto simp: deleteKey_def deleteKeyLocked_def bindE_eq_Inr)
  then obtain rd where rd: "read_ok kv E db key s rd s1" "t = map_option fst rd" using typeOf_done [OF ok] by blast
  note rl = read_ok_live [OF rd(1)]
  have "st_ok kv E s' \<and> (b \<longleftrightarrow> st_live kv E s db key \<noteq> None) \<and> st_live kv E s' = upd2 (st_live kv E s) db key None \<and>
    view (kv (s_eng s')) db key = None \<and>
    (\<forall>typ x p k. st_live kv E s db key = Some (typ, x, p) \<longrightarrow>
       (typ \<noteq> TypeString \<longrightarrow> elem_key db key typ k \<longrightarrow> kv (s_eng s') k = None) \<and>
       (\<not> elem_key db key typ k \<longrightarrow> k \<noteq> EncodeDataKey db key \<longrightarrow>
         (\<forall>y. is_int64 y \<longrightarrow> k \<noteq> EncodeExpireKey y db key) \<longrightarrow> kv (s_eng s') k = kv (s_eng s) k))"
  proof (cases rd)
    case None
    then show ?thesis
      using r t rd rl by (auto simp: deleteKey_def deleteKeyLocked_def read_ok_def intro!: upd2_id [symmetric])
  next
    case (Some v)
    obtain ty x p where v: "v = (ty, x, p)" by (cases v)
    have l: "st_live kv E s db key = Some (ty, x, p)" and c: "dlook E (s_dict s1) db key \<noteq> None"
      and e: "s_eng s1 = s_eng s" and vw: "view (kv (s_eng s1)) db key = Some (ty, x, p)"
      using rd Some v by (auto simp: read_ok_def)
    obtain s2 where dr: "(if ty \<noteq> TypeString then dropElems P db key ty s1 else (Inr (), s1)) = (Inr (), s2)"
      using r t rd Some v by (auto simp: deleteKey_def deleteKeyLocked_def bindE_eq_Inr)
    obtain x' s3 where oe: "oldExpiry P E db key s2 = (x', s3)" by fastforce
    obtain s5 s6 u where dp: "deletePersisted P db key (upd_dict (\<lambda>d. snd (Delete E db key d)) s3) = (Inr (), s5)"
      and de: "(if x' \<noteq> 0 then engDelete P (EncodeExpireKey x' db key) s5 else (Inr (), s5)) = (Inr u, s6)"
      and s': "b = True" "s' = keyChange s6"
      using r t rd Some v dr oe by (auto simp: deleteKey_def deleteKeyLocked_def bindE_eq_Inr)
    have s2: "st_ok kv E s2" "st_live kv E s2 = st_live kv E s" "s_dict s2 = s_dict s1"
      and m2: "kv (s_eng s2) = (\<lambda>k. if ty \<noteq> TypeString \<and> elem_key db key ty k then None else kv (s_eng s) k)"
      using dropElems_done [of E s1 db key ty "()" s2] dr rl e by (auto split: if_splits)
    have x': "x' = x" "st_ok kv E s3" "s_eng s3 = s_eng s2"
      using oldExpiry_cached [OF s2(1) _ _ oe] s2 c l by auto
    have "x' = expiry_of (kv (s_eng s3)) db key"
      using vw e by (simp add: x' m2 expiry_of_def view_def elem_key_other)
    note rem = remove_done [OF x'(2) this dp de]
    have lv: "st_live kv E s3 = st_live kv E s" using s2(2) x'(3) by (simp add: st_live_def)
    have "kv (s_eng s6) k = kv (s_eng s2) k"
      if "k \<noteq> EncodeDataKey db key" "\<forall>y. is_int64 y \<longrightarrow> k \<noteq> EncodeExpireKey y db key" for k
      using rem(3) that by (simp add: only_key_def x'(3))
    moreover have "k \<noteq> EncodeDataKey db key \<and> (\<forall>y. k \<noteq> EncodeExpireKey y db key)" if "elem_key db key ty k" for k
      using that elem_key_other by blast
    ultimately show ?thesis using rem(1,2,4) lv l s' by (auto simp: m2 st_live_def)
  qed
  then show "st_ok kv E s'" "b \<longleftrightarrow> st_live kv E s db key \<noteq> None" "st_live kv E s' = upd2 (st_live kv E s) db key None"
    "view (kv (s_eng s')) db key = None"
    "st_live kv E s db key = Some (typ, x, p) \<Longrightarrow> typ \<noteq> TypeString \<Longrightarrow> elem_key db key typ k \<Longrightarrow> kv (s_eng s') k = None"
    "st_live kv E s db key = Some (typ, x, p) \<Longrightarrow> \<not> elem_key db key typ k \<Longrightarrow> k \<noteq> EncodeDataKey db key \<Longrightarrow>
       (\<forall>y. is_int64 y \<longrightarrow> k \<noteq> EncodeExpireKey y db key) \<Longrightarrow> kv (s_eng s') k = kv (s_eng s) k"
    by blast+
qed

text \<open>Eviction that keeps the data on disk is invisible.\<close>

lemma evictOne_invisible:
  assumes "st_ok kv E s" "sn_mode snap \<noteq> EvictCache"
  shows "st_ok kv E (snd (evictOne P E dr snap s)) \<and> s_eng (snd (evictOne P E dr snap s)) = s_eng s"
proof (cases "pick E dr snap (s_dict s)")
  case None
  then show ?thesis using assms by (simp add: evictOne_def)
next
  case (Some c)
  obtain eo d where d: "Delete E (c_db c) (c_key c) (s_dict s) = (eo, d)" by fastforce
  have "store_ok E (kv (s_eng s)) d"
    using store_ok_Delete_entry [of E "kv (s_eng s)" "s_dict s" "c_db c" "c_key c"] assms(1) by (simp add: d st_ok_def)
  then show ?thesis using assms(2) Some d by (simp add: evictOne_def st_ok_def split: option.splits)
qed

lemma evictRounds_invisible:
  "st_ok kv E s \<Longrightarrow> sn_mode snap \<noteq> EvictCache \<Longrightarrow>
     st_ok kv E (evictRounds P E snap target drs s) \<and> s_eng (evictRounds P E snap target drs s) = s_eng s"
proof (induction drs arbitrary: s)
  case Nil
  then show ?case by simp
next
  case (Cons dr drs)
  obtain b s' where s': "evictOne P E dr snap s = (b, s')" by fastforce
  have "st_ok kv E s'" "s_eng s' = s_eng s" using evictOne_invisible [OF Cons.prems, of dr] by (simp_all add: s')
  then show ?case using Cons by (cases b) (auto simp: s')
qed

lemma MaybeEvict_invisible:
  assumes "st_ok kv E s" "EvictionMode (env_cfg E) \<noteq> EvictCache"
  shows "st_ok kv E (MaybeEvict P E drs s)" "st_live kv E (MaybeEvict P E drs s) = st_live kv E s"
    "s_eng (MaybeEvict P E drs s) = s_eng s"
proof -
  have "sn_mode (snapshot (env_cfg E)) \<noteq> EvictCache" using assms(2) by (simp add: snapshot_def)
  note ev = evictRounds_invisible [OF assms(1) this]
  show "st_ok kv E (MaybeEvict P E drs s)" "s_eng (MaybeEvict P E drs s) = s_eng s"
    using assms(1) ev by (simp_all add: MaybeEvict_def Let_def)
  then show "st_live kv E (MaybeEvict P E drs s) = st_live kv E s" by (simp add: st_live_def)
qed

section \<open>The client operations\<close>

lemma getString_done:
  assumes "st_ok kv E s" "getString P E db key s = (Inr r, s')"
  shows "st_ok kv E s'" "st_live kv E s' = st_live kv E s"
    "r = map_option (\<lambda>(t, x, p). p) (st_live kv E s db key)"
    "\<forall>t x p. st_live kv E s db key = Some (t, x, p) \<longrightarrow> t = TypeString"
proof -
  obtain rd where g: "getTyped P E db key s = (Inr rd, s')" and
    rd: "r = map_option (\<lambda>(t, x, p). p) rd" "\<forall>t x p. rd = Some (t, x, p) \<longrightarrow> t = TypeString"
    using assms(2) by (fastforce simp: getString_def bindE_eq_Inr split: option.splits prod.splits if_splits)
  note rl = read_ok_live [OF getTyped_done [OF assms(1) g]]
  from rl show "st_ok kv E s'" "st_live kv E s' = st_live kv E s" by simp_all
  from rl rd show "r = map_option (\<lambda>(t, x, p). p) (st_live kv E s db key)"
    "\<forall>t x p. st_live kv E s db key = Some (t, x, p) \<longrightarrow> t = TypeString" by auto
qed

lemma setExpiry_done:
  assumes ok: "st_ok kv E s" and at: "UnixMilli at \<noteq> MaxInt64" and now: "0 \<le> env_now E"
    and r: "setExpiry P E db key at opt s = (Inr n, s')"
  shows "st_ok kv E s' \<and>
    (case st_live kv E s db key of
       None \<Rightarrow> n = 0 \<and> st_live kv E s' = st_live kv E s
     | Some (t, x, p) \<Rightarrow>
         if expire_applies opt x (UnixMilli at)
         then n = 1 \<and> st_live kv E s' = upd2 (st_live kv E s) db key
                (if UnixMilli at \<le> env_now E then None else Some (t, UnixMilli at, p))
         else n = 0 \<and> st_live kv E s' = st_live kv E s)"
proof -
  obtain rd s1 where g: "getTyped P E db key s = (Inr rd, s1)" using r by (auto simp: setExpiry_def bindE_eq_Inr)
  note rd = getTyped_done [OF ok g] note rl = read_ok_live [OF rd]
  have i64: "is_int64 (UnixMilli at)" by (simp add: UnixMilli_def)
  then have le: "UnixMilli at < MaxInt64" using at by (simp add: is_int64_def MaxInt64_def)
  show ?thesis
  proof (cases rd)
    case None
    then show ?thesis using r g rl by (simp add: setExpiry_def split: option.splits)
  next
    case (Some v)
    obtain t x p where v: "v = (t, x, p)" by (cases v)
    have l: "st_live kv E s db key = Some (t, x, p)" using rl Some v by simp
    have ap: "expire_applies opt x (UnixMilli at) \<longleftrightarrow>
      \<not> (eo_NX opt \<and> x \<noteq> 0) \<and> \<not> (eo_XX opt \<and> x = 0) \<and>
      \<not> (eo_GT opt \<and> UnixMilli at \<le> (if x = 0 then MaxInt64 else x)) \<and>
      \<not> (eo_LT opt \<and> UnixMilli at \<ge> (if x = 0 then MaxInt64 else x))"
      using le by (auto simp: expire_applies_def)
    show ?thesis
    proof (cases "expire_applies opt x (UnixMilli at)")
      case False
      then show ?thesis using r g rl Some v l ap by (auto simp: setExpiry_def Let_def split: if_splits)
    next
      case True
      show ?thesis
      proof (cases "UnixMilli at \<le> env_now E")
        case le: True
        then obtain b s2 where "deleteKey P E db key s1 = (Inr b, s2)" "n = 1" "s' = s2"
          using r g Some v True ap by (auto simp: setExpiry_def Let_def bindE_eq_Inr split: if_splits)
        then show ?thesis using deleteKey_done(1,3) [of E s1 db key b s2] rl l True le by simp
      next
        case False
        then obtain u s2 where p: "putValue P E db key t p (UnixMilli at) x s1 = (Inr u, s2)" "n = 1" "s' = s2"
          using r g Some v True ap by (auto simp: setExpiry_def Let_def bindE_eq_Inr split: if_splits)
        have "x = expiry_of (kv (s_eng s1)) db key" using read_ok_expiry [OF rd] Some v by simp
        from putValue_done(1,2) [OF _ i64 this p(1)] rl show ?thesis
          using p l True False by (simp add: live_val_def past_def)
      qed
    qed
  qed
qed

lemma persist_done:
  assumes ok: "st_ok kv E s" and r: "persist P E db key s = (Inr b, s')"
  shows "st_ok kv E s' \<and>
    (case st_live kv E s db key of
       None \<Rightarrow> \<not> b \<and> st_live kv E s' = st_live kv E s
     | Some (t, x, p) \<Rightarrow> (b \<longleftrightarrow> x \<noteq> 0) \<and> st_live kv E s' = upd2 (st_live kv E s) db key (Some (t, 0, p)))"
proof -
  obtain rd s1 where g: "getTyped P E db key s = (Inr rd, s1)" using r by (auto simp: persist_def bindE_eq_Inr)
  note rd = getTyped_done [OF ok g] note rl = read_ok_live [OF rd]
  show ?thesis
  proof (cases rd)
    case None
    then show ?thesis using r g rl by (simp add: persist_def split: option.splits)
  next
    case (Some v)
    obtain t x p where v: "v = (t, x, p)" by (cases v)
    have l: "st_live kv E s db key = Some (t, x, p)" using rl Some v by simp
    show ?thesis
    proof (cases "x = 0")
      case True
      then show ?thesis using r g rl Some v l by (auto simp: persist_def upd2_id)
    next
      case False
      then obtain u s2 where p: "putValue P E db key t p 0 x s1 = (Inr u, s2)" "b" "s' = s2"
        using r g Some v by (auto simp: persist_def bindE_eq_Inr)
      have "x = expiry_of (kv (s_eng s1)) db key" using read_ok_expiry [OF rd] Some v by simp
      from putValue_done(1,2) [OF _ is_int64_0 this p(1)] rl show ?thesis
        using p l False by (simp add: live_val_def past_def)
    qed
  qed
qed

lemma UnixMilli_now: "is_int64 n \<Longrightarrow> UnixMilli (clock_Now n) = n"
  by (simp add: clock_Now_def UnixMilli_UnixMilli)

lemma setString_done:
  assumes ok: "st_ok kv E s" and now: "is_int64 (env_now E)" and mode: "EvictionMode (env_cfg E) \<noteq> EvictCache"
    and r: "setString P E drs db key val opt s = (Inr (old, existed, written), s')"
  shows "st_ok kv E s' \<and> old = map_option (\<lambda>(t, x, p). p) (st_live kv E s db key) \<and>
    existed = (st_live kv E s db key \<noteq> None) \<and> written = (\<not> set_refused opt existed) \<and>
    st_live kv E s' = (if written
      then upd2 (st_live kv E s) db key
             (live_val (env_now E) (Some (TypeString,
                set_deadline E opt (case st_live kv E s db key of None \<Rightarrow> 0 | Some (t, x, p) \<Rightarrow> x), val)))
      else st_live kv E s)"
proof -
  obtain prev s1 s2 where l: "lookupForWrite P E db key s = (Inr prev, s1)"
    and g: "(if prev \<noteq> None \<and> so_GET opt
            then bindE (typeOf P E db key s1) (\<lambda>t s2.
                   if t \<noteq> None \<and> t \<noteq> Some TypeString then (Inl ErrWrongType, s2) else (Inr (), s2))
            else (Inr (), s1)) = (Inr (), s2)"
    using r by (auto simp: setString_def bindE_eq_Inr)
  obtain rd where gt: "getTyped P E db key s = (Inr rd, s1)" "prev = map_option (\<lambda>(t, x, p). (p, x)) rd"
    using l by (fastforce simp: lookupForWrite_def bindE_eq_Inr split: option.splits prod.splits)
  note rd = getTyped_done [OF ok gt(1)] note rl = read_ok_live [OF rd]
  have s2: "st_ok kv E s2 \<and> st_live kv E s2 = st_live kv E s \<and> expiry_of (kv (s_eng s2)) db key = expiry_of (kv (s_eng s1)) db key"
  proof (cases "prev \<noteq> None \<and> so_GET opt")
    case True
    then obtain t where "typeOf P E db key s1 = (Inr t, s2)" using g by (auto simp: bindE_eq_Inr split: if_splits)
    then obtain r2 where "read_ok kv E db key s1 r2 s2" using typeOf_done rl by blast
    then show ?thesis using read_ok_live read_ok_expiry read_ok_expiry [OF rd] rl by metis
  next
    case False
    then show ?thesis using g rl by auto
  qed
  let ?x = "case prev of None \<Rightarrow> 0 | Some (p, x) \<Rightarrow> x"
  have px: "?x = expiry_of (kv (s_eng s2)) db key"
    using s2 read_ok_expiry [OF rd] by (auto simp: gt(2) split: option.splits)
  have cur: "?x = (case st_live kv E s db key of None \<Rightarrow> 0 | Some (t, x, p) \<Rightarrow> x)"
    using rl by (auto simp: gt(2) split: option.splits)
  have old: "map_option fst prev = map_option (\<lambda>(t, x, p). p) (st_live kv E s db key)" "(prev \<noteq> None) = (st_live kv E s db key \<noteq> None)"
    using rl by (auto simp: gt(2) option.map_comp comp_def split_def)
  show ?thesis
  proof (cases "set_refused opt (prev \<noteq> None)")
    case True
    then show ?thesis
      using r l g s2 old by (auto simp: setString_def set_refused_def Let_def)
  next
    case False
    let ?d = "set_deadline E opt ?x"
    have di: "is_int64 ?d" using px by (simp add: set_deadline_def Let_def UnixMilli_def)
    show ?thesis
    proof (cases "past (env_now E) ?d")
      case True
      then obtain b s3 where "deleteKey P E db key s2 = (Inr b, s3)" and
        q: "old = map_option fst prev" "existed = (prev \<noteq> None)" "written" "s' = keyChange s3"
        using r l g False by (auto simp: setString_def set_refused_def set_deadline_def Let_def bindE_eq_Inr
            UnixMilli_now [OF now] past_def split: if_splits)
      with deleteKey_done(1,3) [of E s2 db key b s3] s2 show ?thesis
        using True False old cur by (auto simp: live_val_def st_live_def)
    next
      case nd: False
      then obtain u s3 where p: "putValue P E db key TypeString val ?d ?x s2 = (Inr u, s3)" and
        q: "old = map_option fst prev" "existed = (prev \<noteq> None)" "written" "s' = MaybeEvict P E drs (keyChange s3)"
        using r l g False by (auto simp: setString_def set_refused_def set_deadline_def Let_def bindE_eq_Inr
            UnixMilli_now [OF now] past_def split: if_splits)
      note pd = putValue_done(1,2) [OF _ di px p]
      have "st_ok kv E (keyChange s3)" using pd s2 by simp
      from MaybeEvict_invisible(1,2) [OF this mode, of drs] pd s2 show ?thesis
        using q False old cur by (auto simp: st_live_def)
    qed
  qed
qed

end

section \<open>Properties\<close>

definition small_env :: "int \<Rightarrow> Env" where
  "small_env now = sample_env\<lparr>env_now := now, env_cfg := DefaultConfig\<lparr>ShardCount := 2\<rparr>\<rparr>"

definition empty_store :: "(bytes \<times> bytes) list Store" where
  "empty_store = \<lparr>s_eng = [], s_dict = NewDict DefaultConfig,
     s_hits = 0, s_misses = 0, s_expired = 0, s_keyChanges = 0, s_reaped = 0, s_evicted = 0, s_blockSeq = 0, s_blockChans = []\<rparr>"

lemma small_env_facts [simp]:
  "env_ok (small_env now)" "env_now (small_env now) = now" "EvictionMode (env_cfg (small_env now)) \<noteq> EvictCache"
  "EvictionEnabled (env_cfg (small_env now)) = False" "TracksLRU (env_cfg (small_env now)) = False"
  "TracksLFU (env_cfg (small_env now)) = False"
  by (simp_all add: small_env_def env_ok_def sample_env_def DefaultConfig_def mode_defs policy_defs
      EvictionEnabled_def TracksLRU_def TracksLFU_def)

lemma empty_store_facts [simp]:
  "st_ok map_of (small_env now) empty_store" "st_live map_of (small_env now) empty_store = (\<lambda>_ _. None)"
  "s_eng empty_store = []" "s_dict empty_store = NewDict DefaultConfig"
proof -
  show "st_ok map_of (small_env now) empty_store"
    using dict_ok_wf [OF dict_ok_New [of "small_env now" DefaultConfig]]
    by (simp add: st_ok_def store_ok_def key_ok_def index_ok_def view_def empty_store_def dlook_def NewDict_def)
  show "st_live map_of (small_env now) empty_store = (\<lambda>_ _. None)"
    by (simp add: st_live_def live_def live_val_def view_def empty_store_def fun_eq_iff)
qed (simp_all add: empty_store_def)

lemma empty_store_miss:
  "getTyped ref_pebble (small_env now) db key empty_store =
     (Inr None, miss (empty_store\<lparr>s_dict := snd (Lookup (small_env now) db key (NewDict DefaultConfig))\<rparr>))"
proof -
  have "fst (Lookup (small_env now) db key (NewDict DefaultConfig)) = None"
    using Lookup_spec(1) [OF dict_ok_wf [OF dict_ok_New [of "small_env now" DefaultConfig]] small_env_facts(1), of now db key]
    by (simp add: dlook_def NewDict_def)
  then show ?thesis
    by (cases "Lookup (small_env now) db key (NewDict DefaultConfig)")
       (simp add: getTyped_def getCold_def eng_Get_def)
qed

text \<open>C2: reading a key returns exactly what a client may see: the stored value, unless it has
  expired.  Whether the value comes from the index or from disk, the caching, the lazy deletion of
  an expired value and the access statistics leave every visible value unchanged and keep
  the expiry index and the in-memory index in step with the data.\<close>

theorem read_refines:
  assumes "pebble_engine P kv" "st_ok kv E s" "getTyped P E db key s = (Inr r, s')"
  shows "r = st_live kv E s db key \<and> st_live kv E s' = st_live kv E s \<and> st_ok kv E s' \<and>
         only_key (kv (s_eng s)) (kv (s_eng s')) db key"
  using pebble_engine.getTyped_done [OF assms] by (simp add: read_ok_def)

theorem read_refines_witness:
  "st_live map_of (small_env 5) (snd (getTyped ref_pebble (small_env 5) 0 [1] empty_store)) = (\<lambda>_ _. None)"
  using read_refines [OF ref.pebble_engine_axioms empty_store_facts(1) empty_store_miss, of 5 0 "[1]"]
  by (simp add: empty_store_miss)







end
