(* ===== verification/Keyspace.thy ===== *)
theory Keyspace
  imports Refine
begin

text \<open>
  The operations of \<open>data.go\<close> that concern more than one key, or that swallow read errors and so
  need a Pebble whose reads succeed (\<open>pebble_reliable\<close>): \<open>rename\<close>, \<open>setStringSimple\<close>, \<open>ttlOf\<close>,
  \<open>flushDB\<close> and the rebuilding of the index by \<open>loadAll\<close>; and that the operations return.
\<close>

definition decodable :: "(bytes \<rightharpoonup> bytes) \<Rightarrow> bool" where
  "decodable m \<longleftrightarrow> (\<forall>db key v. m (EncodeDataKey db key) = Some v \<longrightarrow> (\<exists>t. DecodeValue v = Inr t))"

context pebble_reliable
begin

lemma oldExpiry_exact:
  assumes ok: "st_ok kv E s" and r: "oldExpiry P E db key s = (x, s')"
  shows "x = expiry_of (kv (s_eng s)) db key" "st_ok kv E s'" "s_eng s' = s_eng s"
proof -
  have so: "store_ok E (kv (s_eng s)) (s_dict s)" using ok by (simp add: st_ok_def)
  obtain eo d where L: "Lookup E db key (s_dict s) = (eo, d)" by fastforce
  have s': "s' = s\<lparr>s_dict := d\<rparr>" using r by (auto simp: oldExpiry_def L split: option.splits)
  show "st_ok kv E s'" "s_eng s' = s_eng s"
    using store_ok_Lookup [OF so, of db key] by (simp_all add: s' st_ok_def L)
  show "x = expiry_of (kv (s_eng s)) db key"
  proof (cases eo)
    case (Some e)
    then have "caches e (live (env_now E) (kv (s_eng s)) db key)" using Lookup_live(1) [OF so] by (simp add: L)
    then obtain p where "view (kv (s_eng s)) db key = Some (e_typ e, e_expireAt e, p)"
      using live_SomeD by (auto simp: caches_def)
    then show ?thesis using r Some by (simp add: oldExpiry_def L expiry_of_def)
  next
    case None
    then show ?thesis
      using r by (auto simp: oldExpiry_def L eng_Get_def get_eq expiry_of_def view_def split: option.splits sum.splits)
  qed
qed

text \<open>A read fails only on a value that does not decode, and then changes nothing but the index.\<close>

lemma getTyped_fails:
  assumes ok: "st_ok kv E s" and r: "getTyped P E db key s = (Inl err, s')"
  shows "st_ok kv E s'" "s_eng s' = s_eng s" "\<not> decodable (kv (s_eng s))" "view (kv (s_eng s)) db key = None"
proof -
  have so: "store_ok E (kv (s_eng s)) (s_dict s)" using ok by (simp add: st_ok_def)
  obtain eo d where L: "Lookup E db key (s_dict s) = (eo, d)" by fastforce
  have cold: "s' = s1 \<and> \<not> decodable (kv (s_eng s1)) \<and> view (kv (s_eng s1)) db key = None" if "getCold P E db key c s1 = (Inl err, s')" for c s1
  proof (cases "kv (s_eng s1) (EncodeDataKey db key)")
    case None
    then show ?thesis using that by (simp add: getCold_def eng_Get_def get_eq)
  next
    case (Some v)
    then show ?thesis
      using that applyBatch_ok
      by (auto simp: getCold_def eng_Get_def get_eq decodable_def deleteExpired_def bindE_def Let_def view_def
          split: sum.splits if_splits prod.splits) (metis Inl_Inr_False prod.inject)+
  qed
  have "s' = s\<lparr>s_dict := d\<rparr> \<and> \<not> decodable (kv (s_eng s)) \<and> view (kv (s_eng s)) db key = None"
    using r cold by (fastforce simp: getTyped_def L Let_def split: option.splits if_splits)
  then show "st_ok kv E s'" "s_eng s' = s_eng s" "\<not> decodable (kv (s_eng s))" "view (kv (s_eng s)) db key = None"
    using store_ok_Lookup [OF so, of db key] by (simp_all add: st_ok_def L)
qed

lemma getTyped_returns:
  assumes "st_ok kv E s" "decodable (kv (s_eng s))"
  shows "\<exists>r s'. getTyped P E db key s = (Inr r, s')"
  using getTyped_fails(3) [OF assms(1)] assms(2) by (metis obj_sumE surj_pair)

lemma putValue_returns: "\<exists>s'. putValue P E db key typ val x prev s = (Inr (), s')"
  using applyBatch_ok by (auto simp: putValue_def bindE_def split: prod.splits sum.splits) (metis Inl_Inr_False prod.inject)+

lemma deleteKey_returns:
  assumes "st_ok kv E s" "decodable (kv (s_eng s))"
  shows "\<exists>b s'. deleteKey P E db key s = (Inr b, s')"
proof -
  obtain r s1 where g: "getTyped P E db key s = (Inr r, s1)" using getTyped_returns [OF assms] by blast
  show ?thesis
  proof (cases r)
    case None
    then show ?thesis by (auto simp: deleteKey_def deleteKeyLocked_def typeOf_def g)
  next
    case (Some v)
    obtain ty x p where v: "v = (ty, x, p)" by (cases v)
    obtain s2 where d: "(if ty \<noteq> TypeString then dropElems P db key ty s1 else (Inr (), s1)) = (Inr (), s2)"
      using applyBatch_ok by (cases "ty = TypeString") (auto simp: dropElems_def)
    obtain x' s3 where o: "oldExpiry P E db key s2 = (x', s3)" by fastforce
    obtain s5 where p: "deletePersisted P db key (upd_dict (\<lambda>d. snd (Delete E db key d)) s3) = (Inr (), s5)"
      using engDelete_ok by (auto simp: deletePersisted_def)
    obtain s6 where e: "(if x' \<noteq> 0 then engDelete P (EncodeExpireKey x' db key) s5 else (Inr (), s5)) = (Inr (), s6)"
      using engDelete_ok by (cases "x' = 0") auto
    have "deleteKey P E db key s = (Inr True, keyChange s6)"
      using Some v d o p e by (simp add: deleteKey_def deleteKeyLocked_def typeOf_def g)
    then show ?thesis by blast
  qed
qed

section \<open>Renaming\<close>

text \<open>The check of the destination by \<open>RENAME ... NX\<close>, which ignores read errors.\<close>

lemma taken_check:
  assumes ok: "st_ok kv E s"
    and q: "(case getTyped P E db dst s of (Inr (Some v), s2) \<Rightarrow> (True, s2) | (q, s2) \<Rightarrow> (False, s2)) = (taken, s2)"
  shows "st_ok kv E s2" "st_live kv E s2 = st_live kv E s" "taken \<longleftrightarrow> st_live kv E s db dst \<noteq> None"
    "a \<noteq> dst \<Longrightarrow> view (kv (s_eng s2)) db a = view (kv (s_eng s)) db a"
proof -
  obtain g s3 where g: "getTyped P E db dst s = (g, s3)" by fastforce
  have "st_ok kv E s2 \<and> st_live kv E s2 = st_live kv E s \<and> (taken \<longleftrightarrow> st_live kv E s db dst \<noteq> None) \<and>
    (a \<noteq> dst \<longrightarrow> view (kv (s_eng s2)) db a = view (kv (s_eng s)) db a)"
  proof (cases g)
    case (Inl err)
    then show ?thesis
      using q g getTyped_fails [OF ok] by (auto simp: st_live_def live_def live_val_def)
  next
    case (Inr r)
    then have rd: "read_ok kv E db dst s r s3" using getTyped_done [OF ok] g by simp
    then have "a \<noteq> dst \<longrightarrow> view (kv (s_eng s3)) db a = view (kv (s_eng s)) db a"
      using only_key_agree agree_view unfolding read_ok_def by blast
    then show ?thesis using q g Inr rd by (auto simp: read_ok_def split: option.splits)
  qed
  then show "st_ok kv E s2" "st_live kv E s2 = st_live kv E s" "taken \<longleftrightarrow> st_live kv E s db dst \<noteq> None"
    "a \<noteq> dst \<Longrightarrow> view (kv (s_eng s2)) db a = view (kv (s_eng s)) db a" by blast+
qed

lemma rename_done:
  assumes ok: "st_ok kv E s" and r: "rename P E db src dst nx s = (Inr u, s')"
  shows "\<exists>v. st_live kv E s db src = Some v \<and> st_ok kv E s' \<and>
    st_live kv E s' = (if src = dst \<or> nx \<and> st_live kv E s db dst \<noteq> None then st_live kv E s
      else upd2 (upd2 (st_live kv E s) db dst (Some v)) db src None)"
proof -
  obtain rd s1 where g: "getTyped P E db src s = (Inr rd, s1)" using r by (auto simp: rename_def bindE_eq_Inr)
  note rd = getTyped_done [OF ok g] note rl = read_ok_live [OF rd]
  obtain t x p where v: "rd = Some (t, x, p)" using r g by (auto simp: rename_def split: option.splits)
  have "live (env_now E) (kv (s_eng s)) db src = Some (t, x, p)" using rl v by (simp add: st_live_def)
  note vl = live_SomeD [OF this]
  have xi: "is_int64 x" using vl view_int64 by blast
  obtain taken s2 where q: "(if nx then case getTyped P E db dst s1 of (Inr (Some v), s2) \<Rightarrow> (True, s2) | (q, s2) \<Rightarrow> (False, s2)
            else (False, s1)) = (taken, s2)" by fastforce
  have s2: "st_ok kv E s2" "st_live kv E s2 = st_live kv E s" "taken \<longleftrightarrow> nx \<and> st_live kv E s db dst \<noteq> None"
    using q taken_check(1-3) [of E s1 db dst taken s2] rl by (auto split: if_splits)
  show ?thesis
  proof (cases "taken \<or> src = dst")
    case True
    then have "s' = s2" using r g v q by (auto simp: rename_def split: if_splits)
    then show ?thesis using s2 rl v True by (intro exI [of _ "(t, x, p)"]) auto
  next
    case False
    obtain dx s3 where oe: "oldExpiry P E db dst s2 = (dx, s3)" by fastforce
    note o = oldExpiry_exact [OF s2(1) oe]
    obtain s4 b s5 where p: "putValue P E db dst t p x dx s3 = (Inr (), s4)" and d: "deleteKey P E db src s4 = (Inr b, s5)" "s' = s5"
      using r g v q False oe by (auto simp: rename_def bindE_eq_Inr)
    have "dx = expiry_of (kv (s_eng s3)) db dst" using o by simp
    note pv = putValue_done(1,2) [OF o(2) xi this p]
    have lv: "st_live kv E s3 = st_live kv E s" using o(3) s2(2) by (simp add: st_live_def)
    show ?thesis
      using deleteKey_done(1,3) [OF pv(1) d(1)] pv(2) d(2) lv vl rl v False s2(3)
      by (intro exI [of _ "(t, x, p)"]) (auto simp: live_val_def)
  qed
qed

lemma setStringSimple_done:
  assumes ok: "st_ok kv E s" and x: "is_int64 x" and mode: "EvictionMode (env_cfg E) \<noteq> EvictCache"
  shows "\<exists>s'. setStringSimple P E drs db key val x s = (Inr (), s') \<and> st_ok kv E s' \<and>
    st_live kv E s' = upd2 (st_live kv E s) db key (live_val (env_now E) (Some (TypeString, x, val)))"
proof -
  obtain px s1 where oe: "oldExpiry P E db key s = (px, s1)" by fastforce
  note o = oldExpiry_exact [OF ok oe]
  obtain s2 where p: "putValue P E db key TypeString val x px s1 = (Inr (), s2)" using putValue_returns by blast
  have "px = expiry_of (kv (s_eng s1)) db key" using o by simp
  note pv = putValue_done(1,2) [OF o(2) x this p]
  have "st_ok kv E (keyChange s2)" using pv by simp
  from MaybeEvict_invisible(1,2) [OF this mode, of drs] show ?thesis
    using pv oe p o(3) by (simp add: setStringSimple_def st_live_def)
qed

lemma ttlOf_done:
  assumes ok: "st_ok kv E s" and now: "0 \<le> env_now E"
  shows "fst (ttlOf P E db key s) =
    (case st_live kv E s db key of None \<Rightarrow> -2 | Some (t, x, p) \<Rightarrow> if x = 0 then -1 else x - env_now E)"
proof (cases "getTyped P E db key s")
  case (Pair g s1)
  show ?thesis
  proof (cases g)
    case (Inl err)
    then show ?thesis
      using getTyped_fails(4) [OF ok] Pair by (simp add: ttlOf_def st_live_def live_def live_val_def)
  next
    case (Inr r)
    then have rl: "r = st_live kv E s db key" using getTyped_done [OF ok] Pair by (auto simp: read_ok_def)
    show ?thesis
    proof (cases r)
      case None
      then show ?thesis using rl Pair Inr by (auto simp: ttlOf_def)
    next
      case (Some v)
      obtain t x p where v: "v = (t, x, p)" by (cases v)
      have "live (env_now E) (kv (s_eng s)) db key = Some (t, x, p)" using rl Some v by (simp add: st_live_def)
      note vl = live_SomeD [OF this]
      have xi: "is_int64 x" using vl view_int64 by blast
      have "x \<noteq> 0 \<Longrightarrow> env_now E < x" using vl by (auto simp: past_def)
      moreover have "x \<noteq> 0 \<Longrightarrow> is_int64 (x - env_now E)" using calculation xi now by (auto simp: is_int64_def)
      ultimately show ?thesis using rl Some v Pair Inr by (auto simp: ttlOf_def Let_def split: option.splits)
    qed
  qed
qed

end

section \<open>Flushing a database\<close>

text \<open>The keys of one database in any segment but the expiry index.\<close>

definition db_key :: "byte \<Rightarrow> dbid \<Rightarrow> bytes \<Rightarrow> bool" where
  "db_key seg db k \<longleftrightarrow> prefix ([seg] @ be16 db) k"

lemma unat_db_succ: "db \<noteq> 0xffff \<Longrightarrow> unat (db + 1 :: dbid) = unat db + 1"
proof -
  assume n: "db \<noteq> 0xffff"
  have "unat db \<noteq> 65535"
  proof
    assume "unat db = 65535"
    then have "unat db = unat (0xffff :: dbid)" by simp
    then show False using n by (simp only: word_unat_eq_iff)
  qed
  moreover have "unat db < 65536" using unat_bound [of db] by simp
  ultimately show ?thesis by (simp add: unat_word_ariths)
qed

lemma lex_take: "length q = n \<Longrightarrow> (k :: bytes) < q \<longleftrightarrow> take n k < q"
proof (induction q arbitrary: n k)
  case Nil
  then show ?case by simp
next
  case (Cons b q)
  then have n: "n = Suc (length q)" by simp
  show ?case
  proof (cases k)
    case Nil
    then show ?thesis by simp
  next
    case (Cons c ks)
    then show ?thesis using Cons.IH [OF refl, of ks] n by simp
  qed
qed

lemma flush_range:
  assumes "db \<noteq> 0xffff" "3 \<le> length k"
  shows "[seg] @ be16 db \<le> k \<and> k < [seg] @ be16 (db + 1) \<longleftrightarrow> db_key seg db k"
proof -
  obtain s b where t: "take 3 k = s # b" "length b = 2"
    using assms(2) by (cases k) auto
  define a where "a = u16_of b"
  have b: "b = be16 a" using t(2) by (simp add: a_def)
  have le: "db \<le> a \<and> a < db + 1 \<longleftrightarrow> a = db"
    using unat_db_succ [OF assms(1)] by (auto simp: word_le_nat_alt word_less_nat_alt word_unat_eq_iff)
  have "[seg] @ be16 db \<le> k \<longleftrightarrow> \<not> take 3 k < [seg] @ be16 db"
    using lex_take [of "[seg] @ be16 db" 3 k] by (simp add: linorder_not_less [symmetric])
  moreover have "k < [seg] @ be16 (db + 1) \<longleftrightarrow> take 3 k < [seg] @ be16 (db + 1)"
    using lex_take [of "[seg] @ be16 (db + 1)" 3 k] by simp
  moreover have "db_key seg db k \<longleftrightarrow> take 3 k = [seg] @ be16 db"
    by (auto simp: db_key_def prefix_def) (metis append_Cons append_take_drop_id)
  ultimately show ?thesis using le unfolding t b by (auto simp: not_less)
qed

lemma Flush_spec:
  assumes "dict_wf d" "env_ok E"
  shows "dlook E (Flush E db d) = (\<lambda>a b. if a = db then None else dlook E d a b)" "dict_wf (Flush E db d)"
proof -
  let ?n = "newDBShards (nat (ShardCount (env_cfg E)))"
  have ne: "ds_shards ?n \<noteq> []" using assms(2) by (simp add: newDBShards_def env_ok_def)
  have "ds_shards ?n ! shardFor h ?n key = []" for h key
    using shardFor_less [OF ne, of h key] by (simp add: newDBShards_def)
  then show "dlook E (Flush E db d) = (\<lambda>a b. if a = db then None else dlook E d a b)"
    by (auto simp: fun_eq_iff Flush_def recomputeUsed_def setDB_def dlook_def split: option.splits)
  show "dict_wf (Flush E db d)"
    using assms(1) ne by (auto simp: dict_wf_def Flush_def recomputeUsed_def setDB_def)
qed

lemma flush_visit:
  "visit (\<lambda>s k v. flushVisit db s k) kvs st =
     (None, st @ map BDelete (filter (\<lambda>k. \<exists>x key. DecodeExpireKey k = Some (x, db, key)) (map fst kvs)))"
  by (induction kvs arbitrary: st) (auto simp: flushVisit_def split: option.splits)

lemma data_key_length: "3 \<le> length (EncodeDataKey db key)" "3 \<le> length (EncodeExpireKey x db key)"
  by (simp_all add: EncodeDataKey_eq EncodeExpireKey_eq)

lemma DecodeExpireKey_prefix: "DecodeExpireKey k = Some (x, db, key) \<Longrightarrow> prefix ExpirePrefix k"
  by (auto dest!: DecodeExpireKey_SomeD(1) simp: EncodeExpireKey_eq ExpirePrefix_def)

text \<open>Everything a flush of \<open>db\<close> removes.\<close>

definition flushed :: "dbid \<Rightarrow> bytes \<Rightarrow> bool" where
  "flushed db k \<longleftrightarrow> (\<exists>seg\<in>insert segData (set flushSegs). db_key seg db k) \<or>
     (\<exists>x key. DecodeExpireKey k = Some (x, db, key))"

context pebble_engine
begin

lemma flushSegments_done:
  assumes "db \<noteq> 0xffff" "flushSegments P db segs s = (Inr u, s')" "3 \<le> length k"
  shows "kv (s_eng s') k = (if \<exists>seg\<in>set segs. db_key seg db k then None else kv (s_eng s) k) \<and> s_dict s' = s_dict s"
  using assms(2)
proof (induction segs arbitrary: s)
  case Nil
  then show ?case by simp
next
  case (Cons seg segs)
  then obtain u1 s1 where s1: "engDeleteRange P ([seg] @ be16 db) ([seg] @ be16 (db + 1)) s = (Inr u1, s1)"
    "flushSegments P db segs s1 = (Inr u, s')" by (auto simp: bindE_eq_Inr)
  have m: "kv (s_eng s1) k = (if db_key seg db k then None else kv (s_eng s) k)" and d: "s_dict s1 = s_dict s"
    using engDeleteRange_done [OF s1(1)] flush_range [OF assms(1,3), of seg] by simp_all
  show ?case using Cons.IH [OF s1(2)] m d by auto
qed

lemma flushDB_contents:
  assumes db: "db \<noteq> 0xffff" and r: "flushDB P E db s = (Inr u, s')" and k: "3 \<le> length k"
  shows "kv (s_eng s') k = (if flushed db k then None else kv (s_eng s) k)" "s_dict s' = Flush E db (s_dict s)"
proof -
  obtain s1 s2 where f1: "flushSegments P db flushSegs (upd_dict (Flush E db) s) = (Inr (), s1)"
    and f2: "engDeleteRange P (DataPrefix db) (end_bytes (prefixEnd (DataPrefix db))) s1 = (Inr (), s2)"
    and f3: "(case ScanKeys P (s_eng s2) ExpirePrefix (flushVisit db) [] of
         (Some err, batch) \<Rightarrow> (Inl err, s2) | (None, batch) \<Rightarrow> applyBatch P batch s2) = (Inr u, s')"
    using r by (auto simp: flushDB_def bindE_eq_Inr)
  have dp: "DataPrefix db = segData # be16 db" by (simp add: codec_defs)
  have m2: "kv (s_eng s2) k = (if \<exists>seg\<in>insert segData (set flushSegs). db_key seg db k then None else kv (s_eng s) k)"
    and d2: "s_dict s2 = Flush E db (s_dict s)"
    using flushSegments_done [OF db f1 k] engDeleteRange_done [OF f2] delete_prefix [of segData "be16 db"]
    by (auto simp: dp db_key_def segData_def simp del: run_bop.simps)
  obtain kvs where it: "p_iter P (s_eng s2) ExpirePrefix (prefixEnd ExpirePrefix) None = Inr (kvs, None)"
    and ap: "applyBatch P (map BDelete (filter (\<lambda>k. \<exists>x key. DecodeExpireKey k = Some (x, db, key)) (map fst kvs))) s2 = (Inr u, s')"
    using f3 by (auto simp: ScanKeys_def iterate_def flush_visit split: sum.splits prod.splits option.splits)
  have ks: "set (map fst kvs) = {k \<in> dom (kv (s_eng s2)). prefix ExpirePrefix k}"
    using lists_range_keys [OF iter_done [OF it]] by (simp add: start_at_def in_range_prefix)
  show "s_dict s' = Flush E db (s_dict s)" using applyBatch_done [OF ap] d2 by simp
  have "kv (s_eng s') = (\<lambda>k. if k \<in> set (map fst kvs) \<and> (\<exists>x key. DecodeExpireKey k = Some (x, db, key)) then None else kv (s_eng s2) k)"
    using applyBatch_done [OF ap] by (subst (asm) run_deletes) (auto simp: fun_eq_iff)
  then show "kv (s_eng s') k = (if flushed db k then None else kv (s_eng s) k)"
    unfolding ks using m2 DecodeExpireKey_prefix by (auto simp: flushed_def dom_def)
qed

end

lemma flushed_data: "flushed db (EncodeDataKey a b) \<longleftrightarrow> a = db"
proof -
  have "DecodeExpireKey (EncodeDataKey a b) = None" by (simp add: DecodeExpireKey_def codec_defs segData_def segExpire_def)
  moreover have "\<not> db_key seg db (EncodeDataKey a b)" if "seg \<in> set flushSegs" for seg
    using that by (auto simp: db_key_def codec_defs flushSegs_def seg_defs SegStreamEntry_def SegStreamGroup_def SegStreamPEL_def)
  moreover have "db_key segData db (EncodeDataKey a b) \<longleftrightarrow> a = db"
    by (auto simp: db_key_def codec_defs prefix_def)
  ultimately show ?thesis by (auto simp: flushed_def)
qed

lemma flushed_expire: "is_int64 x \<Longrightarrow> flushed db (EncodeExpireKey x a b) \<longleftrightarrow> a = db"
proof -
  assume "is_int64 x"
  then have "DecodeExpireKey (EncodeExpireKey x a b) = Some (x, a, b)" by simp
  moreover have "\<not> db_key seg db (EncodeExpireKey x a b)" if "seg \<in> insert segData (set flushSegs)" for seg
    using that by (auto simp: db_key_def codec_defs flushSegs_def seg_defs SegStreamEntry_def SegStreamGroup_def SegStreamPEL_def)
  ultimately show ?thesis by (auto simp: flushed_def)
qed

context pebble_engine
begin

lemma flushDB_done:
  assumes ok: "st_ok kv E s" and db: "db \<noteq> 0xffff" and r: "flushDB P E db s = (Inr u, s')"
  shows "st_ok kv E s'" "st_live kv E s' = (\<lambda>a b. if a = db then None else st_live kv E s a b)"
proof -
  let ?m = "kv (s_eng s)" and ?m' = "kv (s_eng s')"
  note c = flushDB_contents [OF db r]
  have d': "s_dict s' = Flush E db (s_dict s)" using c(2) [OF data_key_length(1)] .
  note F = Flush_spec [of "s_dict s" E db]
  have data: "?m' (EncodeDataKey a b) = (if a = db then None else ?m (EncodeDataKey a b))" for a b
    using c(1) [OF data_key_length(1), of a b] by (simp add: flushed_data)
  have ex: "is_int64 x \<Longrightarrow> ?m' (EncodeExpireKey x a b) = (if a = db then None else ?m (EncodeExpireKey x a b))" for x a b
    using c(1) [OF data_key_length(2), of x a b] by (simp add: flushed_expire)
  have ag: "a \<noteq> db \<Longrightarrow> agree ?m ?m' a b" for a b by (simp add: agree_def data ex)
  have vn: "view ?m' db b = None" for b by (simp add: view_def data)
  then show "st_live kv E s' = (\<lambda>a b. if a = db then None else st_live kv E s a b)"
    using agree_live [OF ag] by (auto simp: st_live_def fun_eq_iff) (simp add: live_def live_val_def)
  have "key_ok ?m' (dlook E (s_dict s') a b) a b" for a b
  proof (cases "a = db")
    case True
    then show ?thesis using F(1) st_okD [OF ok] by (simp add: key_ok_def index_ok_def vn ex d')
  next
    case False
    then show ?thesis
      using F(1) st_okD [OF ok] agree_key_ok [OF ag [OF False]] ok by (simp add: d' st_ok_def store_ok_def)
  qed
  then show "st_ok kv E s'" using F(2) st_okD [OF ok] by (simp add: st_ok_def store_ok_def d')
qed

end

section \<open>Properties\<close>

text \<open>\<open>RENAME\<close> moves the stored value with its type and deadline to the new key and removes the
  old one, except onto itself and, with \<open>NX\<close>, when the new key exists; no other value changes. The value
  of a sparse aggregate is its header (see \<open>rename_loses_fields\<close> in \<open>HashStore\<close>).\<close>

theorem rename_refines:
  assumes "pebble_reliable P kv" "st_ok kv E s" "rename P E db src dst nx s = (Inr u, s')"
  shows "\<exists>v. st_live kv E s db src = Some v \<and> st_ok kv E s' \<and>
    st_live kv E s' = (if src = dst \<or> nx \<and> st_live kv E s db dst \<noteq> None then st_live kv E s
      else upd2 (upd2 (st_live kv E s) db dst (Some v)) db src None)"
  using pebble_reliable.rename_done [OF assms] .

lemma stored_sample:
  "\<exists>s. setStringSimple ref_pebble (small_env 5) (\<lambda>_. sample_draws) 0 [1] [2] 0 empty_store = (Inr (), s) \<and>
       st_ok map_of (small_env 5) s \<and> st_live map_of (small_env 5) s = upd2 (\<lambda>_ _. None) 0 [1] (Some (TypeString, 0, [2]))"
  using ref.setStringSimple_done [OF empty_store_facts(1) is_int64_0, of 5 "\<lambda>_. sample_draws" 0 "[1]" "[2]"]
  by (simp add: live_val_def past_def)

theorem rename_refines_witness:
  "\<exists>s s'. rename ref_pebble (small_env 5) 0 [1] [1] False s = (Inr (), s') \<and>
          st_live map_of (small_env 5) s' 0 [1] = Some (TypeString, 0, [2])"
proof -
  obtain s where s: "st_ok map_of (small_env 5) s" "st_live map_of (small_env 5) s = upd2 (\<lambda>_ _. None) 0 [1] (Some (TypeString, 0, [2]))"
    using stored_sample by blast
  obtain g s' where g: "getTyped ref_pebble (small_env 5) 0 [1] s = (g, s')" by fastforce
  have "st_live map_of (small_env 5) s 0 [1] \<noteq> None" by (simp add: s(2))
  then have "view (map_of (s_eng s)) 0 [1] \<noteq> None"
    by (auto simp: st_live_def live_def live_val_def split: option.splits)
  then have "\<exists>r. g = Inr r"
    using ref.getTyped_fails(4) [OF s(1), of 0 "[1]"] g by (cases g) auto
  then have r: "rename ref_pebble (small_env 5) 0 [1] [1] False s = (Inr (), s')"
    using g s ref.getTyped_done [OF s(1), of 0 "[1]"] by (auto simp: rename_def read_ok_def)
  from rename_refines [OF ref.pebble_reliable_axioms s(1) r] r s show ?thesis
    by (intro exI [of _ s] exI [of _ s']) auto
qed

text \<open>\<open>FLUSHDB\<close> empties the database and leaves the others untouched, together with its entries in
  the expiry index and the in-memory index.\<close>

theorem flush_refines:
  assumes "pebble_engine P kv" "st_ok kv E s" "db \<noteq> 0xffff" "flushDB P E db s = (Inr u, s')"
  shows "st_ok kv E s' \<and> st_live kv E s' = (\<lambda>a b. if a = db then None else st_live kv E s a b) \<and>
         (\<forall>k. 3 \<le> length k \<longrightarrow> kv (s_eng s') k = (if flushed db k then None else kv (s_eng s) k))"
  using pebble_engine.flushDB_done [OF assms] pebble_engine.flushDB_contents [OF assms(1,3,4)] by blast

theorem flush_refines_witness:
  "\<exists>s'. flushDB ref_pebble (small_env 5) 3 empty_store = (Inr (), s') \<and> st_ok map_of (small_env 5) s'"
proof -
  obtain s' where s': "flushDB ref_pebble (small_env 5) 3 empty_store = (Inr (), s')"
    by (simp add: flushDB_def flushSegs_def engDeleteRange_def eng_DeleteRange_def
        ScanKeys_def iterate_def ref_list_def applyBatch_def eng_Apply_def)
  from flush_refines [OF ref.pebble_engine_axioms empty_store_facts(1) _ s'] s' show ?thesis by simp
qed

text \<open>C25: \<open>TTL\<close> reports the time that is left, -1 for a key without deadline and -2 for a key that is
  absent or expired.\<close>

theorem ttl_refines:
  assumes "pebble_reliable P kv" "st_ok kv E s" "0 \<le> env_now E"
  shows "fst (ttlOf P E db key s) =
    (case st_live kv E s db key of None \<Rightarrow> -2 | Some (t, x, p) \<Rightarrow> if x = 0 then -1 else x - env_now E)"
  using pebble_reliable.ttlOf_done [OF assms] .

theorem ttl_refines_witness: "fst (ttlOf ref_pebble (small_env 5) 0 [1] empty_store) = -2"
  using ttl_refines [OF ref.pebble_reliable_axioms empty_store_facts(1), of 5 0 "[1]"] by simp

end
