(* ===== verification/Recovery.thy ===== *)
theory Recovery
  imports Keyspace
begin

text \<open>
  Restarting: \<open>loadAll\<close> of \<open>store.go\<close> rebuilds the index of a reopened store by scanning the data segment of every
  database, and drops what expired while the store was closed. The store a client sees afterwards is the one that
  was persisted.
\<close>

section \<open>The invariant of the scan\<close>

text \<open>What \<open>loadAll\<close> deletes for one key.\<close>

definition deletions :: "int \<Rightarrow> (bytes \<rightharpoonup> bytes) \<Rightarrow> dbid \<Rightarrow> bytes \<Rightarrow> bop set" where
  "deletions now m db key =
     (case view m db key of
        None \<Rightarrow> {}
      | Some (t, x, p) \<Rightarrow> if past now x then {BDelete (EncodeDataKey db key), BDelete (EncodeExpireKey x db key)} else {})"

text \<open>The state of \<open>loadAll\<close> after it has visited the keys \<open>S\<close> of an engine with contents \<open>m\<close>: the index holds exactly the
  live keys visited, the batch deletes exactly the expired ones.\<close>

definition loaded :: "Env \<Rightarrow> (bytes \<rightharpoonup> bytes) \<Rightarrow> (dbid \<times> bytes) set \<Rightarrow> nat \<times> bop list \<times> Dict \<Rightarrow> bool" where
  "loaded E m S st \<longleftrightarrow>
     (case st of (pending, batch, d) \<Rightarrow>
        store_ok E m d \<and> (0 < pending \<longleftrightarrow> batch \<noteq> []) \<and>
        (\<forall>a b. dlook E d a b \<noteq> None \<longleftrightarrow> (a, b) \<in> S \<and> live (env_now E) m a b \<noteq> None) \<and>
        set batch = (\<Union>(a, b)\<in>S. deletions (env_now E) m a b))"

lemma loadedI:
  assumes "store_ok E m d" "0 < pending \<longleftrightarrow> batch \<noteq> []" "set batch = (\<Union>(a, b)\<in>S. deletions (env_now E) m a b)"
    and "\<And>a b. dlook E d a b \<noteq> None \<longleftrightarrow> (a, b) \<in> S \<and> live (env_now E) m a b \<noteq> None"
  shows "loaded E m S (pending, batch, d)"
  using assms by (simp add: loaded_def)

lemma loadVisit_step:
  assumes inv: "loaded E m S st" and v: "m (EncodeDataKey db key) = Some v"
  shows "\<exists>st'. loadVisit E db st (EncodeDataKey db key) v = (None, st') \<and> loaded E m (insert (db, key) S) st'"
proof -
  obtain pending batch d where st: "st = (pending, batch, d)" by (cases st) auto
  have ok: "store_ok E m d" "0 < pending \<longleftrightarrow> batch \<noteq> []" "set batch = (\<Union>(a, b)\<in>S. deletions (env_now E) m a b)"
    "\<And>a b. dlook E d a b \<noteq> None \<longleftrightarrow> (a, b) \<in> S \<and> live (env_now E) m a b \<noteq> None"
    using inv by (simp_all add: loaded_def st)
  show ?thesis
  proof (cases "DecodeValue v")
    case (Inl e)
    then have "view m db key = None" using v by (simp add: view_def)
    then have none: "live (env_now E) m db key = None" "deletions (env_now E) m db key = {}"
      by (simp_all add: live_def live_val_def deletions_def)
    have "loaded E m (insert (db, key) S) (pending, batch, d)"
    proof (rule loadedI[OF ok(1,2)])
      show "set batch = (\<Union>(a, b)\<in>insert (db, key) S. deletions (env_now E) m a b)" by (simp add: ok(3) none(2))
      show "dlook E d a b \<noteq> None \<longleftrightarrow> (a, b) \<in> insert (db, key) S \<and> live (env_now E) m a b \<noteq> None" for a b
        using ok(4)[of a b] none(1) by auto
    qed
    then show ?thesis using Inl by (simp add: loadVisit_def st)
  next
    case (Inr w)
    obtain t x p where w: "w = (t, x, p)" by (cases w)
    have vw: "view m db key = Some (t, x, p)" using v Inr w by (simp add: view_def)
    show ?thesis
    proof (cases "past (env_now E) x")
      case True
      then have none: "live (env_now E) m db key = None"
        "deletions (env_now E) m db key = {BDelete (EncodeDataKey db key), BDelete (EncodeExpireKey x db key)}"
        using vw by (simp_all add: live_def live_val_def deletions_def)
      have "loaded E m (insert (db, key) S)
          (pending + 1, batch @ [BDelete (EncodeDataKey db key), BDelete (EncodeExpireKey x db key)], d)"
      proof (rule loadedI)
        show "dlook E d a b \<noteq> None \<longleftrightarrow> (a, b) \<in> insert (db, key) S \<and> live (env_now E) m a b \<noteq> None" for a b
          using ok(4)[of a b] none(1) by auto
        show "set (batch @ [BDelete (EncodeDataKey db key), BDelete (EncodeExpireKey x db key)]) =
            (\<Union>(a, b)\<in>insert (db, key) S. deletions (env_now E) m a b)" by (simp add: ok(3) none(2) insert_commute)
      qed (simp_all add: ok(1))
      then show ?thesis using Inr w True by (simp add: loadVisit_def st past_def)
    next
      case False
      then have some: "live (env_now E) m db key \<noteq> None" "deletions (env_now E) m db key = {}"
        using vw by (simp_all add: live_def live_val_def deletions_def)
      note S = Set_spec[OF store_okD(1,2)[OF ok(1)], of db key t x p]
      have "loaded E m (insert (db, key) S) (pending, batch, Set E db key t x p d)"
      proof (rule loadedI)
        show "store_ok E m (Set E db key t x p d)" by (rule store_ok_Set[OF ok(1) vw])
        show "dlook E (Set E db key t x p d) a b \<noteq> None \<longleftrightarrow> (a, b) \<in> insert (db, key) S \<and> live (env_now E) m a b \<noteq> None" for a b
          using ok(4)[of a b] some(1) by (auto simp: S(1))
        show "set batch = (\<Union>(a, b)\<in>insert (db, key) S. deletions (env_now E) m a b)" by (simp add: ok(3) some(2))
      qed (rule ok(2))
      then show ?thesis using Inr w False by (auto simp: loadVisit_def st past_def)
    qed
  qed
qed

lemma visit_loaded:
  assumes "\<And>k v. (k, v) \<in> set kvs \<Longrightarrow> m k = Some v \<and> prefix (DataPrefix db) k"
  shows "loaded E m S st \<Longrightarrow> \<exists>st'. visit (loadVisit E db) kvs st = (None, st') \<and>
     loaded E m (S \<union> (\<lambda>k. (db, KeyFromDataKey k)) ` fst ` set kvs) st'"
  using assms
proof (induction kvs arbitrary: S st)
  case (Cons kv kvs)
  obtain k v where kv: "kv = (k, v)" by fastforce
  obtain key where k: "k = EncodeDataKey db key" using Cons.prems(2)[of k v] kv by (auto simp: prefix_def EncodeDataKey_eq)
  obtain st1 where s1: "loadVisit E db st k v = (None, st1)" "loaded E m (insert (db, key) S) st1"
    using loadVisit_step[OF Cons.prems(1), of db key v] Cons.prems(2)[of k v] kv k by auto
  have "m k = Some v \<and> prefix (DataPrefix db) k" if "(k, v) \<in> set kvs" for k v using Cons.prems(2)[of k v] that by simp
  from Cons.IH[OF s1(2) this] obtain st' where "visit (loadVisit E db) kvs st1 = (None, st')"
      "loaded E m (insert (db, key) S \<union> (\<lambda>k. (db, KeyFromDataKey k)) ` fst ` set kvs) st'" by blast
  then show ?case by (cases st') (simp add: kv k s1(1)[unfolded k])
qed simp

context pebble_engine
begin

lemma Scan_loaded:
  assumes "loaded E (kv e) S st" "Scan P e (DataPrefix db) (loadVisit E db) st = (None, st')"
  shows "loaded E (kv e) (S \<union> {(db, key) | key. kv e (EncodeDataKey db key) \<noteq> None}) st'"
proof -
  obtain kvs where l: "lists_range (kv e) (DataPrefix db) (prefixEnd (DataPrefix db)) kvs" and v: "visit (loadVisit E db) kvs st = (None, st')"
    using assms(2) iter_done[of e "DataPrefix db" "prefixEnd (DataPrefix db)" None]
    by (auto simp: Scan_def ScanRange_def iterate_def start_at_def split: sum.splits prod.splits option.splits)
  have "set (map fst kvs) = {k \<in> dom (kv e). prefix (DataPrefix db) k}"
    using lists_range_keys[OF l] by (simp add: in_range_prefix)
  then have "(\<lambda>k. (db, KeyFromDataKey k)) ` fst ` set kvs = {(db, key) | key. kv e (EncodeDataKey db key) \<noteq> None}"
    by (auto simp: image_iff prefix_def EncodeDataKey_eq[symmetric] dom_def) (metis EncodeDataKey_eq KeyFromDataKey_Encode)
  then show ?thesis
    using visit_loaded[OF _ assms(1), of kvs db] l v by (auto simp: lists_range_def in_range_prefix)
qed

lemma loadDBs_loaded:
  "loaded E (kv e) S st \<Longrightarrow> loadDBs P E e dbs st = (None, st') \<Longrightarrow>
     loaded E (kv e) (S \<union> {(of_nat n, key) | n key. n \<in> set dbs \<and> kv e (EncodeDataKey (of_nat n) key) \<noteq> None}) st'"
proof (induction dbs arbitrary: S st)
  case (Cons n dbs)
  obtain st1 where s: "Scan P e (DataPrefix (of_nat n)) (loadVisit E (of_nat n)) st = (None, st1)" "loadDBs P E e dbs st1 = (None, st')"
    using Cons.prems(2) by (auto split: prod.splits option.splits)
  have "S \<union> {(of_nat m, key) | m key. m \<in> set (n # dbs) \<and> kv e (EncodeDataKey (of_nat m) key) \<noteq> None} =
      S \<union> {(of_nat n, key) | key. kv e (EncodeDataKey (of_nat n) key) \<noteq> None} \<union>
      {(of_nat m, key) | m key. m \<in> set dbs \<and> kv e (EncodeDataKey (of_nat m) key) \<noteq> None}" by auto
  then show ?case using Cons.IH[OF Scan_loaded[OF Cons.prems(1) s(1)] s(2)] by simp
qed simp

lemma batch_gone:
  assumes "set batch = (\<Union>(a, b)\<in>S. deletions now m a b)"
  shows "run_bops batch m = (\<lambda>k. if BDelete k \<in> set batch then None else m k)"
proof (rule run_deletes)
  show "\<forall>b\<in>set batch. \<exists>k. b = BDelete k" unfolding assms by (auto simp: deletions_def split: option.splits if_splits)
qed

lemma in_batch:
  assumes "set batch = (\<Union>(a, b)\<in>S. deletions now m a b)"
  shows "BDelete k \<in> set batch \<longleftrightarrow> (\<exists>a b t x p. (a, b) \<in> S \<and> view m a b = Some (t, x, p) \<and> past now x \<and>
    (k = EncodeDataKey a b \<or> k = EncodeExpireKey x a b))"
proof -
  have "BDelete k \<in> deletions now m a b \<longleftrightarrow>
      (\<exists>t x p. view m a b = Some (t, x, p) \<and> past now x \<and> (k = EncodeDataKey a b \<or> k = EncodeExpireKey x a b))" for a b
    by (auto simp: deletions_def split: option.splits)
  then show ?thesis unfolding assms by blast
qed

lemma deleted_data:
  assumes "set batch = (\<Union>(a, b)\<in>S. deletions now m a b)"
  shows "BDelete (EncodeDataKey a b) \<in> set batch \<longleftrightarrow> (a, b) \<in> S \<and> (\<exists>t x p. view m a b = Some (t, x, p) \<and> past now x)"
  unfolding in_batch[OF assms] by auto metis

lemma deleted_expiry:
  assumes "set batch = (\<Union>(a, b)\<in>S. deletions now m a b)" "is_int64 y"
  shows "BDelete (EncodeExpireKey y a b) \<in> set batch \<longleftrightarrow> (a, b) \<in> S \<and> (\<exists>t p. view m a b = Some (t, y, p) \<and> past now y)"
  unfolding in_batch[OF assms(1)] using assms(2) EncodeExpireKey_inj view_int64 by auto metis+

text \<open>The end of \<open>loadAll\<close>: the batch is committed.\<close>

lemma loaded_commit:
  assumes "loaded E m S (pending, batch, d)"
  shows "store_ok E (run_bops batch m) d" "live (env_now E) (run_bops batch m) = live (env_now E) m"
    "(a, b) \<in> S \<Longrightarrow> view (run_bops batch m) a b = live (env_now E) m a b"
proof -
  let ?m = "run_bops batch m"
  have ok: "store_ok E m d" "set batch = (\<Union>(a, b)\<in>S. deletions (env_now E) m a b)"
    "\<And>a b. dlook E d a b \<noteq> None \<longleftrightarrow> (a, b) \<in> S \<and> live (env_now E) m a b \<noteq> None"
    using assms by (simp_all add: loaded_def)
  note gone = batch_gone[OF ok(2)] deleted_data[OF ok(2)] deleted_expiry[OF ok(2)]
  have keep: "agree m ?m a b" if "\<not> ((a, b) \<in> S \<and> (\<exists>t x p. view m a b = Some (t, x, p) \<and> past (env_now E) x))" for a b
    using that by (auto simp: agree_def gone)
  have drop: "view ?m a b = None \<and> index_ok ?m a b"
    if "(a, b) \<in> S" "view m a b = Some (t, x, p)" "past (env_now E) x" for a b t x p
  proof
    show "view ?m a b = None" using that by (auto simp: view_def gone split: option.splits)
    show "index_ok ?m a b"
    proof (rule index_ok_unset[OF store_okD(3)[OF ok(1)]])
      show "x = expiry_of m a b" using that by (simp add: expiry_of_def)
    qed (use that in \<open>auto simp: gone past_def\<close>)
  qed
  have lv: "live (env_now E) ?m a b = live (env_now E) m a b" for a b
    using agree_live[OF keep] drop by (cases "live (env_now E) m a b"; cases "(a, b) \<in> S \<and> (\<exists>t x p. view m a b = Some (t, x, p) \<and> past (env_now E) x)")
      (auto simp: live_def live_val_def)
  then show "live (env_now E) ?m = live (env_now E) m" by (simp add: fun_eq_iff)
  show "view ?m a b = live (env_now E) m a b" if "(a, b) \<in> S"
    using agree_view[OF keep, of a b] drop that by (cases "view m a b") (auto simp: live_def live_val_def)
  have "key_ok ?m (dlook E d a b) a b" for a b
  proof (cases "(a, b) \<in> S \<and> (\<exists>t x p. view m a b = Some (t, x, p) \<and> past (env_now E) x)")
    case True
    then have "live (env_now E) m a b = None" by (auto simp: live_def live_val_def)
    then have "dlook E d a b = None" using ok(3)[of a b] by simp
    then show ?thesis using True drop by (auto simp: key_ok_def)
  next
    case False
    then show ?thesis using agree_key_ok[OF keep[OF False]] ok(1) by (simp add: store_ok_def)
  qed
  then show "store_ok E ?m d" using store_okD(1,2)[OF ok(1)] by (simp add: store_ok_def)
qed

lemma loadAll_done:
  assumes "s_dict s = NewDict c" "env_ok E" "\<And>a b. index_ok (kv (s_eng s)) a b" "loadAll P E s = (Inr u, s')"
  shows "st_ok kv E s'" "st_live kv E s' = st_live kv E s"
    "n < nat (Databases (env_cfg E)) \<Longrightarrow> view (kv (s_eng s')) (of_nat n) key = st_live kv E s (of_nat n) key"
    "n < nat (Databases (env_cfg E)) \<Longrightarrow> dlook E (s_dict s') (of_nat n) key \<noteq> None \<longleftrightarrow> st_live kv E s (of_nat n) key \<noteq> None"
proof -
  let ?m = "kv (s_eng s)" and ?dbs = "[0..<nat (Databases (env_cfg E))]"
  let ?S = "{(of_nat n, key) | n key. n \<in> set ?dbs \<and> ?m (EncodeDataKey (of_nat n) key) \<noteq> None} :: (dbid \<times> bytes) set"
  have new: "dlook E (NewDict c) a b = None" "dict_wf (NewDict c)" for a b
    using dict_ok_wf[OF dict_ok_New[of E c]] by (simp_all add: dlook_def NewDict_def)
  have init: "loaded E ?m {} (0, [], s_dict s)"
    by (rule loadedI) (use assms(2,3) new in \<open>auto simp: store_ok_def key_ok_def assms(1)\<close>)
  obtain pending batch d where l: "loadDBs P E (s_eng s) ?dbs (0, [], s_dict s) = (None, pending, batch, d)"
    using assms(4) by (auto simp: loadAll_def split: prod.splits option.splits)
  have L: "loaded E ?m ?S (pending, batch, d)" using loadDBs_loaded[OF init l] by simp
  have m': "kv (s_eng s') = run_bops batch ?m" and d': "s_dict s' = d"
  proof -
    have "pending = 0 \<Longrightarrow> batch = []" using L by (simp add: loaded_def)
    then show "kv (s_eng s') = run_bops batch ?m" "s_dict s' = d"
      using assms(4) applyBatch_done[of batch "s\<lparr>s_dict := d\<rparr>"] by (auto simp: loadAll_def l Let_def bindE_eq_Inr split: if_splits)
  qed
  note C = loaded_commit[OF L]
  show "st_ok kv E s'" "st_live kv E s' = st_live kv E s" using C(1,2) by (simp_all add: st_ok_def st_live_def m' d')
  have absent: "live (env_now E) ?m a b = None" if "?m (EncodeDataKey a b) = None" for a b
    using that by (simp add: live_def live_val_def view_def)
  assume n: "n < nat (Databases (env_cfg E))"
  then have S: "(of_nat n, key) \<in> ?S \<longleftrightarrow> ?m (EncodeDataKey (of_nat n) key) \<noteq> None" by force
  show "dlook E (s_dict s') (of_nat n) key \<noteq> None \<longleftrightarrow> st_live kv E s (of_nat n) key \<noteq> None"
    using L S absent by (auto simp: loaded_def d' st_live_def)
  have "view (run_bops batch ?m) (of_nat n) key = None" if "?m (EncodeDataKey (of_nat n) key) = None"
    using that batch_gone[of batch "env_now E" ?m ?S] L by (simp add: loaded_def view_def)
  then show "view (kv (s_eng s')) (of_nat n) key = st_live kv E s (of_nat n) key"
    using C(3) S absent by (cases "?m (EncodeDataKey (of_nat n) key) = None") (auto simp: m' st_live_def)
qed

end

text \<open>On an engine whose calls succeed, so does \<open>loadAll\<close>.\<close>

lemma loadVisit_goes_on: "fst (loadVisit E db st k v) = None"
  by (simp add: loadVisit_def Let_def split: prod.split sum.split)

lemma visit_goes_on: "fst (visit (loadVisit E db) kvs st) = None"
proof (induction kvs arbitrary: st)
  case (Cons kv kvs)
  then show ?case using loadVisit_goes_on[of E db st "fst kv" "snd kv"]
    by (cases kv) (auto split: prod.split option.split)
qed simp

context pebble_reliable
begin

lemma loadDBs_ok: "fst (loadDBs P E e dbs st) = None"
proof (induction dbs arbitrary: st)
  case (Cons n dbs)
  obtain kvs where "p_iter P e (DataPrefix (of_nat n)) (prefixEnd (DataPrefix (of_nat n))) None = Inr (kvs, None)" using iter_ok by blast
  then have "fst (Scan P e (DataPrefix (of_nat n)) (loadVisit E (of_nat n)) st) = None"
    using visit_goes_on[of E "of_nat n" kvs st] by (auto simp: Scan_def ScanRange_def iterate_def split: prod.split option.split)
  then show ?case using Cons by (auto split: prod.split option.split)
qed simp

lemma loadAll_ok: "\<exists>s'. loadAll P E s = (Inr (), s')"
proof -
  obtain pending batch d where l: "loadDBs P E (s_eng s) [0..<nat (Databases (env_cfg E))] (0, [], s_dict s) = (None, pending, batch, d)"
    using loadDBs_ok by (metis prod.exhaust_sel)
  show ?thesis using applyBatch_ok[of batch "s\<lparr>s_dict := d\<rparr>"] by (auto simp: loadAll_def l Let_def bindE_def)
qed

end

end
