(* ===== verification/Expire.thy ===== *)
theory Expire
  imports Refine
begin

text \<open>
  \<open>memory/expire.go\<close>: the active expiry cycle.  It walks the expiry index in key order, which is the
  order of the deadlines, and stops at the first entry that is not due.  Whether the time budget is
  spent after the \<open>n\<close>-th key is the parameter \<open>late\<close>.
\<close>

section \<open>Definitions\<close>

definition cycleVisit ::
  "Env \<Rightarrow> (nat \<Rightarrow> bool) \<Rightarrow> nat \<times> bop list \<times> Dict \<Rightarrow> bytes \<Rightarrow> bytes \<Rightarrow> goerr option \<times> nat \<times> bop list \<times> Dict" where
  "cycleVisit E late st k v =
     (case st of (collected, batch, d) \<Rightarrow>
        case DecodeExpireKey k of
          None \<Rightarrow> (None, st)
        | Some (expireAt, db, key) \<Rightarrow>
            if expireAt > env_now E then (Some ErrStop, st)
            else if \<not> Valid db d then (None, st)
            else
              let st' = (collected + 1, batch @ [BDelete (EncodeDataKey db key), BDelete k], snd (Delete E db key d))
              in if int (collected + 1) \<ge> ExpireBatch (env_cfg E) \<or> late (collected + 1)
                 then (Some ErrStop, st') else (None, st'))"

definition Cycle :: "'e pebble \<Rightarrow> Env \<Rightarrow> (nat \<Rightarrow> bool) \<Rightarrow> 'e Store \<Rightarrow> (goerr, int, 'e Store) res" where
  "Cycle P E late s =
     (case ScanRange P (s_eng s) ExpirePrefix (Some ExpireUpperBound) (cycleVisit E late) (0, [], s_dict s) of
        (err, collected, batch, d) \<Rightarrow>
          let s1 = s\<lparr>s_dict := d\<rparr> in
          if err \<noteq> None \<and> err \<noteq> Some ErrStop then (Inl (the err), s1)
          else if collected = 0 then (Inr 0, s1)
          else bindE (applyBatch P batch s1)
                 (\<lambda>_ s2. (Inr (int collected), s2\<lparr>s_reaped := s_reaped s2 + int collected\<rparr>)))"

definition DeleteNow :: "'e pebble \<Rightarrow> dbid \<Rightarrow> bytes \<Rightarrow> int \<Rightarrow> 'e Store \<Rightarrow> (goerr, unit, 'e Store) res" where
  "DeleteNow P db key expireAt s =
     applyBatch P
       ([BDelete (EncodeDataKey db key)]
        @ (if expireAt \<noteq> 0 then [BDelete (EncodeExpireKey expireAt db key)] else [])) s"

text \<open>One tick of \<open>Expirer.Run\<close>: the cycle runs when it is enabled, and an error ends the worker.\<close>

definition runTick :: "'e pebble \<Rightarrow> Env \<Rightarrow> (nat \<Rightarrow> bool) \<Rightarrow> bool \<Rightarrow> 'e Store \<Rightarrow> bool \<times> 'e Store" where
  "runTick P E late enabled s =
     (if \<not> enabled then (True, s)
      else case Cycle P E late s of (Inl err, s') \<Rightarrow> (False, s') | (Inr n, s') \<Rightarrow> (True, s'))"

section \<open>The keys a cycle collects\<close>

abbreviation due_key :: "Env \<Rightarrow> bytes \<Rightarrow> int \<Rightarrow> dbid \<Rightarrow> bytes \<Rightarrow> bool" where
  "due_key E k x db key \<equiv> DecodeExpireKey k = Some (x, db, key) \<and> x \<le> env_now E"

fun reap :: "Env \<Rightarrow> bytes list \<Rightarrow> Dict \<Rightarrow> Dict" where
  "reap E [] d = d"
| "reap E (k # ks) d =
     (case DecodeExpireKey k of None \<Rightarrow> reap E ks d | Some (x, db, key) \<Rightarrow> reap E ks (snd (Delete E db key d)))"

definition reap_batch :: "bytes list \<Rightarrow> bop list" where
  "reap_batch ks = concat (map (\<lambda>k. case DecodeExpireKey k of None \<Rightarrow> []
     | Some (x, db, key) \<Rightarrow> [BDelete (EncodeDataKey db key), BDelete k]) ks)"

lemma Valid_Delete [simp]: "Valid db (snd (Delete E a k d)) = Valid db d"
  by (simp add: Valid_def Delete_dbCount)

lemma cycleVisit_app:
  "cycleVisit E late (n, b, d) k v =
     (case DecodeExpireKey k of
        None \<Rightarrow> (None, n, b, d)
      | Some (x, db, key) \<Rightarrow>
          if x > env_now E then (Some ErrStop, n, b, d)
          else if \<not> Valid db d then (None, n, b, d)
          else (if int (n + 1) \<ge> ExpireBatch (env_cfg E) \<or> late (n + 1) then Some ErrStop else None,
                n + 1, b @ [BDelete (EncodeDataKey db key), BDelete k], snd (Delete E db key d)))"
  by (simp add: cycleVisit_def Let_def split: option.splits)

lemma cycle_visit:
  assumes "visit (cycleVisit E late) kvs (n, b, d) = (err, n', b', d')"
  shows "\<exists>ks. set ks \<subseteq> fst ` set kvs \<and> (\<forall>k\<in>set ks. \<exists>x db key. due_key E k x db key \<and> Valid db d) \<and>
    n' = n + length ks \<and> b' = b @ reap_batch ks \<and> d' = reap E ks d \<and> (err = None \<or> err = Some ErrStop) \<and>
    (sorted_wrt (<) (map fst (kvs @ rest)) \<longrightarrow> (err = None \<longrightarrow> rest = []) \<longrightarrow>
       int n' < ExpireBatch (env_cfg E) \<longrightarrow> (\<forall>i. \<not> late i) \<longrightarrow>
       (\<forall>k\<in>fst ` set (kvs @ rest). \<forall>x db key. due_key E k x db key \<and> Valid db d \<longrightarrow> k \<in> set ks))"
  using assms
proof (induction kvs arbitrary: n b d)
  case Nil
  then show ?case by (intro exI [of _ "[]"]) (simp add: reap_batch_def)
next
  case (Cons kv kvs)
  obtain k v where kv: "kv = (k, v)" by fastforce
  show ?case
  proof (cases "DecodeExpireKey k")
    case None
    then have "visit (cycleVisit E late) kvs (n, b, d) = (err, n', b', d')"
      using Cons.prems kv by (simp add: cycleVisit_app)
    from Cons.IH [OF this] None kv show ?thesis by auto
  next
    case (Some t)
    obtain x db key where t: "t = (x, db, key)" by (cases t)
    consider "x > env_now E" | "x \<le> env_now E" "\<not> Valid db d"
      | "x \<le> env_now E" "Valid db d" "int (n + 1) \<ge> ExpireBatch (env_cfg E) \<or> late (n + 1)"
      | "x \<le> env_now E" "Valid db d" "\<not> (int (n + 1) \<ge> ExpireBatch (env_cfg E) \<or> late (n + 1))" by linarith
    then show ?thesis
    proof cases
      case 1
      then have r: "err = Some ErrStop" "n' = n" "b' = b" "d' = d"
        using Cons.prems kv Some t by (simp_all add: cycleVisit_app)
      have "y > env_now E" if "k' \<in> fst ` set (kv # kvs @ rest)" "sorted_wrt (<) (map fst (kv # kvs @ rest))"
        "DecodeExpireKey k' = Some (y, db', key')" for k' y db' key'
      proof -
        have "k' = k \<or> k < k'" using that(1,2) kv by auto
        then have "x \<le> y"
          using DecodeExpireKey_SomeD [OF that(3)] DecodeExpireKey_SomeD [of k x db key] Some t that(3)
          by (auto simp: EncodeExpireKey_less EncodeExpireKey_inj)
        then show ?thesis using 1 by simp
      qed
      then have "\<not> (due_key E k' y db' key' \<and> Valid db' d)"
        if "k' \<in> fst ` set ((kv # kvs) @ rest)" "sorted_wrt (<) (map fst ((kv # kvs) @ rest))" for k' y db' key'
        using that by (metis append_Cons not_less)
      then show ?thesis unfolding r by (intro exI [of _ "[]"]) (auto simp: reap_batch_def)
    next
      case 2
      then have "visit (cycleVisit E late) kvs (n, b, d) = (err, n', b', d')"
        using Cons.prems kv Some t by (simp add: cycleVisit_app)
      from Cons.IH [OF this] 2 kv Some t show ?thesis by auto
    next
      case 3
      then have "err = Some ErrStop" "n' = n + 1" "b' = b @ reap_batch [k]" "d' = reap E [k] d"
        using Cons.prems kv Some t by (auto simp: cycleVisit_app reap_batch_def Let_def)
      then show ?thesis using 3 kv Some t by (intro exI [of _ "[k]"]) auto
    next
      case 4
      then have "visit (cycleVisit E late) kvs (n + 1, b @ reap_batch [k], snd (Delete E db key d)) = (err, n', b', d')"
        using Cons.prems kv Some t by (auto simp: cycleVisit_app reap_batch_def Let_def)
      from Cons.IH [OF this] obtain ks where ks: "set ks \<subseteq> fst ` set kvs"
        "\<forall>k\<in>set ks. \<exists>x db key. due_key E k x db key \<and> Valid db d"
        "n' = n + 1 + length ks" "b' = (b @ reap_batch [k]) @ reap_batch ks" "d' = reap E ks (snd (Delete E db key d))"
        "err = None \<or> err = Some ErrStop"
        "sorted_wrt (<) (map fst (kvs @ rest)) \<longrightarrow> (err = None \<longrightarrow> rest = []) \<longrightarrow>
          int n' < ExpireBatch (env_cfg E) \<longrightarrow> (\<forall>i. \<not> late i) \<longrightarrow>
          (\<forall>k\<in>fst ` set (kvs @ rest). \<forall>x db key. due_key E k x db key \<and> Valid db d \<longrightarrow> k \<in> set ks)"
        by auto
      then show ?thesis using 4 kv Some t by (intro exI [of _ "k # ks"]) (auto simp: reap_batch_def)
    qed
  qed
qed

section \<open>The effect of a cycle\<close>

definition collected_key :: "bytes list \<Rightarrow> dbid \<Rightarrow> bytes \<Rightarrow> bool" where
  "collected_key ks db key \<longleftrightarrow> (\<exists>k\<in>set ks. \<exists>x. DecodeExpireKey k = Some (x, db, key))"

lemma reap_spec:
  "dict_wf d \<Longrightarrow> env_ok E \<Longrightarrow> dict_wf (reap E ks d) \<and>
     dlook E (reap E ks d) = (\<lambda>a b. if collected_key ks a b then None else dlook E d a b)"
proof (induction ks arbitrary: d)
  case Nil
  then show ?case by (simp add: collected_key_def)
next
  case (Cons k ks)
  show ?case
  proof (cases "DecodeExpireKey k")
    case None
    then show ?thesis using Cons by (auto simp: collected_key_def)
  next
    case (Some t)
    obtain x db key where t: "t = (x, db, key)" by (cases t)
    note D = Delete_spec [OF Cons.prems, of db key]
    show ?thesis using Cons.IH [OF D(3) Cons.prems(2)] Some t D(2) by (auto simp: collected_key_def fun_eq_iff)
  qed
qed

lemma run_reap_batch:
  "run_bops (reap_batch ks) m = (\<lambda>k. if \<exists>k'\<in>set ks. \<exists>x db key. DecodeExpireKey k' = Some (x, db, key) \<and>
      (k = EncodeDataKey db key \<or> k = k') then None else m k)"
proof -
  have "BDelete k \<in> set (reap_batch ks) \<longleftrightarrow> (\<exists>k'\<in>set ks. \<exists>x db key. DecodeExpireKey k' = Some (x, db, key) \<and>
      (k = EncodeDataKey db key \<or> k = k'))" for k
  proof (induction ks)
    case Nil
    then show ?case by (simp add: reap_batch_def)
  next
    case (Cons a ks)
    then show ?case by (cases "DecodeExpireKey a") (auto simp: reap_batch_def)
  qed
  then show ?thesis
    by (subst run_deletes) (auto simp: reap_batch_def split: option.splits)
qed

lemma reap_data:
  "run_bops (reap_batch ks) m (EncodeDataKey a b) = (if collected_key ks a b then None else m (EncodeDataKey a b))"
proof -
  have "EncodeDataKey a b \<noteq> k" if "DecodeExpireKey k = Some t" for k t
    using that by (cases t) (metis DecodeExpireKey_SomeD(1) EncodeDataKey_neq_ExpireKey(1))
  then show ?thesis by (auto simp: run_reap_batch collected_key_def)
qed

lemma reap_index:
  assumes "is_int64 y"
  shows "run_bops (reap_batch ks) m (EncodeExpireKey y a b) =
    (if EncodeExpireKey y a b \<in> set ks then None else m (EncodeExpireKey y a b))"
  using assms by (auto simp: run_reap_batch dest: DecodeExpireKey_SomeD)

context pebble_engine
begin

lemma reap_ok:
  assumes ok: "st_ok kv E s"
    and ks: "\<And>k. k \<in> set ks \<Longrightarrow> k \<in> dom (kv (s_eng s)) \<and> (\<exists>x db key. due_key E k x db key)"
    and m': "kv (s_eng s') = run_bops (reap_batch ks) (kv (s_eng s))" and d': "s_dict s' = reap E ks (s_dict s)"
  shows "st_ok kv E s'" "st_live kv E s' = st_live kv E s"
proof -
  let ?m = "kv (s_eng s)" and ?m' = "kv (s_eng s')"
  note R = reap_spec [of "s_dict s" E ks]
  have so: "store_ok E ?m (s_dict s)" using ok by (simp add: st_ok_def)
  have dead: "\<exists>t x p. view ?m a b = Some (t, x, p) \<and> past (env_now E) x \<and> EncodeExpireKey x a b \<in> set ks"
    if c: "collected_key ks a b" for a b
  proof -
    obtain k x where k: "k \<in> set ks" "DecodeExpireKey k = Some (x, a, b)" using c by (auto simp: collected_key_def)
    note dk = DecodeExpireKey_SomeD [OF k(2)]
    have "?m (EncodeExpireKey x a b) \<noteq> None" "x \<le> env_now E" using ks [OF k(1)] k(2) dk by (auto simp: dom_def)
    then show ?thesis using store_okD(3) [OF so, of a b] dk k(1) by (auto simp: index_ok_def past_def)
  qed
  have none: "view ?m' a b = None" "is_int64 y \<Longrightarrow> ?m' (EncodeExpireKey y a b) = None" if c: "collected_key ks a b" for a b y
  proof -
    show "view ?m' a b = None" using c by (simp add: view_def m' reap_data)
    show "is_int64 y \<Longrightarrow> ?m' (EncodeExpireKey y a b) = None"
      using dead [OF c] store_okD(3) [OF so, of a b] by (auto simp: m' reap_index index_ok_def)
  qed
  have ag: "agree ?m ?m' a b" if c: "\<not> collected_key ks a b" for a b
  proof -
    have "EncodeExpireKey y a b \<notin> set ks" if "is_int64 y" for y
      using c that unfolding collected_key_def by (metis DecodeExpireKey_Encode wrap64_id)
    then show ?thesis using c by (simp add: agree_def m' reap_data reap_index)
  qed
  have "live (env_now E) ?m' a b = live (env_now E) ?m a b" for a b
    using dead [of a b] none(1) [of a b] agree_live [OF ag, of a b]
    by (cases "collected_key ks a b") (auto simp: live_def live_val_def)
  then show "st_live kv E s' = st_live kv E s" by (simp add: st_live_def fun_eq_iff)
  have "key_ok ?m' (dlook E (s_dict s') a b) a b" for a b
    using R st_okD [OF ok] none [of a b] agree_key_ok [OF ag, of a b "dlook E (s_dict s) a b"] so
    by (cases "collected_key ks a b") (auto simp: d' key_ok_def index_ok_def store_ok_def)
  then show "st_ok kv E s'" using R st_okD [OF ok] by (simp add: st_ok_def store_ok_def d')
qed

lemma Cycle_done:
  assumes ok: "st_ok kv E s" and r: "Cycle P E late s = (Inr n, s')"
  shows "st_ok kv E s'" "st_live kv E s' = st_live kv E s"
    "n < ExpireBatch (env_cfg E) \<Longrightarrow> \<forall>i. \<not> late i \<Longrightarrow> is_int64 x \<Longrightarrow> x \<le> env_now E \<Longrightarrow> Valid db (s_dict s) \<Longrightarrow>
       kv (s_eng s') (EncodeExpireKey x db key) = None"
proof -
  obtain err c b d where sc: "iterate P (s_eng s) ExpirePrefix (Some ExpireUpperBound) None (cycleVisit E late) (0, [], s_dict s) = (err, c, b, d)"
    using prod_cases4 by metis
  have err: "err = None \<or> err = Some ErrStop" and nc: "n = int c"
    using r by (auto simp: Cycle_def ScanRange_def sc Let_def bindE_eq_Inr split: if_splits)
  obtain kvs ie where it: "p_iter P (s_eng s) ExpirePrefix (Some ExpireUpperBound) None = Inr (kvs, ie)"
    using sc err iter_errors(1) by (cases "p_iter P (s_eng s) ExpirePrefix (Some ExpireUpperBound) None") (auto simp: iterate_def)
  obtain rest where rest: "lists_range (kv (s_eng s)) ExpirePrefix (Some ExpireUpperBound) (kvs @ rest)" "ie = None \<longrightarrow> rest = []"
    using iter_prefix [OF it] by (auto simp: start_at_def)
  obtain verr where v: "visit (cycleVisit E late) kvs (0, [], s_dict s) = (verr, c, b, d)"
    and e: "verr = None \<longrightarrow> err = ie" "verr \<noteq> None \<longrightarrow> err = verr"
    using sc it by (auto simp: iterate_def split: prod.splits option.splits)
  have re: "verr = None \<longrightarrow> rest = []" using e rest(2) err iter_errors it by metis
  from cycle_visit [OF v, of rest] obtain ks where ks: "set ks \<subseteq> fst ` set kvs"
    "\<forall>k\<in>set ks. \<exists>x db key. due_key E k x db key \<and> Valid db (s_dict s)"
    "c = length ks" "b = reap_batch ks" "d = reap E ks (s_dict s)"
    and all: "int c < ExpireBatch (env_cfg E) \<Longrightarrow> \<forall>i. \<not> late i \<Longrightarrow>
      (\<forall>k\<in>fst ` set (kvs @ rest). \<forall>x db key. due_key E k x db key \<and> Valid db (s_dict s) \<longrightarrow> k \<in> set ks)"
    using re rest(1) by (auto simp: lists_range_def)
  have dom: "set (map fst (kvs @ rest)) = {k \<in> dom (kv (s_eng s)). in_range ExpirePrefix (Some ExpireUpperBound) k}"
    by (rule lists_range_keys [OF rest(1)])
  have s': "kv (s_eng s') = run_bops (reap_batch ks) (kv (s_eng s))" "s_dict s' = reap E ks (s_dict s)"
  proof -
    show "s_dict s' = reap E ks (s_dict s)" "kv (s_eng s') = run_bops (reap_batch ks) (kv (s_eng s))"
      using r err ks applyBatch_done [of b "s\<lparr>s_dict := d\<rparr>"]
      by (auto simp: Cycle_def ScanRange_def sc Let_def bindE_eq_Inr reap_batch_def split: if_splits)
  qed
  have kd: "k \<in> dom (kv (s_eng s)) \<and> (\<exists>x db key. due_key E k x db key)" if "k \<in> set ks" for k
    using that ks(1,2) dom by (auto simp: image_iff)
  from reap_ok [OF ok kd s'] show "st_ok kv E s'" "st_live kv E s' = st_live kv E s" by blast+
  show "kv (s_eng s') (EncodeExpireKey x db key) = None"
    if a: "n < ExpireBatch (env_cfg E)" "\<forall>i. \<not> late i" "is_int64 x" "x \<le> env_now E" "Valid db (s_dict s)"
  proof -
    let ?k = "EncodeExpireKey x db key"
    have "in_range ExpirePrefix (Some ExpireUpperBound) ?k"
      by (simp add: in_range_def ExpirePrefix_def ExpireUpperBound_def EncodeExpireKey_eq segExpire_def lex_Cons_le)
    moreover have "DecodeExpireKey ?k = Some (x, db, key)" using a(3) by simp
    moreover have "?k \<in> fst ` set (kvs @ rest)" if "kv (s_eng s) ?k \<noteq> None" "in_range ExpirePrefix (Some ExpireUpperBound) ?k"
      using that dom unfolding set_map by blast
    moreover note all [OF _ a(2)]
    ultimately have "kv (s_eng s) ?k \<noteq> None \<Longrightarrow> ?k \<in> set ks" using a nc by blast
    then show ?thesis using a(3) by (cases "kv (s_eng s) ?k") (auto simp: s' reap_index)
  qed
qed

end

section \<open>Properties\<close>

text \<open>C9: an expiry cycle is invisible and complete: it never removes a value that a client can still
  see and keeps the invariant; and unless its batch limit or its time budget cuts it short, no due
  entry of an addressable database is left in the expiry index.\<close>

theorem cycle_safe_and_complete:
  assumes "pebble_engine P kv" "st_ok kv E s" "Cycle P E late s = (Inr n, s')"
  shows "st_ok kv E s' \<and> st_live kv E s' = st_live kv E s \<and>
    (n < ExpireBatch (env_cfg E) \<and> (\<forall>i. \<not> late i) \<longrightarrow>
      (\<forall>x db key. is_int64 x \<and> x \<le> env_now E \<and> Valid db (s_dict s) \<longrightarrow> kv (s_eng s') (EncodeExpireKey x db key) = None))"
  using pebble_engine.Cycle_done [OF assms] by blast

theorem cycle_safe_and_complete_witness:
  "\<exists>n s'. Cycle ref_pebble (small_env 5) (\<lambda>_. False) empty_store = (Inr n, s') \<and> st_ok map_of (small_env 5) s'"
proof -
  have "Cycle ref_pebble (small_env 5) (\<lambda>_. False) empty_store = (Inr 0, empty_store)"
    by (simp add: Cycle_def ScanRange_def iterate_def ref_list_def)
  with cycle_safe_and_complete [OF ref.pebble_engine_axioms empty_store_facts(1) this] show ?thesis by blast
qed

end
