(* ===== verification/Lifecycle.thy ===== *)
theory Lifecycle
  imports Recovery Expire
begin

text \<open>
  Opening and closing. \<open>Open\<close> of \<open>storage/pebble.go\<close> turns the configuration into the options of the storage library and the
  write options of every later call; \<open>Open\<close> of \<open>store.go\<close> validates the configuration, opens the engine and rebuilds
  the index; \<open>NewServer\<close> of \<open>server.go\<close> fills in its options, and its two callbacks count and limit connections. The
  opening of a database by the library is a parameter.
\<close>

section \<open>The engine\<close>

datatype durability = Sync | NoSync

record levelOption =
  lo_BlockSize :: int
  lo_IndexBlockSize :: int
  lo_bloomBits :: int
  lo_Filter :: string
  lo_Compression :: string

definition levelOptions :: "levelOption list" where
  "levelOptions = replicate 7 \<lparr>lo_BlockSize = 32 * 2 ^ 10, lo_IndexBlockSize = 256 * 2 ^ 10, lo_bloomBits = 10,
     lo_Filter = ''TableFilter'', lo_Compression = ''Snappy''\<rparr>"

record pebbleOptions =
  po_Cache :: int
  po_MemTableSize :: "64 word"
  po_StopWrites :: int
  po_L0Compaction :: int
  po_L0Stop :: int
  po_Compactions :: int
  po_Levels :: "levelOption list"
  po_Merger :: string
  po_memFS :: bool
  po_DisableWAL :: bool
  po_WALMinSync :: int

text \<open>\<open>cpus\<close> is \<open>runtime.NumCPU()\<close>.\<close>

definition engineOptions :: "int \<Rightarrow> Config \<Rightarrow> pebbleOptions" where
  "engineOptions cpus c = \<lparr>po_Cache = BlockCacheSize c, po_MemTableSize = MemTableSize c, po_StopWrites = 4,
     po_L0Compaction = L0CompactionThreshold c, po_L0Stop = L0StopWritesThreshold c,
     po_Compactions = min 8 (max 2 (cpus div 2)), po_Levels = levelOptions, po_Merger = ''pebbis.counter'',
     po_memFS = (Dir c = ''''), po_DisableWAL = (Dir c = ''''), po_WALMinSync = WALMinSyncInterval c\<rparr>"

text \<open>The write options; a policy outside the \<open>switch\<close> leaves the pointer nil.\<close>

definition writeOption :: "Config \<Rightarrow> durability option" where
  "writeOption c =
     (if Dir c = '''' then Some NoSync
      else if SyncPolicy c = SyncAlways then Some Sync
      else if SyncPolicy c = SyncNever \<or> SyncPolicy c = SyncGroup then Some NoSync else None)"

definition openEngine :: "(string \<Rightarrow> pebbleOptions \<Rightarrow> goerr + 'e) \<Rightarrow> int \<Rightarrow> Config \<Rightarrow> goerr + ('e \<times> durability option)" where
  "openEngine popen cpus c =
     (case popen (Dir c) (engineOptions cpus c) of Inl err \<Rightarrow> Inl err | Inr e \<Rightarrow> Inr (e, writeOption c))"

text \<open>The sizes the engine reports: what its block cache holds, \<open>None\<close> after \<open>Close\<close>; and the levels and the log of its metrics,
  added modulo \<open>2\<^sup>64\<close>.\<close>

definition BlockCacheBytes :: "int option \<Rightarrow> int" where
  "BlockCacheBytes cache = (case cache of None \<Rightarrow> 0 | Some n \<Rightarrow> n)"

definition DiskUsageBytes :: "64 word list \<Rightarrow> 64 word \<Rightarrow> 64 word" where
  "DiskUsageBytes levels wal = foldl (+) 0 levels + wal"

section \<open>The store\<close>

definition newStore :: "Config \<Rightarrow> 'e \<Rightarrow> 'e Store" where
  "newStore c e = \<lparr>s_eng = e, s_dict = NewDict c, s_hits = 0, s_misses = 0, s_expired = 0, s_keyChanges = 0, s_reaped = 0,
     s_evicted = 0, s_blockSeq = 0, s_blockChans = []\<rparr>"

text \<open>\<open>E\<close> gives the clock and the hash of the new store, whose configuration is the validated one; a nil configuration is the
  default one.\<close>

definition openStore ::
  "(string \<Rightarrow> pebbleOptions \<Rightarrow> goerr + 'e) \<Rightarrow> int \<Rightarrow> 'e pebble \<Rightarrow> Env \<Rightarrow> Config option \<Rightarrow> goerr + (Config \<times> 'e Store)" where
  "openStore popen cpus P E cfg =
     (case Validate (case cfg of None \<Rightarrow> DefaultConfig | Some c \<Rightarrow> c) of
        Inl err \<Rightarrow> Inl err
      | Inr c \<Rightarrow>
          (case openEngine popen cpus c of
             Inl err \<Rightarrow> Inl err
           | Inr (e, wo) \<Rightarrow>
               let s = newStore c e in
               if LoadMode c = LoadAll then
                 (case loadAll P (E\<lparr>env_cfg := c\<rparr>) s of (Inl err, _) \<Rightarrow> Inl err | (Inr _, s1) \<Rightarrow> Inr (c, s1))
               else Inr (c, s)))"

text \<open>Closing twice is harmless; a closed store refuses the calls of the embedded API.\<close>

definition closeStore :: "(unit \<Rightarrow> goerr option) \<Rightarrow> bool \<Rightarrow> goerr option \<times> bool" where
  "closeStore engClose closed = (if closed then (None, True) else (engClose (), True))"

section \<open>Connections\<close>

record ServerOptions =
  so_Addr :: string
  so_Network :: string
  so_MaxClients :: int
  so_MaxBulkLen :: int

definition defaultMaxBulkLen :: int where "defaultMaxBulkLen = 512 * 2 ^ 20"

definition serverOptions :: "ServerOptions \<Rightarrow> ServerOptions" where
  "serverOptions o' = o'\<lparr>so_Addr := (if so_Addr o' = '''' then '':6379'' else so_Addr o'),
     so_Network := (if so_Network o' = '''' then ''tcp'' else so_Network o'),
     so_MaxBulkLen := (if so_MaxBulkLen o' \<le> 0 then defaultMaxBulkLen else so_MaxBulkLen o')\<rparr>"

text \<open>The semaphore is a channel of capacity \<open>MaxClients\<close>, nil when there is no limit; \<open>lm_sem\<close> is what it holds.\<close>

record limiter =
  lm_max :: int
  lm_sem :: int
  lm_conns :: int

definition newLimiter :: "ServerOptions \<Rightarrow> limiter" where
  "newLimiter o' = \<lparr>lm_max = so_MaxClients o', lm_sem = 0, lm_conns = 0\<rparr>"

definition acceptConn :: "limiter \<Rightarrow> (goerr option \<times> bool) \<times> limiter" where
  "acceptConn l =
     (if lm_max l \<le> 0 then ((None, True), l\<lparr>lm_conns := lm_conns l + 1\<rparr>)
      else if lm_sem l < lm_max l then ((None, True), l\<lparr>lm_sem := lm_sem l + 1, lm_conns := lm_conns l + 1\<rparr>)
      else ((Some (ProtoError ''ERR max number of clients reached''), False), l))"

definition closedConn :: "limiter \<Rightarrow> limiter" where
  "closedConn l =
     (let l1 = l\<lparr>lm_conns := lm_conns l - 1\<rparr> in if lm_max l > 0 \<and> lm_sem l > 0 then l1\<lparr>lm_sem := lm_sem l - 1\<rparr> else l1)"

definition ConnectedClients :: "limiter \<Rightarrow> int" where "ConnectedClients l = lm_conns l"

text \<open>The protocol library calls \<open>accept\<close> for every new connection and \<open>closed\<close> once for each connection it accepted. The state is
  the limiter and the set of open connections.\<close>

inductive conn_step :: "limiter \<times> nat set \<Rightarrow> limiter \<times> nat set \<Rightarrow> bool" where
  accepted: "c \<notin> C \<Longrightarrow> acceptConn l = ((None, True), l') \<Longrightarrow> conn_step (l, C) (l', insert c C)"
| refused: "acceptConn l = ((Some err, False), l') \<Longrightarrow> conn_step (l, C) (l', C)"
| closed: "c \<in> C \<Longrightarrow> conn_step (l, C) (closedConn l, C - {c})"

inductive_cases conn_stepE: "conn_step (l, C) st"

definition limit_ok :: "int \<Rightarrow> limiter \<times> nat set \<Rightarrow> bool" where
  "limit_ok mx st \<longleftrightarrow> (case st of (l, C) \<Rightarrow> finite C \<and> lm_max l = mx \<and> lm_conns l = int (card C) \<and>
     (mx > 0 \<longrightarrow> lm_sem l = int (card C) \<and> int (card C) \<le> mx))"

lemma limit_ok_step: "conn_step st st' \<Longrightarrow> limit_ok mx st \<Longrightarrow> limit_ok mx st'"
proof (induction rule: conn_step.induct)
  case (closed c C l)
  then have "card C > 0" by (auto simp: limit_ok_def card_gt_0_iff)
  with closed show ?case by (auto simp: limit_ok_def closedConn_def Let_def card_Diff_singleton)
qed (auto simp: limit_ok_def acceptConn_def split: if_splits)

lemma limit_ok_reach: "conn_step\<^sup>*\<^sup>* st st' \<Longrightarrow> limit_ok mx st \<Longrightarrow> limit_ok mx st'"
  by (induction rule: rtranclp_induct) (auto dest: limit_ok_step)

text \<open>C34: The connection limit. In every state the server reaches from its start, the count it reports is the number of open
  connections, no more than \<open>MaxClients\<close> are open when a limit is set, and a new connection is refused exactly when
  that many are open.\<close>

theorem connection_limit:
  assumes "conn_step\<^sup>*\<^sup>* (newLimiter o', {}) (l, C)"
  shows "ConnectedClients l = int (card C) \<and> (so_MaxClients o' > 0 \<longrightarrow> int (card C) \<le> so_MaxClients o') \<and>
    (snd (fst (acceptConn l)) \<longleftrightarrow> so_MaxClients o' \<le> 0 \<or> int (card C) < so_MaxClients o')"
  using limit_ok_reach[OF assms, of "so_MaxClients o'"]
  by (auto simp: limit_ok_def newLimiter_def ConnectedClients_def acceptConn_def)

theorem connection_limit_witness:
  "\<exists>l. conn_step\<^sup>*\<^sup>* (newLimiter \<lparr>so_Addr = '''', so_Network = '''', so_MaxClients = 1, so_MaxBulkLen = 0\<rparr>, {}) (l, {7}) \<and>
     ConnectedClients l = 1 \<and> \<not> snd (fst (acceptConn l))"
proof -
  let ?o = "\<lparr>so_Addr = '''', so_Network = '''', so_MaxClients = 1, so_MaxBulkLen = 0\<rparr>"
  let ?l = "\<lparr>lm_max = 1, lm_sem = 1, lm_conns = 1\<rparr>"
  have "conn_step (newLimiter ?o, {}) (?l, {7})" by (rule accepted) (simp_all add: acceptConn_def newLimiter_def)
  then have r: "conn_step\<^sup>*\<^sup>* (newLimiter ?o, {}) (?l, {7})" by blast
  from connection_limit[OF r] r show ?thesis by (auto intro!: exI[of _ ?l])
qed

section \<open>Recovery\<close>

lemma Validate_env_ok: "Validate c = Inr c' \<Longrightarrow> env_ok (E\<lparr>env_cfg := c'\<rparr>)"
  using Validate_config_ok[of c c'] by (auto simp: env_ok_def config_ok_def)

lemma openStore_done:
  assumes "pebble_engine P kv" "st_ok kv E0 s0"
    and "\<And>dir opts e. popen dir opts = Inr e \<Longrightarrow> kv e = kv (s_eng s0)"
    and "openStore popen cpus P E cfg = Inr (c, s)"
  shows "st_ok kv (E\<lparr>env_cfg := c\<rparr>) s \<and> st_live kv E s = st_live kv E s0 \<and>
    (LoadMode c = LoadAll \<longrightarrow> (\<forall>n key. n < nat (Databases c) \<longrightarrow>
       (dlook (E\<lparr>env_cfg := c\<rparr>) (s_dict s) (of_nat n) key \<noteq> None \<longleftrightarrow> st_live kv E s0 (of_nat n) key \<noteq> None) \<and>
       view (kv (s_eng s)) (of_nat n) key = st_live kv E s0 (of_nat n) key))"
proof -
  let ?E = "E\<lparr>env_cfg := c\<rparr>"
  obtain e wo c0 where v: "Validate c0 = Inr c" and o: "openEngine popen cpus c = Inr (e, wo)"
    and s: "if LoadMode c = LoadAll then \<exists>u. loadAll P ?E (newStore c e) = (Inr u, s) else s = newStore c e"
    using assms(4) by (auto simp: openStore_def Let_def split: sum.splits prod.splits option.splits if_splits)
  have ok: "env_ok ?E" by (rule Validate_env_ok[OF v])
  have kv: "kv (s_eng (newStore c e)) = kv (s_eng s0)"
    using o assms(3) by (auto simp: openEngine_def newStore_def split: sum.splits)
  have ix: "index_ok (kv (s_eng (newStore c e))) a b" for a b
    using assms(2) by (simp add: kv st_ok_def store_ok_def key_ok_def)
  have live: "st_live kv E x = st_live kv ?E x" for x by (simp add: st_live_def)
  have new: "s_dict (newStore c e) = NewDict c" by (simp add: newStore_def)
  show ?thesis
  proof (cases "LoadMode c = LoadAll")
    case True
    then obtain u where "loadAll P ?E (newStore c e) = (Inr u, s)" using s by auto
    note L = pebble_engine.loadAll_done[OF assms(1) new ok ix this]
    have "st_live kv ?E (newStore c e) = st_live kv ?E s0" by (simp add: st_live_def kv)
    then show ?thesis using L by (simp add: live)
  next
    case False
    have "dlook ?E (NewDict c) a b = None" for a b by (simp add: dlook_def NewDict_def)
    then have "st_ok kv ?E (newStore c e)"
      using ok ix dict_ok_wf[OF dict_ok_New[of ?E c]] by (simp add: st_ok_def store_ok_def key_ok_def new)
    then show ?thesis using False s by (simp add: st_live_def kv)
  qed
qed


text \<open>A store with one key, closed and opened again.\<close>

definition one_key :: "(bytes \<times> bytes) list" where
  "one_key = [(EncodeDataKey 0 [107], EncodeValue TypeString 0 [118])]"

lemma one_key_view: "view (map_of one_key) a b = (if a = 0 \<and> b = [107] then Some (TypeString, 0, [118]) else None)"
  by (auto simp: view_def one_key_def)

lemma one_key_ok: "st_ok map_of (small_env 5) (newStore DefaultConfig one_key)"
proof -
  have "map_of one_key (EncodeExpireKey x a b) = None" for x a b by (simp add: one_key_def)
  then have "index_ok (map_of one_key) a b" for a b by (simp add: index_ok_def one_key_view)
  moreover have "dlook E (NewDict DefaultConfig) a b = None" for E a b by (simp add: dlook_def NewDict_def)
  moreover have "env_ok (small_env 5)" by (simp add: env_ok_def small_env_def DefaultConfig_def)
  ultimately show ?thesis
    using dict_ok_wf[OF dict_ok_New[of "small_env 5" DefaultConfig]] by (simp add: st_ok_def store_ok_def key_ok_def newStore_def)
qed


end
