(* ===== verification/Simulation.thy ===== *)
theory Simulation
  imports Prelude
begin

text \<open>
  Runs of labelled transition systems, and simulation: a concrete system implements an abstract one when every step from a
  related state is a step of the abstract system with the same label. Labels carry the results a caller gets, so that
  the abstract run explains all of them.
\<close>

inductive runs :: "('a \<Rightarrow> 's \<Rightarrow> 's \<Rightarrow> bool) \<Rightarrow> 'a list \<Rightarrow> 's \<Rightarrow> 's \<Rightarrow> bool" for step where
  none: "runs step [] x x"
| some: "step a x y \<Longrightarrow> runs step as y z \<Longrightarrow> runs step (a # as) x z"

inductive_simps runs_simps: "runs step [] x y" "runs step (a # as) x z"

locale simulation =
  fixes cstep :: "'a \<Rightarrow> 'c \<Rightarrow> 'c \<Rightarrow> bool" and astep :: "'a \<Rightarrow> 's \<Rightarrow> 's \<Rightarrow> bool" and rel :: "'c \<Rightarrow> 's \<Rightarrow> bool"
  assumes sim: "rel x A \<Longrightarrow> cstep a x y \<Longrightarrow> \<exists>B. astep a A B \<and> rel y B"
begin

lemma runs_sim: "runs cstep as x y \<Longrightarrow> rel x A \<Longrightarrow> \<exists>B. runs astep as A B \<and> rel y B"
proof (induction arbitrary: A rule: runs.induct)
  case (some a x y as z)
  then show ?case using sim [of x A a y] by (metis runs.some)
qed (auto intro: runs.none)

end

end
