(* ===== verification/System.thy ===== *)
theory System
  imports Lifecycle Simulation
begin

text \<open>
  The store as a whole: the operations of the data path, the background workers (eviction, expiry), the passing of
  time and restarts, in any order, as one transition system; and the specification they implement together, a map
  from keys to typed values with deadlines in which only clients and the clock change anything.
\<close>

section \<open>The system\<close>

text \<open>What happens, with what the caller gets back.\<close>

datatype action =
    Read dbid bytes "tval option"
  | Write dbid bytes bytes SetOption "bytes option" bool bool
  | Remove dbid bytes bool
  | Deadline dbid bytes gotime ExpireOption int
  | Keep dbid bytes bool
  | Move dbid bytes bytes bool
  | Clear dbid
  | Eviction | Expiry | Clock int | Restart

definition at_time :: "Env \<Rightarrow> int \<Rightarrow> Env" where
  "at_time E t = E\<lparr>env_now := t\<rparr>"

text \<open>A state is the time and the store. A restart opens the engine that the store leaves behind, with the configuration
  in force; the deadline of the last millisecond of \<open>int64\<close> and the last database identifier are left out, as the
  operations treat them specially.\<close>

inductive serve :: "'e pebble \<Rightarrow> Env \<Rightarrow> action \<Rightarrow> int \<times> 'e Store \<Rightarrow> int \<times> 'e Store \<Rightarrow> bool" for P E where
  read: "getTyped P (at_time E t) db key s = (Inr r, s') \<Longrightarrow> serve P E (Read db key r) (t, s) (t, s')"
| set: "setString P (at_time E t) drs db key val opt s = (Inr (old, existed, written), s') \<Longrightarrow>
    serve P E (Write db key val opt old existed written) (t, s) (t, s')"
| remove: "deleteKey P (at_time E t) db key s = (Inr b, s') \<Longrightarrow> serve P E (Remove db key b) (t, s) (t, s')"
| deadline: "UnixMilli tm \<noteq> MaxInt64 \<Longrightarrow> setExpiry P (at_time E t) db key tm opt s = (Inr n, s') \<Longrightarrow>
    serve P E (Deadline db key tm opt n) (t, s) (t, s')"
| keep: "persist P (at_time E t) db key s = (Inr b, s') \<Longrightarrow> serve P E (Keep db key b) (t, s) (t, s')"
| move: "rename P (at_time E t) db src dst nx s = (Inr u, s') \<Longrightarrow> serve P E (Move db src dst nx) (t, s) (t, s')"
| clear: "db \<noteq> 0xffff \<Longrightarrow> flushDB P (at_time E t) db s = (Inr u, s') \<Longrightarrow> serve P E (Clear db) (t, s) (t, s')"
| eviction: "serve P E Eviction (t, s) (t, MaybeEvict P (at_time E t) drs s)"
| expiry: "runTick P (at_time E t) late enabled s = (True, s') \<Longrightarrow> serve P E Expiry (t, s) (t, s')"
| clock: "t \<le> t' \<Longrightarrow> is_int64 t' \<Longrightarrow> serve P E (Clock t') (t, s) (t', s)"
| restart: "openStore (\<lambda>dir opts. Inr (s_eng s)) cpus P (at_time E t) (Some (env_cfg E)) = Inr (env_cfg E, s') \<Longrightarrow>
    serve P E Restart (t, s) (t, s')"

text \<open>The specification. Evicting, expiring and restarting do nothing.\<close>

type_synonym keyspace = "dbid \<Rightarrow> bytes \<Rightarrow> tval option"

inductive spec :: "Env \<Rightarrow> action \<Rightarrow> int \<times> keyspace \<Rightarrow> int \<times> keyspace \<Rightarrow> bool" for E where
  read: "spec E (Read db key (A db key)) (t, A) (t, A)"
| written: "\<not> set_refused opt (A db key \<noteq> None) \<Longrightarrow>
    spec E (Write db key val opt (map_option (\<lambda>(t, x, p). p) (A db key)) (A db key \<noteq> None) True) (t, A)
      (t, upd2 A db key (live_val t (Some (TypeString,
            set_deadline (at_time E t) opt (case A db key of None \<Rightarrow> 0 | Some (t, x, p) \<Rightarrow> x), val))))"
| refused: "set_refused opt (A db key \<noteq> None) \<Longrightarrow>
    spec E (Write db key val opt (map_option (\<lambda>(t, x, p). p) (A db key)) (A db key \<noteq> None) False) (t, A) (t, A)"
| remove: "spec E (Remove db key (A db key \<noteq> None)) (t, A) (t, upd2 A db key None)"
| deadline: "A db key = Some (ty, x, p) \<Longrightarrow> expire_applies opt x (UnixMilli tm) \<Longrightarrow>
    spec E (Deadline db key tm opt 1) (t, A) (t, upd2 A db key (if UnixMilli tm \<le> t then None else Some (ty, UnixMilli tm, p)))"
| no_deadline: "(\<forall>ty x p. A db key = Some (ty, x, p) \<longrightarrow> \<not> expire_applies opt x (UnixMilli tm)) \<Longrightarrow>
    spec E (Deadline db key tm opt 0) (t, A) (t, A)"
| keep: "A db key = Some (ty, x, p) \<Longrightarrow> b = (x \<noteq> 0) \<Longrightarrow> spec E (Keep db key b) (t, A) (t, upd2 A db key (Some (ty, 0, p)))"
| keep_none: "A db key = None \<Longrightarrow> spec E (Keep db key False) (t, A) (t, A)"
| move: "A db src = Some v \<Longrightarrow>
    spec E (Move db src dst nx) (t, A)
      (t, if src = dst \<or> nx \<and> A db dst \<noteq> None then A else upd2 (upd2 A db dst (Some v)) db src None)"
| clear: "spec E (Clear db) (t, A) (t, \<lambda>a b. if a = db then None else A a b)"
| eviction: "spec E Eviction (t, A) (t, A)"
| expiry: "spec E Expiry (t, A) (t, A)"
| clock: "t \<le> t' \<Longrightarrow> spec E (Clock t') (t, A) (t', \<lambda>a b. live_val t' (A a b))"
| restart: "spec E Restart (t, A) (t, A)"

definition sys_ok :: "('e \<Rightarrow> (bytes \<rightharpoonup> bytes)) \<Rightarrow> Env \<Rightarrow> int \<times> 'e Store \<Rightarrow> bool" where
  "sys_ok kv E st \<longleftrightarrow> (case st of (t, s) \<Rightarrow> st_ok kv (at_time E t) s \<and> 0 \<le> t \<and> is_int64 t)"

definition sys_abs :: "('e \<Rightarrow> (bytes \<rightharpoonup> bytes)) \<Rightarrow> Env \<Rightarrow> int \<times> 'e Store \<Rightarrow> int \<times> keyspace" where
  "sys_abs kv E st = (case st of (t, s) \<Rightarrow> (t, st_live kv (at_time E t) s))"

definition sys_rel :: "('e \<Rightarrow> (bytes \<rightharpoonup> bytes)) \<Rightarrow> Env \<Rightarrow> int \<times> 'e Store \<Rightarrow> int \<times> keyspace \<Rightarrow> bool" where
  "sys_rel kv E st A \<longleftrightarrow> sys_ok kv E st \<and> A = sys_abs kv E st"

section \<open>The simulation of the specification\<close>

lemma at_time_sel [simp]: "env_now (at_time E t) = t" "env_cfg (at_time E t) = env_cfg E"
  "(at_time E t)\<lparr>env_cfg := env_cfg E\<rparr> = at_time E t"
  by (simp_all add: at_time_def)

lemma dlook_time: "dlook (at_time E t) = dlook E"
  by (simp add: fun_eq_iff dlook_def at_time_def split: option.split)

lemma st_ok_time: "st_ok kv (at_time E t) s = st_ok kv (at_time E t') s"
  by (simp add: st_ok_def store_ok_def dlook_time env_ok_def)

lemma live_later: "t \<le> t' \<Longrightarrow> live_val t' (live_val t v) = live_val t' v"
  by (auto simp: live_val_def past_def split: option.splits)

context pebble_reliable
begin

lemma serve_data:
  assumes "serve P E a (t, s) (t', s')" "sys_ok kv E (t, s)" "EvictionMode (env_cfg E) \<noteq> EvictCache"
  shows "sys_ok kv E (t', s') \<and> spec E a (sys_abs kv E (t, s)) (sys_abs kv E (t', s'))"
proof -
  have ok: "st_ok kv (at_time E t) s" and t: "0 \<le> t" "is_int64 t" using assms(2) by (simp_all add: sys_ok_def)
  note defs = sys_ok_def sys_abs_def
  let ?A = "st_live kv (at_time E t) s"
  show ?thesis using assms(1)
  proof cases
    case (read db key r)
    then show ?thesis using read_ok_live [OF getTyped_done [OF ok read(3)]] t by (auto simp: defs intro: spec.read)
  next
    case (set drs db key val opt old existed written)
    note d = setString_done [OF ok _ _ set(3)]
    show ?thesis
    proof (cases written)
      case True
      then show ?thesis using d set t assms(3) spec.written [of opt ?A db key E val t] by (auto simp: defs)
    next
      case False
      then show ?thesis using d set t assms(3) spec.refused [of opt ?A db key E val t] by (auto simp: defs)
    qed
  next
    case (remove db key b)
    then show ?thesis using deleteKey_done(1-3) [OF ok remove(3)] t spec.remove [of E db key ?A t] by (simp add: defs)
  next
    case (deadline tm db key opt n)
    note d = setExpiry_done [OF ok deadline(3) _ deadline(4)]
    show ?thesis
    proof (cases "\<exists>ty x p. ?A db key = Some (ty, x, p) \<and> expire_applies opt x (UnixMilli tm)")
      case True
      then obtain ty x p where v: "?A db key = Some (ty, x, p)" "expire_applies opt x (UnixMilli tm)" by blast
      show ?thesis using d v t deadline(1,2) spec.deadline [of ?A db key ty x p opt tm E t] by (simp add: defs)
    next
      case False
      then have "n = 0 \<and> st_live kv (at_time E t) s' = ?A \<and> st_ok kv (at_time E t) s'"
        using d t by (auto split: option.splits)
      then show ?thesis using False t deadline(1,2) spec.no_deadline [of ?A db key opt tm E t] by (auto simp: defs)
    qed
  next
    case (keep db key b)
    then show ?thesis using persist_done [OF ok keep(3)] t
      by (auto simp: defs split: option.splits intro: spec.keep spec.keep_none)
  next
    case (move db src dst nx u)
    then show ?thesis using rename_done [OF ok move(3)] t spec.move [of ?A db src _ E dst nx t] by (auto simp: defs)
  next
    case (clear db u)
    then show ?thesis using flushDB_done [OF ok clear(3,4)] t by (auto simp: defs intro: spec.clear)
  next
    case (eviction drs)
    then show ?thesis using MaybeEvict_invisible [OF ok, of drs] assms(3) t by (auto simp: defs intro: spec.eviction)
  next
    case (expiry late enabled)
    then have "s' = s \<or> (\<exists>n. Cycle P (at_time E t) late s = (Inr n, s'))"
      by (auto simp: runTick_def split: if_splits sum.splits prod.splits)
    then show ?thesis using Cycle_done(1,2) [OF ok] t expiry ok by (auto simp: defs intro: spec.expiry)
  next
    case clock
    have "st_live kv (at_time E t') s = (\<lambda>a b. live_val t' (?A a b))"
      using clock by (simp add: st_live_def live_def fun_eq_iff live_later)
    then show ?thesis using clock t st_ok_time [of kv E t s t'] ok spec.clock [of t t' E ?A] by (auto simp: defs)
  next
    case (restart cpus)
    from openStore_done [OF pebble_engine_axioms ok _ restart(3)]
    have "st_ok kv (at_time E t) s'" "st_live kv (at_time E t) s' = ?A" by auto
    then show ?thesis using restart t by (auto simp: defs intro: spec.restart)
  qed
qed

lemma serve_simulation:
  assumes "EvictionMode (env_cfg E) \<noteq> EvictCache"
  shows "simulation (serve P E) (spec E) (sys_rel kv E)"
proof
  fix x y a A
  assume "sys_rel kv E x A" "serve P E a x y"
  then show "\<exists>B. spec E a A B \<and> sys_rel kv E y B"
    using serve_data [OF _ _ assms, of a "fst x" "snd x" "fst y" "snd y"] by (intro exI [of _ "sys_abs kv E y"]) (simp add: sys_rel_def)
qed

end

text \<open>The reference engine with a small configuration is such a system.\<close>

interpretation small: simulation "serve ref_pebble (small_env 0)" "spec (small_env 0)" "sys_rel map_of (small_env 0)"
  by (rule ref.serve_simulation) simp



end
