(* ===== verification/Aggregate.thy ===== *)
theory Aggregate
  imports Keyspace
begin

text \<open>
  \<open>aggregate.go\<close>: loading and saving of hashes, sets, sorted sets and lists.  An aggregate is kept
  inline in its value or, when it is large, sparse: a header in the value and one key per element.
  Go maps are association lists; the order in which Go ranges over one does not matter, since the
  batches it produces touch distinct keys.
\<close>

section \<open>Loading\<close>

record agg =
  a_typ :: byte
  a_exists :: bool
  a_sparse :: bool
  a_expireAt :: int
  a_origExpire :: int
  a_hash :: "(bytes \<times> bytes) list"
  a_set :: "bytes list"
  a_zset :: "(bytes \<times> f64) list"
  a_list :: "bytes list"
  a_seqs :: "int list"
  a_head :: int
  a_tail :: int
  a_origHash :: "(bytes \<times> bytes) list"
  a_origSet :: "bytes list"
  a_origZSet :: "(bytes \<times> f64) list"

definition newAgg :: "byte \<Rightarrow> int \<Rightarrow> agg" where
  "newAgg typ expireAt = \<lparr>a_typ = typ, a_exists = False, a_sparse = False, a_expireAt = expireAt,
     a_origExpire = expireAt, a_hash = [], a_set = [], a_zset = [], a_list = [], a_seqs = [],
     a_head = 0, a_tail = 0, a_origHash = [], a_origSet = [], a_origZSet = []\<rparr>"

definition scanned :: "goerr option \<times> 'a \<Rightarrow> goerr + 'a" where
  "scanned r = (case r of (Some err, out) \<Rightarrow> Inl err | (None, out) \<Rightarrow> Inr out)"

definition scanHash :: "'e pebble \<Rightarrow> dbid \<Rightarrow> bytes \<Rightarrow> 'e Store \<Rightarrow> goerr + (bytes \<times> bytes) list" where
  "scanHash P db key s =
     (let pfx = ElemPrefix SegHash db key
      in scanned (Scan P (s_eng s) pfx (\<lambda>out k v. (None, AList.update (ElemFromKey pfx k) v out)) []))"

definition scanSet :: "'e pebble \<Rightarrow> dbid \<Rightarrow> bytes \<Rightarrow> 'e Store \<Rightarrow> goerr + bytes list" where
  "scanSet P db key s =
     (let pfx = ElemPrefix SegSet db key
      in scanned (ScanKeys P (s_eng s) pfx (\<lambda>out k. (None, gset_add (ElemFromKey pfx k) out)) []))"

definition scanZSet :: "'e pebble \<Rightarrow> dbid \<Rightarrow> bytes \<Rightarrow> 'e Store \<Rightarrow> goerr + (bytes \<times> f64) list" where
  "scanZSet P db key s =
     (let pfx = ElemPrefix SegZSetM db key
      in scanned (Scan P (s_eng s) pfx
           (\<lambda>out k v. if length v < 8 then (None, out)
                      else (None, AList.update (ElemFromKey pfx k) (DecodeScore (u64_of (take 8 v))) out)) []))"

definition scanList :: "'e pebble \<Rightarrow> dbid \<Rightarrow> bytes \<Rightarrow> 'e Store \<Rightarrow> goerr + (bytes list \<times> int list)" where
  "scanList P db key s =
     (let pfx = ElemPrefix SegList db key
      in scanned (Scan P (s_eng s) pfx
           (\<lambda>(elems, seqs) k v.
              let rest = drop (length pfx) k in
              if length rest < 8 then (None, elems, seqs)
              else (None, elems @ [v], seqs @ [sint (u64_of (take 8 rest))])) ([], [])))"

definition on_ok :: "goerr + 'a \<Rightarrow> ('a \<Rightarrow> 'b) \<Rightarrow> goerr + 'b" where
  "on_ok r f = (case r of Inl err \<Rightarrow> Inl err | Inr x \<Rightarrow> Inr (f x))"

definition loadElems :: "'e pebble \<Rightarrow> dbid \<Rightarrow> bytes \<Rightarrow> Object \<Rightarrow> agg \<Rightarrow> 'e Store \<Rightarrow> goerr + agg" where
  "loadElems P db key obj a s =
     (if a_typ a = TypeHash then
        on_ok (if a_sparse a then scanHash P db key s else DecodeHashInline (o_Data obj))
          (\<lambda>h. a\<lparr>a_hash := h, a_origHash := h\<rparr>)
      else if a_typ a = TypeSet then
        on_ok (if a_sparse a then scanSet P db key s else DecodeSetInline (o_Data obj))
          (\<lambda>h. a\<lparr>a_set := h, a_origSet := h\<rparr>)
      else if a_typ a = TypeZSet then
        on_ok (if a_sparse a then scanZSet P db key s else DecodeZSetInline (o_Data obj))
          (\<lambda>h. a\<lparr>a_zset := h, a_origZSet := h\<rparr>)
      else if a_typ a = TypeList then
        (if a_sparse a then on_ok (scanList P db key s) (\<lambda>(l, q). a\<lparr>a_list := l, a_seqs := q\<rparr>)
         else on_ok (DecodeListInline (o_Data obj)) (\<lambda>l. a\<lparr>a_list := l\<rparr>))
      else Inr a)"

definition loadAgg :: "'e pebble \<Rightarrow> Env \<Rightarrow> dbid \<Rightarrow> bytes \<Rightarrow> byte \<Rightarrow> 'e Store \<Rightarrow> (goerr, agg, 'e Store) res" where
  "loadAgg P E db key typ s =
     bindE (getTyped P E db key s) (\<lambda>r s1.
       case r of
         None \<Rightarrow> (Inr (newAgg typ 0), s1)
       | Some (gotTyp, expireAt, payload) \<Rightarrow>
           if gotTyp \<noteq> typ then (Inl ErrWrongType, s1)
           else (case DecodeObjectHeader payload of
                   Inl err \<Rightarrow> (Inl err, s1)
                 | Inr obj \<Rightarrow>
                     (loadElems P db key obj
                        ((newAgg typ expireAt)\<lparr>a_exists := True, a_sparse := (o_Enc obj = EncSparse),
                           a_head := o_Head obj, a_tail := o_Tail obj\<rparr>) s1, s1)))"

definition aggEncoding :: "'e pebble \<Rightarrow> Env \<Rightarrow> dbid \<Rightarrow> bytes \<Rightarrow> byte \<Rightarrow> 'e Store \<Rightarrow> (goerr, (Object \<times> int) option, 'e Store) res" where
  "aggEncoding P E db key typ s =
     bindE (getTyped P E db key s) (\<lambda>r s1.
       case r of
         None \<Rightarrow> (Inr None, s1)
       | Some (gotTyp, exp, payload) \<Rightarrow>
           if gotTyp \<noteq> typ then (Inl ErrWrongType, s1)
           else (case DecodeObjectHeader payload of Inl err \<Rightarrow> (Inl err, s1) | Inr obj \<Rightarrow> (Inr (Some (obj, exp)), s1)))"

section \<open>Saving\<close>

definition agg_len :: "agg \<Rightarrow> nat" where
  "agg_len a =
     (if a_typ a = TypeHash then length (a_hash a) else if a_typ a = TypeSet then length (a_set a)
      else if a_typ a = TypeZSet then length (a_zset a) else if a_typ a = TypeList then length (a_list a) else 0)"

definition fitsInline :: "agg \<Rightarrow> bool" where
  "fitsInline a =
     (if a_typ a = TypeHash then
        length (a_hash a) \<le> InlineMaxEntries \<and> list_all (\<lambda>(f, v). length v \<le> InlineMaxValueSize) (a_hash a)
      else if a_typ a = TypeSet then length (a_set a) \<le> InlineMaxEntries
      else if a_typ a = TypeZSet then length (a_zset a) \<le> InlineMaxEntries
      else if a_typ a = TypeList then
        length (a_list a) \<le> InlineMaxEntries \<and> list_all (\<lambda>e. length e \<le> InlineMaxValueSize) (a_list a)
      else True)"

definition sortedKeys :: "(bytes \<times> 'v) list \<Rightarrow> bytes list" where
  "sortedKeys m = sort (map fst m)"

definition encodeInline :: "agg \<Rightarrow> bytes" where
  "encodeInline a =
     (if a_typ a = TypeHash then
        EncodeHashInline (sortedKeys (a_hash a)) (\<lambda>f. case map_of (a_hash a) f of None \<Rightarrow> [] | Some v \<Rightarrow> v)
      else if a_typ a = TypeSet then EncodeSetInline (sort (a_set a))
      else if a_typ a = TypeZSet then
        EncodeZSetInline (map (\<lambda>m. \<lparr>m_member = m, m_score = (case map_of (a_zset a) m of None \<Rightarrow> 0 | Some sc \<Rightarrow> sc)\<rparr>)
                              (sortedKeys (a_zset a)))
      else if a_typ a = TypeList then EncodeListInline (a_list a)
      else [])"

definition scoreBytes :: "f64 \<Rightarrow> bytes" where
  "scoreBytes f = be64 (EncodeScore f)"

text \<open>Staging every element of a collection; a list gets fresh sequence numbers from 0.\<close>

definition numberList :: "agg \<Rightarrow> agg" where
  "numberList a = a\<lparr>a_head := 0, a_tail := int (length (a_list a)) - 1,
     a_seqs := map int [0..<length (a_list a)]\<rparr>"

definition writeElemsBatch :: "byte \<Rightarrow> dbid \<Rightarrow> bytes \<Rightarrow> agg \<Rightarrow> bop list \<times> agg" where
  "writeElemsBatch seg db key a =
     (if a_typ a = TypeHash then (map (\<lambda>(f, v). BSet (EncodeElemKey seg db key f) v) (a_hash a), a)
      else if a_typ a = TypeSet then (map (\<lambda>m. BSet (EncodeElemKey seg db key m) []) (a_set a), a)
      else if a_typ a = TypeZSet then
        (concat (map (\<lambda>(m, sc). [BSet (EncodeElemKey seg db key m) (scoreBytes sc),
                                 BSet (EncodeScoreKey db key sc m) []]) (a_zset a)), a)
      else if a_typ a = TypeList then
        (map (\<lambda>i. BSet (EncodeListSeqKey db key (int i)) (a_list a ! i)) [0..<length (a_list a)], numberList a)
      else ([], a))"

definition diffElemsBatch :: "byte \<Rightarrow> dbid \<Rightarrow> bytes \<Rightarrow> agg \<Rightarrow> bop list" where
  "diffElemsBatch seg db key a =
     (if a_typ a = TypeHash then
        map (\<lambda>(f, v). BDelete (EncodeElemKey seg db key f))
            (filter (\<lambda>(f, v). map_of (a_hash a) f = None) (a_origHash a))
        @ map (\<lambda>(f, v). BSet (EncodeElemKey seg db key f) v)
            (filter (\<lambda>(f, v). map_of (a_origHash a) f \<noteq> Some v) (a_hash a))
      else if a_typ a = TypeSet then
        map (\<lambda>m. BDelete (EncodeElemKey seg db key m)) (filter (\<lambda>m. m \<notin> set (a_set a)) (a_origSet a))
        @ map (\<lambda>m. BSet (EncodeElemKey seg db key m) []) (filter (\<lambda>m. m \<notin> set (a_origSet a)) (a_set a))
      else if a_typ a = TypeZSet then
        concat (map (\<lambda>(m, old). [BDelete (EncodeElemKey seg db key m), BDelete (EncodeScoreKey db key old m)])
                  (filter (\<lambda>(m, old). map_of (a_zset a) m = None) (a_origZSet a)))
        @ concat (map (\<lambda>(m, sc).
             case map_of (a_origZSet a) m of
               Some old \<Rightarrow>
                 if f64_eq old sc then []
                 else [BDelete (EncodeScoreKey db key old m), BSet (EncodeElemKey seg db key m) (scoreBytes sc),
                       BSet (EncodeScoreKey db key sc m) []]
             | None \<Rightarrow> [BSet (EncodeElemKey seg db key m) (scoreBytes sc), BSet (EncodeScoreKey db key sc m) []])
             (a_zset a))
      else [])"

definition putValueBatch :: "dbid \<Rightarrow> bytes \<Rightarrow> byte \<Rightarrow> bytes \<Rightarrow> int \<Rightarrow> int \<Rightarrow> bop list" where
  "putValueBatch db key typ val expireAtMs prevExpire =
     [BSet (EncodeDataKey db key) (EncodeValue typ expireAtMs val)]
     @ (if prevExpire \<noteq> 0 \<and> prevExpire \<noteq> expireAtMs then [BDelete (EncodeExpireKey prevExpire db key)] else [])
     @ (if expireAtMs \<noteq> 0 \<and> expireAtMs \<noteq> prevExpire then [BSet (EncodeExpireKey expireAtMs db key) []] else [])"

definition commitAgg :: "'e pebble \<Rightarrow> Env \<Rightarrow> dbid \<Rightarrow> bytes \<Rightarrow> agg \<Rightarrow> bop list \<Rightarrow> bytes \<Rightarrow> 'e Store \<Rightarrow> (goerr, unit, 'e Store) res" where
  "commitAgg P E db key a elemOps payload s =
     bindE (applyBatch P (elemOps @ putValueBatch db key (a_typ a) payload (a_expireAt a) (a_origExpire a)) s)
       (\<lambda>_ s1. (Inr (), upd_dict (Set E db key (a_typ a) (a_expireAt a) payload) s1))"

definition the_seg :: "byte option \<Rightarrow> byte" where
  "the_seg sg = (case sg of None \<Rightarrow> 0 | Some seg \<Rightarrow> seg)"

definition saveAgg :: "'e pebble \<Rightarrow> Env \<Rightarrow> dbid \<Rightarrow> bytes \<Rightarrow> agg \<Rightarrow> 'e Store \<Rightarrow> (goerr, unit, 'e Store) res" where
  "saveAgg P E db key a s =
     (if fitsInline a then
        commitAgg P E db key a (if a_sparse a then dropElemsBatch db key (a_typ a) else []) (encodeInline a) s
      else
        let seg = the_seg (SegmentFor (a_typ a));
            (ops, a') = (if \<not> a_sparse a then writeElemsBatch seg db key (a\<lparr>a_sparse := True\<rparr>)
                         else (diffElemsBatch seg db key a, a))
        in commitAgg P E db key a' ops (EncodeSparseHeader (a_typ a') (agg_len a') (a_head a') (a_tail a')) s)"

definition deleteAgg :: "'e pebble \<Rightarrow> Env \<Rightarrow> dbid \<Rightarrow> bytes \<Rightarrow> 'e Store \<Rightarrow> (goerr, unit, 'e Store) res" where
  "deleteAgg P E db key s = bindE (deleteKey P E db key s) (\<lambda>_ s1. (Inr (), s1))"

section \<open>Element keys of one collection\<close>

definition elems_of :: "(bytes \<rightharpoonup> bytes) \<Rightarrow> byte \<Rightarrow> dbid \<Rightarrow> bytes \<Rightarrow> (bytes \<rightharpoonup> bytes)" where
  "elems_of m seg db key = (\<lambda>f. m (ElemPrefix seg db key @ f))"

text \<open>A batch of single-key operations as a list of keys with their new contents.\<close>

definition bop_of :: "bytes \<times> bytes option \<Rightarrow> bop" where
  "bop_of kv = (case snd kv of None \<Rightarrow> BDelete (fst kv) | Some v \<Rightarrow> BSet (fst kv) v)"

lemma run_key_ops:
  "run_bops (map bop_of kops) m = (\<lambda>k. case map_of (rev kops) k of None \<Rightarrow> m k | Some vo \<Rightarrow> vo)"
proof (induction kops arbitrary: m)
  case Nil
  then show ?case by simp
next
  case (Cons kv kops)
  obtain k vo where kv: "kv = (k, vo)" by fastforce
  have r: "run_bop (bop_of (k, vo)) m = m(k := vo)" by (cases vo) (auto simp: bop_of_def)
  show ?case
    by (auto simp: Cons.IH kv r fun_eq_iff map_add_def split: option.splits)
qed

lemma map_of_map_key: "inj g \<Longrightarrow> map_of (map (\<lambda>(f, v). (g f, h v)) xs) (g f) = map_option h (map_of xs f)"
  by (induction xs) (auto simp: inj_def)

lemma map_of_map_other: "y \<notin> range g \<Longrightarrow> map_of (map (\<lambda>(f, v). (g f, h v)) xs) y = None"
  by (induction xs) auto

lemma rev_map_of: "distinct (map fst xs) \<Longrightarrow> map_of (rev xs) = map_of xs"
  by (rule map_of_inject_set [THEN iffD2]) (simp_all flip: rev_map)

definition elem_ops :: "byte \<Rightarrow> dbid \<Rightarrow> bytes \<Rightarrow> (bytes \<times> bytes option) list \<Rightarrow> bop list" where
  "elem_ops seg db key fops = map (\<lambda>(f, vo). bop_of (ElemPrefix seg db key @ f, vo)) fops"

lemma run_elem_ops:
  assumes "distinct (map fst fops)" and ops_def: "ops = elem_ops seg db key fops"
  shows "elems_of (run_bops ops m) seg db key = (\<lambda>f. case map_of fops f of None \<Rightarrow> elems_of m seg db key f | Some vo \<Rightarrow> vo)"
    and "\<not> prefix (ElemPrefix seg db key) k \<Longrightarrow> run_bops ops m k = m k"
proof -
  let ?g = "\<lambda>f. ElemPrefix seg db key @ f"
  have ops: "ops = map bop_of (map (\<lambda>(f, vo). (?g f, id vo)) fops)" by (simp add: ops_def elem_ops_def comp_def split_def)
  have inj: "inj ?g" by (simp add: inj_def)
  have d: "distinct (map fst (map (\<lambda>(f, vo). (?g f, id vo)) fops))"
    using assms(1) by (simp add: comp_def split_def distinct_map inj_on_def)
  show "elems_of (run_bops ops m) seg db key = (\<lambda>f. case map_of fops f of None \<Rightarrow> elems_of m seg db key f | Some vo \<Rightarrow> vo)"
    unfolding ops run_key_ops rev_map_of [OF d] elems_of_def
    by (auto simp: fun_eq_iff map_of_map_key [OF inj] split: option.splits)
  assume "\<not> prefix (ElemPrefix seg db key) k"
  then have "k \<notin> range ?g" by (auto simp: prefix_def)
  from map_of_map_other [OF this, of id fops] show "run_bops ops m k = m k"
    unfolding ops run_key_ops rev_map_of [OF d] by simp
qed

lemma ElemPrefix_not_data:
  assumes "seg \<noteq> segData" "seg \<noteq> segExpire"
  shows "\<not> prefix (ElemPrefix seg db key) (EncodeDataKey a b)" "\<not> prefix (ElemPrefix seg db key) (EncodeExpireKey x a b)"
  using assms by (simp_all add: ElemPrefix_Cons codec_defs)

lemma elems_put:
  assumes "seg \<noteq> segData" "seg \<noteq> segExpire"
  shows "elems_of (run_bops (putBatch db' key' typ val x prev) m) seg db key = elems_of m seg db key"
proof -
  have "ElemPrefix seg db key @ f \<noteq> EncodeDataKey a b" "ElemPrefix seg db key @ f \<noteq> EncodeExpireKey y a b" for f a b y
    using ElemPrefix_not_data [OF assms, of db key] by (metis prefixI)+
  then show ?thesis by (auto simp: elems_of_def putBatch_def fun_eq_iff)
qed

lemma putValueBatch_eq: "putValueBatch = putBatch"
  by (simp add: putValueBatch_def putBatch_def fun_eq_iff)

section \<open>Scans\<close>

text \<open>The pairs under an element prefix, with the prefix cut off.\<close>

lemma scan_elems:
  assumes "lists_range m (ElemPrefix seg db key) (prefixEnd (ElemPrefix seg db key)) kvs"
  defines "fvs \<equiv> map (\<lambda>(k, v). (drop (length (ElemPrefix seg db key)) k, v)) kvs"
  shows "kvs = map (\<lambda>(f, v). (ElemPrefix seg db key @ f, v)) fvs" "sorted_wrt (<) (map fst fvs)"
    "map_of fvs = elems_of m seg db key"
proof -
  let ?p = "ElemPrefix seg db key"
  have pre: "prefix ?p k" if "(k, v) \<in> set kvs" for k v
    using assms(1) that by (simp add: lists_range_def in_range_prefix)
  then have id: "map (\<lambda>(k, v). (?p @ drop (length ?p) k, v)) kvs = kvs"
    by (intro map_idI) (force simp: prefix_def)
  then show kvs: "kvs = map (\<lambda>(f, v). (?p @ f, v)) fvs" by (simp add: fvs_def comp_def split_def)
  have "sorted_wrt (<) (map fst (map (\<lambda>(f, v). (?p @ f, v)) fvs))"
    using assms(1) kvs by (simp add: lists_range_def)
  then show so: "sorted_wrt (<) (map fst fvs)" by (simp add: sorted_wrt_map comp_def split_def)
  then have d: "distinct (map fst fvs)" by (simp add: strict_sorted_iff)
  show "map_of fvs = elems_of m seg db key"
  proof (intro ext)
    fix f
    have "map_of fvs f = Some v \<longleftrightarrow> elems_of m seg db key f = Some v" for v
    proof -
      have "map_of fvs f = Some v \<longleftrightarrow> (f, v) \<in> set fvs" using d by simp
      also have "\<dots> \<longleftrightarrow> (?p @ f, v) \<in> set kvs" by (subst kvs) force
      also have "\<dots> \<longleftrightarrow> elems_of m seg db key f = Some v"
        using assms(1) by (simp add: lists_range_def in_range_prefix elems_of_def)
      finally show ?thesis .
    qed
    then show "map_of fvs f = elems_of m seg db key f" by (metis option.exhaust)
  qed
qed

lemma visit_fold:
  assumes "\<And>st k v. h st k v = (None, g st k v)"
  shows "visit h kvs st = (None, foldl (\<lambda>st kv. g st (fst kv) (snd kv)) st kvs)"
  by (induction kvs arbitrary: st) (auto simp: assms)

lemma drop_ElemPrefix [simp]: "ElemFromKey (ElemPrefix seg db key) (ElemPrefix seg db key @ f) = f"
  by (simp add: ElemFromKey_def)

context pebble_engine
begin

lemma Scan_lists:
  assumes "\<And>st k v. h st k v = (None, g st k v)" "scanned (Scan P e p h st) = Inr out"
  shows "\<exists>kvs. lists_range (kv e) p (prefixEnd p) kvs \<and> out = foldl (\<lambda>st kv. g st (fst kv) (snd kv)) st kvs"
proof -
  obtain kvs where "p_iter P e p (prefixEnd p) None = Inr (kvs, None)" "out = foldl (\<lambda>st kv. g st (fst kv) (snd kv)) st kvs"
    using assms(2) by (auto simp: scanned_def Scan_def ScanRange_def iterate_def visit_fold [of h g, OF assms(1)] split: sum.splits option.splits)
  then show ?thesis using iter_done by (fastforce simp: start_at_def)
qed

lemma scanHash_done:
  assumes "scanHash P db key s = Inr h"
  shows "map_of h = elems_of (kv (s_eng s)) SegHash db key" "gmap_ok h"
proof -
  let ?p = "ElemPrefix SegHash db key"
  obtain kvs where kvs: "lists_range (kv (s_eng s)) ?p (prefixEnd ?p) kvs"
    "h = foldl (\<lambda>st kv. AList.update (ElemFromKey ?p (fst kv)) (snd kv) st) [] kvs"
    using Scan_lists [where g = "\<lambda>out k v. AList.update (ElemFromKey ?p k) v out", OF refl assms [unfolded scanHash_def Let_def]]
    by auto
  note e = scan_elems [OF kvs(1)]
  let ?f = "map (\<lambda>(k, v). (drop (length ?p) k, v)) kvs"
  have d: "distinct (map fst ?f)" using e(2) by (simp add: strict_sorted_iff)
  have "h = foldl (\<lambda>m x. AList.update (fst x) (snd x) m) [] ?f"
    unfolding kvs(2) by (subst e(1)) (simp add: foldl_map split_def)
  then have "h = ?f" using foldl_update_append [of "[]" "\<lambda>x. x" ?f] d by simp
  then show "map_of h = elems_of (kv (s_eng s)) SegHash db key" "gmap_ok h" using e(3) d by (simp_all add: gmap_ok_def)
qed

lemma commitAgg_done:
  assumes ok: "st_ok kv E s" and x: "is_int64 (a_expireAt a)" and prev: "a_origExpire a = expiry_of (kv (s_eng s)) db key"
    and ag: "\<And>y z. agree (kv (s_eng s)) (run_bops ops (kv (s_eng s))) y z"
    and r: "commitAgg P E db key a ops payload s = (Inr u, s')"
  shows "st_ok kv E s'" "kv (s_eng s') = run_bops (putBatch db key (a_typ a) payload (a_expireAt a) (a_origExpire a))
       (run_bops ops (kv (s_eng s)))"
    "st_live kv E s' = upd2 (st_live kv E s) db key (live_val (env_now E) (Some (a_typ a, a_expireAt a, payload)))"
proof -
  let ?m = "run_bops ops (kv (s_eng s))"
  have m': "kv (s_eng s') = run_bops (putBatch db key (a_typ a) payload (a_expireAt a) (a_origExpire a)) ?m"
    and d': "s_dict s' = Set E db key (a_typ a) (a_expireAt a) payload (s_dict s)"
    using r applyBatch_done [of "ops @ putBatch db key (a_typ a) payload (a_expireAt a) (a_origExpire a)" s]
    by (auto simp: commitAgg_def bindE_eq_Inr putValueBatch_eq)
  have so: "store_ok E ?m (s_dict s)" using store_ok_agree [OF _ ag] ok by (simp add: st_ok_def)
  have p: "a_origExpire a = expiry_of ?m db key" using prev agree_view [OF ag] by (simp add: expiry_of_def)
  show "kv (s_eng s') = run_bops (putBatch db key (a_typ a) payload (a_expireAt a) (a_origExpire a)) ?m" by (fact m')
  show "st_ok kv E s'" using store_ok_put [OF so x p] by (simp add: st_ok_def m' d')
  have xp: "is_int64 (a_origExpire a)" using prev by simp
  show "st_live kv E s' = upd2 (st_live kv E s) db key (live_val (env_now E) (Some (a_typ a, a_expireAt a, payload)))"
  proof -
    have "live (env_now E) (kv (s_eng s')) = upd2 (live (env_now E) ?m) db key (live (env_now E) (kv (s_eng s')) db key)"
      unfolding m' by (rule live_upd2 [OF putBatch_agree [OF x xp]])
    moreover have "live (env_now E) ?m = live (env_now E) (kv (s_eng s))" using agree_live [OF ag] by (simp add: fun_eq_iff)
    ultimately show ?thesis by (simp add: st_live_def live_def m' putBatch_view [OF x])
  qed
qed

end

section \<open>Hashes\<close>

lemma SegmentFor_simps [simp]:
  "SegmentFor TypeHash = Some SegHash" "SegmentFor TypeList = Some SegList"
  "SegmentFor TypeSet = Some SegSet" "SegmentFor TypeZSet = Some SegZSetM" "SegmentFor TypeString = None"
  by (simp_all add: SegmentFor_def type_defs)

lemma type_neq [simp]:
  "TypeHash \<noteq> TypeSet" "TypeHash \<noteq> TypeZSet" "TypeHash \<noteq> TypeList" "TypeSet \<noteq> TypeHash" "TypeSet \<noteq> TypeZSet"
  "TypeSet \<noteq> TypeList" "TypeZSet \<noteq> TypeHash" "TypeZSet \<noteq> TypeSet" "TypeZSet \<noteq> TypeList"
  "TypeList \<noteq> TypeHash" "TypeList \<noteq> TypeSet" "TypeList \<noteq> TypeZSet"
  "TypeString \<noteq> TypeHash" "TypeString \<noteq> TypeSet" "TypeString \<noteq> TypeZSet" "TypeString \<noteq> TypeList"
  by (simp_all add: type_defs)

text \<open>The element keys on disk match the snapshot a loaded aggregate carries.\<close>

definition hash_synced :: "(bytes \<rightharpoonup> bytes) \<Rightarrow> dbid \<Rightarrow> bytes \<Rightarrow> agg \<Rightarrow> bool" where
  "hash_synced m db key a \<longleftrightarrow> gmap_ok (a_hash a) \<and> gmap_ok (a_origHash a) \<and>
     elems_of m SegHash db key = (if a_sparse a then map_of (a_origHash a) else (\<lambda>_. None))"

definition hash_ops :: "agg \<Rightarrow> (bytes \<times> bytes option) list" where
  "hash_ops a =
     (if a_sparse a then
        map (\<lambda>(f, v). (f, None)) (filter (\<lambda>(f, v). map_of (a_hash a) f = None) (a_origHash a))
        @ map (\<lambda>(f, v). (f, Some v)) (filter (\<lambda>(f, v). map_of (a_origHash a) f \<noteq> Some v) (a_hash a))
      else map (\<lambda>(f, v). (f, Some v)) (a_hash a))"

lemma hash_ops_distinct: "gmap_ok (a_hash a) \<Longrightarrow> gmap_ok (a_origHash a) \<Longrightarrow> distinct (map fst (hash_ops a))"
proof -
  assume g: "gmap_ok (a_hash a)" "gmap_ok (a_origHash a)"
  have f: "distinct (map fst (filter Q xs))" if "distinct (map fst xs)" for Q and xs :: "(bytes \<times> bytes) list"
    using that by (metis distinct_map_filter)
  have c: "fst \<circ> (\<lambda>(f, v). (f, c v)) = fst" for c :: "bytes \<Rightarrow> bytes option"
    by (auto simp: fun_eq_iff)
  show ?thesis
    using g f by (auto simp: c hash_ops_def gmap_ok_def map_of_eq_None_iff image_iff)
qed

lemma map_of_filter_val:
  "gmap_ok xs \<Longrightarrow> map_of (filter (\<lambda>(f, v). Q f v) xs) f = (case map_of xs f of None \<Rightarrow> None | Some v \<Rightarrow> if Q f v then Some v else None)"
  by (induction xs) (auto simp: gmap_ok_def map_of_eq_None_iff image_iff split: option.splits)

lemma map_of_map_val: "map_of (map (\<lambda>(f, v). (f, c v)) xs) f = map_option c (map_of xs f)"
  by (induction xs) auto

lemma hash_ops_result:
  assumes "hash_synced m db key a"
  shows "(case map_of (hash_ops a) f of None \<Rightarrow> elems_of m SegHash db key f | Some vo \<Rightarrow> vo) = map_of (a_hash a) f"
  using assms
  by (auto simp: hash_synced_def hash_ops_def map_of_map_val map_of_filter_val map_add_def split: option.splits)

lemma agree_elem_ops:
  assumes "distinct (map fst fops)" "seg \<noteq> segData" "seg \<noteq> segExpire"
  shows "agree m (run_bops (elem_ops seg db key fops) m) y z"
  using run_elem_ops(2) [OF assms(1) refl] ElemPrefix_not_data [OF assms(2,3)] by (simp add: agree_def)

lemma map_of_sorted_pairs:
  "map_of (map (\<lambda>f. (f, case map_of h f of None \<Rightarrow> d | Some v \<Rightarrow> v)) (sortedKeys h)) = map_of h"
proof (intro ext)
  fix f
  have "f \<in> set (sortedKeys h) \<longleftrightarrow> map_of h f \<noteq> None"
    by (simp add: sortedKeys_def map_of_eq_None_iff)
  then show "map_of (map (\<lambda>f. (f, case map_of h f of None \<Rightarrow> d | Some v \<Rightarrow> v)) (sortedKeys h)) f = map_of h f"
    by (auto simp: map_of_map_restrict restrict_map_def split: option.splits)
qed

lemma elems_dropped: "SegmentFor typ = Some seg \<Longrightarrow> elems_of (run_bops (dropElemsBatch db key typ) m) seg db key = (\<lambda>_. None)"
  by (simp add: elems_of_def run_dropElems elem_key_def)

lemma agree_dropElems: "agree m (run_bops (dropElemsBatch db key typ) m) y z"
  by (simp add: agree_def run_dropElems elem_key_other)

lemma saveAgg_hash_ops:
  assumes "a_typ a = TypeHash" "\<not> fitsInline a"
  shows "saveAgg P E db key a s =
    commitAgg P E db key (a\<lparr>a_sparse := True\<rparr>) (elem_ops SegHash db key (hash_ops a))
      (EncodeSparseHeader TypeHash (length (a_hash a)) (a_head a) (a_tail a)) s"
proof -
  have "commitAgg P E db key (a\<lparr>a_sparse := True\<rparr>) ops pay s = commitAgg P E db key a ops pay s" for ops pay
    by (simp add: commitAgg_def)
  moreover have "diffElemsBatch SegHash db key a = elem_ops SegHash db key (hash_ops a)" if "a_sparse a"
    using that assms(1) by (simp add: diffElemsBatch_def elem_ops_def hash_ops_def bop_of_def EncodeElemKey_eq comp_def split_def)
  moreover have "writeElemsBatch SegHash db key (a\<lparr>a_sparse := True\<rparr>) = (elem_ops SegHash db key (hash_ops a), a\<lparr>a_sparse := True\<rparr>)"
    if "\<not> a_sparse a"
    using that assms(1) by (simp add: writeElemsBatch_def elem_ops_def hash_ops_def bop_of_def EncodeElemKey_eq comp_def split_def)
  ultimately show ?thesis
    using assms by (cases "a_sparse a") (simp_all add: saveAgg_def the_seg_def agg_len_def Let_def)
qed

context pebble_engine
begin

lemma saveAgg_hash_done:
  assumes ok: "st_ok kv E s" and t: "a_typ a = TypeHash" and x: "is_int64 (a_expireAt a)"
    and prev: "a_origExpire a = expiry_of (kv (s_eng s)) db key" and sy: "hash_synced (kv (s_eng s)) db key a"
    and r: "saveAgg P E db key a s = (Inr u, s')"
  defines "payload \<equiv> (if fitsInline a then encodeInline a else EncodeSparseHeader TypeHash (length (a_hash a)) (a_head a) (a_tail a))"
  shows "st_ok kv E s'" "st_live kv E s' = upd2 (st_live kv E s) db key (live_val (env_now E) (Some (TypeHash, a_expireAt a, payload)))"
    "elems_of (kv (s_eng s')) SegHash db key = (if fitsInline a then (\<lambda>_. None) else map_of (a_hash a))"
proof -
  have seg: "SegHash \<noteq> segData" "SegHash \<noteq> segExpire" by (simp_all add: seg_defs)
  have "st_ok kv E s' \<and> st_live kv E s' = upd2 (st_live kv E s) db key (live_val (env_now E) (Some (TypeHash, a_expireAt a, payload))) \<and>
    elems_of (kv (s_eng s')) SegHash db key = (if fitsInline a then (\<lambda>_. None) else map_of (a_hash a))"
  proof (cases "fitsInline a")
    case True
    let ?ops = "if a_sparse a then dropElemsBatch db key TypeHash else []"
    have c: "commitAgg P E db key a ?ops payload s = (Inr u, s')" using r True t by (auto simp: saveAgg_def payload_def split: if_splits)
    note d = commitAgg_done [OF ok x prev _ c]
    have ag: "agree (kv (s_eng s)) (run_bops ?ops (kv (s_eng s))) y z" for y z by (simp add: agree_dropElems)
    have "elems_of (run_bops ?ops (kv (s_eng s))) SegHash db key = (\<lambda>_. None)"
      using sy elems_dropped [of TypeHash SegHash] by (simp add: hash_synced_def)
    then show ?thesis using d [OF ag] t True by (simp add: elems_put [OF seg])
  next
    case False
    have g: "gmap_ok (a_hash a)" "gmap_ok (a_origHash a)" using sy by (simp_all add: hash_synced_def)
    note dist = hash_ops_distinct [OF g]
    have c: "commitAgg P E db key (a\<lparr>a_sparse := True\<rparr>) (elem_ops SegHash db key (hash_ops a)) payload s = (Inr u, s')"
      using r False by (simp add: payload_def saveAgg_hash_ops [OF t False])
    note d = commitAgg_done [OF ok _ _ agree_elem_ops [OF dist seg] c]
    have "elems_of (run_bops (elem_ops SegHash db key (hash_ops a)) (kv (s_eng s))) SegHash db key = map_of (a_hash a)"
      using hash_ops_result [OF sy] by (simp add: run_elem_ops(1) [OF dist refl] fun_eq_iff)
    then show ?thesis using d x prev t False by (simp add: elems_put [OF seg])
  qed
  then show "st_ok kv E s'" "st_live kv E s' = upd2 (st_live kv E s) db key (live_val (env_now E) (Some (TypeHash, a_expireAt a, payload)))"
    "elems_of (kv (s_eng s')) SegHash db key = (if fitsInline a then (\<lambda>_. None) else map_of (a_hash a))" by blast+
qed

lemma loadAgg_hash_done:
  assumes ok: "st_ok kv E s" and l: "st_live kv E s db key = Some (TypeHash, x, payload)"
    and r: "loadAgg P E db key TypeHash s = (Inr b, s')"
  shows "\<exists>obj. DecodeObjectHeader payload = Inr obj \<and> a_expireAt b = x \<and> a_origExpire b = x \<and> a_exists b \<and> a_typ b = TypeHash \<and>
    a_sparse b = (o_Enc obj = EncSparse) \<and> a_origHash b = a_hash b \<and>
    (if o_Enc obj = EncSparse then map_of (a_hash b) = elems_of (kv (s_eng s)) SegHash db key \<and> gmap_ok (a_hash b)
     else DecodeHashInline (o_Data obj) = Inr (a_hash b)) \<and> st_ok kv E s' \<and> s_eng s' = s_eng s"
proof -
  obtain rd s1 where g: "getTyped P E db key s = (Inr rd, s1)" using r by (auto simp: loadAgg_def bindE_eq_Inr)
  have rd: "rd = Some (TypeHash, x, payload)" "st_ok kv E s1" "s_eng s1 = s_eng s"
    using getTyped_done [OF ok g] l by (auto simp: read_ok_def)
  obtain obj where obj: "DecodeObjectHeader payload = Inr obj" using r g rd by (auto simp: loadAgg_def split: sum.splits)
  show ?thesis
    using r g rd obj scanHash_done [of db key s1]
    by (auto simp: loadAgg_def loadElems_def newAgg_def on_ok_def split: sum.splits if_splits)
qed

text \<open>What is saved is what is loaded, whichever representation is chosen.\<close>

lemma hash_save_load:
  assumes ok: "st_ok kv E s" and t: "a_typ a = TypeHash" and x: "is_int64 (a_expireAt a)" "\<not> past (env_now E) (a_expireAt a)"
    and prev: "a_origExpire a = expiry_of (kv (s_eng s)) db key" and sy: "hash_synced (kv (s_eng s)) db key a"
    and sz: "\<forall>f\<in>fst ` set (a_hash a). length f < 2 ^ 16"
    and r: "saveAgg P E db key a s = (Inr u, s')" and l: "loadAgg P E db key TypeHash s' = (Inr b, s'')"
  shows "map_of (a_hash b) = map_of (a_hash a) \<and> a_expireAt b = a_expireAt a \<and> a_exists b \<and>
    hash_synced (kv (s_eng s'')) db key b \<and> a_origExpire b = expiry_of (kv (s_eng s'')) db key \<and> st_ok kv E s''"
proof -
  note S = saveAgg_hash_done [OF ok t x(1) prev sy r]
  have g: "gmap_ok (a_hash a)" using sy by (simp add: hash_synced_def)
  let ?pay = "if fitsInline a then encodeInline a else EncodeSparseHeader TypeHash (length (a_hash a)) (a_head a) (a_tail a)"
  have live: "st_live kv E s' db key = Some (TypeHash, a_expireAt a, ?pay)" using S(2) x(2) by (simp add: live_val_def)
  from loadAgg_hash_done [OF S(1) live l] obtain obj where L: "DecodeObjectHeader ?pay = Inr obj" "a_expireAt b = a_expireAt a"
    "a_origExpire b = a_expireAt a" "a_exists b" "a_sparse b = (o_Enc obj = EncSparse)" "a_origHash b = a_hash b"
    "if o_Enc obj = EncSparse then map_of (a_hash b) = elems_of (kv (s_eng s')) SegHash db key \<and> gmap_ok (a_hash b)
     else DecodeHashInline (o_Data obj) = Inr (a_hash b)" "st_ok kv E s''" "s_eng s'' = s_eng s'" by blast
  have xp: "expiry_of (kv (s_eng s'')) db key = a_expireAt a"
    using live live_SomeD by (fastforce simp: L(9) st_live_def expiry_of_def)
  show ?thesis
  proof (cases "fitsInline a")
    case False
    then have "o_Enc obj = EncSparse" using L(1) by (auto simp: DecodeObjectHeader_sparse)
    then show ?thesis using L S(3) False xp by (simp add: hash_synced_def)
  next
    case True
    let ?val = "\<lambda>f. case map_of (a_hash a) f of None \<Rightarrow> [] | Some v \<Rightarrow> v"
    let ?kvs = "map (\<lambda>f. (f, ?val f)) (sortedKeys (a_hash a))"
    have obj: "o_Enc obj = EncInline" "o_Data obj = concat (map enc_field ?kvs)"
      using L(1) True t by (auto simp: encodeInline_def EncodeHashInline_def DecodeObjectHeader_inline comp_def
          simp del: append_assoc append.simps)
    have v: "length (?val f) < 2 ^ 32" if "f \<in> fst ` set (a_hash a)" for f
      using True t that by (auto simp: fitsInline_def list_all_iff InlineMaxValueSize_def split: option.splits dest!: map_of_SomeD)
    have "DecodeHashInline (concat (map enc_field ?kvs)) = Inr ?kvs"
      using g sz v by (intro DecodeHashInline_concat)
        (auto simp: comp_def sortedKeys_def gmap_ok_def list_all_iff sized_field_def)
    then have "a_hash b = ?kvs" using L(7) obj by (simp add: EncInline_def EncSparse_def)
    moreover have "gmap_ok ?kvs" using g by (simp add: gmap_ok_def sortedKeys_def comp_def)
    ultimately have "map_of (a_hash b) = map_of (a_hash a)" "gmap_ok (a_hash b)"
      using map_of_sorted_pairs [of "[]" "a_hash a"] by (simp_all only:)
    then show ?thesis using L S(3) True xp obj by (simp add: hash_synced_def EncInline_def EncSparse_def)
  qed
qed

end

end
