(* ===== verification/Handlers.thy ===== *)
theory Handlers
  imports Keyspace Glob
begin

text \<open>
  What the command handlers share: arity checks, early returns, replies, the cursor page of the
  scan commands (\<open>scanPageReply\<close> of \<open>cmd_generic.go\<close>) and the number formats of \<open>strconv\<close> they use.
  A handler takes the database, the command name and the arguments and returns a Go error or the
  replies it writes, in order.
\<close>

type_synonym 'e handler = "'e Store \<Rightarrow> (goerr, reply list, 'e Store) res"

definition withArity :: "string \<Rightarrow> bytes list \<Rightarrow> int \<Rightarrow> 'e Store \<Rightarrow> (goerr, 'a, 'e Store) res \<Rightarrow> (goerr, 'a, 'e Store) res" where
  "withArity nm args arity s k = (case checkArgLen nm (length args) arity of Some err \<Rightarrow> (Inl err, s) | None \<Rightarrow> k)"

definition bindS :: "goerr + 'a \<Rightarrow> 'e Store \<Rightarrow> ('a \<Rightarrow> (goerr, 'b, 'e Store) res) \<Rightarrow> (goerr, 'b, 'e Store) res" where
  "bindS r s f = (case r of Inl err \<Rightarrow> (Inl err, s) | Inr v \<Rightarrow> f v)"

definition replyArray :: "bytes list \<Rightarrow> reply list" where
  "replyArray out = RArray (int (length out)) # map RBulk out"

definition notifyListChanged :: "'e Store \<Rightarrow> 'e Store" where
  "notifyListChanged s = s\<lparr>s_blockSeq := s_blockSeq s + 1, s_blockChans := []\<rparr>"

definition writeOK :: "reply list" where "writeOK = [RString ''OK'']"

definition btoi :: "bool \<Rightarrow> int" where "btoi b = (if b then 1 else 0)"

definition minInt64 :: int where "minInt64 = - (2 ^ 63)"
definition maxInt64 :: int where "maxInt64 = 2 ^ 63 - 1"

text \<open>The addition of two \<open>int64\<close> values overflows.\<close>

definition add_overflows :: "int \<Rightarrow> int \<Rightarrow> bool" where
  "add_overflows n delta \<longleftrightarrow> (delta > 0 \<and> n > maxInt64 - delta) \<or> (delta < 0 \<and> n < minInt64 - delta)"

lemma add_overflows_iff:
  "is_int64 n \<Longrightarrow> is_int64 delta \<Longrightarrow> add_overflows n delta \<longleftrightarrow> \<not> is_int64 (n + delta)"
  by (auto simp: add_overflows_def is_int64_def maxInt64_def minInt64_def)

section \<open>Decimal numbers\<close>

text \<open>\<open>strconv.FormatUint\<close> and \<open>FormatInt\<close> in base 10.\<close>

fun nat_digits :: "nat \<Rightarrow> bytes" where
  "nat_digits n = (if n < 10 then [48 + of_nat n] else nat_digits (n div 10) @ [48 + of_nat (n mod 10)])"

declare nat_digits.simps [simp del]

definition format_int :: "int \<Rightarrow> bytes" where
  "format_int v = (if v < 0 then 45 # nat_digits (nat (- v)) else nat_digits (nat v))"

text \<open>\<open>strconv.ParseUint\<close> in base 10: digits only, below \<open>2\<^sup>64\<close>.\<close>

definition parse_uint :: "bytes \<Rightarrow> nat option" where
  "parse_uint s =
     (if s = [] \<or> \<not> list_all is_digit s then None
      else if digits_val s < 2 ^ 64 then Some (nat (digits_val s)) else None)"

definition format_uint :: "nat \<Rightarrow> bytes" where "format_uint n = nat_digits n"

section \<open>Cursor pages\<close>

text \<open>The cursor is a \<open>uint64\<close> offset into the elements; \<open>count\<close> is converted to \<open>uint64\<close>, and the end
  of the page is computed modulo \<open>2\<^sup>64\<close>.\<close>

definition pageEnd :: "nat \<Rightarrow> nat \<Rightarrow> int \<Rightarrow> nat" where
  "pageEnd len cursor count =
     (let e = (cursor + nat (count mod 2 ^ 64)) mod 2 ^ 64 in if e > len \<or> e < cursor then len else e)"

definition scanPageReply :: "bytes list \<Rightarrow> nat \<Rightarrow> int \<Rightarrow> reply list" where
  "scanPageReply flat cursor count =
     (if cursor \<ge> length flat then [RArray 2, RBulk (ascii ''0''), RArray 0]
      else
        let e = pageEnd (length flat) cursor count;
            page = take (e - cursor) (drop cursor flat);
            next = (if e \<ge> length flat then 0 else e)
        in [RArray 2, RBulk (format_uint next), RArray (int (length page))] @ map RBulk page)"

text \<open>The options of \<open>SSCAN\<close>, \<open>HSCAN\<close> and \<open>ZSCAN\<close>: a pattern, a count and the flag of the command, if it
  has one (\<open>NOVALUES\<close>, \<open>NOSCORES\<close>).\<close>

record scanOpts =
  sc_match :: "bytes option"
  sc_count :: int
  sc_keysOnly :: bool

definition noScanOpts :: scanOpts where
  "noScanOpts = \<lparr>sc_match = None, sc_count = 10, sc_keysOnly = False\<rparr>"

definition isFlag :: "string option \<Rightarrow> bytes \<Rightarrow> bool" where
  "isFlag flag a = (case flag of None \<Rightarrow> False | Some w \<Rightarrow> map to_upper a = ascii w)"

fun parseScanOpts :: "string option \<Rightarrow> bytes list \<Rightarrow> scanOpts \<Rightarrow> goerr + scanOpts" where
  "parseScanOpts flag [] opt = Inr opt"
| "parseScanOpts flag [a] opt = (if isFlag flag a then Inr (opt\<lparr>sc_keysOnly := True\<rparr>) else Inl ErrSyntax)"
| "parseScanOpts flag (a # b # rest) opt =
     (if map to_upper a = ascii ''MATCH'' then parseScanOpts flag rest (opt\<lparr>sc_match := Some b\<rparr>)
      else if map to_upper a = ascii ''COUNT'' then
        (case parse_int b of
           None \<Rightarrow> Inl ErrNotInteger
         | Some n \<Rightarrow> if n \<le> 0 then Inl ErrSyntax else parseScanOpts flag rest (opt\<lparr>sc_count := n\<rparr>))
      else if isFlag flag a then parseScanOpts flag (b # rest) (opt\<lparr>sc_keysOnly := True\<rparr>)
      else Inl ErrSyntax)"

definition scanMatches :: "scanOpts \<Rightarrow> bytes \<Rightarrow> bool" where
  "scanMatches opt x = (case sc_match opt of None \<Rightarrow> True | Some p \<Rightarrow> match p x)"

end
