(* ===== verification/Lists.thy ===== *)
theory Lists
  imports Aggregate Handlers
begin

text \<open>
  \<open>cmd_list.go\<close>: lists.  A handler takes the database, the command name and the arguments and returns
  a Go error or the replies it writes, in order.  The aggregate locks are atomic steps.
\<close>

section \<open>List operations\<close>

definition allShort :: "bytes list \<Rightarrow> nat \<Rightarrow> bool" where
  "allShort items mx = list_all (\<lambda>s. length s \<le> mx) items"

text \<open>The sequence keys a push writes, with the bounds it leaves.\<close>

fun pushSeqs :: "dbid \<Rightarrow> bytes \<Rightarrow> bytes list \<Rightarrow> bool \<Rightarrow> int \<Rightarrow> int \<Rightarrow> bop list \<times> int \<times> int" where
  "pushSeqs db key [] left head tail = ([], head, tail)"
| "pushSeqs db key (e # es) left head tail =
     (let seq = (if left then wrap64 (head - 1) else wrap64 (tail + 1));
          (ops, h, t) = pushSeqs db key es left (if left then seq else head) (if left then tail else seq)
      in (BSet (EncodeListSeqKey db key seq) e # ops, h, t))"

definition listPushSparse ::
  "'e pebble \<Rightarrow> Env \<Rightarrow> dbid \<Rightarrow> bytes \<Rightarrow> agg \<Rightarrow> bytes list \<Rightarrow> bool \<Rightarrow> 'e Store \<Rightarrow> (goerr, int, 'e Store) res" where
  "listPushSparse P E db key a elems left s =
     (let (ops0, a0) = (if \<not> a_sparse a
            then writeElemsBatch (the_seg (SegmentFor TypeList)) db key (a\<lparr>a_sparse := True\<rparr>) else ([], a));
          (ops, h, t) = pushSeqs db key elems left (a_head a0) (a_tail a0);
          l = a_list a0 @ elems;
          header = EncodeSparseHeader TypeList (length l) h t
      in bindE (applyBatch P (ops0 @ ops @ putValueBatch db key TypeList header (a_expireAt a0) (a_origExpire a0)) s)
           (\<lambda>_ s1. (Inr (int (length l)), upd_dict (Set E db key TypeList (a_expireAt a0) header) s1)))"

definition listPushUnnotified ::
  "'e pebble \<Rightarrow> Env \<Rightarrow> dbid \<Rightarrow> bytes \<Rightarrow> bytes list \<Rightarrow> bool \<Rightarrow> bool \<Rightarrow> 'e Store \<Rightarrow> (goerr, int, 'e Store) res" where
  "listPushUnnotified P E db key elems left onlyIfExists s =
     bindE (loadAgg P E db key TypeList s) (\<lambda>a s1.
       if onlyIfExists \<and> \<not> a_exists a then (Inr 0, s1)
       else if \<not> a_sparse a \<and> length (a_list a) + length elems \<le> InlineMaxEntries \<and> allShort elems InlineMaxValueSize then
         let l = (if left then rev elems @ a_list a else a_list a @ elems)
         in bindE (saveAgg P E db key (a\<lparr>a_list := l\<rparr>) s1) (\<lambda>_ s2. (Inr (int (length l)), s2))
       else listPushSparse P E db key a elems left s1)"

definition listPush ::
  "'e pebble \<Rightarrow> Env \<Rightarrow> dbid \<Rightarrow> bytes \<Rightarrow> bytes list \<Rightarrow> bool \<Rightarrow> bool \<Rightarrow> 'e Store \<Rightarrow> (goerr, int, 'e Store) res" where
  "listPush P E db key elems left onlyIfExists s =
     (case listPushUnnotified P E db key elems left onlyIfExists s of
        (Inl err, s1) \<Rightarrow> (Inl err, s1)
      | (Inr n, s1) \<Rightarrow> (Inr n, if n > 0 then notifyListChanged s1 else s1))"

text \<open>The sequence keys a pop deletes: from the head upwards or from the tail downwards.\<close>

fun popSeqs :: "dbid \<Rightarrow> bytes \<Rightarrow> nat \<Rightarrow> bool \<Rightarrow> int \<Rightarrow> int \<Rightarrow> bop list \<times> int \<times> int" where
  "popSeqs db key 0 left head tail = ([], head, tail)"
| "popSeqs db key (Suc n) left head tail =
     (let (ops, h, t) = popSeqs db key n left (if left then wrap64 (head + 1) else head)
                          (if left then tail else wrap64 (tail - 1))
      in (BDelete (EncodeListSeqKey db key (if left then head else tail)) # ops, h, t))"

definition listPop :: "'e pebble \<Rightarrow> Env \<Rightarrow> dbid \<Rightarrow> bytes \<Rightarrow> nat \<Rightarrow> bool \<Rightarrow> 'e Store \<Rightarrow> (goerr, bytes list, 'e Store) res" where
  "listPop P E db key n0 left s =
     bindE (loadAgg P E db key TypeList s) (\<lambda>a s1.
       if \<not> a_exists a \<or> length (a_list a) = 0 then (Inr [], s1)
       else
         let len = length (a_list a); n = min n0 len;
             out = (if left then take n (a_list a) else drop (len - n) (a_list a));
             l = (if left then drop n (a_list a) else take (len - n) (a_list a))
         in if \<not> a_sparse a then
              (if l = [] then bindE (deleteKeyLocked P E db key s1) (\<lambda>_ s2. (Inr out, s2))
               else bindE (saveAgg P E db key (a\<lparr>a_list := l\<rparr>) s1) (\<lambda>_ s2. (Inr out, s2)))
            else
              let (ops, h, t) = popSeqs db key n left (a_head a) (a_tail a) in
              if l = [] then
                bindE (applyBatch P ops s1) (\<lambda>_ s2. bindE (deleteKeyLocked P E db key s2) (\<lambda>_ s3. (Inr out, s3)))
              else
                let header = EncodeSparseHeader TypeList (length l) h t
                in bindE (applyBatch P (ops @ putValueBatch db key TypeList header (a_expireAt a) (a_origExpire a)) s1)
                     (\<lambda>_ s2. (Inr out, upd_dict (Set E db key TypeList (a_expireAt a) header) s2)))"

definition sliceRange :: "bytes list \<Rightarrow> int \<Rightarrow> int \<Rightarrow> bytes list" where
  "sliceRange items start0 stop0 =
     (let n = int (length items);
          start1 = (if start0 < 0 then start0 + n else start0);
          stop1 = (if stop0 < 0 then stop0 + n else stop0);
          start = (if start1 < 0 then 0 else start1);
          stop = (if stop1 \<ge> n then n - 1 else stop1)
      in if start > stop \<or> start \<ge> n \<or> n = 0 then []
         else take (nat (stop - start + 1)) (drop (nat start) items))"

definition listRange :: "'e pebble \<Rightarrow> Env \<Rightarrow> dbid \<Rightarrow> bytes \<Rightarrow> int \<Rightarrow> int \<Rightarrow> 'e Store \<Rightarrow> (goerr, bytes list, 'e Store) res" where
  "listRange P E db key start stop s =
     bindE (loadAgg P E db key TypeList s) (\<lambda>a s1. (Inr (sliceRange (a_list a) start stop), s1))"

definition engPut :: "'e pebble \<Rightarrow> bytes \<Rightarrow> bytes \<Rightarrow> 'e Store \<Rightarrow> (goerr, unit, 'e Store) res" where
  "engPut P k v s =
     (case eng_Put P (s_eng s) k v of
        (Some err, e') \<Rightarrow> (Inl err, s\<lparr>s_eng := e'\<rparr>)
      | (None, e') \<Rightarrow> (Inr (), s\<lparr>s_eng := e'\<rparr>))"

definition listSet :: "'e pebble \<Rightarrow> Env \<Rightarrow> dbid \<Rightarrow> bytes \<Rightarrow> int \<Rightarrow> bytes \<Rightarrow> 'e Store \<Rightarrow> (goerr, unit, 'e Store) res" where
  "listSet P E db key index val s =
     bindE (loadAgg P E db key TypeList s) (\<lambda>a s1.
       if \<not> a_exists a then (Inl ErrNoSuchKey, s1)
       else
         let idx = (if index < 0 then index + int (length (a_list a)) else index) in
         if idx < 0 \<or> idx \<ge> int (length (a_list a)) then (Inl (ProtoError ''ERR index out of range''), s1)
         else if a_sparse a then engPut P (EncodeListSeqKey db key (a_seqs a ! nat idx)) val s1
         else saveAgg P E db key (a\<lparr>a_list := (a_list a)[nat idx := val]\<rparr>) s1)"

text \<open>The indexes that \<open>LREM\<close> removes: a positive count from the head, a negative one from the tail,
  zero for all.\<close>

definition occurrences :: "bytes \<Rightarrow> bytes list \<Rightarrow> nat list" where
  "occurrences val l = filter (\<lambda>i. l ! i = val) [0..<length l]"

definition remIndexes :: "int \<Rightarrow> bytes \<Rightarrow> bytes list \<Rightarrow> nat list" where
  "remIndexes count val l =
     (if count \<ge> 0 then (if count > 0 then take (nat count) (occurrences val l) else occurrences val l)
      else take (nat (- count)) (rev (occurrences val l)))"

definition keepIndexes :: "nat list \<Rightarrow> 'a list \<Rightarrow> 'a list" where
  "keepIndexes removed l = map (\<lambda>i. l ! i) (filter (\<lambda>i. i \<notin> set removed) [0..<length l])"

definition listRem :: "'e pebble \<Rightarrow> Env \<Rightarrow> dbid \<Rightarrow> bytes \<Rightarrow> int \<Rightarrow> bytes \<Rightarrow> 'e Store \<Rightarrow> (goerr, int, 'e Store) res" where
  "listRem P E db key count val s =
     bindE (loadAgg P E db key TypeList s) (\<lambda>a s1.
       if \<not> a_exists a then (Inr 0, s1)
       else
         let removed = remIndexes count val (a_list a) in
         if removed = [] then (Inr 0, s1)
         else
           bindE (if a_sparse a
                  then applyBatch P (map (\<lambda>i. BDelete (EncodeListSeqKey db key (a_seqs a ! i))) removed) s1
                  else (Inr (), s1)) (\<lambda>_ s2.
             let a' = a\<lparr>a_list := keepIndexes removed (a_list a),
                        a_seqs := (if a_sparse a then keepIndexes removed (a_seqs a) else a_seqs a)\<rparr>
             in if a_list a' = [] then bindE (deleteKey P E db key s2) (\<lambda>_ s3. (Inr (int (length removed)), s3))
                else bindE (saveAgg P E db key a' s2) (\<lambda>_ s3. (Inr (int (length removed)), s3))))"

definition listTrim :: "'e pebble \<Rightarrow> Env \<Rightarrow> dbid \<Rightarrow> bytes \<Rightarrow> int \<Rightarrow> int \<Rightarrow> 'e Store \<Rightarrow> (goerr, unit, 'e Store) res" where
  "listTrim P E db key start stop s =
     bindE (loadAgg P E db key TypeList s) (\<lambda>a s1.
       if \<not> a_exists a then (Inr (), s1)
       else
         let kept = sliceRange (a_list a) start stop in
         if length kept = length (a_list a) then (Inr (), s1)
         else if kept = [] then bindE (deleteKey P E db key s1) (\<lambda>_ s2. (Inr (), s2))
         else if a_sparse a then
           bindE (dropElems P db key TypeList s1) (\<lambda>_ s2.
             saveAgg P E db key (a\<lparr>a_list := kept, a_sparse := False, a_seqs := [], a_head := 0, a_tail := 0\<rparr>) s2)
         else saveAgg P E db key (a\<lparr>a_list := kept\<rparr>) s1)"

section \<open>Handlers\<close>

definition pushCmd :: "'e pebble \<Rightarrow> Env \<Rightarrow> dbid \<Rightarrow> string \<Rightarrow> bytes list \<Rightarrow> bool \<Rightarrow> bool \<Rightarrow> 'e Store \<Rightarrow> (goerr, reply list, 'e Store) res" where
  "pushCmd P E db nm args left x s =
     withArity nm args (-2) s
       (bindE (listPush P E db (args ! 0) (drop 1 args) left x s) (\<lambda>n s1. (Inr [RInt n], s1)))"

definition popCmd :: "'e pebble \<Rightarrow> Env \<Rightarrow> dbid \<Rightarrow> bytes list \<Rightarrow> bool \<Rightarrow> 'e Store \<Rightarrow> (goerr, reply list, 'e Store) res" where
  "popCmd P E db args left s =
     (if length args < 1 \<or> length args > 2 then (Inl (WrongArgs ''lpop''), s)
      else
        bindS (if length args = 2
               then (case toInt64 (args ! 1) of
                       Inl err \<Rightarrow> Inl err
                     | Inr v \<Rightarrow> if v < 0 then Inl (ProtoError ''ERR value is out of range, must be positive'') else Inr (nat v, True))
               else Inr (1, False)) s (\<lambda>(n, hasCount).
          bindE (listPop P E db (args ! 0) n left s) (\<lambda>out s1.
            if \<not> hasCount then (Inr [if out = [] then RNull else RBulk (out ! 0)], s1)
            else if n > 0 \<and> out = [] then (Inr [RArray (-1)], s1)
            else (Inr (replyArray (if left then out else rev out)), s1))))"

definition cmdLRange :: "'e pebble \<Rightarrow> Env \<Rightarrow> dbid \<Rightarrow> string \<Rightarrow> bytes list \<Rightarrow> 'e Store \<Rightarrow> (goerr, reply list, 'e Store) res" where
  "cmdLRange P E db nm args s =
     withArity nm args 3 s
       (bindS (toInt64 (args ! 1)) s (\<lambda>start. bindS (toInt64 (args ! 2)) s (\<lambda>stop.
          bindE (listRange P E db (args ! 0) start stop s) (\<lambda>out s1. (Inr (replyArray out), s1)))))"

definition cmdLLen :: "'e pebble \<Rightarrow> Env \<Rightarrow> dbid \<Rightarrow> string \<Rightarrow> bytes list \<Rightarrow> 'e Store \<Rightarrow> (goerr, reply list, 'e Store) res" where
  "cmdLLen P E db nm args s =
     withArity nm args 1 s
       (bindE (loadAgg P E db (args ! 0) TypeList s) (\<lambda>a s1. (Inr [RInt (int (length (a_list a)))], s1)))"

definition cmdLIndex :: "'e pebble \<Rightarrow> Env \<Rightarrow> dbid \<Rightarrow> string \<Rightarrow> bytes list \<Rightarrow> 'e Store \<Rightarrow> (goerr, reply list, 'e Store) res" where
  "cmdLIndex P E db nm args s =
     withArity nm args 2 s
       (bindS (toInt64 (args ! 1)) s (\<lambda>idx.
          bindE (loadAgg P E db (args ! 0) TypeList s) (\<lambda>a s1.
            if \<not> a_exists a then (Inr [RNull], s1)
            else let i = (if idx < 0 then idx + int (length (a_list a)) else idx)
                 in if i < 0 \<or> i \<ge> int (length (a_list a)) then (Inr [RNull], s1)
                    else (Inr [RBulk (a_list a ! nat i)], s1))))"

definition cmdLSet :: "'e pebble \<Rightarrow> Env \<Rightarrow> dbid \<Rightarrow> string \<Rightarrow> bytes list \<Rightarrow> 'e Store \<Rightarrow> (goerr, reply list, 'e Store) res" where
  "cmdLSet P E db nm args s =
     withArity nm args 3 s
       (bindS (toInt64 (args ! 1)) s (\<lambda>idx.
          bindE (listSet P E db (args ! 0) idx (args ! 2) s) (\<lambda>_ s1. (Inr [RString ''OK''], s1))))"

definition cmdLRem :: "'e pebble \<Rightarrow> Env \<Rightarrow> dbid \<Rightarrow> string \<Rightarrow> bytes list \<Rightarrow> 'e Store \<Rightarrow> (goerr, reply list, 'e Store) res" where
  "cmdLRem P E db nm args s =
     withArity nm args 3 s
       (bindS (toInt64 (args ! 1)) s (\<lambda>count.
          bindE (listRem P E db (args ! 0) count (args ! 2) s) (\<lambda>n s1. (Inr [RInt n], s1))))"

definition cmdLTrim :: "'e pebble \<Rightarrow> Env \<Rightarrow> dbid \<Rightarrow> string \<Rightarrow> bytes list \<Rightarrow> 'e Store \<Rightarrow> (goerr, reply list, 'e Store) res" where
  "cmdLTrim P E db nm args s =
     withArity nm args 3 s
       (bindS (toInt64 (args ! 1)) s (\<lambda>start. bindS (toInt64 (args ! 2)) s (\<lambda>stop.
          bindE (listTrim P E db (args ! 0) start stop s) (\<lambda>_ s1. (Inr [RString ''OK''], s1)))))"

definition checkListDest :: "'e pebble \<Rightarrow> Env \<Rightarrow> dbid \<Rightarrow> bytes \<Rightarrow> 'e Store \<Rightarrow> (goerr, unit, 'e Store) res" where
  "checkListDest P E db dst s =
     bindE (getTyped P E db dst s) (\<lambda>r s1.
       case r of None \<Rightarrow> (Inr (), s1)
       | Some (typ, x, p) \<Rightarrow> if typ \<noteq> TypeList then (Inl ErrWrongType, s1) else (Inr (), s1))"

definition cmdRPopLPush :: "'e pebble \<Rightarrow> Env \<Rightarrow> dbid \<Rightarrow> string \<Rightarrow> bytes list \<Rightarrow> 'e Store \<Rightarrow> (goerr, reply list, 'e Store) res" where
  "cmdRPopLPush P E db nm args s =
     withArity nm args 2 s
       (bindE (checkListDest P E db (args ! 1) s) (\<lambda>_ s1.
        bindE (listPop P E db (args ! 0) 1 False s1) (\<lambda>out s2.
          if out = [] then (Inr [RNull], s2)
          else bindE (listPush P E db (args ! 1) [out ! 0] True False s2) (\<lambda>_ s3. (Inr [RBulk (out ! 0)], s3)))))"

fun findPivot :: "bytes \<Rightarrow> bytes list \<Rightarrow> nat \<Rightarrow> nat option" where
  "findPivot pivot [] i = None"
| "findPivot pivot (e # es) i = (if e = pivot then Some i else findPivot pivot es (Suc i))"

definition cmdLInsert :: "'e pebble \<Rightarrow> Env \<Rightarrow> dbid \<Rightarrow> string \<Rightarrow> bytes list \<Rightarrow> 'e Store \<Rightarrow> (goerr, reply list, 'e Store) res" where
  "cmdLInsert P E db nm args s =
     withArity nm args 4 s
       (bindS (if map to_upper (args ! 1) = ascii ''BEFORE'' then Inr True
               else if map to_upper (args ! 1) = ascii ''AFTER'' then Inr False else Inl ErrSyntax) s (\<lambda>before.
          bindE (loadAgg P E db (args ! 0) TypeList s) (\<lambda>a s1.
            if \<not> a_exists a then (Inr [RInt 0], s1)
            else case findPivot (args ! 2) (a_list a) 0 of
                   None \<Rightarrow> (Inr [RInt (-1)], s1)
                 | Some idx \<Rightarrow>
                     let pos = (if before then idx else idx + 1);
                         l = take pos (a_list a) @ [args ! 3] @ drop pos (a_list a)
                     in bindE (saveAgg P E db (args ! 0) (a\<lparr>a_list := l\<rparr>) s1)
                          (\<lambda>_ s2. (Inr [RInt (int (length l))], s2)))))"

end
