(* ===== verification/Strings.thy ===== *)
theory Strings
  imports Handlers
begin

text \<open>
  \<open>cmd_string.go\<close>: the string commands that read, write and edit values.  The counters
  (\<open>INCR\<close> and its relatives) go through the merge operator and are in the theory of counters.
\<close>

section \<open>Reading and writing whole values\<close>

definition cmdGet :: "'e pebble \<Rightarrow> Env \<Rightarrow> dbid \<Rightarrow> string \<Rightarrow> bytes list \<Rightarrow> 'e handler" where
  "cmdGet P E db nm args s =
     withArity nm args 1 s
       (bindE (getString P E db (args ! 0) s) (\<lambda>v s1. (Inr [writeBulk v], s1)))"

definition cmdSet :: "'e pebble \<Rightarrow> Env \<Rightarrow> (nat \<Rightarrow> Draws) \<Rightarrow> int \<Rightarrow> dbid \<Rightarrow> string \<Rightarrow> bytes list \<Rightarrow> 'e handler" where
  "cmdSet P E drs maxBulk db nm args s =
     withArity nm args (-2) s
       (case checkBulkLen maxBulk [args ! 0, args ! 1] of
          Some err \<Rightarrow> (Inl err, s)
        | None \<Rightarrow>
            bindS (parseSetOption (drop 2 args)) s (\<lambda>opt.
              bindE (setString P E drs db (args ! 0) (args ! 1) opt s) (\<lambda>(old, existed, written) s1.
                if so_GET opt then (Inr [writeBulk old], s1)
                else if \<not> written then (Inr [RNull], s1)
                else (Inr writeOK, s1))))"

definition setCond ::
  "'e pebble \<Rightarrow> Env \<Rightarrow> (nat \<Rightarrow> Draws) \<Rightarrow> dbid \<Rightarrow> string \<Rightarrow> bytes list \<Rightarrow> SetOption \<Rightarrow> 'e handler" where
  "setCond P E drs db nm args opt s =
     withArity nm args 2 s
       (bindE (setString P E drs db (args ! 0) (args ! 1) opt s)
          (\<lambda>(old, existed, written) s1. (Inr [RInt (btoi written)], s1)))"

definition cmdSetNX :: "'e pebble \<Rightarrow> Env \<Rightarrow> (nat \<Rightarrow> Draws) \<Rightarrow> dbid \<Rightarrow> string \<Rightarrow> bytes list \<Rightarrow> 'e handler" where
  "cmdSetNX P E drs db nm args s = setCond P E drs db nm args (noSetOption\<lparr>so_NX := True\<rparr>) s"

definition cmdSetXX :: "'e pebble \<Rightarrow> Env \<Rightarrow> (nat \<Rightarrow> Draws) \<Rightarrow> dbid \<Rightarrow> string \<Rightarrow> bytes list \<Rightarrow> 'e handler" where
  "cmdSetXX P E drs db nm args s = setCond P E drs db nm args (noSetOption\<lparr>so_XX := True\<rparr>) s"

definition cmdSetEx :: "'e pebble \<Rightarrow> Env \<Rightarrow> (nat \<Rightarrow> Draws) \<Rightarrow> dbid \<Rightarrow> string \<Rightarrow> bytes list \<Rightarrow> 'e handler" where
  "cmdSetEx P E drs db nm args s =
     withArity nm args 3 s
       (bindS (toInt64 (args ! 1)) s (\<lambda>secs.
          if secs \<le> 0 then (Inl ErrInvalidExpire, s)
          else bindE (setString P E drs db (args ! 0) (args ! 2) (noSetOption\<lparr>so_EX := wrap64 (secs * Second)\<rparr>) s)
                 (\<lambda>_ s1. (Inr writeOK, s1))))"

definition cmdPSetEx :: "'e pebble \<Rightarrow> Env \<Rightarrow> (nat \<Rightarrow> Draws) \<Rightarrow> dbid \<Rightarrow> string \<Rightarrow> bytes list \<Rightarrow> 'e handler" where
  "cmdPSetEx P E drs db nm args s =
     withArity nm args 3 s
       (bindS (toInt64 (args ! 1)) s (\<lambda>ms.
          if ms \<le> 0 then (Inl ErrInvalidExpire, s)
          else bindE (setString P E drs db (args ! 0) (args ! 2) (noSetOption\<lparr>so_PX := wrap64 (ms * Millisecond)\<rparr>) s)
                 (\<lambda>_ s1. (Inr writeOK, s1))))"

definition cmdGetSet :: "'e pebble \<Rightarrow> Env \<Rightarrow> (nat \<Rightarrow> Draws) \<Rightarrow> dbid \<Rightarrow> string \<Rightarrow> bytes list \<Rightarrow> 'e handler" where
  "cmdGetSet P E drs db nm args s =
     withArity nm args 2 s
       (bindE (setString P E drs db (args ! 0) (args ! 1) (noSetOption\<lparr>so_GET := True\<rparr>) s)
          (\<lambda>(old, existed, written) s1. (Inr [writeBulk old], s1)))"

definition cmdGetDel :: "'e pebble \<Rightarrow> Env \<Rightarrow> dbid \<Rightarrow> string \<Rightarrow> bytes list \<Rightarrow> 'e handler" where
  "cmdGetDel P E db nm args s =
     withArity nm args 1 s
       (bindE (getString P E db (args ! 0) s) (\<lambda>v s1.
          if v = None then (Inr [RNull], s1)
          else bindE (deleteKey P E db (args ! 0) s1) (\<lambda>_ s2. (Inr [writeBulk v], s2))))"

section \<open>Many keys\<close>

text \<open>\<open>parsePairs\<close> of \<open>cmd_hash.go\<close> and the pair loop of \<open>mSetPairs\<close> and \<open>commandKeys\<close>.\<close>

fun parsePairs :: "bytes list \<Rightarrow> (bytes \<times> bytes) list" where
  "parsePairs (a # b # rest) = (a, b) # parsePairs rest"
| "parsePairs _ = []"

fun mSetBatch :: "'e pebble \<Rightarrow> Env \<Rightarrow> dbid \<Rightarrow> (bytes \<times> bytes) list \<Rightarrow> 'e Store \<Rightarrow> bop list \<times> 'e Store" where
  "mSetBatch P E db [] s = ([], s)"
| "mSetBatch P E db ((key, val) # pairs) s =
     (let (prevExpire, s1) = oldExpiry P E db key s;
          (ops, s2) = mSetBatch P E db pairs s1
      in ([BSet (EncodeDataKey db key) (EncodeValue TypeString 0 val)]
          @ (if prevExpire \<noteq> 0 then [BDelete (EncodeExpireKey prevExpire db key)] else []) @ ops, s2))"

definition mSetPairs ::
  "'e pebble \<Rightarrow> Env \<Rightarrow> (nat \<Rightarrow> Draws) \<Rightarrow> dbid \<Rightarrow> bytes list \<Rightarrow> 'e Store \<Rightarrow> (goerr, unit, 'e Store) res" where
  "mSetPairs P E drs db args s =
     (let (ops, s1) = mSetBatch P E db (parsePairs args) s
      in bindE (applyBatch P ops s1) (\<lambda>_ s2.
           (Inr (), MaybeEvict P E drs
              (upd_dict (\<lambda>d. foldl (\<lambda>d (key, val). Set E db key TypeString 0 val d) d (parsePairs args)) s2))))"

definition cmdMSet :: "'e pebble \<Rightarrow> Env \<Rightarrow> (nat \<Rightarrow> Draws) \<Rightarrow> dbid \<Rightarrow> string \<Rightarrow> bytes list \<Rightarrow> 'e handler" where
  "cmdMSet P E drs db nm args s =
     withArity nm args (-2) s
       (if length args mod 2 \<noteq> 0 then (Inl (WrongArgs ''mset''), s)
        else bindE (mSetPairs P E drs db args s) (\<lambda>_ s1. (Inr writeOK, s1)))"

fun anyExists :: "'e pebble \<Rightarrow> Env \<Rightarrow> dbid \<Rightarrow> bytes list \<Rightarrow> 'e Store \<Rightarrow> (goerr, bool, 'e Store) res" where
  "anyExists P E db [] s = (Inr False, s)"
| "anyExists P E db (k # ks) s =
     bindE (getTyped P E db k s) (\<lambda>r s1. if r \<noteq> None then (Inr True, s1) else anyExists P E db ks s1)"

definition cmdMSetNX :: "'e pebble \<Rightarrow> Env \<Rightarrow> (nat \<Rightarrow> Draws) \<Rightarrow> dbid \<Rightarrow> string \<Rightarrow> bytes list \<Rightarrow> 'e handler" where
  "cmdMSetNX P E drs db nm args s =
     withArity nm args (-2) s
       (if length args mod 2 \<noteq> 0 then (Inl (WrongArgs ''msetnx''), s)
        else bindE (anyExists P E db (map fst (parsePairs args)) s) (\<lambda>ex s1.
               if ex then (Inr [RInt 0], s1)
               else bindE (mSetPairs P E drs db args s1) (\<lambda>_ s2. (Inr [RInt 1], s2))))"

text \<open>\<open>MGET\<close> writes the array header first, so an error after it leaves replies on the wire: the
  result is what was written and the error, if any.\<close>

fun mGetLoop :: "'e pebble \<Rightarrow> Env \<Rightarrow> dbid \<Rightarrow> bytes list \<Rightarrow> 'e Store \<Rightarrow> (reply list \<times> goerr option) \<times> 'e Store" where
  "mGetLoop P E db [] s = (([], None), s)"
| "mGetLoop P E db (k # ks) s =
     (case getString P E db k s of
        (Inl err, s1) \<Rightarrow>
          if err = ErrWrongType
          then (case mGetLoop P E db ks s1 of ((out, e), s2) \<Rightarrow> ((RNull # out, e), s2))
          else (([], Some err), s1)
      | (Inr v, s1) \<Rightarrow> (case mGetLoop P E db ks s1 of ((out, e), s2) \<Rightarrow> ((writeBulk v # out, e), s2)))"

definition cmdMGet :: "'e pebble \<Rightarrow> Env \<Rightarrow> dbid \<Rightarrow> string \<Rightarrow> bytes list \<Rightarrow> 'e Store \<Rightarrow> (reply list \<times> goerr option) \<times> 'e Store" where
  "cmdMGet P E db nm args s =
     (case checkArgLen nm (length args) (-1) of
        Some err \<Rightarrow> (([], Some err), s)
      | None \<Rightarrow> (case mGetLoop P E db args s of
                   ((out, e), s1) \<Rightarrow> ((RArray (int (length args)) # out, e), s1)))"

section \<open>Editing values\<close>

definition cmdAppend :: "'e pebble \<Rightarrow> Env \<Rightarrow> (nat \<Rightarrow> Draws) \<Rightarrow> dbid \<Rightarrow> string \<Rightarrow> bytes list \<Rightarrow> 'e handler" where
  "cmdAppend P E drs db nm args s =
     withArity nm args 2 s
       (bindE (getTyped P E db (args ! 0) s) (\<lambda>r s1.
          case r of
            Some (typ, x, cur) \<Rightarrow>
              if typ \<noteq> TypeString then (Inl ErrWrongType, s1)
              else bindE (setStringSimple P E drs db (args ! 0) (cur @ args ! 1) x s1)
                     (\<lambda>_ s2. (Inr [RInt (int (length (cur @ args ! 1)))], s2))
          | None \<Rightarrow>
              bindE (setStringSimple P E drs db (args ! 0) (args ! 1) 0 s1)
                (\<lambda>_ s2. (Inr [RInt (int (length (args ! 1)))], s2))))"

definition cmdStrLen :: "'e pebble \<Rightarrow> Env \<Rightarrow> dbid \<Rightarrow> string \<Rightarrow> bytes list \<Rightarrow> 'e handler" where
  "cmdStrLen P E db nm args s =
     withArity nm args 1 s
       (bindE (getString P E db (args ! 0) s) (\<lambda>v s1.
          (Inr [RInt (case v of None \<Rightarrow> 0 | Some b \<Rightarrow> int (length b))], s1)))"

definition resolveRange :: "int \<Rightarrow> int \<Rightarrow> int \<Rightarrow> int \<times> int" where
  "resolveRange start0 end0 n =
     (let start1 = (if start0 < 0 then start0 + n else start0);
          end1 = (if end0 < 0 then end0 + n else end0);
          start2 = (if start1 < 0 then 0 else start1);
          end2 = (if end1 < 0 then 0 else end1);
          end3 = (if end2 \<ge> n then n - 1 else end2)
      in (start2, end3))"

text \<open>The bytes \<open>GETRANGE\<close> replies with for a value.\<close>

definition rangeOf :: "bytes \<Rightarrow> int \<Rightarrow> int \<Rightarrow> bytes" where
  "rangeOf val start0 end0 =
     (let n = int (length val); (start, fin) = resolveRange start0 end0 n
      in if start > fin \<or> start \<ge> n then [] else take (nat (fin + 1 - start)) (drop (nat start) val))"

definition cmdGetRange :: "'e pebble \<Rightarrow> Env \<Rightarrow> dbid \<Rightarrow> string \<Rightarrow> bytes list \<Rightarrow> 'e handler" where
  "cmdGetRange P E db nm args s =
     withArity nm args 3 s
       (bindS (toInt64 (args ! 1)) s (\<lambda>start. bindS (toInt64 (args ! 2)) s (\<lambda>fin.
          if start < 0 \<and> fin < 0 \<and> start > fin then (Inr [RBulk []], s)
          else bindE (getString P E db (args ! 0) s) (\<lambda>v s1.
                 (Inr [RBulk (case v of None \<Rightarrow> [] | Some val \<Rightarrow> rangeOf val start fin)], s1)))))"

definition maxValueSize :: int where "maxValueSize = 512 * 2 ^ 20"

text \<open>The new value of \<open>SETRANGE\<close>.  The sum of the offset and the length wraps; a slice beyond the
  buffer panics.\<close>

definition rangeNeed :: "bytes \<Rightarrow> int \<Rightarrow> bytes \<Rightarrow> int" where
  "rangeNeed cur off value =
     (let need = wrap64 (off + int (length value)) in if need < int (length cur) then int (length cur) else need)"

definition overwrite :: "bytes \<Rightarrow> int \<Rightarrow> bytes \<Rightarrow> goerr + bytes" where
  "overwrite cur off value =
     (let need = rangeNeed cur off value; nxt = cur @ replicate (nat need - length cur) 0
      in if need > maxValueSize then Inl (ProtoError ''ERR string exceeds maximum allowed size'')
         else if off > need then Inl GoPanic
         else Inr (take (nat off) nxt @ take (nat need - nat off) value
                   @ drop (nat off + length value) nxt))"

definition cmdSetRange :: "'e pebble \<Rightarrow> Env \<Rightarrow> (nat \<Rightarrow> Draws) \<Rightarrow> dbid \<Rightarrow> string \<Rightarrow> bytes list \<Rightarrow> 'e handler" where
  "cmdSetRange P E drs db nm args s =
     withArity nm args 3 s
       (bindS (toInt64 (args ! 1)) s (\<lambda>off.
          if off < 0 then (Inl (ProtoError ''ERR offset is out of range''), s)
          else
            let value = args ! 2 in
            bindE (getTyped P E db (args ! 0) s) (\<lambda>r s1.
              case r of
                Some (typ, x, cur) \<Rightarrow>
                  if typ \<noteq> TypeString then (Inl ErrWrongType, s1)
                  else bindS (overwrite cur off value) s1 (\<lambda>nxt.
                         bindE (setStringSimple P E drs db (args ! 0) nxt x s1) (\<lambda>_ s2.
                           (Inr [RInt (rangeNeed cur off value)], s2)))
              | None \<Rightarrow>
                  if length value = 0 then (Inr [RInt 0], s1)
                  else bindS (overwrite [] off value) s1 (\<lambda>nxt.
                         bindE (setStringSimple P E drs db (args ! 0) nxt 0 s1) (\<lambda>_ s2.
                           (Inr [RInt (rangeNeed [] off value)], s2))))))"

section \<open>GETEX and DELEX\<close>

record getExOpt =
  gx_ex :: int
  gx_px :: int
  gx_exat :: int
  gx_pxat :: int
  gx_persist :: bool
  gx_kinds :: nat

definition noGetEx :: getExOpt where
  "noGetEx = \<lparr>gx_ex = 0, gx_px = 0, gx_exat = 0, gx_pxat = 0, gx_persist = False, gx_kinds = 0\<rparr>"

definition positiveNext :: "bytes list \<Rightarrow> goerr + (int \<times> bytes list)" where
  "positiveNext rest =
     (case nextInt rest of Inl err \<Rightarrow> Inl err
      | Inr (v, rest') \<Rightarrow> if v \<le> 0 then Inl ErrInvalidExpire else Inr (v, rest'))"

lemma positiveNext_shorter: "positiveNext rest = Inr (v, rest') \<Longrightarrow> length rest' < length rest"
  by (auto simp: positiveNext_def split: sum.splits if_splits dest: nextInt_shorter)

function parseGetEx :: "bytes list \<Rightarrow> getExOpt \<Rightarrow> goerr + getExOpt" where
  "parseGetEx [] opt = Inr opt"
| "parseGetEx (arg # rest) opt =
     (if fold_equal arg ''EX'' then
        (case positiveNext rest of Inl err \<Rightarrow> Inl err
         | Inr (v, rest') \<Rightarrow> parseGetEx rest' (opt\<lparr>gx_ex := v, gx_kinds := gx_kinds opt + 1\<rparr>))
      else if fold_equal arg ''PX'' then
        (case positiveNext rest of Inl err \<Rightarrow> Inl err
         | Inr (v, rest') \<Rightarrow> parseGetEx rest' (opt\<lparr>gx_px := v, gx_kinds := gx_kinds opt + 1\<rparr>))
      else if fold_equal arg ''EXAT'' then
        (case positiveNext rest of Inl err \<Rightarrow> Inl err
         | Inr (v, rest') \<Rightarrow> parseGetEx rest' (opt\<lparr>gx_exat := v, gx_kinds := gx_kinds opt + 1\<rparr>))
      else if fold_equal arg ''PXAT'' then
        (case positiveNext rest of Inl err \<Rightarrow> Inl err
         | Inr (v, rest') \<Rightarrow> parseGetEx rest' (opt\<lparr>gx_pxat := v, gx_kinds := gx_kinds opt + 1\<rparr>))
      else if fold_equal arg ''PERSIST'' then parseGetEx rest (opt\<lparr>gx_persist := True, gx_kinds := gx_kinds opt + 1\<rparr>)
      else Inl ErrSyntax)"
  by pat_completeness auto
termination
  by (relation "measure (\<lambda>(args, opt). length args)") (auto dest: positiveNext_shorter)

definition getExDeadline :: "int \<Rightarrow> getExOpt \<Rightarrow> int" where
  "getExDeadline now opt =
     (if gx_persist opt then 0
      else if gx_ex opt > 0 then wrap64 (now + wrap64 (gx_ex opt * 1000))
      else if gx_px opt > 0 then wrap64 (now + gx_px opt)
      else if gx_exat opt > 0 then wrap64 (gx_exat opt * 1000)
      else if gx_pxat opt > 0 then gx_pxat opt
      else 0)"

definition cmdGetEx :: "'e pebble \<Rightarrow> Env \<Rightarrow> (nat \<Rightarrow> Draws) \<Rightarrow> dbid \<Rightarrow> string \<Rightarrow> bytes list \<Rightarrow> 'e handler" where
  "cmdGetEx P E drs db nm args s =
     withArity nm args (-1) s
       (bindS (parseGetEx (drop 1 args) noGetEx) s (\<lambda>opt.
          if gx_kinds opt > 1 then (Inl ErrSyntax, s)
          else bindE (getTyped P E db (args ! 0) s) (\<lambda>r s1.
                 case r of
                   None \<Rightarrow> (Inr [RNull], s1)
                 | Some (typ, x, cur) \<Rightarrow>
                     if typ \<noteq> TypeString then (Inl ErrWrongType, s1)
                     else if gx_kinds opt > 0 then
                       bindE (setStringSimple P E drs db (args ! 0) cur (getExDeadline (env_now E) opt) s1)
                         (\<lambda>_ s2. (Inr [RBulk cur], s2))
                     else (Inr [RBulk cur], s1))))"

datatype delCond = DelAlways | DelIfEq bytes | DelIfNe bytes

definition parseDelex :: "bytes list \<Rightarrow> goerr + delCond" where
  "parseDelex rest =
     (case rest of
        [] \<Rightarrow> Inr DelAlways
      | a # vs \<Rightarrow>
          if map to_upper a = ascii ''IFEQ'' \<or> map to_upper a = ascii ''IFNE'' then
            (case vs of
               [v] \<Rightarrow> Inr (if map to_upper a = ascii ''IFEQ'' then DelIfEq v else DelIfNe v)
             | _ \<Rightarrow> Inl (WrongArgs ''delex''))
          else Inl ErrSyntax)"

fun delMatches :: "delCond \<Rightarrow> bytes \<Rightarrow> bool" where
  "delMatches DelAlways payload = True"
| "delMatches (DelIfEq v) payload = (payload = v)"
| "delMatches (DelIfNe v) payload = (payload \<noteq> v)"

definition cmdDelex :: "'e pebble \<Rightarrow> Env \<Rightarrow> dbid \<Rightarrow> bytes list \<Rightarrow> 'e handler" where
  "cmdDelex P E db args s =
     (if length args < 1 then (Inl (WrongArgs ''delex''), s)
      else bindS (parseDelex (drop 1 args)) s (\<lambda>cond.
        bindE (getTyped P E db (args ! 0) s) (\<lambda>r s1.
          case r of
            None \<Rightarrow> (Inr [RInt 0], s1)
          | Some (typ, x, payload) \<Rightarrow>
              if cond \<noteq> DelAlways \<and> typ \<noteq> TypeString then
                (Inl (ProtoError ''ERR Cannot use IFEQ/IFNE on a key that is not of string type if conditions are used''), s1)
              else if delMatches cond payload then
                bindE (deleteKey P E db (args ! 0) s1) (\<lambda>_ s2. (Inr [RInt 1], s2))
              else (Inr [RInt 0], s1))))"

end
