(* ===== verification/Hashes.thy ===== *)
theory Hashes
  imports Aggregate Strings
begin

text \<open>
  \<open>cmd_hash.go\<close>: hashes.  A large hash is updated field by field without loading it.  Random draws
  are parameters: \<open>rnd k\<close> is the k-th draw of \<open>rand.IntN\<close>, reduced to its range, and \<open>perm n\<close> is
  \<open>rand.Perm(n)\<close>.
\<close>

section \<open>Operations\<close>

fun putPairs :: "(bytes \<times> bytes) list \<Rightarrow> bool \<Rightarrow> (bytes \<times> bytes) list \<Rightarrow> int \<Rightarrow> (bytes \<times> bytes) list \<times> int" where
  "putPairs [] nx h added = (h, added)"
| "putPairs ((f, v) # pairs) nx h added =
     (if map_of h f \<noteq> None then (if nx then putPairs pairs nx h added else putPairs pairs nx (AList.update f v h) added)
      else putPairs pairs nx (AList.update f v h) (added + 1))"

text \<open>The point writes into a large hash: every field is looked up on disk, not in the batch.\<close>

fun sparsePairs ::
  "'e pebble \<Rightarrow> 'e \<Rightarrow> dbid \<Rightarrow> bytes \<Rightarrow> (bytes \<times> bytes) list \<Rightarrow> bool \<Rightarrow> goerr + (bop list \<times> int)" where
  "sparsePairs P e db key [] nx = Inr ([], 0)"
| "sparsePairs P e db key ((f, v) # pairs) nx =
     (let ek = EncodeElemKey SegHash db key f;
          more = (\<lambda>ops n. case sparsePairs P e db key pairs nx of
                            Inl err \<Rightarrow> Inl err | Inr (ops', n') \<Rightarrow> Inr (ops @ ops', n + n'))
      in case eng_Get P e ek of
           Inr old \<Rightarrow> if nx then more [] 0 else more [BSet ek v] 0
         | Inl err \<Rightarrow> if err = ErrNotFound then more [BSet ek v] 1 else Inl err)"

definition hashSetSparse ::
  "'e pebble \<Rightarrow> Env \<Rightarrow> dbid \<Rightarrow> bytes \<Rightarrow> (bytes \<times> bytes) list \<Rightarrow> bool \<Rightarrow> int \<Rightarrow> int \<Rightarrow> 'e Store \<Rightarrow> (goerr, int, 'e Store) res" where
  "hashSetSparse P E db key pairs nx curCount expireAt s =
     (case sparsePairs P (s_eng s) db key pairs nx of
        Inl err \<Rightarrow> (Inl err, s)
      | Inr (ops, added) \<Rightarrow>
          if ops = [] then (Inr 0, s)
          else
            let header = EncodeSparseHeader TypeHash (nat (curCount + added)) 0 0
            in bindE (applyBatch P (ops @ putValueBatch db key TypeHash header expireAt expireAt) s)
                 (\<lambda>_ s1. (Inr added, upd_dict (Set E db key TypeHash expireAt header) s1)))"

text \<open>The rest of \<open>hashSet\<close>, for a hash that is absent or small.\<close>

definition hashSetLoaded ::
  "'e pebble \<Rightarrow> Env \<Rightarrow> dbid \<Rightarrow> bytes \<Rightarrow> (bytes \<times> bytes) list \<Rightarrow> bool \<Rightarrow> 'e Store \<Rightarrow> (goerr, int, 'e Store) res" where
  "hashSetLoaded P E db key pairs nx s =
     bindE (loadAgg P E db key TypeHash s) (\<lambda>a s1.
       let (h, added) = putPairs pairs nx (a_hash a) 0
       in bindE (saveAgg P E db key (a\<lparr>a_hash := h\<rparr>) s1) (\<lambda>_ s2. (Inr added, s2)))"

definition hashSet ::
  "'e pebble \<Rightarrow> Env \<Rightarrow> dbid \<Rightarrow> bytes \<Rightarrow> (bytes \<times> bytes) list \<Rightarrow> bool \<Rightarrow> 'e Store \<Rightarrow> (goerr, int, 'e Store) res" where
  "hashSet P E db key pairs nx s =
     bindE (aggEncoding P E db key TypeHash s) (\<lambda>enc s1.
       case enc of
         Some (obj, expireAt) \<Rightarrow>
           if o_Enc obj = EncSparse then hashSetSparse P E db key pairs nx (o_Count obj) expireAt s1
           else hashSetLoaded P E db key pairs nx s1
       | None \<Rightarrow> hashSetLoaded P E db key pairs nx s1)"

definition hashGet :: "'e pebble \<Rightarrow> Env \<Rightarrow> dbid \<Rightarrow> bytes \<Rightarrow> bytes \<Rightarrow> 'e Store \<Rightarrow> (goerr, bytes option, 'e Store) res" where
  "hashGet P E db key field s =
     bindE (loadAgg P E db key TypeHash s) (\<lambda>a s1.
       if \<not> a_exists a then (Inr None, s1) else (Inr (map_of (a_hash a) field), s1))"

fun delFields :: "bytes list \<Rightarrow> (bytes \<times> 'v) list \<Rightarrow> int \<Rightarrow> (bytes \<times> 'v) list \<times> int" where
  "delFields [] h n = (h, n)"
| "delFields (f # fs) h n =
     (if map_of h f \<noteq> None then delFields fs (AList.delete f h) (n + 1) else delFields fs h n)"

definition hashDel :: "'e pebble \<Rightarrow> Env \<Rightarrow> dbid \<Rightarrow> bytes \<Rightarrow> bytes list \<Rightarrow> 'e Store \<Rightarrow> (goerr, int, 'e Store) res" where
  "hashDel P E db key flds s =
     bindE (loadAgg P E db key TypeHash s) (\<lambda>a s1.
       if \<not> a_exists a then (Inr 0, s1)
       else
         let (h, n) = delFields flds (a_hash a) 0
         in if h = [] then bindE (deleteKey P E db key s1) (\<lambda>_ s2. (Inr n, s2))
            else bindE (saveAgg P E db key (a\<lparr>a_hash := h\<rparr>) s1) (\<lambda>_ s2. (Inr n, s2)))"

definition hashIncrBy :: "'e pebble \<Rightarrow> Env \<Rightarrow> dbid \<Rightarrow> bytes \<Rightarrow> bytes \<Rightarrow> int \<Rightarrow> 'e Store \<Rightarrow> (goerr, int, 'e Store) res" where
  "hashIncrBy P E db key field delta s =
     bindE (loadAgg P E db key TypeHash s) (\<lambda>a s1.
       bindS (case map_of (a_hash a) field of
                Some v \<Rightarrow> if length v > 0 then toInt64 v else Inr 0
              | None \<Rightarrow> Inr 0) s1 (\<lambda>cur.
         if add_overflows cur delta then (Inl ErrOverflow, s1)
         else
           let nxt = wrap64 (cur + delta)
           in bindE (saveAgg P E db key (a\<lparr>a_hash := AList.update field (format_int nxt) (a_hash a)\<rparr>) s1)
                (\<lambda>_ s2. (Inr nxt, s2))))"

section \<open>Handlers\<close>

definition cmdHSet :: "'e pebble \<Rightarrow> Env \<Rightarrow> dbid \<Rightarrow> string \<Rightarrow> bytes list \<Rightarrow> 'e handler" where
  "cmdHSet P E db nm args s =
     withArity nm args (-3) s
       (if (length args - 1) mod 2 \<noteq> 0 then (Inl (WrongArgs ''hset''), s)
        else bindE (hashSet P E db (args ! 0) (parsePairs (drop 1 args)) False s) (\<lambda>n s1. (Inr [RInt n], s1)))"

definition cmdHSetNX :: "'e pebble \<Rightarrow> Env \<Rightarrow> dbid \<Rightarrow> string \<Rightarrow> bytes list \<Rightarrow> 'e handler" where
  "cmdHSetNX P E db nm args s =
     withArity nm args 3 s
       (bindE (hashSet P E db (args ! 0) [(args ! 1, args ! 2)] True s) (\<lambda>n s1. (Inr [RInt n], s1)))"

text \<open>A loaded value is a copy made by \<open>append([]byte(nil), ...)\<close>, which is nil when it is empty;
  \<open>writeBulk\<close> replies null for a nil slice.\<close>

definition copied :: "bytes \<Rightarrow> bytes option" where
  "copied v = (if v = [] then None else Some v)"

definition cmdHGet :: "'e pebble \<Rightarrow> Env \<Rightarrow> dbid \<Rightarrow> string \<Rightarrow> bytes list \<Rightarrow> 'e handler" where
  "cmdHGet P E db nm args s =
     withArity nm args 2 s
       (bindE (hashGet P E db (args ! 0) (args ! 1) s) (\<lambda>v s1.
          (Inr [case v of None \<Rightarrow> RNull | Some b \<Rightarrow> writeBulk (copied b)], s1)))"

definition cmdHDel :: "'e pebble \<Rightarrow> Env \<Rightarrow> dbid \<Rightarrow> string \<Rightarrow> bytes list \<Rightarrow> 'e handler" where
  "cmdHDel P E db nm args s =
     withArity nm args (-2) s
       (bindE (hashDel P E db (args ! 0) (drop 1 args) s) (\<lambda>n s1. (Inr [RInt n], s1)))"

definition cmdHExists :: "'e pebble \<Rightarrow> Env \<Rightarrow> dbid \<Rightarrow> string \<Rightarrow> bytes list \<Rightarrow> 'e handler" where
  "cmdHExists P E db nm args s =
     withArity nm args 2 s
       (bindE (hashGet P E db (args ! 0) (args ! 1) s) (\<lambda>v s1. (Inr [RInt (btoi (v \<noteq> None))], s1)))"

definition cmdHLen :: "'e pebble \<Rightarrow> Env \<Rightarrow> dbid \<Rightarrow> string \<Rightarrow> bytes list \<Rightarrow> 'e handler" where
  "cmdHLen P E db nm args s =
     withArity nm args 1 s
       (bindE (loadAgg P E db (args ! 0) TypeHash s) (\<lambda>a s1. (Inr [RInt (int (length (a_hash a)))], s1)))"

definition field_value :: "agg \<Rightarrow> bytes \<Rightarrow> bytes" where
  "field_value a f = (case map_of (a_hash a) f of None \<Rightarrow> [] | Some v \<Rightarrow> v)"

definition hashEnumerate :: "'e pebble \<Rightarrow> Env \<Rightarrow> dbid \<Rightarrow> string \<Rightarrow> bytes list \<Rightarrow> bool \<Rightarrow> 'e handler" where
  "hashEnumerate P E db nm args keys s =
     withArity nm args 1 s
       (bindE (loadAgg P E db (args ! 0) TypeHash s) (\<lambda>a s1.
          (Inr (replyArray (map (\<lambda>f. if keys then f else field_value a f) (sortedKeys (a_hash a)))), s1)))"

definition cmdHKeys :: "'e pebble \<Rightarrow> Env \<Rightarrow> dbid \<Rightarrow> string \<Rightarrow> bytes list \<Rightarrow> 'e handler" where
  "cmdHKeys P E db nm args s = hashEnumerate P E db nm args True s"

definition cmdHVals :: "'e pebble \<Rightarrow> Env \<Rightarrow> dbid \<Rightarrow> string \<Rightarrow> bytes list \<Rightarrow> 'e handler" where
  "cmdHVals P E db nm args s = hashEnumerate P E db nm args False s"

definition pairsReply :: "agg \<Rightarrow> bytes list \<Rightarrow> reply list" where
  "pairsReply a flds =
     RArray (int (length flds * 2)) # concat (map (\<lambda>f. [RBulk f, RBulk (field_value a f)]) flds)"

definition cmdHGetAll :: "'e pebble \<Rightarrow> Env \<Rightarrow> dbid \<Rightarrow> string \<Rightarrow> bytes list \<Rightarrow> 'e handler" where
  "cmdHGetAll P E db nm args s =
     withArity nm args 1 s
       (bindE (loadAgg P E db (args ! 0) TypeHash s) (\<lambda>a s1. (Inr (pairsReply a (sortedKeys (a_hash a))), s1)))"

definition cmdHMGet :: "'e pebble \<Rightarrow> Env \<Rightarrow> dbid \<Rightarrow> string \<Rightarrow> bytes list \<Rightarrow> 'e handler" where
  "cmdHMGet P E db nm args s =
     withArity nm args (-2) s
       (bindE (loadAgg P E db (args ! 0) TypeHash s) (\<lambda>a s1.
          (Inr (RArray (int (length args) - 1)
                # map (\<lambda>f. case map_of (a_hash a) f of None \<Rightarrow> RNull | Some v \<Rightarrow> writeBulk (copied v)) (drop 1 args)), s1)))"

definition cmdHMSet :: "'e pebble \<Rightarrow> Env \<Rightarrow> dbid \<Rightarrow> string \<Rightarrow> bytes list \<Rightarrow> 'e handler" where
  "cmdHMSet P E db nm args s =
     withArity nm args (-3) s
       (if (length args - 1) mod 2 \<noteq> 0 then (Inl (WrongArgs ''hmset''), s)
        else bindE (hashSet P E db (args ! 0) (parsePairs (drop 1 args)) False s) (\<lambda>_ s1. (Inr writeOK, s1)))"

definition cmdHIncrBy :: "'e pebble \<Rightarrow> Env \<Rightarrow> dbid \<Rightarrow> string \<Rightarrow> bytes list \<Rightarrow> 'e handler" where
  "cmdHIncrBy P E db nm args s =
     withArity nm args 3 s
       (bindS (toInt64 (args ! 2)) s (\<lambda>d.
          bindE (hashIncrBy P E db (args ! 0) (args ! 1) d s) (\<lambda>n s1. (Inr [RInt n], s1))))"

definition cmdHStrLen :: "'e pebble \<Rightarrow> Env \<Rightarrow> dbid \<Rightarrow> string \<Rightarrow> bytes list \<Rightarrow> 'e handler" where
  "cmdHStrLen P E db nm args s =
     withArity nm args 2 s
       (bindE (hashGet P E db (args ! 0) (args ! 1) s) (\<lambda>v s1.
          (Inr [RInt (case v of None \<Rightarrow> 0 | Some b \<Rightarrow> int (length b))], s1)))"

text \<open>How many elements a random pick returns and whether with repetition: a negative count allows
  repetition, and its negation wraps at the smallest integer.\<close>

definition pickCount :: "int \<Rightarrow> nat \<Rightarrow> goerr + (nat \<times> bool)" where
  "pickCount count len =
     (let n = (if count < 0 then wrap64 (- count) else count)
      in if n < 0 then Inl (ProtoError ''ERR value is out of range'')
         else if count < 0 \<and> n > 2 ^ 30 then Inl (ProtoError ''ERR value is out of range'')
         else if count < 0 then Inr (nat n, True)
         else Inr (min (nat n) len, False))"

definition pickFrom :: "(nat \<Rightarrow> nat) \<Rightarrow> (nat \<Rightarrow> nat list) \<Rightarrow> bytes list \<Rightarrow> nat \<times> bool \<Rightarrow> bytes list" where
  "pickFrom rnd perm items nd =
     (case nd of (n, dup) \<Rightarrow>
        if dup then map (\<lambda>k. items ! (rnd k mod length items)) [0..<n]
        else map (\<lambda>i. items ! i) (take n (perm (length items))))"

definition cmdHRandField ::
  "'e pebble \<Rightarrow> Env \<Rightarrow> (nat \<Rightarrow> nat) \<Rightarrow> (nat \<Rightarrow> nat list) \<Rightarrow> dbid \<Rightarrow> bytes list \<Rightarrow> 'e handler" where
  "cmdHRandField P E rnd perm db args s =
     (if length args < 1 \<or> length args > 3 then (Inl (WrongArgs ''hrandfield''), s)
      else
        let hasCount = (length args \<ge> 2); withValues = (length args > 2 \<and> fold_equal (args ! 2) ''WITHVALUES'')
        in bindS (if hasCount then toInt64 (args ! 1) else Inr 1) s (\<lambda>count.
             bindE (loadAgg P E db (args ! 0) TypeHash s) (\<lambda>a s1.
               let flds = sortedKeys (a_hash a) in
               if flds = [] then (Inr [if hasCount then RArray 0 else RNull], s1)
               else bindS (pickCount count (length flds)) s1 (\<lambda>nd.
                 let pick = pickFrom rnd perm flds nd
                 in if \<not> hasCount then (Inr [RBulk (pick ! 0)], s1)
                    else if withValues then (Inr (pairsReply a pick), s1)
                    else (Inr (replyArray pick), s1)))))"

definition cmdHScan :: "'e pebble \<Rightarrow> Env \<Rightarrow> dbid \<Rightarrow> string \<Rightarrow> bytes list \<Rightarrow> 'e handler" where
  "cmdHScan P E db nm args s =
     withArity nm args (-2) s
       (case parse_uint (args ! 1) of
          None \<Rightarrow> (Inl (ProtoError ''ERR invalid cursor''), s)
        | Some start \<Rightarrow>
            bindS (parseScanOpts (Some ''NOVALUES'') (drop 2 args) noScanOpts) s (\<lambda>opt.
              bindE (loadAgg P E db (args ! 0) TypeHash s) (\<lambda>a s1.
                let flds = filter (scanMatches opt) (sortedKeys (a_hash a));
                    flat = (if sc_keysOnly opt then flds
                            else concat (map (\<lambda>f. [f, field_value a f]) flds))
                in (Inr (scanPageReply flat start (wrap64 (sc_count opt * 2))), s1))))"

end
