(* ===== verification/Sets.thy ===== *)
theory Sets
  imports Hashes
begin

text \<open>
  \<open>cmd_set.go\<close>: sets.  A set is a list without repetition, standing for a Go map with empty
  values; where the code ranges over such a map without sorting, the order does not show.
\<close>

section \<open>Operations\<close>

fun addMembers :: "bytes list \<Rightarrow> bytes list \<Rightarrow> int \<Rightarrow> bytes list \<times> int" where
  "addMembers [] st added = (st, added)"
| "addMembers (m # ms) st added =
     (if m \<in> set st then addMembers ms st added else addMembers ms (gset_add m st) (added + 1))"

text \<open>Point insertions into a large set: membership is looked up on disk, not in the batch.\<close>

fun sparseMembers :: "'e pebble \<Rightarrow> 'e \<Rightarrow> dbid \<Rightarrow> bytes \<Rightarrow> bytes list \<Rightarrow> goerr + (bop list \<times> int)" where
  "sparseMembers P e db key [] = Inr ([], 0)"
| "sparseMembers P e db key (m # ms) =
     (let ek = EncodeElemKey SegSet db key m
      in case eng_Get P e ek of
           Inr old \<Rightarrow> sparseMembers P e db key ms
         | Inl err \<Rightarrow>
             if err \<noteq> ErrNotFound then Inl err
             else (case sparseMembers P e db key ms of
                     Inl err' \<Rightarrow> Inl err' | Inr (ops, n) \<Rightarrow> Inr (BSet ek [] # ops, n + 1)))"

definition setAddSparse ::
  "'e pebble \<Rightarrow> Env \<Rightarrow> dbid \<Rightarrow> bytes \<Rightarrow> bytes list \<Rightarrow> int \<Rightarrow> int \<Rightarrow> 'e Store \<Rightarrow> (goerr, int, 'e Store) res" where
  "setAddSparse P E db key members curCount expireAt s =
     (case sparseMembers P (s_eng s) db key members of
        Inl err \<Rightarrow> (Inl err, s)
      | Inr (ops, added) \<Rightarrow>
          if added = 0 then (Inr 0, s)
          else
            let header = EncodeSparseHeader TypeSet (nat (curCount + added)) 0 0
            in bindE (applyBatch P (ops @ putValueBatch db key TypeSet header expireAt expireAt) s)
                 (\<lambda>_ s1. (Inr added, upd_dict (Set E db key TypeSet expireAt header) s1)))"

definition setAddLoaded :: "'e pebble \<Rightarrow> Env \<Rightarrow> dbid \<Rightarrow> bytes \<Rightarrow> bytes list \<Rightarrow> 'e Store \<Rightarrow> (goerr, int, 'e Store) res" where
  "setAddLoaded P E db key members s =
     bindE (loadAgg P E db key TypeSet s) (\<lambda>a s1.
       let (st, added) = addMembers members (a_set a) 0
       in if added = 0 then (Inr 0, s1)
          else bindE (saveAgg P E db key (a\<lparr>a_set := st\<rparr>) s1) (\<lambda>_ s2. (Inr added, s2)))"

definition setAdd :: "'e pebble \<Rightarrow> Env \<Rightarrow> dbid \<Rightarrow> bytes \<Rightarrow> bytes list \<Rightarrow> 'e Store \<Rightarrow> (goerr, int, 'e Store) res" where
  "setAdd P E db key members s =
     bindE (aggEncoding P E db key TypeSet s) (\<lambda>enc s1.
       case enc of
         Some (obj, expireAt) \<Rightarrow>
           if o_Enc obj = EncSparse then setAddSparse P E db key members (o_Count obj) expireAt s1
           else setAddLoaded P E db key members s1
       | None \<Rightarrow> setAddLoaded P E db key members s1)"

fun remMembers :: "bytes list \<Rightarrow> bytes list \<Rightarrow> int \<Rightarrow> bytes list \<times> int" where
  "remMembers [] st n = (st, n)"
| "remMembers (m # ms) st n =
     (if m \<in> set st then remMembers ms (remove1 m st) (n + 1) else remMembers ms st n)"

definition setRem :: "'e pebble \<Rightarrow> Env \<Rightarrow> dbid \<Rightarrow> bytes \<Rightarrow> bytes list \<Rightarrow> 'e Store \<Rightarrow> (goerr, int, 'e Store) res" where
  "setRem P E db key members s =
     bindE (loadAgg P E db key TypeSet s) (\<lambda>a s1.
       if \<not> a_exists a then (Inr 0, s1)
       else
         let (st, n) = remMembers members (a_set a) 0
         in if n = 0 then (Inr 0, s1)
            else if st = [] then bindE (deleteKey P E db key s1) (\<lambda>_ s2. (Inr n, s2))
            else bindE (saveAgg P E db key (a\<lparr>a_set := st\<rparr>) s1) (\<lambda>_ s2. (Inr n, s2)))"

definition setMembers :: "'e pebble \<Rightarrow> Env \<Rightarrow> dbid \<Rightarrow> bytes \<Rightarrow> 'e Store \<Rightarrow> (goerr, bytes list, 'e Store) res" where
  "setMembers P E db key s = bindE (loadAgg P E db key TypeSet s) (\<lambda>a s1. (Inr (sort (a_set a)), s1))"

definition setIsMember :: "'e pebble \<Rightarrow> Env \<Rightarrow> dbid \<Rightarrow> bytes \<Rightarrow> bytes \<Rightarrow> 'e Store \<Rightarrow> (goerr, bool, 'e Store) res" where
  "setIsMember P E db key member s =
     bindE (loadAgg P E db key TypeSet s) (\<lambda>a s1. (Inr (member \<in> set (a_set a)), s1))"

definition setIsMemberMulti :: "'e pebble \<Rightarrow> Env \<Rightarrow> dbid \<Rightarrow> bytes \<Rightarrow> bytes list \<Rightarrow> 'e Store \<Rightarrow> (goerr, bool list, 'e Store) res" where
  "setIsMemberMulti P E db key members s =
     bindE (loadAgg P E db key TypeSet s) (\<lambda>a s1. (Inr (map (\<lambda>m. m \<in> set (a_set a)) members), s1))"

definition setMove :: "'e pebble \<Rightarrow> Env \<Rightarrow> dbid \<Rightarrow> bytes \<Rightarrow> bytes \<Rightarrow> bytes \<Rightarrow> 'e Store \<Rightarrow> (goerr, bool, 'e Store) res" where
  "setMove P E db src dst member s =
     bindE (loadAgg P E db src TypeSet s) (\<lambda>a s1.
     bindE (aggEncoding P E db dst TypeSet s1) (\<lambda>_ s2.
       if member \<notin> set (a_set a) then (Inr False, s2)
       else bindE (setRem P E db src [member] s2) (\<lambda>_ s3.
            bindE (setAdd P E db dst [member] s3) (\<lambda>_ s4. (Inr True, s4)))))"

text \<open>Drawing without repetition: the drawn place is filled with the last member.\<close>

fun drawMembers :: "(nat \<Rightarrow> nat) \<Rightarrow> nat \<Rightarrow> bytes list \<Rightarrow> bytes list" where
  "drawMembers rnd 0 pool = []"
| "drawMembers rnd (Suc n) pool =
     (let i = rnd n mod length pool
      in pool ! i # drawMembers rnd n (butlast (pool[i := last pool])))"

definition setPop :: "'e pebble \<Rightarrow> Env \<Rightarrow> (nat \<Rightarrow> nat) \<Rightarrow> dbid \<Rightarrow> bytes \<Rightarrow> nat \<Rightarrow> 'e Store \<Rightarrow> (goerr, bytes list, 'e Store) res" where
  "setPop P E rnd db key n s =
     bindE (loadAgg P E db key TypeSet s) (\<lambda>a s1.
       if a_set a = [] then (Inr [], s1)
       else
         let pool = sort (a_set a); out = drawMembers rnd (min n (length pool)) pool
         in bindE (setRem P E db key out s1) (\<lambda>_ s2. (Inr out, s2)))"

section \<open>Handlers\<close>

definition cmdSAdd :: "'e pebble \<Rightarrow> Env \<Rightarrow> dbid \<Rightarrow> string \<Rightarrow> bytes list \<Rightarrow> 'e handler" where
  "cmdSAdd P E db nm args s =
     withArity nm args (-2) s (bindE (setAdd P E db (args ! 0) (drop 1 args) s) (\<lambda>n s1. (Inr [RInt n], s1)))"

definition cmdSRem :: "'e pebble \<Rightarrow> Env \<Rightarrow> dbid \<Rightarrow> string \<Rightarrow> bytes list \<Rightarrow> 'e handler" where
  "cmdSRem P E db nm args s =
     withArity nm args (-2) s (bindE (setRem P E db (args ! 0) (drop 1 args) s) (\<lambda>n s1. (Inr [RInt n], s1)))"

definition cmdSMembers :: "'e pebble \<Rightarrow> Env \<Rightarrow> dbid \<Rightarrow> string \<Rightarrow> bytes list \<Rightarrow> 'e handler" where
  "cmdSMembers P E db nm args s =
     withArity nm args 1 s (bindE (setMembers P E db (args ! 0) s) (\<lambda>out s1. (Inr (replyArray out), s1)))"

definition cmdSIsMember :: "'e pebble \<Rightarrow> Env \<Rightarrow> dbid \<Rightarrow> string \<Rightarrow> bytes list \<Rightarrow> 'e handler" where
  "cmdSIsMember P E db nm args s =
     withArity nm args 2 s
       (bindE (setIsMember P E db (args ! 0) (args ! 1) s) (\<lambda>ok s1. (Inr [RInt (btoi ok)], s1)))"

definition cmdSMIsMember :: "'e pebble \<Rightarrow> Env \<Rightarrow> dbid \<Rightarrow> string \<Rightarrow> bytes list \<Rightarrow> 'e handler" where
  "cmdSMIsMember P E db nm args s =
     withArity nm args (-2) s
       (bindE (setIsMemberMulti P E db (args ! 0) (drop 1 args) s) (\<lambda>oks s1.
          (Inr (RArray (int (length oks)) # map (\<lambda>ok. RInt (btoi ok)) oks), s1)))"

definition cmdSCard :: "'e pebble \<Rightarrow> Env \<Rightarrow> dbid \<Rightarrow> string \<Rightarrow> bytes list \<Rightarrow> 'e handler" where
  "cmdSCard P E db nm args s =
     withArity nm args 1 s
       (bindE (loadAgg P E db (args ! 0) TypeSet s) (\<lambda>a s1. (Inr [RInt (int (length (a_set a)))], s1)))"

definition cmdSMove :: "'e pebble \<Rightarrow> Env \<Rightarrow> dbid \<Rightarrow> string \<Rightarrow> bytes list \<Rightarrow> 'e handler" where
  "cmdSMove P E db nm args s =
     withArity nm args 3 s
       (bindE (setMove P E db (args ! 0) (args ! 1) (args ! 2) s) (\<lambda>ok s1. (Inr [RInt (btoi ok)], s1)))"

definition cmdSPop :: "'e pebble \<Rightarrow> Env \<Rightarrow> (nat \<Rightarrow> nat) \<Rightarrow> dbid \<Rightarrow> bytes list \<Rightarrow> 'e handler" where
  "cmdSPop P E rnd db args s =
     (if length args < 1 \<or> length args > 2 then (Inl (WrongArgs ''spop''), s)
      else
        bindS (if length args = 2
               then (case toInt64 (args ! 1) of
                       Inl err \<Rightarrow> Inl err
                     | Inr v \<Rightarrow> if v < 0 then Inl (ProtoError ''ERR value is out of range, must be positive'') else Inr (nat v))
               else Inr 1) s (\<lambda>n.
          bindE (setPop P E rnd db (args ! 0) n s) (\<lambda>out s1.
            if length args = 1 then (Inr [if out = [] then RNull else RBulk (out ! 0)], s1)
            else (Inr (replyArray out), s1))))"

definition cmdSRandMember ::
  "'e pebble \<Rightarrow> Env \<Rightarrow> (nat \<Rightarrow> nat) \<Rightarrow> (nat \<Rightarrow> nat list) \<Rightarrow> dbid \<Rightarrow> bytes list \<Rightarrow> 'e handler" where
  "cmdSRandMember P E rnd perm db args s =
     (if length args < 1 then (Inl (WrongArgs ''srandmember''), s)
      else if length args > 2 then (Inl ErrSyntax, s)
      else bindE (setMembers P E db (args ! 0) s) (\<lambda>members s1.
        if members = [] then (Inr [if length args = 1 then RNull else RArray 0], s1)
        else if length args = 1 then (Inr [RBulk (members ! (rnd 0 mod length members))], s1)
        else bindS (toInt64 (args ! 1)) s1 (\<lambda>n.
          bindS (pickCount n (length members)) s1 (\<lambda>nd.
            (Inr (replyArray (pickFrom rnd perm members nd)), s1)))))"

section \<open>Set algebra\<close>

datatype setop = opUnion | opInter | opDiff

fun loadSets :: "'e pebble \<Rightarrow> Env \<Rightarrow> dbid \<Rightarrow> bytes list \<Rightarrow> 'e Store \<Rightarrow> (goerr, bytes list list, 'e Store) res" where
  "loadSets P E db [] s = (Inr [], s)"
| "loadSets P E db (k # ks) s =
     bindE (loadAgg P E db k TypeSet s) (\<lambda>a s1.
     bindE (loadSets P E db ks s1) (\<lambda>sets s2. (Inr (a_set a # sets), s2)))"

fun evalSetOp :: "setop \<Rightarrow> bytes list list \<Rightarrow> bytes list" where
  "evalSetOp opUnion sets = foldl (\<lambda>out m. foldl (\<lambda>out k. gset_add k out) out m) [] sets"
| "evalSetOp opInter sets =
     (case sets of [] \<Rightarrow> [] | s0 # rest \<Rightarrow> foldl (\<lambda>out s. filter (\<lambda>k. k \<in> set s) out) s0 rest)"
| "evalSetOp opDiff sets =
     (case sets of [] \<Rightarrow> [] | s0 # rest \<Rightarrow> foldl (\<lambda>out s. filter (\<lambda>k. k \<notin> set s) out) s0 rest)"

definition setOp :: "'e pebble \<Rightarrow> Env \<Rightarrow> dbid \<Rightarrow> string \<Rightarrow> bytes list \<Rightarrow> setop \<Rightarrow> 'e handler" where
  "setOp P E db nm args op s =
     withArity nm args (-1) s
       (bindE (loadSets P E db args s) (\<lambda>sets s1. (Inr (replyArray (sort (evalSetOp op sets))), s1)))"

definition setStoreOp :: "'e pebble \<Rightarrow> Env \<Rightarrow> dbid \<Rightarrow> string \<Rightarrow> bytes list \<Rightarrow> setop \<Rightarrow> 'e handler" where
  "setStoreOp P E db nm args op s =
     withArity nm args (-2) s
       (bindE (loadSets P E db (drop 1 args) s) (\<lambda>sets s1.
          let out = evalSetOp op sets in
          if out = [] then bindE (deleteKey P E db (args ! 0) s1) (\<lambda>_ s2. (Inr [RInt 0], s2))
          else bindE (deleteKey P E db (args ! 0) s1) (\<lambda>_ s2.
               bindE (setAdd P E db (args ! 0) out s2) (\<lambda>n s3. (Inr [RInt n], s3)))))"

definition interLimit :: "bytes list \<Rightarrow> goerr + nat" where
  "interLimit rest =
     (if rest = [] then Inr 0
      else if length rest \<noteq> 2 \<or> \<not> fold_equal (rest ! 0) ''limit'' then Inl ErrSyntax
      else (case toInt64 (rest ! 1) of
              Inl err \<Rightarrow> Inl err
            | Inr v \<Rightarrow> if v < 0 then Inl (ProtoError ''ERR LIMIT can't be negative'') else Inr (nat v)))"

definition cmdSInterCard :: "'e pebble \<Rightarrow> Env \<Rightarrow> dbid \<Rightarrow> bytes list \<Rightarrow> 'e handler" where
  "cmdSInterCard P E db args s =
     (if length args < 2 then (Inl (WrongArgs ''sintercard''), s)
      else
        (case parse_int (args ! 0) of
           None \<Rightarrow> (Inl (ProtoError ''ERR numkeys should be greater than 0''), s)
         | Some numkeys \<Rightarrow>
             if numkeys \<le> 0 then (Inl (ProtoError ''ERR numkeys should be greater than 0''), s)
             else if numkeys > int (length args) - 1 then
               (Inl (ProtoError ''ERR Number of keys can't be greater than number of args''), s)
             else bindS (interLimit (drop (1 + nat numkeys) args)) s (\<lambda>limit.
               bindE (loadSets P E db (take (nat numkeys) (drop 1 args)) s) (\<lambda>sets s1.
                 let n = length (evalSetOp opInter sets)
                 in (Inr [RInt (int (if limit > 0 \<and> n > limit then limit else n))], s1)))))"

definition cmdSScan :: "'e pebble \<Rightarrow> Env \<Rightarrow> dbid \<Rightarrow> string \<Rightarrow> bytes list \<Rightarrow> 'e handler" where
  "cmdSScan P E db nm args s =
     withArity nm args (-2) s
       (case parse_uint (args ! 1) of
          None \<Rightarrow> (Inl (ProtoError ''ERR invalid cursor''), s)
        | Some start \<Rightarrow>
            bindS (parseScanOpts None (drop 2 args) noScanOpts) s (\<lambda>opt.
              bindE (loadAgg P E db (args ! 0) TypeSet s) (\<lambda>a s1.
                (Inr (scanPageReply (filter (scanMatches opt) (sort (a_set a))) start (sc_count opt)), s1))))"

end
