(* ===== verification/Numerals.thy ===== *)
theory Numerals
  imports Handlers Floats
begin

text \<open>
  The number formats of \<open>strconv\<close> that the score commands use: \<open>ParseFloat(s, 64)\<close> with its decimal
  and hexadecimal grammar, and \<open>FormatFloat(f, 'g', -1, 64)\<close>, the shortest decimal that reads back as
  the same double; and double addition with its special cases.  The payload of a NaN, which depends
  on the machine, is fixed.
\<close>

section \<open>Special values and addition\<close>

definition f64_qnan :: f64 where "f64_qnan = 0x7FF8000000000001"
definition f64_posinf :: f64 where "f64_posinf = 0x7FF0000000000000"
definition f64_neginf :: f64 where "f64_neginf = 0xFFF0000000000000"

definition f64_neg :: "f64 \<Rightarrow> bool" where "f64_neg a \<longleftrightarrow> 2 ^ 63 \<le> unat a"
definition f64_infinite :: "f64 \<Rightarrow> bool" where "f64_infinite a \<longleftrightarrow> a = f64_posinf \<or> a = f64_neginf"

definition f64_sign_mag :: "bool \<Rightarrow> nat \<Rightarrow> f64" where
  "f64_sign_mag neg mag = of_nat (if neg then 2 ^ 63 + mag else mag)"

definition f64_add :: "f64 \<Rightarrow> f64 \<Rightarrow> f64" where
  "f64_add a b =
     (if f64_nan a \<or> f64_nan b then f64_qnan
      else if f64_infinite a then (if f64_infinite b \<and> a \<noteq> b then f64_qnan else a)
      else if f64_infinite b then b
      else let v = f64_scaled a + f64_scaled b
           in if v = 0 then f64_sign_mag (f64_neg a \<and> f64_neg b) 0 else f64_round v 1)"

definition f64_times :: "f64 \<Rightarrow> f64 \<Rightarrow> f64" where
  "f64_times a b =
     (let neg = (f64_neg a \<noteq> f64_neg b); zero = (\<lambda>x. f64_scaled x = 0)
      in if f64_nan a \<or> f64_nan b then f64_qnan
         else if f64_infinite a \<or> f64_infinite b then
           (if zero a \<or> zero b then f64_qnan else if neg then f64_neginf else f64_posinf)
         else f64_sign_mag neg (f64_mag_of (nat \<bar>f64_scaled a * f64_scaled b\<bar>) (2 ^ 1074)))"

definition f64_le :: "f64 \<Rightarrow> f64 \<Rightarrow> bool" where
  "f64_le a b \<longleftrightarrow> f64_less a b \<or> f64_eq a b"

section \<open>Parsing\<close>

definition to_lower :: "byte \<Rightarrow> byte" where
  "to_lower b = (if 65 \<le> b \<and> b \<le> 90 then b + 32 else b)"

text \<open>\<open>underscoreOK\<close>: underscores separate digits, or the base prefix from a digit.  The class of the
  previous byte is start, digit, underscore or other.\<close>

datatype bclass = BStart | BDigit | BUnder | BOther

definition hex_digit :: "byte \<Rightarrow> bool" where
  "hex_digit c \<longleftrightarrow> is_digit c \<or> 97 \<le> to_lower c \<and> to_lower c \<le> 102"

fun underLoop :: "bool \<Rightarrow> bytes \<Rightarrow> bclass \<Rightarrow> bool" where
  "underLoop hex [] prev \<longleftrightarrow> prev \<noteq> BUnder"
| "underLoop hex (c # cs) prev \<longleftrightarrow>
     (if is_digit c \<or> hex \<and> hex_digit c then underLoop hex cs BDigit
      else if c = 95 then prev = BDigit \<and> underLoop hex cs BUnder
      else prev \<noteq> BUnder \<and> underLoop hex cs BOther)"

definition skip_sign :: "bytes \<Rightarrow> bool \<times> bytes" where
  "skip_sign s = (case s of [] \<Rightarrow> (False, []) | c # cs \<Rightarrow> if c = 43 then (False, cs) else if c = 45 then (True, cs) else (False, s))"

definition underscoreOK :: "bytes \<Rightarrow> bool" where
  "underscoreOK s =
     (let r = snd (skip_sign s)
      in if length r \<ge> 2 \<and> r ! 0 = 48 \<and> to_lower (r ! 1) \<in> {98, 111, 120}
         then underLoop (to_lower (r ! 1) = 120) (drop 2 r) BDigit
         else underLoop False r BStart)"

text \<open>The digits of the mantissa: value, digits after the point, whether a digit was seen, and what
  follows.\<close>

definition digit_of :: "byte \<Rightarrow> nat" where
  "digit_of c = (if is_digit c then unat c - 48 else unat (to_lower c) - 87)"

fun mantLoop :: "bool \<Rightarrow> bytes \<Rightarrow> bool \<Rightarrow> bool \<Rightarrow> nat \<Rightarrow> nat \<Rightarrow> bool \<times> nat \<times> nat \<times> bytes" where
  "mantLoop hex [] dot saw m frac = (saw, m, frac, [])"
| "mantLoop hex (c # cs) dot saw m frac =
     (if c = 95 then mantLoop hex cs dot saw m frac
      else if c = 46 then (if dot then (saw, m, frac, c # cs) else mantLoop hex cs True saw m frac)
      else if is_digit c \<or> hex \<and> hex_digit c then
        mantLoop hex cs dot True ((if hex then 16 else 10) * m + digit_of c) (if dot then frac + 1 else frac)
      else (saw, m, frac, c # cs))"

text \<open>The exponent: its digits are read up to a bound of five digits or so, beyond which the result is
  out of range in any case.\<close>

fun expLoop :: "bytes \<Rightarrow> nat \<Rightarrow> nat \<times> bytes" where
  "expLoop [] e = (e, [])"
| "expLoop (c # cs) e =
     (if c = 95 then expLoop cs e
      else if is_digit c then expLoop cs (if e < 10000 then 10 * e + digit_of c else e)
      else (e, c # cs))"

definition readExp :: "byte \<Rightarrow> bytes \<Rightarrow> (int \<times> bytes) option" where
  "readExp expChar s =
     (case s of
        [] \<Rightarrow> Some (0, [])
      | c # cs \<Rightarrow>
          if to_lower c \<noteq> expChar then Some (0, s)
          else (case skip_sign cs of (neg, ds) \<Rightarrow>
                  if ds = [] \<or> \<not> is_digit (hd ds) then None
                  else case expLoop ds 0 of (e, rest) \<Rightarrow> Some (if neg then - int e else int e, rest)))"

definition f64_ratio :: "bool \<Rightarrow> nat \<Rightarrow> nat \<Rightarrow> f64 option" where
  "f64_ratio neg n d =
     (let mag = f64_mag_of (n * 2 ^ 1074) d
      in if mag \<ge> f64_inf then None else Some (f64_sign_mag neg mag))"

definition scaleBy :: "nat \<Rightarrow> nat \<Rightarrow> int \<Rightarrow> nat \<times> nat" where
  "scaleBy base m e = (if e \<ge> 0 then (m * base ^ nat e, 1) else (m, base ^ nat (- e)))"

definition special_float :: "bytes \<Rightarrow> f64 option" where
  "special_float s =
     (let (neg, r) = skip_sign s; w = map to_lower r
      in if w = ascii ''inf'' \<or> w = ascii ''infinity'' then Some (if neg then f64_neginf else f64_posinf)
         else if map to_lower s = ascii ''nan'' then Some f64_qnan else None)"

definition parse_float :: "bytes \<Rightarrow> f64 option" where
  "parse_float s =
     (case special_float s of
        Some f \<Rightarrow> Some f
      | None \<Rightarrow>
          let (neg, r) = skip_sign s;
              hex = (length r > 2 \<and> r ! 0 = 48 \<and> to_lower (r ! 1) = 120);
              (saw, m, frac, rest) = mantLoop hex (if hex then drop 2 r else r) False False 0 0
          in if \<not> saw then None
             else if hex \<and> (rest = [] \<or> to_lower (hd rest) \<noteq> 112) then None
             else (case readExp (if hex then 112 else 101) rest of
                     None \<Rightarrow> None
                   | Some (e, rest') \<Rightarrow>
                       if rest' \<noteq> [] then None
                       else if 95 \<in> set s \<and> \<not> underscoreOK s then None
                       else (case scaleBy (if hex then 2 else 10) m (e - (if hex then 4 else 1) * int frac) of
                               (n, d) \<Rightarrow> f64_ratio neg n d)))"

definition toFloat :: "bytes \<Rightarrow> goerr + f64" where
  "toFloat b = (case parse_float b of None \<Rightarrow> Inl ErrNotFloat | Some v \<Rightarrow> Inr v)"

section \<open>Formatting\<close>

text \<open>A positive finite double as a ratio, and the decimal point of a ratio: the \<open>dp\<close> with
  \<open>10 ^ (dp - 1) \<le> n / d < 10 ^ dp\<close>.\<close>

definition dec_point :: "nat \<Rightarrow> nat \<Rightarrow> int" where
  "dec_point n d =
     (if n \<ge> d then int (length (nat_digits (n div d)))
      else 1 - int (length (nat_digits ((d - 1) div n))))"

text \<open>The two decimals of \<open>k\<close> digits around \<open>n / d\<close>, as an integer times \<open>10 ^ (dp - k)\<close>.\<close>

definition dec_floor :: "nat \<Rightarrow> nat \<Rightarrow> int \<Rightarrow> nat \<Rightarrow> nat" where
  "dec_floor n d dp k =
     (let e = int k - dp in if e \<ge> 0 then n * 10 ^ nat e div d else n div (d * 10 ^ nat (- e)))"

definition reads_as :: "nat \<Rightarrow> nat \<Rightarrow> int \<Rightarrow> nat \<Rightarrow> bool" where
  "reads_as mag m dp k =
     (let (n, d) = scaleBy 10 m (dp - int k) in f64_mag_of (n * 2 ^ 1074) d = mag)"

text \<open>Twice the value compared with the sum of the two candidates decides which one is nearer, with
  ties to even.\<close>

definition nearer_low :: "nat \<Rightarrow> nat \<Rightarrow> int \<Rightarrow> nat \<Rightarrow> nat \<Rightarrow> bool" where
  "nearer_low n d dp k lo =
     (let (a, b) = scaleBy 10 (2 * lo + 1) (dp - int k) in 2 * n * b < a * d \<or> 2 * n * b = a * d \<and> even lo)"

function shortest_digits :: "nat \<Rightarrow> nat \<Rightarrow> nat \<Rightarrow> int \<Rightarrow> nat \<Rightarrow> nat \<times> nat" where
  "shortest_digits mag n d dp k =
     (let lo = dec_floor n d dp k; okL = reads_as mag lo dp k; okH = reads_as mag (lo + 1) dp k
      in if okL \<and> (nearer_low n d dp k lo \<or> \<not> okH) then (lo, k)
         else if okH then (lo + 1, k)
         else if k \<ge> 17 then (lo, k) else shortest_digits mag n d dp (Suc k))"
  by auto
termination by (relation "measure (\<lambda>(mag, n, d, dp, k). 17 - k)") auto

declare shortest_digits.simps [simp del]

fun trim_zeros :: "nat \<Rightarrow> nat" where
  "trim_zeros m = (if m \<noteq> 0 \<and> m mod 10 = 0 then trim_zeros (m div 10) else m)"

declare trim_zeros.simps [simp del]

text \<open>\<open>%e\<close> and \<open>%f\<close> of a decimal given by its digits and its point; the exponent has at least two
  digits.\<close>

definition format_e :: "bytes \<Rightarrow> int \<Rightarrow> bytes" where
  "format_e ds dp =
     (let e = dp - 1; x = nat_digits (nat \<bar>e\<bar>)
      in [hd ds] @ (if length ds > 1 then 46 # tl ds else [])
         @ [101, if e < 0 then 45 else 43] @ (if length x < 2 then 48 # x else x))"

definition format_f :: "bytes \<Rightarrow> int \<Rightarrow> bytes" where
  "format_f ds dp =
     (if dp \<le> 0 then [48, 46] @ replicate (nat (- dp)) 48 @ ds
      else if nat dp \<ge> length ds then ds @ replicate (nat dp - length ds) 48
      else take (nat dp) ds @ [46] @ drop (nat dp) ds)"

definition format_g :: "f64 \<Rightarrow> bytes" where
  "format_g f =
     (let mag = unat f mod 2 ^ 63; sgn = (if f64_neg f then [45] else [])
      in if mag = 0 then sgn @ [48]
         else
           let n = f64_mag mag; d = 2 ^ 1074; dp0 = dec_point n d;
               (m, k) = shortest_digits mag n d dp0 1;
               dp = (if m = 10 ^ k then dp0 + 1 else dp0);
               ds = nat_digits (trim_zeros m)
           in sgn @ (if dp - 1 < -4 \<or> dp - 1 \<ge> 6 then format_e ds dp else format_f ds dp))"

end
