(* ===== verification/ZSets.thy ===== *)
theory ZSets
  imports Sets Numerals "HOL-Library.Product_Lexorder"
begin

text \<open>
  \<open>cmd_zset.go\<close>: sorted sets.  The members of a Go map are put in the order of the code's
  comparison, score first and member second; the comparison is the order of the exact values of the
  scores, so it is total on scores that are numbers.
\<close>

section \<open>Members in order\<close>

definition members_of :: "(bytes \<times> f64) list \<Rightarrow> Member list" where
  "members_of z = map (\<lambda>(m, sc). \<lparr>m_member = m, m_score = sc\<rparr>) z"

definition member_rank :: "Member \<Rightarrow> int \<times> bytes" where
  "member_rank m = (f64_scaled (m_score m), m_member m)"

definition sortedMembers :: "(bytes \<times> f64) list \<Rightarrow> bool \<Rightarrow> Member list" where
  "sortedMembers z desc =
     (let asc = sort_key member_rank (members_of z) in if desc then rev asc else asc)"

section \<open>Adding\<close>

record ZAddOption =
  za_XX :: bool
  za_NX :: bool
  za_LT :: bool
  za_GT :: bool
  za_CH :: bool
  za_INCR :: bool

definition noZAdd :: ZAddOption where
  "noZAdd = \<lparr>za_XX = False, za_NX = False, za_LT = False, za_GT = False, za_CH = False, za_INCR = False\<rparr>"

text \<open>The conditions under which a member is skipped, given its old score.\<close>

definition zSkipped :: "ZAddOption \<Rightarrow> f64 option \<Rightarrow> f64 \<Rightarrow> bool" where
  "zSkipped opt old new =
     (case old of
        None \<Rightarrow> za_XX opt
      | Some o' \<Rightarrow> za_NX opt \<or> (za_GT opt \<and> f64_le new o') \<or> (za_LT opt \<and> f64_le o' new))"

text \<open>The loop over the members: the new scores, how many were added and changed and, with \<open>INCR\<close>, the
  new score at which it stops.\<close>

fun zAddLoop ::
  "ZAddOption \<Rightarrow> Member list \<Rightarrow> (bytes \<times> f64) list \<Rightarrow> int \<Rightarrow> int \<Rightarrow> goerr + ((bytes \<times> f64) list \<times> int \<times> int \<times> f64 option)" where
  "zAddLoop opt [] z added changed = Inr (z, added, changed, None)"
| "zAddLoop opt (m # ms) z added changed =
     (let old = map_of z (m_member m) in
      if za_NX opt \<and> old \<noteq> None then zAddLoop opt ms z added changed
      else if za_XX opt \<and> old = None then zAddLoop opt ms z added changed
      else
        let new = (if za_INCR opt then (case old of None \<Rightarrow> m_score m | Some o' \<Rightarrow> f64_add o' (m_score m)) else m_score m)
        in if za_INCR opt \<and> f64_nan new then Inl (ProtoError ''ERR resulting score is not a number (NaN)'')
           else if zSkipped opt old new then zAddLoop opt ms z added changed
           else
             let z' = AList.update (m_member m) new z;
                 added' = (if old = None then added + 1 else added);
                 changed' = (case old of None \<Rightarrow> changed + 1 | Some o' \<Rightarrow> if f64_eq o' new then changed else changed + 1)
             in if za_INCR opt then Inr (z', added', changed', Some new) else zAddLoop opt ms z' added' changed')"

definition decodeScoreBytes :: "bytes \<Rightarrow> f64" where
  "decodeScoreBytes b = (if length b < 8 then 0 else DecodeScore (u64_of (take 8 b)))"

fun zSparseLoop ::
  "'e pebble \<Rightarrow> 'e \<Rightarrow> dbid \<Rightarrow> bytes \<Rightarrow> ZAddOption \<Rightarrow> Member list \<Rightarrow> goerr + (bop list \<times> int \<times> int)" where
  "zSparseLoop P e db key opt [] = Inr ([], 0, 0)"
| "zSparseLoop P e db key opt (m # ms) =
     (let ek = EncodeElemKey SegZSetM db key (m_member m); new = m_score m;
          more = (\<lambda>ops a c. case zSparseLoop P e db key opt ms of
                    Inl err \<Rightarrow> Inl err | Inr (ops', a', c') \<Rightarrow> Inr (ops @ ops', a + a', c + c'));
          put = (\<lambda>mid. [BSet ek (scoreBytes new)] @ mid @ [BSet (EncodeScoreKey db key new (m_member m)) []])
      in case eng_Get P e ek of
           Inr v \<Rightarrow>
             let old = decodeScoreBytes v in
             if zSkipped opt (Some old) new then more [] 0 0
             else if \<not> f64_eq old new then more (put [BDelete (EncodeScoreKey db key old (m_member m))]) 0 1
             else more (put []) 0 0
         | Inl err \<Rightarrow>
             if err \<noteq> ErrNotFound then Inl err
             else if zSkipped opt None new then more [] 0 0
             else more (put []) 1 1)"

definition zAddSparse ::
  "'e pebble \<Rightarrow> Env \<Rightarrow> dbid \<Rightarrow> bytes \<Rightarrow> Member list \<Rightarrow> ZAddOption \<Rightarrow> int \<Rightarrow> int \<Rightarrow> 'e Store \<Rightarrow> (goerr, int \<times> f64 option, 'e Store) res" where
  "zAddSparse P E db key members opt curCount expireAt s =
     (case zSparseLoop P (s_eng s) db key opt members of
        Inl err \<Rightarrow> (Inl err, s)
      | Inr (ops, added, changed) \<Rightarrow>
          if ops = [] then (Inr (0, None), s)
          else
            let header = EncodeSparseHeader TypeZSet (nat (curCount + added)) 0 0
            in bindE (applyBatch P (ops @ putValueBatch db key TypeZSet header expireAt expireAt) s)
                 (\<lambda>_ s1. (Inr (if za_CH opt then changed else added, None),
                          upd_dict (Set E db key TypeZSet expireAt header) s1)))"

definition zAddLoaded ::
  "'e pebble \<Rightarrow> Env \<Rightarrow> dbid \<Rightarrow> bytes \<Rightarrow> Member list \<Rightarrow> ZAddOption \<Rightarrow> 'e Store \<Rightarrow> (goerr, int \<times> f64 option, 'e Store) res" where
  "zAddLoaded P E db key members opt s =
     bindE (loadAgg P E db key TypeZSet s) (\<lambda>a s1.
       bindS (zAddLoop opt members (a_zset a) 0 0) s1 (\<lambda>(z, added, changed, incr).
         bindE (saveAgg P E db key (a\<lparr>a_zset := z\<rparr>) s1) (\<lambda>_ s2.
           (Inr (if incr \<noteq> None then (0, incr) else if za_CH opt then (changed, None) else (added, None)), s2))))"

definition zAdd ::
  "'e pebble \<Rightarrow> Env \<Rightarrow> dbid \<Rightarrow> bytes \<Rightarrow> Member list \<Rightarrow> ZAddOption \<Rightarrow> 'e Store \<Rightarrow> (goerr, int \<times> f64 option, 'e Store) res" where
  "zAdd P E db key members opt s =
     bindE (aggEncoding P E db key TypeZSet s) (\<lambda>enc s1.
       case enc of
         Some (obj, expireAt) \<Rightarrow>
           if o_Enc obj = EncSparse \<and> \<not> za_INCR opt
           then zAddSparse P E db key members opt (o_Count obj) expireAt s1
           else zAddLoaded P E db key members opt s1
       | None \<Rightarrow> zAddLoaded P E db key members opt s1)"

section \<open>Removing, scores and ranks\<close>

definition zRem :: "'e pebble \<Rightarrow> Env \<Rightarrow> dbid \<Rightarrow> bytes \<Rightarrow> bytes list \<Rightarrow> 'e Store \<Rightarrow> (goerr, int, 'e Store) res" where
  "zRem P E db key members s =
     bindE (loadAgg P E db key TypeZSet s) (\<lambda>a s1.
       if \<not> a_exists a then (Inr 0, s1)
       else
         let (z, n) = delFields members (a_zset a) 0
         in if n = 0 then (Inr 0, s1)
            else if z = [] then bindE (deleteKey P E db key s1) (\<lambda>_ s2. (Inr n, s2))
            else bindE (saveAgg P E db key (a\<lparr>a_zset := z\<rparr>) s1) (\<lambda>_ s2. (Inr n, s2)))"

definition zScore :: "'e pebble \<Rightarrow> Env \<Rightarrow> dbid \<Rightarrow> bytes \<Rightarrow> bytes \<Rightarrow> 'e Store \<Rightarrow> (goerr, f64 option, 'e Store) res" where
  "zScore P E db key member s = bindE (loadAgg P E db key TypeZSet s) (\<lambda>a s1. (Inr (map_of (a_zset a) member), s1))"

fun rankIn :: "bytes \<Rightarrow> Member list \<Rightarrow> nat \<Rightarrow> nat option" where
  "rankIn member [] i = None"
| "rankIn member (m # ms) i = (if m_member m = member then Some i else rankIn member ms (Suc i))"

definition zRank :: "'e pebble \<Rightarrow> Env \<Rightarrow> dbid \<Rightarrow> bytes \<Rightarrow> bytes \<Rightarrow> bool \<Rightarrow> 'e Store \<Rightarrow> (goerr, nat option, 'e Store) res" where
  "zRank P E db key member desc s =
     bindE (loadAgg P E db key TypeZSet s) (\<lambda>a s1.
       if map_of (a_zset a) member = None then (Inr None, s1)
       else (Inr (rankIn member (sortedMembers (a_zset a) desc) 0), s1))"

definition zIncrBy :: "'e pebble \<Rightarrow> Env \<Rightarrow> dbid \<Rightarrow> bytes \<Rightarrow> f64 \<Rightarrow> bytes \<Rightarrow> 'e Store \<Rightarrow> (goerr, f64, 'e Store) res" where
  "zIncrBy P E db key delta member s =
     bindE (loadAgg P E db key TypeZSet s) (\<lambda>a s1.
       let nxt = f64_add (case map_of (a_zset a) member of None \<Rightarrow> 0 | Some sc \<Rightarrow> sc) delta
       in bindE (saveAgg P E db key (a\<lparr>a_zset := AList.update member nxt (a_zset a)\<rparr>) s1) (\<lambda>_ s2. (Inr nxt, s2)))"

text \<open>A negative count is a slice bound out of range.\<close>

definition zPopMinMax :: "'e pebble \<Rightarrow> Env \<Rightarrow> dbid \<Rightarrow> bytes \<Rightarrow> int \<Rightarrow> bool \<Rightarrow> 'e Store \<Rightarrow> (goerr, Member list, 'e Store) res" where
  "zPopMinMax P E db key n mx s =
     bindE (loadAgg P E db key TypeZSet s) (\<lambda>a s1.
       if a_zset a = [] then (Inr [], s1)
       else if n < 0 then (Inl GoPanic, s1)
       else
         let out = take (nat n) (sortedMembers (a_zset a) mx)
         in bindE (zRem P E db key (map m_member out) s1) (\<lambda>_ s2. (Inr out, s2)))"

section \<open>Ranges\<close>

definition indexRange :: "'a list \<Rightarrow> int \<Rightarrow> int \<Rightarrow> 'a list" where
  "indexRange items start0 stop0 =
     (let n = int (length items);
          start1 = (if start0 < 0 then start0 + n else start0);
          stop1 = (if stop0 < 0 then stop0 + n else stop0);
          start = (if start1 < 0 then 0 else start1);
          stop = (if stop1 \<ge> n then n - 1 else stop1)
      in if start > stop \<or> start \<ge> n \<or> n = 0 then []
         else take (nat (stop - start + 1)) (drop (nat start) items))"

definition scoreInRange :: "f64 \<Rightarrow> f64 \<Rightarrow> bool \<Rightarrow> bool \<Rightarrow> Member \<Rightarrow> bool" where
  "scoreInRange mn mx minEx maxEx m \<longleftrightarrow>
     \<not> (if minEx then f64_le (m_score m) mn else f64_less (m_score m) mn) \<and>
     \<not> (if maxEx then f64_le mx (m_score m) else f64_less mx (m_score m))"

definition filterByScoreRange :: "Member list \<Rightarrow> f64 \<Rightarrow> f64 \<Rightarrow> bool \<Rightarrow> bool \<Rightarrow> Member list" where
  "filterByScoreRange items mn mx minEx maxEx = filter (scoreInRange mn mx minEx maxEx) items"

definition applyLimit :: "'a list \<Rightarrow> int \<Rightarrow> int \<Rightarrow> 'a list" where
  "applyLimit items off count =
     (if off < 0 then [] else if off \<ge> int (length items) then []
      else if count < 0 then drop (nat off) items else take (nat count) (drop (nat off) items))"

definition parseScoreBound :: "bytes \<Rightarrow> goerr + (f64 \<times> bool)" where
  "parseScoreBound b =
     (let excl = (b \<noteq> [] \<and> hd b = 40); s = (if excl then tl b else b)
      in if map to_lower s = ascii ''+inf'' then Inr (f64_posinf, excl)
         else if map to_lower s = ascii ''-inf'' then Inr (f64_neginf, excl)
         else (case parse_float s of
                 None \<Rightarrow> Inl (ProtoError ''ERR min or max is not a float'')
               | Some v \<Rightarrow> Inr (v, excl)))"

record zRangeOpts =
  zr_byScore :: bool
  zr_byLex :: bool
  zr_rev :: bool
  zr_withScore :: bool
  zr_offset :: int
  zr_count :: int
  zr_hasLimit :: bool

definition noZRange :: zRangeOpts where
  "noZRange = \<lparr>zr_byScore = False, zr_byLex = False, zr_rev = False, zr_withScore = False,
     zr_offset = 0, zr_count = -1, zr_hasLimit = False\<rparr>"

function zRangeOptLoop :: "bytes list \<Rightarrow> zRangeOpts \<Rightarrow> goerr + zRangeOpts" where
  "zRangeOptLoop [] opt = Inr opt"
| "zRangeOptLoop (a # rest) opt =
     (if map to_upper a = ascii ''BYSCORE'' then zRangeOptLoop rest (opt\<lparr>zr_byScore := True\<rparr>)
      else if map to_upper a = ascii ''BYLEX'' then zRangeOptLoop rest (opt\<lparr>zr_byLex := True\<rparr>)
      else if map to_upper a = ascii ''REV'' then zRangeOptLoop rest (opt\<lparr>zr_rev := True\<rparr>)
      else if map to_upper a = ascii ''WITHSCORES'' then zRangeOptLoop rest (opt\<lparr>zr_withScore := True\<rparr>)
      else if map to_upper a = ascii ''LIMIT'' then
        (if length rest < 2 then Inl ErrSyntax
         else case toInt64 (rest ! 0) of
                Inl err \<Rightarrow> Inl err
              | Inr off \<Rightarrow>
                  (case toInt64 (rest ! 1) of
                     Inl err \<Rightarrow> Inl err
                   | Inr cnt \<Rightarrow> zRangeOptLoop (drop 2 rest) (opt\<lparr>zr_offset := off, zr_count := cnt, zr_hasLimit := True\<rparr>)))
      else Inl ErrSyntax)"
  by pat_completeness auto
termination by (relation "measure (\<lambda>(args, opt). length args)") auto

definition parseZRangeOpts :: "bytes list \<Rightarrow> goerr + zRangeOpts" where
  "parseZRangeOpts rest =
     (case zRangeOptLoop rest noZRange of
        Inl err \<Rightarrow> Inl err
      | Inr opt \<Rightarrow> if zr_byScore opt \<and> zr_byLex opt then Inl ErrSyntax else Inr opt)"

definition limited :: "zRangeOpts \<Rightarrow> 'a list \<Rightarrow> 'a list" where
  "limited opt items = (if zr_hasLimit opt then applyLimit items (zr_offset opt) (zr_count opt) else items)"

section \<open>Replies\<close>

definition f64_integral :: "f64 \<Rightarrow> bool" where
  "f64_integral f \<longleftrightarrow> f64_scaled f mod 2 ^ 1074 = 0"

definition formatFloat :: "f64 \<Rightarrow> bytes" where
  "formatFloat f =
     (if f = f64_posinf then ascii ''inf'' else if f = f64_neginf then ascii ''-inf''
      else if f64_nan f then ascii ''nan''
      else if f64_integral f \<and> \<bar>f64_trunc f\<bar> \<le> 10 ^ 17 then format_int (f64_trunc f)
      else format_g f)"

definition writeMembers :: "Member list \<Rightarrow> bool \<Rightarrow> reply list" where
  "writeMembers items withScores =
     RArray (int (length items) * (if withScores then 2 else 1))
     # concat (map (\<lambda>m. RBulk (m_member m) # (if withScores then [RBulk (formatFloat (m_score m))] else [])) items)"

end
