(* ===== verification/Generic.thy ===== *)
theory Generic
  imports Lists ZSets
begin

text \<open>
  \<open>cmd_generic.go\<close>: the commands on the key space and \<open>SCAN\<close> with its table of cursors.  A visitor of a
  scan may change the store; the iterator reads the snapshot it was opened on.
\<close>

section \<open>Deleting and describing keys\<close>

fun delKeys :: "'e pebble \<Rightarrow> Env \<Rightarrow> dbid \<Rightarrow> bytes list \<Rightarrow> int \<Rightarrow> 'e Store \<Rightarrow> (goerr, int, 'e Store) res" where
  "delKeys P E db [] n s = (Inr n, s)"
| "delKeys P E db (k # ks) n s =
     bindE (getTyped P E db k s) (\<lambda>r s1.
       if r = None then delKeys P E db ks n s1
       else bindE (deleteKey P E db k s1) (\<lambda>_ s2. delKeys P E db ks (n + 1) s2))"

definition cmdDel :: "'e pebble \<Rightarrow> Env \<Rightarrow> dbid \<Rightarrow> string \<Rightarrow> bytes list \<Rightarrow> 'e handler" where
  "cmdDel P E db nm args s =
     withArity nm args (-1) s (bindE (delKeys P E db args 0 s) (\<lambda>n s1. (Inr [RInt n], s1)))"

definition cmdExists :: "'e pebble \<Rightarrow> Env \<Rightarrow> dbid \<Rightarrow> string \<Rightarrow> bytes list \<Rightarrow> 'e handler" where
  "cmdExists P E db nm args s =
     withArity nm args (-1) s (bindE (exists P E db args 0 s) (\<lambda>n s1. (Inr [RInt n], s1)))"

definition cmdType :: "'e pebble \<Rightarrow> Env \<Rightarrow> dbid \<Rightarrow> string \<Rightarrow> bytes list \<Rightarrow> 'e handler" where
  "cmdType P E db nm args s =
     withArity nm args 1 s
       (bindE (typeOf P E db (args ! 0) s) (\<lambda>t s1.
          case t of
            Some typ \<Rightarrow> (Inr [RString (TypeName typ)], s1)
          | None \<Rightarrow>
              bindS (streamExists P db (args ! 0) s1) s1 (\<lambda>sok.
                (Inr [RString (if sok then ''stream'' else ''none'')], s1))))"

definition cmdTTL :: "'e pebble \<Rightarrow> Env \<Rightarrow> dbid \<Rightarrow> string \<Rightarrow> bytes list \<Rightarrow> 'e handler" where
  "cmdTTL P E db nm args s =
     withArity nm args 1 s
       (let (ms, s1) = ttlOf P E db (args ! 0) s
        in (Inr [RInt (if ms = -1 \<or> ms = -2 then ms else go_div (wrap64 (ms + 999)) 1000)], s1))"

definition cmdPTTL :: "'e pebble \<Rightarrow> Env \<Rightarrow> dbid \<Rightarrow> string \<Rightarrow> bytes list \<Rightarrow> 'e handler" where
  "cmdPTTL P E db nm args s =
     withArity nm args 1 s (let (ms, s1) = ttlOf P E db (args ! 0) s in (Inr [RInt ms], s1))"

definition cmdTouch :: "'e pebble \<Rightarrow> Env \<Rightarrow> dbid \<Rightarrow> string \<Rightarrow> bytes list \<Rightarrow> 'e handler" where
  "cmdTouch P E db nm args s =
     withArity nm args (-1) s
       (bindE (foldl (\<lambda>acc k. bindE acc (\<lambda>n s1. bindE (getTyped P E db k s1) (\<lambda>r s2.
                 (Inr (if r \<noteq> None then n + 1 else n), s2)))) (Inr 0, s) args)
          (\<lambda>n s1. (Inr [RInt n], s1)))"

section \<open>Expiry\<close>

definition expireAbsTime :: "gotime \<Rightarrow> int \<Rightarrow> int \<Rightarrow> goerr + gotime" where
  "expireAbsTime now value mult =
     (let ms = wrap64 (value * mult)
      in if mult \<noteq> 0 \<and> value \<noteq> 0 \<and> go_div ms mult \<noteq> value then Inl ErrInvalidExpire
         else
           let nowMs = UnixMilli now; ab = wrap64 (nowMs + ms)
           in if (ms > 0 \<and> ab < nowMs) \<or> (ms < 0 \<and> ab > nowMs) then Inl ErrInvalidExpire
              else Inr (time_UnixMilli ab))"

definition expireAtCmd :: "'e pebble \<Rightarrow> Env \<Rightarrow> dbid \<Rightarrow> bytes \<Rightarrow> gotime \<Rightarrow> ExpireOption \<Rightarrow> 'e handler" where
  "expireAtCmd P E db key at opt s = bindE (setExpiry P E db key at opt s) (\<lambda>n s1. (Inr [RInt n], s1))"

definition expireRelCmd :: "'e pebble \<Rightarrow> Env \<Rightarrow> dbid \<Rightarrow> string \<Rightarrow> bytes list \<Rightarrow> int \<Rightarrow> 'e handler" where
  "expireRelCmd P E db nm args mult s =
     withArity nm args (-2) s
       (bindS (toInt64 (args ! 1)) s (\<lambda>v.
          bindS (expireAbsTime (clock_Now (env_now E)) v mult) s (\<lambda>at.
            bindS (parseExpireOption (drop 2 args)) s (\<lambda>opt. expireAtCmd P E db (args ! 0) at opt s))))"

definition cmdExpire :: "'e pebble \<Rightarrow> Env \<Rightarrow> dbid \<Rightarrow> string \<Rightarrow> bytes list \<Rightarrow> 'e handler" where
  "cmdExpire P E db nm args s = expireRelCmd P E db nm args 1000 s"

definition cmdPExpire :: "'e pebble \<Rightarrow> Env \<Rightarrow> dbid \<Rightarrow> string \<Rightarrow> bytes list \<Rightarrow> 'e handler" where
  "cmdPExpire P E db nm args s = expireRelCmd P E db nm args 1 s"

definition cmdExpireAt :: "'e pebble \<Rightarrow> Env \<Rightarrow> dbid \<Rightarrow> string \<Rightarrow> bytes list \<Rightarrow> 'e handler" where
  "cmdExpireAt P E db nm args s =
     withArity nm args (-2) s
       (bindS (toInt64 (args ! 1)) s (\<lambda>ts. bindS (parseExpireOption (drop 2 args)) s (\<lambda>opt.
          expireAtCmd P E db (args ! 0) (time_Unix ts 0) opt s)))"

definition cmdPExpireAt :: "'e pebble \<Rightarrow> Env \<Rightarrow> dbid \<Rightarrow> string \<Rightarrow> bytes list \<Rightarrow> 'e handler" where
  "cmdPExpireAt P E db nm args s =
     withArity nm args (-2) s
       (bindS (toInt64 (args ! 1)) s (\<lambda>ts. bindS (parseExpireOption (drop 2 args)) s (\<lambda>opt.
          expireAtCmd P E db (args ! 0) (time_UnixMilli ts) opt s)))"

definition cmdPersist :: "'e pebble \<Rightarrow> Env \<Rightarrow> dbid \<Rightarrow> string \<Rightarrow> bytes list \<Rightarrow> 'e handler" where
  "cmdPersist P E db nm args s =
     withArity nm args 1 s (bindE (persist P E db (args ! 0) s) (\<lambda>ok s1. (Inr [RInt (btoi ok)], s1)))"

section \<open>Whole databases\<close>

definition keysVisit ::
  "'e pebble \<Rightarrow> Env \<Rightarrow> dbid \<Rightarrow> (bytes \<Rightarrow> bool) \<Rightarrow> bytes list \<times> 'e Store \<Rightarrow> bytes \<Rightarrow> goerr option \<times> bytes list \<times> 'e Store" where
  "keysVisit P E db mt st k =
     (case st of (out, s) \<Rightarrow>
        let key = KeyFromDataKey k in
        if key = [] then (None, out, s)
        else case keyAlive P E db key (env_now E) s of
               (alive, s1) \<Rightarrow> (None, if alive \<and> mt key then out @ [key] else out, s1))"

definition cmdKeys :: "'e pebble \<Rightarrow> Env \<Rightarrow> dbid \<Rightarrow> string \<Rightarrow> bytes list \<Rightarrow> 'e handler" where
  "cmdKeys P E db nm args s =
     withArity nm args 1 s
       (let mt = (if args ! 0 = ascii ''*'' then (\<lambda>_. True) else match (args ! 0))
        in case ScanKeys P (s_eng s) (DataPrefix db) (keysVisit P E db mt) ([], s) of
             (Some err, out, s1) \<Rightarrow> (Inl err, s1)
           | (None, out, s1) \<Rightarrow> (Inr (replyArray out), s1))"

definition dict_Len :: "dbid \<Rightarrow> Dict \<Rightarrow> nat" where
  "dict_Len db d = (case d_dbs d db of None \<Rightarrow> 0 | Some ds \<Rightarrow> sum_list (map length (ds_shards ds)))"

text \<open>The name in a stream entry key ends at the first zero byte.\<close>

definition dbsizeVisit :: "Env \<Rightarrow> dbid \<Rightarrow> int \<times> bytes \<times> 'e Store \<Rightarrow> bytes \<Rightarrow> goerr option \<times> int \<times> bytes \<times> 'e Store" where
  "dbsizeVisit E db st k =
     (case st of (n, lst, s) \<Rightarrow>
        let name = takeWhile (\<lambda>c. c \<noteq> 0) (drop 3 k) in
        if name = [] \<or> name = lst then (None, n, lst, s)
        else case Lookup E db name (s_dict s) of
               (e, d) \<Rightarrow> (None, if e = None then n + 1 else n, name, s\<lparr>s_dict := d\<rparr>))"

definition cmdDBSize :: "'e pebble \<Rightarrow> Env \<Rightarrow> dbid \<Rightarrow> string \<Rightarrow> bytes list \<Rightarrow> 'e handler" where
  "cmdDBSize P E db nm args s =
     withArity nm args 0 s
       (case ScanKeys P (s_eng s) (take 3 (streamEntryPrefix db [])) (dbsizeVisit E db) (int (dict_Len db (s_dict s)), [], s) of
          (err, n, lst, s1) \<Rightarrow> (Inr [RInt n], s1))"

definition flushArgsOK :: "bytes list \<Rightarrow> bool" where
  "flushArgsOK args \<longleftrightarrow>
     length args \<le> 1 \<and> (length args = 1 \<longrightarrow> fold_equal (args ! 0) ''async'' \<or> fold_equal (args ! 0) ''sync'')"

definition cmdFlushDB :: "'e pebble \<Rightarrow> Env \<Rightarrow> dbid \<Rightarrow> bytes list \<Rightarrow> 'e handler" where
  "cmdFlushDB P E db args s =
     (if \<not> flushArgsOK args then (Inl ErrSyntax, s)
      else bindE (flushDB P E db s) (\<lambda>_ s1. (Inr writeOK, s1)))"

fun flushDBs :: "'e pebble \<Rightarrow> Env \<Rightarrow> nat list \<Rightarrow> 'e Store \<Rightarrow> (goerr, unit, 'e Store) res" where
  "flushDBs P E [] s = (Inr (), s)"
| "flushDBs P E (db # dbs) s = bindE (flushDB P E (of_nat db) s) (\<lambda>_ s1. flushDBs P E dbs s1)"

definition cmdFlushAll :: "'e pebble \<Rightarrow> Env \<Rightarrow> bytes list \<Rightarrow> 'e handler" where
  "cmdFlushAll P E args s =
     (if \<not> flushArgsOK args then (Inl ErrSyntax, s)
      else bindE (flushDBs P E [0..<d_dbCount (s_dict s)] s) (\<lambda>_ s1. (Inr writeOK, s1)))"

definition cmdRename :: "'e pebble \<Rightarrow> Env \<Rightarrow> dbid \<Rightarrow> string \<Rightarrow> bytes list \<Rightarrow> 'e handler" where
  "cmdRename P E db nm args s =
     withArity nm args 2 s (bindE (rename P E db (args ! 0) (args ! 1) False s) (\<lambda>_ s1. (Inr writeOK, s1)))"

definition cmdRenameNX :: "'e pebble \<Rightarrow> Env \<Rightarrow> dbid \<Rightarrow> string \<Rightarrow> bytes list \<Rightarrow> 'e handler" where
  "cmdRenameNX P E db nm args s =
     withArity nm args 2 s
       (bindE (getTyped P E db (args ! 1) s) (\<lambda>r s1.
          if r \<noteq> None then (Inr [RInt 0], s1)
          else bindE (rename P E db (args ! 0) (args ! 1) True s1) (\<lambda>_ s2. (Inr [RInt 1], s2))))"

section \<open>The table of cursors\<close>

text \<open>The wall clock \<open>now\<close> is in nanoseconds; ids are \<open>uint64\<close>.\<close>

definition scanCursorTTL :: int where "scanCursorTTL = 5 * 60 * Second"
definition maxScanCursors :: nat where "maxScanCursors = 4096"

record scanCursorEntry =
  ce_key :: bytes
  ce_db :: dbid
  ce_expiry :: int

record scanCursorTable =
  ct_next :: "64 word"
  ct_byID :: "(64 word \<times> scanCursorEntry) list"

definition newScanCursorTable :: scanCursorTable where
  "newScanCursorTable = \<lparr>ct_next = 0, ct_byID = []\<rparr>"

definition pruneCursors :: "int \<Rightarrow> scanCursorTable \<Rightarrow> (64 word \<times> scanCursorEntry) list" where
  "pruneCursors now t =
     (if length (ct_byID t) \<ge> maxScanCursors
      then filter (\<lambda>(cid, e). \<not> (now > ce_expiry e \<or> cid < ct_next t - of_nat (maxScanCursors div 2))) (ct_byID t)
      else ct_byID t)"

definition allocCursor :: "int \<Rightarrow> bytes \<Rightarrow> dbid \<Rightarrow> scanCursorTable \<Rightarrow> 64 word \<times> scanCursorTable" where
  "allocCursor now key db t =
     (let cid = (if ct_next t + 1 = 0 then 1 else ct_next t + 1)
      in (cid, \<lparr>ct_next = cid, ct_byID = AList.update cid
                 \<lparr>ce_key = key, ce_db = db, ce_expiry = now + scanCursorTTL\<rparr> (pruneCursors now t)\<rparr>))"

definition lookupCursor :: "int \<Rightarrow> 64 word \<Rightarrow> dbid \<Rightarrow> scanCursorTable \<Rightarrow> bytes" where
  "lookupCursor now cid db t =
     (case map_of (ct_byID t) cid of
        None \<Rightarrow> []
      | Some e \<Rightarrow> if ce_db e \<noteq> db \<or> now > ce_expiry e then [] else ce_key e)"

section \<open>SCAN\<close>

record scanArgs =
  sa_match :: "bytes option"
  sa_type :: bytes
  sa_count :: int

fun parseScanArgs :: "bytes list \<Rightarrow> scanArgs \<Rightarrow> goerr + scanArgs" where
  "parseScanArgs (a # v # rest) o' =
     (let u = map to_upper a in
      if u = ascii ''MATCH'' then parseScanArgs rest (o'\<lparr>sa_match := Some v\<rparr>)
      else if u = ascii ''COUNT'' then
        (case parse_int v of
           None \<Rightarrow> Inl ErrNotInteger
         | Some n \<Rightarrow> if n \<le> 0 then Inl ErrSyntax else parseScanArgs rest (o'\<lparr>sa_count := n\<rparr>))
      else if u = ascii ''TYPE'' then parseScanArgs rest (o'\<lparr>sa_type := map to_lower v\<rparr>)
      else Inl ErrSyntax)"
| "parseScanArgs _ o' = Inr o'"

record 'e scanState =
  st_batch :: "bytes list"
  st_last :: bytes
  st_store :: "'e Store"

definition scanVisit ::
  "'e pebble \<Rightarrow> Env \<Rightarrow> dbid \<Rightarrow> scanArgs \<Rightarrow> 'e scanState \<Rightarrow> bytes \<Rightarrow> goerr option \<times> 'e scanState" where
  "scanVisit P E db o' st k =
     (if int (length (st_batch st)) \<ge> sa_count o' then (Some ErrStop, st)
      else
        let key = KeyFromDataKey k in
        if key = [] then (None, st)
        else
          (case keyAlive P E db key (env_now E) (st_store st) of (alive, s1) \<Rightarrow>
             let st1 = st\<lparr>st_last := k, st_store := s1\<rparr>;
                 take_it = (\<lambda>st. (None, if (case sa_match o' of None \<Rightarrow> True | Some p \<Rightarrow> match p key)
                                        then st\<lparr>st_batch := st_batch st @ [key]\<rparr> else st))
             in if \<not> alive then (None, st1)
                else if sa_type o' = [] then take_it st1
                else (case typeOf P E db key s1 of
                        (Inl err, s2) \<Rightarrow> (Some err, st1\<lparr>st_store := s2\<rparr>)
                      | (Inr t, s2) \<Rightarrow>
                          if (case t of None \<Rightarrow> True | Some typ \<Rightarrow> ascii (TypeName typ) \<noteq> sa_type o')
                          then (None, st1\<lparr>st_store := s2\<rparr>) else take_it (st1\<lparr>st_store := s2\<rparr>))))"

text \<open>The batch is allocated with the requested capacity, 16 bytes per element; beyond the largest
  allocation the run-time panics.\<close>

definition maxAlloc :: int where "maxAlloc = 2 ^ 48"

definition scanFrom ::
  "'e pebble \<Rightarrow> Env \<Rightarrow> int \<Rightarrow> dbid \<Rightarrow> scanArgs \<Rightarrow> bytes \<Rightarrow> 'e Store \<times> scanCursorTable
     \<Rightarrow> (goerr, reply list, 'e Store \<times> scanCursorTable) res" where
  "scanFrom P E wall db o' startKey st =
     (case st of (s, t) \<Rightarrow>
        if sa_count o' * 16 > maxAlloc then (Inl GoPanic, st)
        else case ScanKeysFrom P (s_eng s) (DataPrefix db) startKey (scanVisit P E db o')
                    \<lparr>st_batch = [], st_last = [], st_store = s\<rparr> of
               (err, r) \<Rightarrow>
                 if err \<noteq> None \<and> err \<noteq> Some ErrStop then (Inl (the err), st_store r, t)
                 else
                   let (nxt, t') = (if err = Some ErrStop \<and> length (st_last r) > 0
                                    then (case allocCursor wall (st_last r) db t of (cid, t') \<Rightarrow> (format_uint (unat cid), t'))
                                    else (ascii ''0'', t))
                   in (Inr ([RArray 2, RBulk nxt] @ replyArray (st_batch r)), st_store r, t'))"

definition cmdScan ::
  "'e pebble \<Rightarrow> Env \<Rightarrow> int \<Rightarrow> dbid \<Rightarrow> string \<Rightarrow> bytes list \<Rightarrow> 'e Store \<times> scanCursorTable
     \<Rightarrow> (goerr, reply list, 'e Store \<times> scanCursorTable) res" where
  "cmdScan P E wall db nm args st =
     (case checkArgLen nm (length args) (-1) of
        Some err \<Rightarrow> (Inl err, st)
      | None \<Rightarrow>
          if (length args - 1) mod 2 \<noteq> 0 then (Inl ErrSyntax, st)
          else
            (case (if args ! 0 = ascii ''0'' then Some []
                   else map_option (\<lambda>cid. lookupCursor wall (of_nat cid) db (snd st)) (parse_uint (args ! 0))) of
               None \<Rightarrow> (Inl (ProtoError ''ERR invalid cursor''), st)
             | Some startKey \<Rightarrow>
                 (case parseScanArgs (drop 1 args) \<lparr>sa_match = None, sa_type = [], sa_count = 10\<rparr> of
                    Inl err \<Rightarrow> (Inl err, st)
                  | Inr o' \<Rightarrow> scanFrom P E wall db o' startKey st)))"

end
