(* ===== verification/Replies.thy ===== *)
theory Replies
  imports Handlers
begin

text \<open>
  The reply stream. RESP replies are self-delimiting: an array header announces how many values
  follow, nested arrays included. \<open>resp_rest\<close> reads that grammar, and \<open>one_reply\<close> says that a handler
  wrote exactly one value, so that the client and the server stay in step. The second part follows
  a client through the cursor pages of \<open>SSCAN\<close>, \<open>HSCAN\<close> and \<open>ZSCAN\<close>.
\<close>

section \<open>The reply grammar\<close>

text \<open>\<open>resp_rest n rs\<close> reads \<open>n\<close> values from \<open>rs\<close> and returns what is left; a negative count is the null
  array.\<close>

fun resp_rest :: "nat \<Rightarrow> reply list \<Rightarrow> reply list option" where
  "resp_rest 0 rs = Some rs"
| "resp_rest (Suc n) [] = None"
| "resp_rest (Suc n) (r # rs) = (case r of RArray k \<Rightarrow> resp_rest (nat k + n) rs | _ \<Rightarrow> resp_rest n rs)"

definition one_reply :: "reply list \<Rightarrow> bool" where
  "one_reply rs \<longleftrightarrow> resp_rest 1 rs = Some []"

definition is_scalar :: "reply \<Rightarrow> bool" where
  "is_scalar r = (case r of RArray _ \<Rightarrow> False | _ \<Rightarrow> True)"

lemma is_scalar_simps [simp]:
  "is_scalar (RString x)" "is_scalar (RBulk b)" "is_scalar (RInt i)" "is_scalar RNull" "is_scalar (RError e)"
  "\<not> is_scalar (RArray k)" "is_scalar (writeBulk v)"
  by (simp_all add: is_scalar_def writeBulk_def split: option.split)

lemma resp_rest_scalar [simp]: "is_scalar r \<Longrightarrow> resp_rest (Suc n) (r # rs) = resp_rest n rs"
  by (cases r) auto

lemma resp_rest_array [simp]: "resp_rest (Suc n) (RArray k # rs) = resp_rest (nat k + n) rs"
  by simp

declare resp_rest.simps(3) [simp del]

lemma resp_rest_scalars:
  "list_all is_scalar xs \<Longrightarrow> resp_rest (length xs + n) (xs @ rs) = resp_rest n rs"
  by (induction xs) auto

lemma resp_rest_map [simp]:
  "(\<And>x. is_scalar (f x)) \<Longrightarrow> resp_rest (length xs) (map f xs) = Some []"
  using resp_rest_scalars[of "map f xs" 0 "[]"] by (simp add: list_all_iff)

lemma resp_rest_map_args [simp]:
  assumes "\<And>x. is_scalar (f x)"
  shows "resp_rest (nat (int (length xs) - 1)) (map f (drop (Suc 0) xs)) = Some []"
proof -
  have "nat (int (length xs) - 1) = length (drop (Suc 0) xs)" by simp
  then show ?thesis using resp_rest_map[of f "drop (Suc 0) xs"] assms by presburger
qed

lemma resp_rest_2 [simp]: "is_scalar r \<Longrightarrow> resp_rest 2 (r # rs) = resp_rest (Suc 0) rs"
  by (simp add: numeral_2_eq_2)

lemma resp_rest_append:
  "resp_rest n xs = Some [] \<Longrightarrow> resp_rest (n + m) (xs @ ys) = resp_rest m ys"
proof (induction n xs rule: resp_rest.induct)
  case (3 n r rs)
  then show ?case by (cases r) (auto simp: add.assoc resp_rest.simps(3))
qed auto

lemma resp_rest_concat:
  "(\<And>x. x \<in> set xs \<Longrightarrow> resp_rest k (f x) = Some []) \<Longrightarrow> resp_rest (k * length xs) (concat (map f xs)) = Some []"
proof (induction xs)
  case (Cons x xs)
  then have "resp_rest (k + k * length xs) (f x @ concat (map f xs)) = resp_rest (k * length xs) (concat (map f xs))"
    by (intro resp_rest_append) simp
  with Cons show ?case by simp
qed simp

lemma resp_rest_pairs [simp]:
  assumes "\<And>x. resp_rest 2 (f x) = Some []"
  shows "resp_rest (nat (int (length xs) * 2)) (concat (map f xs)) = Some []"
proof -
  have "nat (int (length xs) * 2) = 2 * length xs" by simp
  then show ?thesis using resp_rest_concat[of xs 2 f] assms by presburger
qed

named_theorems reply_intros

lemma one_empty [reply_intros]: "one_reply [RArray 0]" "one_reply [if b then RNull else RArray 0]"
  by (simp_all add: one_reply_def)

lemma one_scalar [reply_intros]: "is_scalar r \<Longrightarrow> one_reply [r]"
  by (simp add: one_reply_def)

lemma one_array [reply_intros]:
  "resp_rest (nat n) rs = Some [] \<Longrightarrow> one_reply (RArray n # rs)"
  by (simp add: one_reply_def)

lemma one_flat [reply_intros]: "list_all is_scalar xs \<Longrightarrow> n = int (length xs) \<Longrightarrow> one_reply (RArray n # xs)"
  using resp_rest_scalars[of xs 0 "[]"] by (simp add: one_reply_def)

lemma one_replyArray [reply_intros]: "one_reply (replyArray out)"
  unfolding replyArray_def by (rule one_flat) (simp_all add: list_all_iff)

lemma one_writeOK [reply_intros]: "one_reply writeOK"
  by (simp add: writeOK_def one_reply_def)

text \<open>The predicate on the result of a handler, with one rule per combinator.\<close>

definition replies_ok :: "(goerr, reply list, 's) res \<Rightarrow> bool" where
  "replies_ok r \<longleftrightarrow> (\<forall>rs. fst r = Inr rs \<longrightarrow> one_reply rs)"

lemma replies_ok_Inl [reply_intros]: "replies_ok (Inl e, s)"
  by (simp add: replies_ok_def)

lemma replies_ok_Inr [reply_intros]: "one_reply rs \<Longrightarrow> replies_ok (Inr rs, s)"
  by (simp add: replies_ok_def)

lemma replies_ok_bindE [reply_intros]: "(\<And>v s. replies_ok (f v s)) \<Longrightarrow> replies_ok (bindE r f)"
  by (cases r; cases "fst r") (auto simp: replies_ok_def bindE_def)

lemma replies_ok_bindS [reply_intros]: "(\<And>v. replies_ok (f v)) \<Longrightarrow> replies_ok (bindS r s f)"
  by (cases r) (auto simp: replies_ok_def bindS_def)

lemma replies_ok_withArity [reply_intros]: "replies_ok k \<Longrightarrow> replies_ok (withArity nm args n s k)"
  by (auto simp: replies_ok_def withArity_def split: option.split)

lemma replies_ok_cases [reply_intros]:
  "replies_ok x \<Longrightarrow> replies_ok y \<Longrightarrow> replies_ok (if b then x else y)"
  "replies_ok x \<Longrightarrow> (\<And>v. replies_ok (f v)) \<Longrightarrow> replies_ok (case opt of None \<Rightarrow> x | Some v \<Rightarrow> f v)"
  "(\<And>e. replies_ok (g e)) \<Longrightarrow> (\<And>v. replies_ok (f v)) \<Longrightarrow> replies_ok (case r of Inl e \<Rightarrow> g e | Inr v \<Rightarrow> f v)"
  "(\<And>a b. replies_ok (h a b)) \<Longrightarrow> replies_ok (case p of (a, b) \<Rightarrow> h a b)"
  by (simp_all split: option.split sum.split prod.split)

lemma scalar_intros [reply_intros]:
  "is_scalar (RString x)" "is_scalar (RBulk b)" "is_scalar (RInt i)" "is_scalar RNull" "is_scalar (writeBulk v)"
  "is_scalar r \<Longrightarrow> is_scalar r' \<Longrightarrow> is_scalar (if c then r else r')"
  "is_scalar r \<Longrightarrow> (\<And>v. is_scalar (f v)) \<Longrightarrow> is_scalar (case opt of None \<Rightarrow> r | Some v \<Rightarrow> f v)"
  by (simp_all split: option.split)

lemma one_reply_if [reply_intros]: "one_reply x \<Longrightarrow> one_reply y \<Longrightarrow> one_reply (if b then x else y)"
  by simp

lemma one_scanPage [reply_intros]: "one_reply (scanPageReply flat cursor count)"
proof -
  have page: "resp_rest (length xs) (map RBulk xs) = Some []" for xs
    using resp_rest_scalars[of "map RBulk xs" 0 "[]"] by (simp add: list_all_iff)
  show ?thesis
    using page[of "take (pageEnd (length flat) cursor count - cursor) (drop cursor flat)"]
    by (simp add: scanPageReply_def one_reply_def Let_def numeral_2_eq_2)
qed

section \<open>Decimal round trip\<close>

lemma nat_digits_nonempty [simp]: "nat_digits n \<noteq> []"
  by (subst nat_digits.simps) simp

lemma digit_byte: "d < 10 \<Longrightarrow> is_digit (48 + of_nat d) \<and> uint (48 + of_nat d :: byte) = 48 + int d"
  by (simp add: is_digit_def word_le_nat_alt unat_word_ariths unat_of_nat uint_nat nat_add_distrib)

lemma nat_digits_ok: "list_all is_digit (nat_digits n) \<and> digits_val (nat_digits n) = int n"
proof (induction n rule: nat_digits.induct)
  case (1 n)
  show ?case
  proof (cases "n < 10")
    case True
    then show ?thesis using digit_byte[of n] by (subst (1 2) nat_digits.simps) (simp add: digits_val_def)
  next
    case False
    with 1 have "list_all is_digit (nat_digits (n div 10))" "digits_val (nat_digits (n div 10)) = int (n div 10)" by auto
    then show ?thesis using False digit_byte[of "n mod 10"]
      by (subst (1 2) nat_digits.simps) (simp add: digits_val_def zmod_int zdiv_int)
  qed
qed

lemma parse_format_uint [simp]: "n < 2 ^ 64 \<Longrightarrow> parse_uint (format_uint n) = Some n"
  using nat_digits_ok[of n] by (simp add: parse_uint_def format_uint_def)

lemma format_uint_inject: "n < 2 ^ 64 \<Longrightarrow> m < 2 ^ 64 \<Longrightarrow> format_uint n = format_uint m \<longleftrightarrow> n = m"
  by (metis parse_format_uint option.inject)

lemma format_uint_0: "format_uint 0 = ascii ''0''"
  by (simp add: format_uint_def nat_digits.simps ascii_def)

section \<open>A client that follows the cursors\<close>

text \<open>What a client does: it sends the cursor, keeps the page and goes on with the cursor of the reply until
  that is \<open>0\<close>. \<open>serve\<close> answers one call; the client gives up after \<open>fuel\<close> calls.\<close>

fun scan_client :: "(bytes \<Rightarrow> reply list) \<Rightarrow> nat \<Rightarrow> bytes \<Rightarrow> reply list option" where
  "scan_client serve 0 cursor = None"
| "scan_client serve (Suc fuel) cursor =
     (case serve cursor of
        RArray _ # RBulk next # RArray _ # page \<Rightarrow>
          if next = ascii ''0'' then Some page
          else (case scan_client serve fuel next of None \<Rightarrow> None | Some rest \<Rightarrow> Some (page @ rest))
      | _ \<Rightarrow> None)"

text \<open>The server side of one page: the cursor is read back with \<open>strconv.ParseUint\<close>.\<close>

definition serve_page :: "bytes list \<Rightarrow> int \<Rightarrow> bytes \<Rightarrow> reply list" where
  "serve_page flat count cursor =
     (case parse_uint cursor of None \<Rightarrow> [RError (ProtoError ''ERR invalid cursor'')] | Some c \<Rightarrow> scanPageReply flat c count)"

lemma pageEnd_advances:
  assumes "cursor < len" "len < 2 ^ 64" "count mod 2 ^ 64 \<noteq> 0"
  shows "cursor < pageEnd len cursor count" "pageEnd len cursor count \<le> len"
proof -
  define k where "k = nat (count mod 2 ^ 64)"
  have "0 \<le> count mod 2 ^ 64" "count mod 2 ^ 64 < 2 ^ 64" by simp_all
  then have k: "0 < k" "k < 2 ^ 64" using assms(3) by (simp_all add: k_def del: Euclidean_Rings.pos_mod_sign)
  have "(cursor + k) mod 2 ^ 64 \<noteq> cursor"
  proof
    assume "(cursor + k) mod 2 ^ 64 = cursor"
    moreover have "cursor mod 2 ^ 64 = cursor" using assms by simp
    ultimately have "k mod 2 ^ 64 = 0" by (metis add.right_neutral mod_add_right_eq nat_mod_eq_iff mod_less add_diff_cancel_left' mod_eq_dvd_iff_nat le_add1 dvd_imp_mod_0)
    with k show False by simp
  qed
  then show "cursor < pageEnd len cursor count" "pageEnd len cursor count \<le> len"
    using assms k unfolding pageEnd_def Let_def k_def[symmetric] by auto
qed

lemma scan_client_pages:
  assumes "length flat < 2 ^ 64" "count mod 2 ^ 64 \<noteq> 0"
  shows "cursor < length flat \<or> cursor = 0 \<and> flat = [] \<Longrightarrow> length flat - cursor < fuel \<Longrightarrow>
         scan_client (serve_page flat count) fuel (format_uint cursor) = Some (map RBulk (drop cursor flat))"
proof (induction fuel arbitrary: cursor)
  case (Suc fuel)
  show ?case
  proof (cases "flat = []")
    case True
    with Suc show ?thesis by (simp add: serve_page_def scanPageReply_def)
  next
    case False
    with Suc.prems have c: "cursor < length flat" by auto
    define e where "e = pageEnd (length flat) cursor count"
    note adv = pageEnd_advances[OF c assms, folded e_def]
    have page: "drop cursor flat = take (e - cursor) (drop cursor flat) @ drop e flat"
      using adv by (metis append_take_drop_id drop_drop le_add_diff_inverse2 less_imp_le)
    have serve: "serve_page flat count (format_uint cursor) =
        [RArray 2, RBulk (format_uint (if e \<ge> length flat then 0 else e)), RArray (int (length (take (e - cursor) (drop cursor flat))))]
        @ map RBulk (take (e - cursor) (drop cursor flat))"
      using c assms by (simp add: serve_page_def scanPageReply_def e_def Let_def)
    show ?thesis
    proof (cases "e = length flat")
      case True
      then show ?thesis using page by (simp add: serve format_uint_0)
    next
      case False
      then have "e < length flat" "format_uint e \<noteq> ascii ''0''"
        using adv assms format_uint_inject[of e 0] by (auto simp: format_uint_0)
      moreover have "length flat - e < fuel" using adv Suc.prems c by linarith
      ultimately show ?thesis using Suc.IH[of e] page by (simp add: serve) (metis map_append)
    qed
  qed
qed simp

text \<open>C28: A client that starts an \<open>SSCAN\<close>, \<open>HSCAN\<close> or \<open>ZSCAN\<close> at cursor \<open>0\<close> and follows the cursor of each
  reply terminates after at most one call more than there are elements, and the pages it collects are
  the elements, each exactly once and in order, for every page size the commands accept (the doubled
  counts of \<open>HSCAN\<close> that overflow an \<open>int\<close> included).\<close>

theorem scan_client_terminates:
  assumes "length flat < 2 ^ 64" "count mod 2 ^ 64 \<noteq> 0"
  shows "scan_client (serve_page flat count) (length flat + 1) (ascii ''0'') = Some (map RBulk flat)"
  using scan_client_pages[OF assms, of 0 "length flat + 1"] by (simp add: format_uint_0)

theorem scan_client_terminates_witness:
  "scan_client (serve_page [[97], [98], [99]] 2) (length [[97 :: byte], [98], [99]] + 1) (ascii ''0'')
     = Some (map RBulk [[97], [98], [99]])"
  by (rule scan_client_terminates) simp_all

end
