(* ===== verification/Counters.thy ===== *)
theory Counters
  imports Strings Hashes Numerals Replies "HOL-Library.Multiset"
begin

text \<open>
  Counters: the merge operator of \<open>storage/merge.go\<close>, which Pebble runs over the operands of a key, and the
  commands built on it (\<open>INCR\<close> and its kin of \<open>cmd_string.go\<close>, \<open>INCRBYFLOAT\<close> of \<open>cmd_completion.go\<close>, \<open>HINCRBYFLOAT\<close> of
  \<open>cmd_hash.go\<close>). A \<open>big.Float\<close> of 128 bits is an integer times a power of two, or an infinity; reading one
  from text (\<open>SetString\<close>, \<open>ParseFloat\<close>) is a parameter \<open>rd\<close>, of which the theorems use that it reads decimal
  integers. The merge call of the library is the parameter \<open>mg\<close>.
\<close>

section \<open>Big floats\<close>

datatype bigf = BFin int int | BInf bool

text \<open>Rounding to 128 bits, to even; \<open>bits\<close> is the length of the mantissa.\<close>

fun bits :: "nat \<Rightarrow> nat" where
  "bits n = (if n = 0 then 0 else Suc (bits (n div 2)))"

declare bits.simps [simp del]

definition bigRound :: "int \<Rightarrow> int \<Rightarrow> bigf" where
  "bigRound m e =
     (let k = bits (nat \<bar>m\<bar>) - 128
      in if k = 0 then BFin m e else BFin (sgn m * int (div_even (nat \<bar>m\<bar>) (2 ^ k))) (e + int k))"

definition bigOfInt :: "int \<Rightarrow> bigf" where "bigOfInt n = BFin n 0"

text \<open>Adding infinities of opposite signs panics.\<close>

fun bigAdd :: "bigf \<Rightarrow> bigf \<Rightarrow> goerr + bigf" where
  "bigAdd (BInf a) (BInf b) = (if a \<noteq> b then Inl GoPanic else Inr (BInf a))"
| "bigAdd (BInf a) (BFin m e) = Inr (BInf a)"
| "bigAdd (BFin m e) (BInf b) = Inr (BInf b)"
| "bigAdd (BFin m e) (BFin m' e') =
     (let lo = min e e' in Inr (bigRound (m * 2 ^ nat (e - lo) + m' * 2 ^ nat (e' - lo)) lo))"

definition isInf :: "bigf \<Rightarrow> bool" where
  "isInf v = (case v of BInf _ \<Rightarrow> True | _ \<Rightarrow> False)"

text \<open>\<open>Float64\<close>, \<open>math.Round\<close> (halves away from zero) as an integer, and the distance to it.\<close>

definition bigToF64 :: "int \<Rightarrow> int \<Rightarrow> f64" where
  "bigToF64 m e = (if e \<ge> 0 then f64_round (m * 2 ^ nat e * 2 ^ 1074) 1 else f64_round (m * 2 ^ 1074) (2 ^ nat (- e)))"

definition f64_round_int :: "f64 \<Rightarrow> int" where
  "f64_round_int f = sgn (f64_scaled f) * ((\<bar>f64_scaled f\<bar> + 2 ^ 1073) div 2 ^ 1074)"

text \<open>The double nearest to 1e-9.\<close>

definition nano :: f64 where "nano = 0x3E112E0BE826D695"

definition nearInt :: "f64 \<Rightarrow> bool" where
  "nearInt f \<longleftrightarrow> \<not> f64_infinite f \<and> \<bar>f64_scaled f - f64_round_int f * 2 ^ 1074\<bar> < f64_scaled nano"

text \<open>\<open>Text('f', 17)\<close> with trailing zeros and the point trimmed: the value in units of \<open>10\<^sup>-\<^sup>1\<^sup>7\<close>, rounded to even.\<close>

definition scaled17 :: "int \<Rightarrow> int \<Rightarrow> nat" where
  "scaled17 m e = (if e \<ge> 0 then nat \<bar>m\<bar> * 2 ^ nat e * 10 ^ 17 else div_even (nat \<bar>m\<bar> * 10 ^ 17) (2 ^ nat (- e)))"

definition fixed17 :: "int \<Rightarrow> int \<Rightarrow> bytes" where
  "fixed17 m e =
     (let n = scaled17 m e; frac = nat_digits (n mod 10 ^ 17);
          tail = rev (dropWhile (\<lambda>c. c = 48) (rev (replicate (17 - length frac) 48 @ frac)))
      in (if m < 0 then [45] else []) @ nat_digits (n div 10 ^ 17) @ (if tail = [] then [] else 46 # tail))"

definition formatCounterFloat :: "bigf \<Rightarrow> bytes" where
  "formatCounterFloat v =
     (case v of
        BInf _ \<Rightarrow> ascii ''inf''
      | BFin m e \<Rightarrow> if nearInt (bigToF64 m e) then fixed17 (f64_round_int (bigToF64 m e)) 0 else fixed17 m e)"

section \<open>The merge operator\<close>

definition mergeTagInt :: byte where "mergeTagInt = 1"
definition mergeTagFloat :: byte where "mergeTagFloat = 2"

definition EncodeIntDelta :: "int \<Rightarrow> bytes" where
  "EncodeIntDelta d = mergeTagInt # be64 (word_of_int d)"

definition EncodeFloatDelta :: "bytes \<Rightarrow> bytes" where
  "EncodeFloatDelta s = mergeTagFloat # s"

record counterValueMerger =
  cm_expireAt :: int
  cm_cur :: bigf
  cm_base :: bytes

datatype merger = Counter counterValueMerger | Passthrough bytes

definition addTo :: "counterValueMerger \<Rightarrow> bigf \<Rightarrow> goerr + counterValueMerger" where
  "addTo m d = (case bigAdd (cm_cur m) d of Inl err \<Rightarrow> Inl err | Inr v \<Rightarrow> Inr (m\<lparr>cm_cur := v\<rparr>))"

definition foldOp :: "(bytes \<Rightarrow> bigf option) \<Rightarrow> counterValueMerger \<Rightarrow> bytes \<Rightarrow> goerr + counterValueMerger" where
  "foldOp rd m op =
     (if op = [] then Inr m
      else if hd op = mergeTagInt then
        (if length op < 9 then Inr m else addTo m (bigOfInt (sint (u64_of (take 8 (tl op))))))
      else if hd op = mergeTagFloat then (case rd (tl op) of None \<Rightarrow> Inr m | Some d \<Rightarrow> addTo m d)
      else if hd op = TypeString then
        (case DecodeValue op of
           Inl _ \<Rightarrow> Inr m
         | Inr (typ, expireAt, payload) \<Rightarrow>
             let m1 = (if expireAt > cm_expireAt m then m\<lparr>cm_expireAt := expireAt\<rparr> else m)
             in if payload = [] then Inr m1
                else (case rd payload of None \<Rightarrow> Inr m1 | Some d \<Rightarrow> addTo m1 d))
      else Inr m)"

definition counterMerge :: "(bytes \<Rightarrow> bigf option) \<Rightarrow> bytes \<Rightarrow> goerr + merger" where
  "counterMerge rd value =
     (let m = \<lparr>cm_expireAt = 0, cm_cur = bigOfInt 0, cm_base = value\<rparr> in
      if value = [] then Inr (Counter m)
      else if hd value = mergeTagInt \<or> hd value = mergeTagFloat then
        (case foldOp rd m value of Inl err \<Rightarrow> Inl err | Inr m' \<Rightarrow> Inr (Counter m'))
      else if hd value = TypeString then
        (case DecodeValue value of
           Inl _ \<Rightarrow> Inr (Passthrough value)
         | Inr (typ, expireAt, payload) \<Rightarrow>
             if payload = [] then Inr (Counter (m\<lparr>cm_expireAt := expireAt\<rparr>))
             else (case rd payload of
                     None \<Rightarrow> Inr (Passthrough value)
                   | Some v \<Rightarrow> Inr (Counter (m\<lparr>cm_expireAt := expireAt, cm_cur := v\<rparr>))))
      else Inr (Passthrough value))"

definition mergeFold :: "(bytes \<Rightarrow> bigf option) \<Rightarrow> merger \<Rightarrow> bytes \<Rightarrow> goerr + merger" where
  "mergeFold rd g op =
     (case g of
        Passthrough v \<Rightarrow> Inr g
      | Counter m \<Rightarrow> (case foldOp rd m op of Inl err \<Rightarrow> Inl err | Inr m' \<Rightarrow> Inr (Counter m')))"

definition mergeFinish :: "merger \<Rightarrow> bytes" where
  "mergeFinish g =
     (case g of
        Passthrough v \<Rightarrow> v
      | Counter m \<Rightarrow>
          if isInf (cm_cur m) then cm_base m
          else EncodeValue TypeString (cm_expireAt m) (formatCounterFloat (cm_cur m)))"

text \<open>The value Pebble resolves: the operator started on the first value, the rest folded in.\<close>

definition foldOps :: "(bytes \<Rightarrow> bigf option) \<Rightarrow> bytes list \<Rightarrow> merger \<Rightarrow> goerr + merger" where
  "foldOps rd ops g = foldl (\<lambda>acc op. case acc of Inl err \<Rightarrow> Inl err | Inr h \<Rightarrow> mergeFold rd h op) (Inr g) ops"

definition resolve :: "(bytes \<Rightarrow> bigf option) \<Rightarrow> bytes \<Rightarrow> bytes list \<Rightarrow> goerr + bytes" where
  "resolve rd first ops =
     (case counterMerge rd first of
        Inl err \<Rightarrow> Inl err
      | Inr g \<Rightarrow> (case foldOps rd ops g of Inl err \<Rightarrow> Inl err | Inr h \<Rightarrow> Inr (mergeFinish h)))"

section \<open>The commands\<close>

type_synonym 'e merging = "'e \<Rightarrow> bytes \<Rightarrow> bytes \<Rightarrow> goerr option \<times> 'e"

definition engMerge :: "'e merging \<Rightarrow> bytes \<Rightarrow> bytes \<Rightarrow> 'e Store \<Rightarrow> (goerr, unit, 'e Store) res" where
  "engMerge mg key op s =
     (case mg (s_eng s) key op of (Some err, e) \<Rightarrow> (Inl err, s\<lparr>s_eng := e\<rparr>) | (None, e) \<Rightarrow> (Inr (), s\<lparr>s_eng := e\<rparr>))"

definition getCounterValue :: "'e pebble \<Rightarrow> dbid \<Rightarrow> bytes \<Rightarrow> 'e Store \<Rightarrow> goerr + (bytes \<times> int)" where
  "getCounterValue P db key s =
     (case eng_Get P (s_eng s) (EncodeDataKey db key) of
        Inl err \<Rightarrow> if err = ErrNotFound then Inr ([], 0) else Inl err
      | Inr v \<Rightarrow>
          (case DecodeValue v of
             Inl err \<Rightarrow> Inl err
           | Inr (typ, exp, payload) \<Rightarrow> if typ \<noteq> TypeString then Inl ErrWrongType else Inr (payload, exp)))"

definition incrBy :: "'e pebble \<Rightarrow> 'e merging \<Rightarrow> Env \<Rightarrow> dbid \<Rightarrow> bytes \<Rightarrow> int \<Rightarrow> 'e handler" where
  "incrBy P mg E db key delta s =
     bindE (getTyped P E db key s) (\<lambda>r s1.
       bindS (case r of
                None \<Rightarrow> Inr 0
              | Some (typ, _, cur) \<Rightarrow> if typ \<noteq> TypeString then Inl ErrWrongType else toInt64 cur) s1 (\<lambda>n.
         if add_overflows n delta then (Inl ErrOverflow, s1)
         else bindE (engMerge mg (EncodeDataKey db key) (EncodeIntDelta delta) s1) (\<lambda>_ s2.
           bindS (getCounterValue P db key s2) s2 (\<lambda>(val, exp).
             case parse_int val of
               None \<Rightarrow> (Inl ErrOverflow, s2)
             | Some res \<Rightarrow> (Inr [RInt res], upd_dict (SetCounter E db key exp) s2)))))"

definition cmdIncr :: "'e pebble \<Rightarrow> 'e merging \<Rightarrow> Env \<Rightarrow> dbid \<Rightarrow> string \<Rightarrow> bytes list \<Rightarrow> 'e handler" where
  "cmdIncr P mg E db nm args s = withArity nm args 1 s (incrBy P mg E db (args ! 0) 1 s)"

definition cmdDecr :: "'e pebble \<Rightarrow> 'e merging \<Rightarrow> Env \<Rightarrow> dbid \<Rightarrow> string \<Rightarrow> bytes list \<Rightarrow> 'e handler" where
  "cmdDecr P mg E db nm args s = withArity nm args 1 s (incrBy P mg E db (args ! 0) (-1) s)"

definition cmdIncrBy :: "'e pebble \<Rightarrow> 'e merging \<Rightarrow> Env \<Rightarrow> dbid \<Rightarrow> string \<Rightarrow> bytes list \<Rightarrow> 'e handler" where
  "cmdIncrBy P mg E db nm args s =
     withArity nm args 2 s (bindS (toInt64 (args ! 1)) s (\<lambda>d. incrBy P mg E db (args ! 0) d s))"

definition cmdDecrBy :: "'e pebble \<Rightarrow> 'e merging \<Rightarrow> Env \<Rightarrow> dbid \<Rightarrow> string \<Rightarrow> bytes list \<Rightarrow> 'e handler" where
  "cmdDecrBy P mg E db nm args s =
     withArity nm args 2 s (bindS (toInt64 (args ! 1)) s (\<lambda>d.
       if d = minInt64 then (Inl ErrOverflow, s) else incrBy P mg E db (args ! 0) (- d) s))"

text \<open>\<open>bigParseFloat\<close> (base 10) is a second reader \<open>rd10\<close>.\<close>

definition bigParseFloat :: "(bytes \<Rightarrow> bigf option) \<Rightarrow> bytes \<Rightarrow> goerr + bigf" where
  "bigParseFloat rd10 s =
     (case rd10 s of None \<Rightarrow> Inl ErrNotFloat | Some v \<Rightarrow> if isInf v then Inl ErrNotFloat else Inr v)"

definition formatPrecFloat :: "bigf \<Rightarrow> bytes" where "formatPrecFloat v = formatCounterFloat v"

definition infErr :: goerr where "infErr = ProtoError ''ERR increment would produce NaN or Infinity''"

definition addFloat :: "'e pebble \<Rightarrow> 'e merging \<Rightarrow> Env \<Rightarrow> dbid \<Rightarrow> bytes \<Rightarrow> bigf \<Rightarrow> bigf \<Rightarrow> 'e handler" where
  "addFloat P mg E db key curF inc s =
     bindS (bigAdd curF inc) s (\<lambda>nxt.
       if isInf nxt then (Inl infErr, s)
       else bindE (engMerge mg (EncodeDataKey db key) (EncodeFloatDelta (formatPrecFloat inc)) s) (\<lambda>_ s1.
         bindS (getCounterValue P db key s1) s1 (\<lambda>(val, exp).
           (Inr [RBulk val], upd_dict (SetCounter E db key exp) s1))))"

definition cmdIncrByFloat ::
  "(bytes \<Rightarrow> bigf option) \<Rightarrow> 'e pebble \<Rightarrow> 'e merging \<Rightarrow> Env \<Rightarrow> dbid \<Rightarrow> string \<Rightarrow> bytes list \<Rightarrow> 'e handler" where
  "cmdIncrByFloat rd10 P mg E db nm args s =
     withArity nm args 2 s
       (bindE (getTyped P E db (args ! 0) s) (\<lambda>r s1.
          if (case r of None \<Rightarrow> False | Some (typ, _, _) \<Rightarrow> typ \<noteq> TypeString) then (Inl ErrWrongType, s1)
          else bindS (bigParseFloat rd10 (args ! 1)) s1 (\<lambda>inc.
            bindS (case r of None \<Rightarrow> Inr (bigOfInt 0) | Some (_, _, cur) \<Rightarrow> bigParseFloat rd10 cur) s1 (\<lambda>curF.
              addFloat P mg E db (args ! 0) curF inc s1))))"

definition cmdHIncrByFloat :: "(bytes \<Rightarrow> bigf option) \<Rightarrow> 'e pebble \<Rightarrow> Env \<Rightarrow> dbid \<Rightarrow> string \<Rightarrow> bytes list \<Rightarrow> 'e handler" where
  "cmdHIncrByFloat rd10 P E db nm args s =
     withArity nm args 3 s
       (bindS (bigParseFloat rd10 (args ! 2)) s (\<lambda>inc.
          bindE (loadAgg P E db (args ! 0) TypeHash s) (\<lambda>a s1.
            bindS (case map_of (a_hash a) (args ! 1) of None \<Rightarrow> Inr (bigOfInt 0) | Some v \<Rightarrow> bigParseFloat rd10 v) s1 (\<lambda>curF.
              bindS (bigAdd curF inc) s1 (\<lambda>nxt.
                if isInf nxt then (Inl infErr, s1)
                else bindE (hashSet P E db (args ! 0) [(args ! 1, formatPrecFloat nxt)] False s1) (\<lambda>_ s2.
                  (Inr [RBulk (formatPrecFloat nxt)], s2)))))))"

section \<open>Integers as big floats\<close>

lemma bits_le: "n < 2 ^ k \<Longrightarrow> bits n \<le> k"
proof (induction k arbitrary: n)
  case (Suc k)
  then show ?case by (subst bits.simps) auto
qed (simp add: bits.simps)

lemma bits_bounds: "0 < n \<Longrightarrow> 2 ^ (bits n - 1) \<le> n \<and> n < 2 ^ bits n"
proof (induction n rule: less_induct)
  case (less n)
  show ?case
  proof (cases "n = 1")
    case False
    then have "2 ^ (bits (n div 2) - 1) \<le> n div 2" "n div 2 < 2 ^ bits (n div 2)" "bits n = Suc (bits (n div 2))"
      using less.IH[of "n div 2"] less.prems by (auto simp: bits.simps[of n])
    moreover have "0 < bits (n div 2)" using False less.prems by (subst bits.simps) simp
    ultimately show ?thesis by (cases "bits (n div 2)") auto
  qed (simp add: bits.simps)
qed

lemma bigRound_small: "\<bar>m\<bar> < 2 ^ 128 \<Longrightarrow> bigRound m e = BFin m e"
  using bits_le[of "nat \<bar>m\<bar>" 128] by (simp add: bigRound_def nat_less_iff)

text \<open>An integer below \<open>2\<^sup>53\<close> is a double.\<close>

lemma f64_mag_nat:
  assumes "0 < n" "n < 2 ^ 53"
  shows "f64_mag (f64_mag_of (n * 2 ^ 1074) 1) = n * 2 ^ 1074 \<and> f64_mag_of (n * 2 ^ 1074) 1 < 1077 * 2 ^ 52"
proof -
  define k where "k = bits n"
  define m e where "m = n * 2 ^ (53 - k)" and "e = 1021 + k"
  have k: "2 ^ (k - 1) \<le> n" "n < 2 ^ k" "k \<le> 53" "0 < k"
    using bits_bounds[OF assms(1)] bits_le[OF assms(2)] assms(1) by (auto simp: k_def bits.simps)
  have "(2 :: nat) ^ 52 = 2 ^ (k - 1) * 2 ^ (53 - k)" "(2 :: nat) ^ 53 = 2 ^ k * 2 ^ (53 - k)"
    using k(3,4) by (simp_all flip: power_add)
  moreover have "2 ^ (k - 1) * 2 ^ (53 - k) \<le> m" "m < 2 ^ k * 2 ^ (53 - k)"
    unfolding m_def using k(1,2) by (auto intro: mult_le_mono1 mult_less_mono1)
  ultimately have m: "2 ^ 52 \<le> m" "m < 2 ^ 53" by simp_all
  have eq: "n * 2 ^ 1074 = m * 2 ^ e" using k(3) by (simp add: m_def e_def mult.assoc flip: power_add)
  have mag: "f64_mag_of (n * 2 ^ 1074) 1 = e * 2 ^ 52 + m"
    unfolding eq using m k(3) by (intro f64_mag_of_normal) (simp_all add: e_def)
  obtain r where r: "m = 2 ^ 52 + r" "r < 2 ^ 52" using that[of "m - 2 ^ 52"] m by simp
  have "f64_mag (e * 2 ^ 52 + m) = m * 2 ^ e"
  proof -
    have "e * 2 ^ 52 + m = Suc e * 2 ^ 52 + r" by (simp add: r(1))
    moreover have "(Suc e * 2 ^ 52 + r) div 2 ^ 52 = Suc e" "(Suc e * 2 ^ 52 + r) mod 2 ^ 52 = r"
      using r(2) by (simp_all del: mult_Suc power_numeral)
    ultimately show ?thesis by (simp only: f64_mag_def Let_def r(1)) simp
  qed
  moreover have "e * 2 ^ 52 + m < 1077 * 2 ^ 52"
  proof -
    have "e * 2 ^ 52 \<le> 1074 * 2 ^ 52" using k(3) by (simp add: e_def)
    then show ?thesis using m(2) by simp
  qed
  ultimately show ?thesis by (simp only: mag eq[symmetric])
qed

lemma f64_of_int_exact:
  assumes "\<bar>n\<bar> < 2 ^ 53"
  shows "f64_scaled (bigToF64 n 0) = n * 2 ^ 1074" "\<not> f64_infinite (bigToF64 n 0)"
proof -
  define M where "M = f64_mag_of (nat \<bar>n\<bar> * 2 ^ 1074) 1"
  have "f64_mag M = nat \<bar>n\<bar> * 2 ^ 1074 \<and> M < 1077 * 2 ^ 52"
  proof (cases "n = 0")
    case True
    have "f64_mag_of 0 1 = 0" using f64_mag_of_small[of 0] by simp
    then show ?thesis using True by (simp add: M_def f64_mag_def)
  next
    case False
    then have "0 < nat \<bar>n\<bar>" "nat \<bar>n\<bar> < 2 ^ 53" using assms by (auto simp: nat_less_iff)
    from f64_mag_nat[OF this] show ?thesis by (simp only: M_def)
  qed
  then have M: "f64_mag M = nat \<bar>n\<bar> * 2 ^ 1074" "M < 1077 * 2 ^ 52" by simp_all
  have f: "bigToF64 n 0 = of_nat (if n < 0 then 2 ^ 63 + M else M)"
  proof -
    have "nat (- (n * 2 ^ 1074)) = nat (- n) * 2 ^ 1074" if "n < 0"
      using that nat_mult_distrib[of "- n" "2 ^ 1074"] by simp
    moreover have "nat (n * 2 ^ 1074) = nat n * 2 ^ 1074" if "\<not> n < 0"
      using that nat_mult_distrib[of n "2 ^ 1074"] by simp
    ultimately show ?thesis by (simp add: bigToF64_def f64_round_def M_def mult_less_0_iff)
  qed
  have u: "unat (bigToF64 n 0) = (if n < 0 then 2 ^ 63 + M else M)"
    unfolding f using M(2) by (simp add: unat_of_nat)
  have small: "M < 2 ^ 63" using M(2) by simp
  show "f64_scaled (bigToF64 n 0) = n * 2 ^ 1074"
    using small M(1) unfolding f64_scaled_def u by simp
  show "\<not> f64_infinite (bigToF64 n 0)"
  proof
    assume "f64_infinite (bigToF64 n 0)"
    then have "unat (bigToF64 n 0) \<in> {0x7FF0000000000000, 0xFFF0000000000000}"
      by (auto simp: f64_infinite_def f64_posinf_def f64_neginf_def)
    then show False using M(2) unfolding u by (auto split: if_splits)
  qed
qed

lemma round_half: "0 < h \<Longrightarrow> (x * (2 * h) + h) div (2 * h) = (x :: int)"
  by (simp add: div_add1_eq)

lemma f64_round_int_exact: "\<bar>n\<bar> < 2 ^ 53 \<Longrightarrow> f64_round_int (bigToF64 n 0) = n"
proof -
  assume n: "\<bar>n\<bar> < 2 ^ 53"
  have "(\<bar>n\<bar> * 2 ^ 1074 + 2 ^ 1073) div 2 ^ 1074 = \<bar>n\<bar>"
    using round_half[of "2 ^ 1073" "\<bar>n\<bar>"] by simp
  then show ?thesis
    unfolding f64_round_int_def f64_of_int_exact(1)[OF n] by (simp add: abs_mult sgn_mult sgn_mult_abs del: power_numeral)
qed

lemma nano_pos: "0 < f64_scaled nano"
  by (simp add: f64_scaled_def nano_def f64_mag_def Let_def)

lemma fixed17_int: "fixed17 n 0 = format_int n"
proof -
  have z: "nat_digits 0 = [48]" by (simp add: nat_digits.simps)
  have "rev (dropWhile (\<lambda>c. c = 48) (rev (replicate 16 48 @ [48]))) = ([] :: bytes)"
    by (simp add: dropWhile_eq_Nil_conv)
  then show ?thesis by (simp add: fixed17_def scaled17_def format_int_def z)
qed

lemma format_counter_int: "\<bar>n\<bar> < 2 ^ 53 \<Longrightarrow> formatCounterFloat (BFin n 0) = format_int n"
  using nano_pos
  by (simp add: formatCounterFloat_def nearInt_def f64_of_int_exact f64_round_int_exact fixed17_int)

section \<open>Merging integers\<close>

text \<open>What Pebble may hold for a counter: increments, and values written or already merged.\<close>

datatype operand = Delta int | Resting int int

fun encodeOperand :: "operand \<Rightarrow> bytes" where
  "encodeOperand (Delta d) = EncodeIntDelta d"
| "encodeOperand (Resting x d) = EncodeValue TypeString x (format_int d)"

fun opVal :: "operand \<Rightarrow> int" where
  "opVal (Delta d) = d"
| "opVal (Resting x d) = d"

fun opExp :: "operand \<Rightarrow> int" where
  "opExp (Delta d) = 0"
| "opExp (Resting x d) = x"

definition operand_ok :: "operand \<Rightarrow> bool" where
  "operand_ok v \<longleftrightarrow> is_int64 (opVal v) \<and> is_int64 (opExp v) \<and> 0 \<le> opExp v"

definition reads_ints :: "(bytes \<Rightarrow> bigf option) \<Rightarrow> bool" where
  "reads_ints rd \<longleftrightarrow> (\<forall>n. is_int64 n \<longrightarrow> rd (format_int n) = Some (BFin n 0))"

lemma format_int_not_Nil [simp]: "format_int n \<noteq> []"
  by (simp add: format_int_def)

lemma EncodeValue_hd: "EncodeValue typ x p \<noteq> [] \<and> hd (EncodeValue typ x p) = typ"
  by (simp add: codec_defs)

lemma sint_word_int64: "is_int64 d \<Longrightarrow> sint (word_of_int d :: 64 word) = d"
  using wrap64_id[of d] by (simp add: wrap64_def)

lemma foldOp_operand:
  assumes "reads_ints rd" "operand_ok v" "cm_cur m = BFin c 0" "\<bar>c + opVal v\<bar> < 2 ^ 128" "0 \<le> cm_expireAt m"
  shows "foldOp rd m (encodeOperand v) =
    Inr (m\<lparr>cm_cur := BFin (c + opVal v) 0, cm_expireAt := max (cm_expireAt m) (opExp v)\<rparr>)"
proof (cases v)
  case (Delta d)
  then have "sint (word_of_int d :: 64 word) = d" using assms(2) sint_word_int64 by (simp add: operand_ok_def)
  then show ?thesis using assms Delta
    by (simp add: foldOp_def EncodeIntDelta_def addTo_def bigOfInt_def bigRound_small)
next
  case (Resting x d)
  have x: "wrap64 x = x" using assms(2) Resting by (simp add: operand_ok_def wrap64_id)
  have "rd (format_int d) = Some (BFin d 0)" using assms(1,2) Resting by (auto simp: reads_ints_def operand_ok_def)
  then show ?thesis using assms Resting x EncodeValue_hd[of TypeString x "format_int d"]
    by (auto simp: foldOp_def addTo_def bigRound_small mergeTagInt_def mergeTagFloat_def TypeString_def Let_def max_def)
qed

lemma foldOps_Cons:
  "foldOps rd (op # ops) g = (case mergeFold rd g op of Inl err \<Rightarrow> Inl err | Inr h \<Rightarrow> foldOps rd ops h)"
proof -
  have "foldl (\<lambda>acc op. case acc of Inl err \<Rightarrow> Inl err | Inr h \<Rightarrow> mergeFold rd h op) (Inl err) ops = Inl err" for err
    by (induction ops) auto
  then show ?thesis by (simp add: foldOps_def split: sum.split)
qed

lemma foldOps_operands:
  assumes "reads_ints rd" "list_all operand_ok vs" "\<bar>c\<bar> + 2 ^ 63 * int (length vs) < 2 ^ 128" "0 \<le> x"
  shows "foldOps rd (map encodeOperand vs) (Counter \<lparr>cm_expireAt = x, cm_cur = BFin c 0, cm_base = b\<rparr>) =
    Inr (Counter \<lparr>cm_expireAt = foldl max x (map opExp vs), cm_cur = BFin (c + sum_list (map opVal vs)) 0, cm_base = b\<rparr>)"
  using assms(2-4)
proof (induction vs arbitrary: c x)
  case Nil
  then show ?case by (simp add: foldOps_def)
next
  case (Cons v vs)
  have v: "\<bar>opVal v\<bar> \<le> 2 ^ 63" "operand_ok v" using Cons.prems(1) by (auto simp: operand_ok_def is_int64_def)
  have "\<bar>c + opVal v\<bar> \<le> \<bar>c\<bar> + 2 ^ 63" using v(1) by linarith
  then have c: "\<bar>c + opVal v\<bar> + 2 ^ 63 * int (length vs) < 2 ^ 128" using Cons.prems(2) by (simp add: algebra_simps)
  then have "\<bar>c + opVal v\<bar> < 2 ^ 128" by (meson le_less_trans less_add_same_cancel1 of_nat_0_le_iff zero_le_mult_iff zero_le_numeral zero_le_power abs_ge_zero add_increasing2 order_refl)
  from foldOp_operand[OF assms(1) v(2), of "\<lparr>cm_expireAt = x, cm_cur = BFin c 0, cm_base = b\<rparr>" c] this Cons.prems(3)
  have "mergeFold rd (Counter \<lparr>cm_expireAt = x, cm_cur = BFin c 0, cm_base = b\<rparr>) (encodeOperand v) =
      Inr (Counter \<lparr>cm_expireAt = max x (opExp v), cm_cur = BFin (c + opVal v) 0, cm_base = b\<rparr>)"
    by (simp add: mergeFold_def)
  then show ?case using Cons.IH[OF _ c, of "max x (opExp v)"] Cons.prems(1,3)
    by (simp add: foldOps_Cons add.assoc)
qed

lemma counterMerge_operand:
  assumes "reads_ints rd" "operand_ok v"
  shows "counterMerge rd (encodeOperand v) =
    Inr (Counter \<lparr>cm_expireAt = opExp v, cm_cur = BFin (opVal v) 0, cm_base = encodeOperand v\<rparr>)"
proof (cases v)
  case (Delta d)
  have "\<bar>opVal v\<bar> < 2 ^ 128" using assms(2) by (auto simp: operand_ok_def is_int64_def)
  then show ?thesis
    using foldOp_operand[OF assms, of "\<lparr>cm_expireAt = 0, cm_cur = BFin 0 0, cm_base = encodeOperand v\<rparr>" 0] Delta
    by (simp add: counterMerge_def bigOfInt_def EncodeIntDelta_def)
next
  case (Resting x d)
  have "rd (format_int d) = Some (BFin d 0)" "wrap64 x = x" using assms Resting by (auto simp: reads_ints_def operand_ok_def)
  then show ?thesis using Resting EncodeValue_hd[of TypeString x "format_int d"]
    by (auto simp: counterMerge_def bigOfInt_def mergeTagInt_def mergeTagFloat_def TypeString_def Let_def)
qed

text \<open>C20: Increments are never lost and their order does not matter. However Pebble splits the history of a counter
  into written values, merged values and increments, and in whatever order it hands them to the operator,
  the counter resolves to their sum, with the latest expiry, as long as the sum is below \<open>2\<^sup>53\<close>.\<close>

theorem counter_merge_sums:
  assumes "reads_ints rd" "list_all operand_ok (v # vs)" "int (length vs) < 2 ^ 64" "\<bar>sum_list (map opVal (v # vs))\<bar> < 2 ^ 53"
  shows "resolve rd (encodeOperand v) (map encodeOperand vs) =
    Inr (EncodeValue TypeString (Max (opExp ` set (v # vs))) (format_int (sum_list (map opVal (v # vs)))))"
proof -
  have v: "operand_ok v" "list_all operand_ok vs" using assms(2) by simp_all
  have "\<bar>opVal v\<bar> \<le> 2 ^ 63" using v(1) by (auto simp: operand_ok_def is_int64_def)
  then have "\<bar>opVal v\<bar> + 2 ^ 63 * int (length vs) < 2 ^ 128" using assms(3) by simp
  moreover have "foldl max (opExp v) (map opExp vs) = Max (opExp ` set (v # vs))"
    using Max.set_eq_fold[of "opExp v" "map opExp vs"] by (simp add: foldl_conv_fold max.commute)
  ultimately show ?thesis
    using foldOps_operands[OF assms(1) v(2), of "opVal v" "opExp v" "encodeOperand v"] v(1) assms(4)
    by (simp add: resolve_def counterMerge_operand[OF assms(1) v(1)] mergeFinish_def isInf_def format_counter_int operand_ok_def)
qed

lemma parse_format_int: "is_int64 n \<Longrightarrow> parse_int (format_int n) = Some n"
proof -
  assume n: "is_int64 n"
  have hd: "hd (nat_digits k) \<noteq> 45 \<and> hd (nat_digits k) \<noteq> 43" for k
  proof -
    have "is_digit (hd (nat_digits k))" using nat_digits_ok[of k] by (simp add: list_all_iff)
    then show ?thesis by (auto simp: is_digit_def word_le_nat_alt)
  qed
  show ?thesis using nat_digits_ok[of "nat (- n)"] nat_digits_ok[of "nat n"] hd[of "nat n"] n
    by (auto simp: parse_int_def format_int_def Let_def)
qed

definition plainInts :: "bytes \<Rightarrow> bigf option" where
  "plainInts s = map_option (\<lambda>n. BFin n 0) (parse_int s)"

lemma plainInts_reads: "reads_ints plainInts"
  by (simp add: reads_ints_def plainInts_def parse_format_int)

theorem counter_merge_sums_witness:
  "resolve plainInts (encodeOperand (Delta 5)) (map encodeOperand [Resting 9 30, Delta 7]) = Inr (EncodeValue TypeString 9 (format_int 42))"
  using counter_merge_sums[OF plainInts_reads, of "Delta 5" "[Resting 9 30, Delta 7]"]
  by (simp add: operand_ok_def is_int64_def)

text \<open>Beyond \<open>2\<^sup>53\<close> the result passes through a double, and an increment can be lost: the counter stands still.\<close>

lemma f64_mag_of_lost: "f64_mag_of ((2 ^ 53 + 1) * 2 ^ 1074) 1 = 1076 * 2 ^ 52"
proof -
  define n :: nat where "n = (2 ^ 53 + 1) * 2 ^ 1074"
  let ?b = "f64_binade n 1 0"
  have up: "n < 2 ^ (53 + ?b)" using f64_binade_upper[of 1 n 0] by (simp add: power_add)
  have "2 ^ (53 + 1074) < n" unfolding n_def power_add by simp
  then have "(2 :: nat) ^ (53 + 1074) < 2 ^ (53 + ?b)" using up by (rule less_trans)
  then have "53 + 1074 < 53 + ?b" by (rule power_less_imp_less_exp[rotated]) simp
  then have lo: "1075 \<le> ?b" by simp
  have "?b = 0 \<or> 2 ^ (53 + (?b - 1)) \<le> n" using f64_binade_lower[of n 1 0] by (auto simp: power_add)
  moreover have "n < 2 ^ (53 + 1075)" unfolding n_def power_add by simp
  ultimately have "(2 :: nat) ^ (53 + (?b - 1)) < 2 ^ (53 + 1075)" using lo by linarith
  then have "53 + (?b - 1) < 53 + 1075" by (rule power_less_imp_less_exp[rotated]) simp
  with lo have b: "?b = 1075" by simp
  have "div_even ((2 ^ 53 + 1) * h) (2 * h) = 2 ^ 52" if "0 < h" for h :: nat
  proof -
    have "(2 ^ 53 + 1) * h = h + 2 ^ 52 * (2 * h)" by simp
    then have "((2 ^ 53 + 1) * h) div (2 * h) = 2 ^ 52" "((2 ^ 53 + 1) * h) mod (2 * h) = h" using that by simp_all
    then show ?thesis unfolding div_even_def Let_def by simp
  qed
  from this[of "2 ^ 1074"] have "div_even n (2 ^ 1075) = 2 ^ 52" by (simp add: n_def)
  then show ?thesis unfolding n_def[symmetric] by (simp only: f64_mag_of_def Let_def b f64_inf_def) simp
qed

lemma counter_stands_still:
  assumes "reads_ints rd"
  shows "resolve rd (encodeOperand (Resting 0 (2 ^ 53))) [encodeOperand (Delta 1)] =
    Inr (encodeOperand (Resting 0 (2 ^ 53)))"
proof -
  have "f64_round ((2 ^ 53 + 1) * 2 ^ 1074) 1 = (of_nat (1076 * 2 ^ 52) :: f64)"
  proof -
    have "nat ((2 ^ 53 + 1) * 2 ^ 1074) = (2 ^ 53 + 1) * 2 ^ 1074" by simp
    then show ?thesis unfolding f64_round_def using f64_mag_of_lost by simp
  qed
  then have f: "bigToF64 (2 ^ 53 + 1) 0 = of_nat (1076 * 2 ^ 52)" by (simp add: bigToF64_def)
  have sc: "f64_scaled (of_nat (1076 * 2 ^ 52)) = 2 ^ 53 * 2 ^ 1074"
    by (simp add: f64_scaled_def f64_mag_def Let_def)
  have r: "f64_round_int (of_nat (1076 * 2 ^ 52)) = 2 ^ 53"
    unfolding f64_round_int_def sc using round_half[of "2 ^ 1073" "2 ^ 53"] by simp
  have "\<not> f64_infinite (of_nat (1076 * 2 ^ 52))" by (simp add: f64_infinite_def f64_posinf_def f64_neginf_def)
  then have "formatCounterFloat (BFin (2 ^ 53 + 1) 0) = format_int (2 ^ 53)"
    using nano_pos unfolding formatCounterFloat_def nearInt_def bigf.case f r sc fixed17_int by simp
  then show ?thesis
    using foldOps_operands[OF assms, of "[Delta 1]" "2 ^ 53" 0 "encodeOperand (Resting 0 (2 ^ 53))"]
      counterMerge_operand[OF assms, of "Resting 0 (2 ^ 53)"]
    by (simp add: resolve_def mergeFinish_def isInf_def operand_ok_def is_int64_def)
qed

end
