(* ===== verification/Api.thy ===== *)
theory Api
  imports Lifecycle Generic Counters
begin

text \<open>
  \<open>api.go\<close>: the embedded interface, whose methods call the data path with no parsing, no connection and no key lock.
  Every method first asks \<open>checkAlive\<close>; \<open>closed\<close> is the flag that \<open>Close\<close> sets. \<open>tnow\<close> is \<open>time.Now()\<close>.
\<close>

section \<open>The methods\<close>

definition checkAlive :: "bool \<Rightarrow> goerr option" where
  "checkAlive closed = (if closed then Some ErrClosed else None)"

definition guarded :: "bool \<Rightarrow> 'e Store \<Rightarrow> (goerr, 'a, 'e Store) res \<Rightarrow> (goerr, 'a, 'e Store) res" where
  "guarded closed s body = (case checkAlive closed of Some err \<Rightarrow> (Inl err, s) | None \<Rightarrow> body)"

definition apiGetDB :: "'e pebble \<Rightarrow> Env \<Rightarrow> bool \<Rightarrow> dbid \<Rightarrow> bytes \<Rightarrow> 'e Store \<Rightarrow> (goerr, bytes option, 'e Store) res" where
  "apiGetDB P E closed db key s = guarded closed s (getString P E db key s)"

definition apiGet :: "'e pebble \<Rightarrow> Env \<Rightarrow> bool \<Rightarrow> bytes \<Rightarrow> 'e Store \<Rightarrow> (goerr, bytes option, 'e Store) res" where
  "apiGet P E closed key s = guarded closed s (getString P E 0 key s)"

definition apiSetDB ::
  "'e pebble \<Rightarrow> Env \<Rightarrow> (nat \<Rightarrow> Draws) \<Rightarrow> bool \<Rightarrow> dbid \<Rightarrow> bytes \<Rightarrow> bytes \<Rightarrow> 'e Store \<Rightarrow> (goerr, unit, 'e Store) res" where
  "apiSetDB P E drs closed db key val s = guarded closed s (setStringSimple P E drs db key val 0 s)"

definition apiSet ::
  "'e pebble \<Rightarrow> Env \<Rightarrow> (nat \<Rightarrow> Draws) \<Rightarrow> bool \<Rightarrow> bytes \<Rightarrow> bytes \<Rightarrow> 'e Store \<Rightarrow> (goerr, unit, 'e Store) res" where
  "apiSet P E drs closed key val s = guarded closed s (setStringSimple P E drs 0 key val 0 s)"

definition apiSetEx ::
  "'e pebble \<Rightarrow> Env \<Rightarrow> (nat \<Rightarrow> Draws) \<Rightarrow> gotime \<Rightarrow> bool \<Rightarrow> bytes \<Rightarrow> bytes \<Rightarrow> int \<Rightarrow> 'e Store \<Rightarrow> (goerr, unit, 'e Store) res" where
  "apiSetEx P E drs tnow closed key val ttl s =
     guarded closed s (setStringSimple P E drs 0 key val (UnixMilli (time_Add tnow ttl)) s)"

definition apiSetNX ::
  "'e pebble \<Rightarrow> Env \<Rightarrow> (nat \<Rightarrow> Draws) \<Rightarrow> bool \<Rightarrow> bytes \<Rightarrow> bytes \<Rightarrow> 'e Store \<Rightarrow> (goerr, bool, 'e Store) res" where
  "apiSetNX P E drs closed key val s =
     guarded closed s
       (bindE (setString P E drs 0 key val (noSetOption\<lparr>so_NX := True\<rparr>) s) (\<lambda>(old, existed, written) s1. (Inr written, s1)))"

definition apiGetSet ::
  "'e pebble \<Rightarrow> Env \<Rightarrow> (nat \<Rightarrow> Draws) \<Rightarrow> bool \<Rightarrow> bytes \<Rightarrow> bytes \<Rightarrow> 'e Store \<Rightarrow> (goerr, bytes option, 'e Store) res" where
  "apiGetSet P E drs closed key val s =
     guarded closed s
       (bindE (setString P E drs 0 key val (noSetOption\<lparr>so_GET := True\<rparr>) s) (\<lambda>(old, existed, written) s1. (Inr old, s1)))"

fun apiMGetLoop :: "'e pebble \<Rightarrow> Env \<Rightarrow> bytes list \<Rightarrow> bytes option list \<Rightarrow> 'e Store \<Rightarrow> (goerr, bytes option list, 'e Store) res" where
  "apiMGetLoop P E [] out s = (Inr out, s)"
| "apiMGetLoop P E (k # ks) out s = bindE (getString P E 0 k s) (\<lambda>v s1. apiMGetLoop P E ks (out @ [v]) s1)"

definition apiMGet :: "'e pebble \<Rightarrow> Env \<Rightarrow> bool \<Rightarrow> bytes list \<Rightarrow> 'e Store \<Rightarrow> (goerr, bytes option list, 'e Store) res" where
  "apiMGet P E closed keys s = guarded closed s (apiMGetLoop P E keys [] s)"

definition mSetRaw ::
  "'e pebble \<Rightarrow> Env \<Rightarrow> (nat \<Rightarrow> Draws) \<Rightarrow> dbid \<Rightarrow> bytes list \<Rightarrow> 'e Store \<Rightarrow> (goerr, unit, 'e Store) res" where
  "mSetRaw P E drs db args s = mSetPairs P E drs db args s"

text \<open>The argument of \<open>MSet\<close> is a Go map; the list gives its pairs in the order of the iteration.\<close>

definition apiMSet ::
  "'e pebble \<Rightarrow> Env \<Rightarrow> (nat \<Rightarrow> Draws) \<Rightarrow> bool \<Rightarrow> (bytes \<times> bytes) list \<Rightarrow> 'e Store \<Rightarrow> (goerr, unit, 'e Store) res" where
  "apiMSet P E drs closed pairs s = guarded closed s (mSetRaw P E drs 0 (concat (map (\<lambda>(k, v). [k, v]) pairs)) s)"

definition apiDelDB :: "'e pebble \<Rightarrow> Env \<Rightarrow> bool \<Rightarrow> dbid \<Rightarrow> bytes list \<Rightarrow> 'e Store \<Rightarrow> (goerr, int, 'e Store) res" where
  "apiDelDB P E closed db keys s = guarded closed s (delKeys P E db keys 0 s)"

definition apiDel :: "'e pebble \<Rightarrow> Env \<Rightarrow> bool \<Rightarrow> bytes list \<Rightarrow> 'e Store \<Rightarrow> (goerr, int, 'e Store) res" where
  "apiDel P E closed keys s = guarded closed s (delKeys P E 0 keys 0 s)"

definition apiExists :: "'e pebble \<Rightarrow> Env \<Rightarrow> bool \<Rightarrow> bytes list \<Rightarrow> 'e Store \<Rightarrow> (goerr, int, 'e Store) res" where
  "apiExists P E closed keys s = guarded closed s (exists P E 0 keys 0 s)"

definition apiExpire :: "'e pebble \<Rightarrow> Env \<Rightarrow> gotime \<Rightarrow> bool \<Rightarrow> bytes \<Rightarrow> int \<Rightarrow> 'e Store \<Rightarrow> (goerr, bool, 'e Store) res" where
  "apiExpire P E tnow closed key ttl s =
     guarded closed s (bindE (setExpiry P E 0 key (time_Add tnow ttl) noExpireOption s) (\<lambda>n s1. (Inr (n = 1), s1)))"

text \<open>The result of \<open>TTL\<close> is the duration, whether there is one, and whether the key exists.\<close>

definition apiTTL :: "'e pebble \<Rightarrow> Env \<Rightarrow> bool \<Rightarrow> bytes \<Rightarrow> 'e Store \<Rightarrow> (goerr, int \<times> bool \<times> bool, 'e Store) res" where
  "apiTTL P E closed key s =
     guarded closed s
       (let (ms, s1) = ttlOf P E 0 key s
        in if ms = -2 then (Inr (0, False, False), s1)
           else if ms = -1 then (Inr (0, False, True), s1)
           else (Inr (wrap64 (ms * Millisecond), True, True), s1))"

definition apiPersist :: "'e pebble \<Rightarrow> Env \<Rightarrow> bool \<Rightarrow> bytes \<Rightarrow> 'e Store \<Rightarrow> (goerr, bool, 'e Store) res" where
  "apiPersist P E closed key s = guarded closed s (persist P E 0 key s)"

definition apiStrLen :: "'e pebble \<Rightarrow> Env \<Rightarrow> bool \<Rightarrow> bytes \<Rightarrow> 'e Store \<Rightarrow> (goerr, int, 'e Store) res" where
  "apiStrLen P E closed key s =
     guarded closed s
       (bindE (getString P E 0 key s) (\<lambda>v s1. (Inr (case v of None \<Rightarrow> 0 | Some b \<Rightarrow> int (length b)), s1)))"

definition apiType :: "'e pebble \<Rightarrow> Env \<Rightarrow> bool \<Rightarrow> bytes \<Rightarrow> 'e Store \<Rightarrow> (goerr, string, 'e Store) res" where
  "apiType P E closed key s =
     guarded closed s
       (bindE (typeOf P E 0 key s) (\<lambda>t s1. (Inr (case t of None \<Rightarrow> ''none'' | Some typ \<Rightarrow> TypeName typ), s1)))"

definition apiRename :: "'e pebble \<Rightarrow> Env \<Rightarrow> bool \<Rightarrow> bytes \<Rightarrow> bytes \<Rightarrow> 'e Store \<Rightarrow> (goerr, unit, 'e Store) res" where
  "apiRename P E closed src dst s = guarded closed s (rename P E 0 src dst False s)"

definition apiFlushDB :: "'e pebble \<Rightarrow> Env \<Rightarrow> bool \<Rightarrow> 'e Store \<Rightarrow> (goerr, unit, 'e Store) res" where
  "apiFlushDB P E closed s = guarded closed s (flushDB P E 0 s)"

definition apiAppend ::
  "'e pebble \<Rightarrow> Env \<Rightarrow> (nat \<Rightarrow> Draws) \<Rightarrow> bool \<Rightarrow> bytes \<Rightarrow> bytes \<Rightarrow> 'e Store \<Rightarrow> (goerr, int, 'e Store) res" where
  "apiAppend P E drs closed key val s =
     guarded closed s
       (bindE (getTyped P E 0 key s) (\<lambda>r s1.
          case r of
            Some (typ, expireAt, cur) \<Rightarrow>
              if typ \<noteq> TypeString then (Inl ErrWrongType, s1)
              else bindE (setStringSimple P E drs 0 key (cur @ val) expireAt s1) (\<lambda>_ s2. (Inr (int (length (cur @ val))), s2))
          | None \<Rightarrow> bindE (setStringSimple P E drs 0 key val 0 s1) (\<lambda>_ s2. (Inr (int (length val)), s2))))"

section \<open>Counters of the embedded interface\<close>

text \<open>The conversion loop of \<open>itoa\<close> stops when its \<open>int64\<close> is not positive; negating the least \<open>int64\<close> wraps.\<close>

function itoaLoop :: "int \<Rightarrow> bytes \<Rightarrow> bytes" where
  "itoaLoop n buf = (if n > 0 then itoaLoop (n div 10) ((48 + word_of_int (n mod 10)) # buf) else buf)"
  by auto
termination by (relation "measure (\<lambda>(n, buf). nat n)") auto

declare itoaLoop.simps [simp del]

definition itoa :: "int \<Rightarrow> bytes" where
  "itoa n =
     (if n = 0 then ascii ''0''
      else if n < 0 then 45 # itoaLoop (wrap64 (- n)) [] else itoaLoop n [])"

definition apiIncrBy ::
  "'e pebble \<Rightarrow> Env \<Rightarrow> (nat \<Rightarrow> Draws) \<Rightarrow> bool \<Rightarrow> bytes \<Rightarrow> int \<Rightarrow> 'e Store \<Rightarrow> (goerr, int, 'e Store) res" where
  "apiIncrBy P E drs closed key delta s =
     guarded closed s
       (bindE (getTyped P E 0 key s) (\<lambda>r s1.
        bindS (case r of
                 None \<Rightarrow> Inr (0, 0)
               | Some (typ, expireAt, cur) \<Rightarrow>
                   if typ \<noteq> TypeString then Inl ErrWrongType
                   else case toInt64 cur of Inl err \<Rightarrow> Inl err | Inr n \<Rightarrow> Inr (n, expireAt)) s1
          (\<lambda>(n, expireAt).
             if add_overflows n delta then (Inl ErrOverflow, s1)
             else bindE (setStringSimple P E drs 0 key (itoa (n + delta)) expireAt s1) (\<lambda>_ s2. (Inr (n + delta), s2)))))"

definition apiIncr :: "'e pebble \<Rightarrow> Env \<Rightarrow> (nat \<Rightarrow> Draws) \<Rightarrow> bool \<Rightarrow> bytes \<Rightarrow> 'e Store \<Rightarrow> (goerr, int, 'e Store) res" where
  "apiIncr P E drs closed key s = apiIncrBy P E drs closed key 1 s"

section \<open>Numerals\<close>

lemma itoaLoop_digits: "0 < n \<Longrightarrow> itoaLoop n buf = nat_digits (nat n) @ buf"
proof (induction n buf rule: itoaLoop.induct)
  case (1 n buf)
  have "n mod 10 = int (nat n mod 10)" using 1(2) by (simp add: zmod_int)
  then have w: "(word_of_int (n mod 10) :: byte) = of_nat (nat n mod 10)" by (simp only: of_int_of_nat_eq)
  show ?case
  proof (cases "n < 10")
    case True
    then have "n div 10 = 0" "nat n mod 10 = nat n" "nat n < 10" using 1(2) by auto
    then show ?thesis using 1(2) w True
      by (simp add: itoaLoop.simps[of n] itoaLoop.simps[of 0] nat_digits.simps[of "nat n"])
  next
    case False
    then have "0 < n div 10" "\<not> nat n < 10" "nat (n div 10) = nat n div 10" by (auto simp: nat_div_distrib)
    then show ?thesis using 1 w by (simp add: itoaLoop.simps[of n] nat_digits.simps[of "nat n"])
  qed
qed

text \<open>\<open>itoa\<close> is \<open>strconv.FormatInt\<close> except on the least \<open>int64\<close>, which becomes a lone sign.\<close>

lemma itoa_format: "is_int64 n \<Longrightarrow> itoa n = (if n = minInt64 then [45] else format_int n)"
proof -
  assume n: "is_int64 n"
  have z: "itoaLoop (wrap64 (- minInt64)) [] = []"
    by (simp add: minInt64_def wrap64_def itoaLoop.simps)
  show ?thesis
  proof (cases "n = minInt64")
    case True
    then show ?thesis using z by (simp add: itoa_def minInt64_def)
  next
    case False
    then have "n < 0 \<Longrightarrow> wrap64 (- n) = - n" using n by (intro wrap64_id) (auto simp: is_int64_def minInt64_def)
    then show ?thesis using False itoaLoop_digits[of n] itoaLoop_digits[of "- n"]
      by (auto simp: itoa_def format_int_def ascii_def nat_digits.simps[of 0])
  qed
qed

section \<open>What a client of the library gets\<close>

text \<open>The specification of \<open>IncrBy\<close> on what the key holds: an error, or the new number and the deadline that is kept.\<close>

definition incr_spec :: "tval option \<Rightarrow> int \<Rightarrow> goerr + int \<times> int" where
  "incr_spec v delta =
     (case v of
        None \<Rightarrow> Inr (delta, 0)
      | Some (t, x, p) \<Rightarrow>
          if t \<noteq> TypeString then Inl ErrWrongType
          else (case parse_int p of
                  None \<Rightarrow> Inl ErrNotInteger
                | Some n \<Rightarrow> if is_int64 (n + delta) then Inr (n + delta, x) else Inl ErrOverflow))"

context pebble_reliable
begin

lemma apiIncrBy_done:
  assumes ok: "st_ok kv E s" and dec: "decodable (kv (s_eng s))" and mode: "EvictionMode (env_cfg E) \<noteq> EvictCache"
    and d: "is_int64 delta"
  shows "\<exists>s'. apiIncrBy P E drs False key delta s = (map_sum id fst (incr_spec (st_live kv E s 0 key) delta), s') \<and>
    st_ok kv E s' \<and>
    st_live kv E s' = (case incr_spec (st_live kv E s 0 key) delta of
        Inl err \<Rightarrow> st_live kv E s
      | Inr (n, x) \<Rightarrow> upd2 (st_live kv E s) 0 key (Some (TypeString, x, itoa n)))"
proof -
  obtain r s1 where g: "getTyped P E 0 key s = (Inr r, s1)" using getTyped_returns [OF ok dec] by blast
  note rl = read_ok_live [OF getTyped_done [OF ok g]]
  have z: "\<not> add_overflows 0 delta" using d by (simp add: add_overflows_iff)
  have put: "\<exists>s'. setStringSimple P E drs 0 key val x s1 = (Inr (), s') \<and> st_ok kv E s' \<and>
      st_live kv E s' = upd2 (st_live kv E s) 0 key (Some (TypeString, x, val))"
    if "is_int64 x" "\<not> past (env_now E) x" for x val
    using setStringSimple_done [of E s1 x drs 0 key val] rl mode that by (simp add: live_val_def)
  show ?thesis
  proof (cases r)
    case None
    then show ?thesis using put [of 0 "itoa delta"] rl g z
      by (auto simp: apiIncrBy_def guarded_def checkAlive_def incr_spec_def past_def bindS_def)
  next
    case (Some v)
    obtain t x p where v: "v = (t, x, p)" by (cases v)
    have "live (env_now E) (kv (s_eng s)) 0 key = Some (t, x, p)" using rl Some v by (simp add: st_live_def)
    note vl = live_SomeD [OF this]
    have x: "is_int64 x" "\<not> past (env_now E) x" using vl view_int64 by blast+
    show ?thesis
      using put [OF x, of "itoa (the (parse_int p) + delta)"] rl g Some v d
      by (auto simp: apiIncrBy_def guarded_def checkAlive_def incr_spec_def toInt64_def add_overflows_iff parse_int_int64 bindS_def
          split: option.split)
  qed
qed

end



end
