(* ===== verification/Locks.thy ===== *)
theory Locks
  imports Options
begin

text \<open>
  Per-key locking: the keys a command names (\<open>commandKeys\<close> of \<open>keys.go\<close>), the shards they hash to and the
  order \<open>lockAll\<close> takes them in (\<open>store.go\<close>), and the concurrent behaviour of any number of commands that
  run \<open>lockAll\<close>, their body and the unlock closure at the same time. The reader/writer mutex is Go's: a
  writer announces itself, which holds back new readers, and then waits for the readers inside to
  leave. The theorems say that commands on a common key exclude each other unless both are reads,
  and that every schedule ends with all commands done: there is no deadlock.
\<close>

section \<open>The keys of a command\<close>

fun msetKeys :: "bytes list \<Rightarrow> bytes list" where
  "msetKeys (k # v # rest) = k # msetKeys rest"
| "msetKeys _ = []"

text \<open>\<open>end := start + n\<close> is computed in an \<open>int\<close>; a wrapped end is a slice bound out of range.\<close>

definition keysWithNumkeys :: "bytes list \<Rightarrow> nat \<Rightarrow> goerr + bytes list" where
  "keysWithNumkeys args numIdx =
     (if numIdx \<ge> length args then Inr []
      else case parse_int (args ! numIdx) of
        None \<Rightarrow> Inr []
      | Some n \<Rightarrow>
          if n < 0 then Inr []
          else
            let start = numIdx + 1;
                e = wrap64 (int start + n);
                e' = (if e > int (length args) then int (length args) else e)
            in if e' < int start then Inl GoPanic else Inr (take (nat e' - start) (drop start args)))"

fun storeDest :: "bytes list \<Rightarrow> bytes list" where
  "storeDest (a # b # rest) = (if fold_equal a ''STORE'' then [b] else storeDest (b # rest))"
| "storeDest _ = []"

definition sortKeys :: "bytes list \<Rightarrow> bytes list" where
  "sortKeys args = (case args of [] \<Rightarrow> [] | k # rest \<Rightarrow> k # storeDest rest)"

definition commandKeys :: "string \<Rightarrow> bytes list \<Rightarrow> goerr + bytes list" where
  "commandKeys name args =
     (if name \<in> {''DEL'', ''UNLINK'', ''EXISTS'', ''TOUCH'', ''MGET'', ''SUNION'', ''SINTER'', ''SDIFF'', ''SINTERCARD''}
      then Inr args
      else if name \<in> {''MSET'', ''MSETNX''} then Inr (msetKeys args)
      else if name \<in> {''RENAME'', ''RENAMENX'', ''COPY'', ''SMOVE'', ''RPOPLPUSH'', ''LMOVE'', ''BLMOVE'', ''ZRANGESTORE''}
      then Inr (if length args < 2 then [] else [args ! 0, args ! 1])
      else if name \<in> {''SINTERSTORE'', ''SUNIONSTORE'', ''SDIFFSTORE'', ''ZINTERSTORE'', ''ZUNIONSTORE'', ''ZDIFFSTORE''}
      then keysWithNumkeys args 1
      else if name \<in> {''ZMPOP'', ''BZMPOP'', ''ZUNION'', ''ZINTER'', ''ZDIFF''} then keysWithNumkeys args 0
      else if name = ''BITOP'' then Inr (if length args < 2 then [] else drop 1 args)
      else if name \<in> {''SORT'', ''SORT_RO''} then Inr (sortKeys args)
      else if name \<in> {''FLUSHDB'', ''FLUSHALL'', ''DBSIZE'', ''KEYS'', ''RANDOMKEY'', ''SCAN'', ''SWAPDB'', ''SELECT'', ''PING'',
                      ''ECHO'', ''QUIT'', ''COMMAND'', ''HELLO'', ''AUTH'', ''CONFIG'', ''DEBUG'', ''SAVE'', ''BGSAVE'', ''LASTSAVE'',
                      ''TIME'', ''MEMORY'', ''SLOWLOG'', ''CLIENT'', ''OBJECT'', ''SHUTDOWN'', ''SUBSCRIBE'', ''PSUBSCRIBE'',
                      ''UNSUBSCRIBE'', ''PUNSUBSCRIBE'', ''PUBLISH'', ''PUBSUB'', ''MULTI'', ''EXEC'', ''DISCARD'', ''WATCH'', ''UNWATCH''}
      then Inr []
      else Inr (take 1 args))"

section \<open>Shards\<close>

unbundle bit_operations_syntax

definition keyLockShards :: nat where "keyLockShards = 2 ^ 13"

definition fnvStep :: "64 word \<Rightarrow> byte \<Rightarrow> 64 word" where
  "fnvStep h c = (h XOR ucast c) * 16777619"

definition shardIndex :: "dbid \<Rightarrow> bytes \<Rightarrow> nat" where
  "shardIndex db key =
     unat (foldl fnvStep 1469598103934665603 ([ucast (drop_bit 8 db), ucast db] @ key) AND 8191)"

lemma shardIndex_bound: "shardIndex db key < keyLockShards"
proof -
  have "unat (h AND 8191) < 8192" for h :: "64 word"
  proof -
    have "h AND 8191 \<le> 8191" by (metis word_and_le1)
    then have "unat (h AND 8191) \<le> unat (8191 :: 64 word)" by (simp add: word_le_nat_alt)
    then show ?thesis by simp
  qed
  then show ?thesis by (simp add: shardIndex_def keyLockShards_def)
qed

primrec shardLoop :: "dbid \<Rightarrow> bytes list \<Rightarrow> nat list \<Rightarrow> nat list" where
  "shardLoop db [] idxs = idxs"
| "shardLoop db (k # ks) idxs =
     (let i = shardIndex db k in if i \<in> set idxs then shardLoop db ks idxs else shardLoop db ks (idxs @ [i]))"

definition lockIdxs :: "dbid \<Rightarrow> bytes list \<Rightarrow> nat list" where
  "lockIdxs db keys = rev (sort (shardLoop db keys []))"

lemma shardLoop_props:
  "distinct idxs \<Longrightarrow> distinct (shardLoop db ks idxs) \<and> set (shardLoop db ks idxs) = set idxs \<union> shardIndex db ` set ks"
proof (induction ks arbitrary: idxs)
  case (Cons k ks)
  then show ?case by (auto simp: Let_def)
qed simp

lemma lockIdxs_set: "set (lockIdxs db keys) = shardIndex db ` set keys"
  using shardLoop_props[of "[]" db keys] by (simp add: lockIdxs_def)

lemma lockIdxs_descending: "sorted_wrt (>) (lockIdxs db keys)"
proof -
  have "sorted_wrt (<) (sort (shardLoop db keys []))"
    using shardLoop_props[of "[]" db keys] by (simp add: strict_sorted_iff)
  then show ?thesis by (simp add: lockIdxs_def sorted_wrt_rev)
qed

section \<open>Mutexes and lockers\<close>

text \<open>\<open>sync.RWMutex\<close>: the writer that holds the writers' mutex, announced to the readers, and the readers
  inside.\<close>

record rwmutex =
  rw_writer :: "nat option"
  rw_readers :: "nat set"

definition free_mutex :: rwmutex where "free_mutex = \<lparr>rw_writer = None, rw_readers = {}\<rparr>"

text \<open>A running command: the shards \<open>lockAll\<close> computed, and how many of them it holds while it acquires
  them in order or releases them in the reverse order. \<open>Acquire (length idxs)\<close> is the body of the
  command, \<open>Release 0\<close> its end.\<close>

datatype phase = Acquire nat | Release nat

record locker =
  lk_idxs :: "nat list"
  lk_write :: bool
  lk_phase :: phase

record lockState =
  ls_shards :: "nat \<Rightarrow> rwmutex"
  ls_thr :: "nat \<Rightarrow> locker"

definition setShard :: "nat \<Rightarrow> rwmutex \<Rightarrow> lockState \<Rightarrow> lockState" where
  "setShard i m s = s\<lparr>ls_shards := (ls_shards s)(i := m)\<rparr>"

definition setPhase :: "nat \<Rightarrow> phase \<Rightarrow> lockState \<Rightarrow> lockState" where
  "setPhase t p s = s\<lparr>ls_thr := (ls_thr s)(t := (ls_thr s t)\<lparr>lk_phase := p\<rparr>)\<rparr>"

text \<open>The next shard a command needs, and the mutex of it.\<close>

definition target :: "locker \<Rightarrow> nat option" where
  "target l = (case lk_phase l of Acquire k \<Rightarrow> if k < length (lk_idxs l) then Some (lk_idxs l ! k) else None | Release _ \<Rightarrow> None)"

definition heldCount :: "locker \<Rightarrow> nat" where
  "heldCount l = (case lk_phase l of Acquire k \<Rightarrow> k | Release k \<Rightarrow> k)"

inductive lock_step :: "nat \<Rightarrow> lockState \<Rightarrow> lockState \<Rightarrow> bool" for n where
  announce: "t < n \<Longrightarrow> lk_write (ls_thr s t) \<Longrightarrow> target (ls_thr s t) = Some i \<Longrightarrow> rw_writer (ls_shards s i) = None
     \<Longrightarrow> lock_step n s (setShard i ((ls_shards s i)\<lparr>rw_writer := Some t\<rparr>) s)"
| lock: "t < n \<Longrightarrow> lk_write (ls_thr s t) \<Longrightarrow> target (ls_thr s t) = Some i \<Longrightarrow> rw_writer (ls_shards s i) = Some t
     \<Longrightarrow> rw_readers (ls_shards s i) = {} \<Longrightarrow> lock_step n s (setPhase t (Acquire (Suc (heldCount (ls_thr s t)))) s)"
| rlock: "t < n \<Longrightarrow> \<not> lk_write (ls_thr s t) \<Longrightarrow> target (ls_thr s t) = Some i \<Longrightarrow> rw_writer (ls_shards s i) = None
     \<Longrightarrow> lock_step n s (setPhase t (Acquire (Suc (heldCount (ls_thr s t))))
           (setShard i ((ls_shards s i)\<lparr>rw_readers := insert t (rw_readers (ls_shards s i))\<rparr>) s))"
| body: "t < n \<Longrightarrow> lk_phase (ls_thr s t) = Acquire (length (lk_idxs (ls_thr s t)))
     \<Longrightarrow> lock_step n s (setPhase t (Release (length (lk_idxs (ls_thr s t)))) s)"
| unlock: "t < n \<Longrightarrow> lk_write (ls_thr s t) \<Longrightarrow> lk_phase (ls_thr s t) = Release (Suc k) \<Longrightarrow> i = lk_idxs (ls_thr s t) ! k
     \<Longrightarrow> lock_step n s (setPhase t (Release k) (setShard i ((ls_shards s i)\<lparr>rw_writer := None\<rparr>) s))"
| runlock: "t < n \<Longrightarrow> \<not> lk_write (ls_thr s t) \<Longrightarrow> lk_phase (ls_thr s t) = Release (Suc k) \<Longrightarrow> i = lk_idxs (ls_thr s t) ! k
     \<Longrightarrow> lock_step n s (setPhase t (Release k)
           (setShard i ((ls_shards s i)\<lparr>rw_readers := rw_readers (ls_shards s i) - {t}\<rparr>) s))"

text \<open>The start: one locker per command, each with its database, keys and kind, and every mutex free.\<close>

definition lockerOf :: "dbid \<times> bytes list \<times> bool \<Rightarrow> locker" where
  "lockerOf = (\<lambda>(db, keys, write). \<lparr>lk_idxs = lockIdxs db keys, lk_write = write, lk_phase = Acquire 0\<rparr>)"

definition lockInit :: "(dbid \<times> bytes list \<times> bool) list \<Rightarrow> lockState" where
  "lockInit cmds = \<lparr>ls_shards = (\<lambda>_. free_mutex), ls_thr = (\<lambda>t. lockerOf (cmds ! t))\<rparr>"

abbreviation lock_reach :: "(dbid \<times> bytes list \<times> bool) list \<Rightarrow> lockState \<Rightarrow> bool" where
  "lock_reach cmds s \<equiv> (lock_step (length cmds))\<^sup>*\<^sup>* (lockInit cmds) s"

definition finished :: "locker \<Rightarrow> bool" where "finished l \<longleftrightarrow> lk_phase l = Release 0"

definition inBody :: "locker \<Rightarrow> bool" where "inBody l \<longleftrightarrow> lk_phase l = Acquire (length (lk_idxs l))"


section \<open>The invariant\<close>

definition heldSet :: "locker \<Rightarrow> nat set" where "heldSet l = set (take (heldCount l) (lk_idxs l))"

definition locker_ok :: "locker \<Rightarrow> bool" where
  "locker_ok l \<longleftrightarrow> sorted_wrt (>) (lk_idxs l) \<and> heldCount l \<le> length (lk_idxs l)"

definition lock_inv :: "nat \<Rightarrow> lockState \<Rightarrow> bool" where
  "lock_inv n s \<longleftrightarrow>
     (\<forall>t < n. locker_ok (ls_thr s t)) \<and>
     (\<forall>i t. rw_writer (ls_shards s i) = Some t \<longrightarrow>
        t < n \<and> lk_write (ls_thr s t) \<and> (i \<in> heldSet (ls_thr s t) \<or> target (ls_thr s t) = Some i)) \<and>
     (\<forall>i t. t \<in> rw_readers (ls_shards s i) \<longleftrightarrow> t < n \<and> \<not> lk_write (ls_thr s t) \<and> i \<in> heldSet (ls_thr s t)) \<and>
     (\<forall>i t. t < n \<and> lk_write (ls_thr s t) \<and> i \<in> heldSet (ls_thr s t) \<longrightarrow>
        rw_writer (ls_shards s i) = Some t \<and> rw_readers (ls_shards s i) = {})"

lemma lock_invI:
  assumes "\<And>t. t < n \<Longrightarrow> locker_ok (ls_thr s t)"
    and "\<And>i t. rw_writer (ls_shards s i) = Some t \<Longrightarrow> t < n \<and> lk_write (ls_thr s t) \<and>
           (i \<in> heldSet (ls_thr s t) \<or> target (ls_thr s t) = Some i)"
    and "\<And>i t. t \<in> rw_readers (ls_shards s i) \<longleftrightarrow> t < n \<and> \<not> lk_write (ls_thr s t) \<and> i \<in> heldSet (ls_thr s t)"
    and "\<And>i t. t < n \<Longrightarrow> lk_write (ls_thr s t) \<Longrightarrow> i \<in> heldSet (ls_thr s t) \<Longrightarrow>
           rw_writer (ls_shards s i) = Some t \<and> rw_readers (ls_shards s i) = {}"
  shows "lock_inv n s"
  unfolding lock_inv_def using assms by blast

lemma lock_invD:
  assumes "lock_inv n s"
  shows "t < n \<Longrightarrow> locker_ok (ls_thr s t)"
    and "rw_writer (ls_shards s i) = Some t \<Longrightarrow> t < n \<and> lk_write (ls_thr s t) \<and>
           (i \<in> heldSet (ls_thr s t) \<or> target (ls_thr s t) = Some i)"
    and "t \<in> rw_readers (ls_shards s i) \<longleftrightarrow> t < n \<and> \<not> lk_write (ls_thr s t) \<and> i \<in> heldSet (ls_thr s t)"
    and "t < n \<Longrightarrow> lk_write (ls_thr s t) \<Longrightarrow> i \<in> heldSet (ls_thr s t) \<Longrightarrow>
           rw_writer (ls_shards s i) = Some t \<and> rw_readers (ls_shards s i) = {}"
  using assms unfolding lock_inv_def by blast+

lemma phase_fields [simp]:
  "lk_idxs (l\<lparr>lk_phase := p\<rparr>) = lk_idxs l" "lk_write (l\<lparr>lk_phase := p\<rparr>) = lk_write l" "lk_phase (l\<lparr>lk_phase := p\<rparr>) = p"
  by simp_all

lemma descending_distinct: "sorted_wrt (>) xs \<Longrightarrow> distinct (xs :: nat list)"
  by (metis distinct_rev sorted_wrt_rev strict_sorted_iff)

lemma target_cases:
  assumes "target l = Some i"
  obtains k where "lk_phase l = Acquire k" "k < length (lk_idxs l)" "lk_idxs l ! k = i"
  using assms by (auto simp: target_def split: phase.splits if_splits)

lemma acquire_one:
  assumes "target l = Some i" "locker_ok l"
  shows "heldSet (l\<lparr>lk_phase := Acquire (Suc (heldCount l))\<rparr>) = insert i (heldSet l)"
    and "locker_ok (l\<lparr>lk_phase := Acquire (Suc (heldCount l))\<rparr>)"
    and "i \<notin> heldSet l"
proof -
  obtain k where k: "lk_phase l = Acquire k" "k < length (lk_idxs l)" "lk_idxs l ! k = i"
    using assms(1) by (rule target_cases)
  then show "heldSet (l\<lparr>lk_phase := Acquire (Suc (heldCount l))\<rparr>) = insert i (heldSet l)"
    by (auto simp: heldSet_def heldCount_def take_Suc_conv_app_nth)
  show "locker_ok (l\<lparr>lk_phase := Acquire (Suc (heldCount l))\<rparr>)"
    using assms(2) k by (simp add: locker_ok_def heldCount_def)
  show "i \<notin> heldSet l"
  proof
    assume "i \<in> heldSet l"
    then obtain j where "j < k" "lk_idxs l ! j = i"
      using k by (auto simp: heldSet_def heldCount_def in_set_conv_nth)
    with k assms(2) show False
      using nth_eq_iff_index_eq[OF descending_distinct[of "lk_idxs l"], of j k] by (simp add: locker_ok_def)
  qed
qed

lemma release_one:
  assumes "lk_phase l = Release (Suc k)" "locker_ok l"
  shows "heldSet (l\<lparr>lk_phase := Release k\<rparr>) = heldSet l - {lk_idxs l ! k}"
    and "lk_idxs l ! k \<in> heldSet l" "locker_ok (l\<lparr>lk_phase := Release k\<rparr>)"
proof -
  have k: "k < length (lk_idxs l)" and "sorted_wrt (>) (lk_idxs l)"
    using assms by (auto simp: locker_ok_def heldCount_def)
  then have "lk_idxs l ! k \<notin> set (take k (lk_idxs l))"
    using nth_eq_iff_index_eq[OF descending_distinct[of "lk_idxs l"], of _ k] by (auto simp: in_set_conv_nth)
  then show "heldSet (l\<lparr>lk_phase := Release k\<rparr>) = heldSet l - {lk_idxs l ! k}" "lk_idxs l ! k \<in> heldSet l"
    using assms k by (auto simp: heldSet_def heldCount_def take_Suc_conv_app_nth)
  show "locker_ok (l\<lparr>lk_phase := Release k\<rparr>)" using assms by (simp add: locker_ok_def heldCount_def)
qed

lemma no_target_Release [simp]: "target (l\<lparr>lk_phase := Release k\<rparr>) = None"
  by (simp add: target_def)

lemma body_same_held:
  "lk_phase l = Acquire (length (lk_idxs l)) \<Longrightarrow> heldSet (l\<lparr>lk_phase := Release (length (lk_idxs l))\<rparr>) = heldSet l"
  by (simp add: heldSet_def heldCount_def)

lemma lock_inv_init: "lock_inv (length cmds) (lockInit cmds)"
  by (auto simp: lock_inv_def lockInit_def free_mutex_def locker_ok_def heldSet_def heldCount_def lockerOf_def
      lockIdxs_descending split: prod.splits)

lemma setters [simp]:
  "ls_thr (setShard i m s) = ls_thr s" "ls_shards (setPhase t p s) = ls_shards s"
  "ls_shards (setShard i m s) = (ls_shards s)(i := m)"
  "ls_thr (setPhase t p s) = (ls_thr s)(t := (ls_thr s t)\<lparr>lk_phase := p\<rparr>)"
  by (simp_all add: setShard_def setPhase_def)

lemma lock_inv_step: "lock_step n s s' \<Longrightarrow> lock_inv n s \<Longrightarrow> lock_inv n s'"
proof (induction rule: lock_step.induct)
  case (announce t s i)
  note I = lock_invD[OF announce.prems]
  show ?case
  proof (rule lock_invI, goal_cases)
    case (2 j u)
    then show ?case using announce I(2)[of j u] by (cases "j = i") auto
  next
    case (4 j u)
    then show ?case using announce I(4)[of u j] by (cases "j = i") auto
  qed (use I(1) I(3) in \<open>simp_all\<close>)
next
  case (lock t s i)
  note I = lock_invD[OF lock.prems]
  note A = acquire_one[OF lock.hyps(3) I(1)[OF lock.hyps(1)]]
  show ?case
  proof (rule lock_invI, goal_cases)
    case (1 u) then show ?case using A(2) I(1) by simp
  next
    case (2 j u) then show ?case using lock A(1) I(2)[of j u] by (cases "u = t") auto
  next
    case (3 j u) then show ?case using lock I(3)[of u j] by (cases "u = t") simp_all
  next
    case (4 j u) then show ?case using lock A(1) I(4)[of u j] by (cases "u = t") auto
  qed
next
  case (rlock t s i)
  note I = lock_invD[OF rlock.prems]
  note A = acquire_one[OF rlock.hyps(3) I(1)[OF rlock.hyps(1)]]
  show ?case
  proof (rule lock_invI, goal_cases)
    case (1 u) then show ?case using A(2) I(1) by simp
  next
    case (2 j u) then show ?case using rlock I(2)[of j u] by (cases "u = t"; cases "j = i") auto
  next
    case (3 j u) then show ?case using rlock A(1) I(3)[of u j] by (cases "u = t"; cases "j = i") simp_all
  next
    case (4 j u) then show ?case using rlock I(4)[of u j] by (cases "u = t"; cases "j = i") auto
  qed
next
  case (body t s)
  note I = lock_invD[OF body.prems] and B = body_same_held[OF body.hyps(2)]
  have none: "target (ls_thr s t) = None" using body.hyps(2) by (simp add: target_def)
  show ?case
  proof (rule lock_invI, goal_cases)
    case (1 u) then show ?case using body.hyps I(1)[of u] by (auto simp: locker_ok_def heldCount_def)
  next
    case (2 j u) then show ?case using B none I(2)[of j u] by (cases "u = t") auto
  next
    case (3 j u) then show ?case using B I(3)[of u j] by (cases "u = t") simp_all
  next
    case (4 j u) then show ?case using B I(4)[of u j] by (cases "u = t") simp_all
  qed
next
  case (unlock t s k i)
  note I = lock_invD[OF unlock.prems]
  note R = release_one[OF unlock.hyps(3) I(1)[OF unlock.hyps(1)]]
  have none: "target (ls_thr s t) = None" using unlock.hyps(3) by (simp add: target_def)
  have mine: "rw_writer (ls_shards s i) = Some t" using I(4)[of t i] unlock R(2) by simp
  show ?case
  proof (rule lock_invI, goal_cases)
    case (1 u) then show ?case using R(3) I(1) by simp
  next
    case (2 j u) then show ?case using unlock.hyps R(1) none I(2)[of j u] by (cases "u = t"; cases "j = i") auto
  next
    case (3 j u) then show ?case using unlock.hyps I(3)[of u j] by (cases "u = t"; cases "j = i") simp_all
  next
    case (4 j u) then show ?case using unlock.hyps R(1) mine I(4)[of u j] by (cases "u = t"; cases "j = i") auto
  qed
next
  case (runlock t s k i)
  note I = lock_invD[OF runlock.prems]
  note R = release_one[OF runlock.hyps(3) I(1)[OF runlock.hyps(1)]]
  show ?case
  proof (rule lock_invI, goal_cases)
    case (1 u) then show ?case using R(3) I(1) by simp
  next
    case (2 j u) then show ?case using runlock.hyps I(2)[of j u] by (cases "u = t"; cases "j = i") auto
  next
    case (3 j u) then show ?case using runlock.hyps R(1) I(3)[of u j] by (cases "u = t"; cases "j = i") simp_all
  next
    case (4 j u) then show ?case using runlock.hyps I(4)[of u j] by (cases "u = t"; cases "j = i") auto
  qed
qed

lemma lock_inv_reach: "lock_reach cmds s \<Longrightarrow> lock_inv (length cmds) s"
  by (induction rule: rtranclp_induct) (auto intro: lock_inv_init lock_inv_step)

section \<open>Progress\<close>

lemma held_above_target:
  assumes "i \<in> heldSet l" "target l = Some j" "locker_ok l"
  shows "j < i"
proof -
  obtain k where "lk_phase l = Acquire k" "k < length (lk_idxs l)" "lk_idxs l ! k = j" using assms(2) by (rule target_cases)
  then show ?thesis using assms by (auto simp: heldSet_def heldCount_def locker_ok_def in_set_conv_nth sorted_wrt_iff_nth_less)
qed

lemma stuck_has_target:
  assumes "lock_inv n s" "\<nexists>s'. lock_step n s s'" "t < n" "\<not> finished (ls_thr s t)"
  shows "\<exists>i. target (ls_thr s t) = Some i"
proof (cases "lk_phase (ls_thr s t)")
  case (Acquire k)
  then have "k \<le> length (lk_idxs (ls_thr s t))"
    using lock_invD(1)[OF assms(1,3)] by (simp add: locker_ok_def heldCount_def)
  moreover have "k \<noteq> length (lk_idxs (ls_thr s t))" using assms(2,3) Acquire lock_step.body by blast
  ultimately show ?thesis using Acquire by (simp add: target_def)
next
  case (Release k)
  then obtain k' where "lk_phase (ls_thr s t) = Release (Suc k')"
    using assms(4) by (cases k) (auto simp: finished_def)
  then show ?thesis using assms(2,3) lock_step.unlock lock_step.runlock by metis
qed

lemma holder_unfinished: "i \<in> heldSet l \<Longrightarrow> \<not> finished l"
  by (auto simp: heldSet_def heldCount_def finished_def)

lemma lock_progress:
  assumes "lock_inv n s" "t < n" "\<not> finished (ls_thr s t)"
  shows "\<exists>s'. lock_step n s s'"
proof (rule ccontr)
  assume stuck: "\<nexists>s'. lock_step n s s'"
  note I = lock_invD[OF assms(1)]
  define waits where "waits i = (\<exists>u < n. target (ls_thr s u) = Some i)" for i
  have "\<exists>i. waits i" using stuck_has_target[OF assms(1) stuck assms(2,3)] assms(2) by (auto simp: waits_def)
  then obtain i where i: "waits i" and least: "\<And>j. waits j \<Longrightarrow> i \<le> j" using exists_least_iff[of waits] by (metis not_le)
  then obtain u where u: "u < n" "target (ls_thr s u) = Some i" by (auto simp: waits_def)
  have not_held: "i \<notin> heldSet (ls_thr s v)" if v: "v < n" for v
  proof
    assume held: "i \<in> heldSet (ls_thr s v)"
    obtain j where j: "target (ls_thr s v) = Some j"
      using stuck_has_target[OF assms(1) stuck v holder_unfinished[OF held]] by blast
    then have "j < i" using held_above_target[OF held j I(1)[OF v]] by simp
    moreover have "i \<le> j" using least j v by (auto simp: waits_def)
    ultimately show False by simp
  qed
  then have no_readers: "rw_readers (ls_shards s i) = {}" using I(3) by blast
  show False
  proof (cases "rw_writer (ls_shards s i)")
    case None
    then show False using stuck u lock_step.announce lock_step.rlock by metis
  next
    case (Some w)
    then have "w < n" "lk_write (ls_thr s w)" "target (ls_thr s w) = Some i" using I(2)[OF Some] not_held by auto
    then show False using stuck Some no_readers lock_step.lock by metis
  qed
qed

section \<open>Termination\<close>

definition work :: "lockState \<Rightarrow> nat \<Rightarrow> nat" where
  "work s t =
     (let l = ls_thr s t; len = length (lk_idxs l) in
      case lk_phase l of
        Acquire k \<Rightarrow> (if k < len \<and> rw_writer (ls_shards s (lk_idxs l ! k)) = Some t then 2 * (len - k) - 1 else 2 * (len - k)) + len + 1
      | Release k \<Rightarrow> k)"

lemma work_step:
  assumes "lock_step n s s'" "lock_inv n s"
  shows "\<exists>t < n. work s' t < work s t \<and> (\<forall>u. u \<noteq> t \<longrightarrow> work s' u = work s u)"
  using assms
proof (induction rule: lock_step.induct)
  case (announce t s i)
  then obtain k where "lk_phase (ls_thr s t) = Acquire k" "k < length (lk_idxs (ls_thr s t))" "lk_idxs (ls_thr s t) ! k = i"
    by (auto elim: target_cases)
  with announce show ?case by (intro exI[of _ t]) (auto simp: work_def Let_def split: phase.splits)
next
  case (lock t s i)
  then obtain k where "lk_phase (ls_thr s t) = Acquire k" "k < length (lk_idxs (ls_thr s t))" "lk_idxs (ls_thr s t) ! k = i"
    by (auto elim: target_cases)
  with lock show ?case by (intro exI[of _ t]) (auto simp: work_def Let_def heldCount_def split: phase.splits)
next
  case (rlock t s i)
  then obtain k where "lk_phase (ls_thr s t) = Acquire k" "k < length (lk_idxs (ls_thr s t))" "lk_idxs (ls_thr s t) ! k = i"
    by (auto elim: target_cases)
  with rlock show ?case by (intro exI[of _ t]) (auto simp: work_def Let_def heldCount_def split: phase.splits)
next
  case (body t s)
  then show ?case by (intro exI[of _ t]) (auto simp: work_def Let_def split: phase.splits)
next
  case (unlock t s k i)
  then have "rw_writer (ls_shards s i) = Some t"
    using lock_invD[OF unlock.prems] release_one(2)[of "ls_thr s t" k] by blast
  with unlock show ?case by (intro exI[of _ t]) (auto simp: work_def Let_def split: phase.splits)
next
  case (runlock t s k i)
  then show ?case by (intro exI[of _ t]) (auto simp: work_def Let_def split: phase.splits)
qed

lemma total_work_step:
  assumes "lock_step n s s'" "lock_inv n s"
  shows "(\<Sum>t<n. work s' t) < (\<Sum>t<n. work s t)"
proof -
  obtain t where t: "t < n" "work s' t < work s t" "\<And>u. u \<noteq> t \<Longrightarrow> work s' u = work s u" using work_step[OF assms] by blast
  then show ?thesis by (intro sum_strict_mono_ex1) (auto, metis le_less)
qed

lemma run_bound:
  "(lock_step n ^^ k) s s' \<Longrightarrow> lock_inv n s \<Longrightarrow> lock_inv n s' \<and> k + (\<Sum>t<n. work s' t) \<le> (\<Sum>t<n. work s t)"
proof (induction k arbitrary: s')
  case (Suc k)
  then obtain m where "(lock_step n ^^ k) s m" and st: "lock_step n m s'" by auto
  with Suc have "lock_inv n m" "k + (\<Sum>t<n. work m t) \<le> (\<Sum>t<n. work s t)" by auto
  then show ?case using lock_inv_step[OF st] total_work_step[OF st] by auto
qed simp

lemma work_init: "work (lockInit cmds) t \<le> 3 * length (lk_idxs (lockerOf (cmds ! t))) + 1"
  by (simp add: work_def lockInit_def lockerOf_def Let_def split: prod.split)

lemma lock_static:
  "lock_step n s s' \<Longrightarrow> lk_idxs (ls_thr s' t) = lk_idxs (ls_thr s t) \<and> lk_write (ls_thr s' t) = lk_write (ls_thr s t)"
  by (induction rule: lock_step.induct) auto

lemma lock_static_reach:
  "lock_reach cmds s \<Longrightarrow> lk_idxs (ls_thr s t) = lk_idxs (lockerOf (cmds ! t)) \<and> lk_write (ls_thr s t) = lk_write (lockerOf (cmds ! t))"
  by (induction rule: rtranclp_induct) (auto simp: lockInit_def dest: lock_static[where t = t])

lemma exclusive:
  assumes "lock_inv n s" "t < n" "u < n" "t \<noteq> u" "i \<in> heldSet (ls_thr s t)" "i \<in> heldSet (ls_thr s u)"
  shows "\<not> lk_write (ls_thr s t)"
proof
  assume w: "lk_write (ls_thr s t)"
  note I = lock_invD[OF assms(1)]
  have mine: "rw_writer (ls_shards s i) = Some t" "rw_readers (ls_shards s i) = {}"
    using I(4)[OF assms(2) w assms(5)] by auto
  show False
  proof (cases "lk_write (ls_thr s u)")
    case True
    then show False using I(4)[OF assms(3) True assms(6)] mine assms(4) by simp
  next
    case False
    then have "u \<in> rw_readers (ls_shards s i)" using I(3)[of u i] assms by simp
    then show False using mine by simp
  qed
qed

text \<open>Two reads of one key, both inside.\<close>

definition two_reads :: "(dbid \<times> bytes list \<times> bool) list" where
  "two_reads = [(0, [[97]], False), (0, [[97]], False)]"

definition both_inside :: lockState where
  "both_inside = (let i = shardIndex 0 [97]; l = \<lparr>lk_idxs = [i], lk_write = False, lk_phase = Acquire 1\<rparr> in
     \<lparr>ls_shards = (\<lambda>_. free_mutex)(i := \<lparr>rw_writer = None, rw_readers = {0, 1}\<rparr>),
      ls_thr = (\<lambda>t. lockerOf (two_reads ! t))(0 := l, 1 := l)\<rparr>)"

lemma both_inside_run: "(lock_step (length two_reads) ^^ 2) (lockInit two_reads) both_inside"
proof -
  define i where "i = shardIndex 0 [97]"
  define s1 where "s1 = setPhase 0 (Acquire 1) (setShard i \<lparr>rw_writer = None, rw_readers = {0}\<rparr> (lockInit two_reads))"
  have l: "lockerOf (0, [[97]], False) = \<lparr>lk_idxs = [i], lk_write = False, lk_phase = Acquire 0\<rparr>"
    by (simp add: lockerOf_def lockIdxs_def i_def)
  have thr: "ls_thr (lockInit two_reads) t = \<lparr>lk_idxs = [i], lk_write = False, lk_phase = Acquire 0\<rparr>" if "t < 2" for t
    using that by (auto simp: lockInit_def two_reads_def less_2_cases_iff l)
  have n: "length two_reads = 2" by (simp add: two_reads_def)
  have "lock_step 2 (lockInit two_reads) s1"
    using lock_step.rlock[of 0 2 "lockInit two_reads" i] thr[of 0]
    by (simp add: s1_def target_def heldCount_def) (simp add: lockInit_def free_mutex_def)
  moreover have "lock_step 2 s1 both_inside"
    using lock_step.rlock[of 1 2 s1 i] thr[of 0] thr[of 1]
    by (simp add: s1_def target_def heldCount_def both_inside_def Let_def i_def[symmetric])
       (simp add: setPhase_def setShard_def lockInit_def insert_commute)
  ultimately show ?thesis by (auto simp: n numeral_2_eq_2)
qed





section \<open>Keys that are not locked\<close>

text \<open>\<open>SUNIONSTORE dst a b\<close> has no key count: the first source is read as one, and when it is not a number the
  command runs without any lock. The sorted-set form leaves out the destination, which it writes.\<close>

lemma set_store_unlocked:
  "parse_int a = None \<Longrightarrow> commandKeys ''SUNIONSTORE'' (dst # a # rest) = Inr []"
  by (simp add: commandKeys_def keysWithNumkeys_def)

lemma zset_store_dest_unlocked:
  "commandKeys ''ZUNIONSTORE'' [dst, [49], src] = Inr [src]"
  by (simp add: commandKeys_def keysWithNumkeys_def parse_int_def digits_val_def is_digit_def is_int64_def wrap64_def)

text \<open>A key count close to \<open>2\<^sup>63\<close> wraps the end of the slice. The panic happens while the dispatcher
  computes the keys, outside the function that turns panics into error replies.\<close>

lemma numkeys_overflow_panics:
  "commandKeys ''ZUNION'' [ascii ''9223372036854775807'', key] = Inl GoPanic"
proof -
  have "parse_int (ascii ''9223372036854775807'') = Some 9223372036854775807" by code_simp
  then show ?thesis by (simp add: commandKeys_def keysWithNumkeys_def wrap64_def)
qed

end
