(* ===== verification/Streams.thy ===== *)
theory Streams
  imports Generic
begin

text \<open>
  \<open>stream.go\<close>: streams.  An entry is a key of its own, ordered by its 128-bit id; a group is a key with
  the last delivered id; a pending entry is a key with its consumer, its delivery count and its
  delivery time.  Streams are not in the index.
\<close>

section \<open>Ids\<close>

record streamID =
  id_ms :: "64 word"
  id_seq :: "64 word"

definition zeroID :: streamID where "zeroID = \<lparr>id_ms = 0, id_seq = 0\<rparr>"
definition maxID :: streamID where "maxID = \<lparr>id_ms = -1, id_seq = -1\<rparr>"

definition badID :: goerr where
  "badID = ProtoError ''ERR Invalid stream ID specified as stream command argument''"

definition parse_u64 :: "bytes \<Rightarrow> 64 word option" where
  "parse_u64 s = map_option of_nat (parse_uint s)"

definition parseStreamID :: "bytes \<Rightarrow> goerr + streamID" where
  "parseStreamID s =
     (if 45 \<in> set s then
        (case (parse_u64 (takeWhile (\<lambda>c. c \<noteq> 45) s), parse_u64 (tl (dropWhile (\<lambda>c. c \<noteq> 45) s))) of
           (Some ms, Some sq) \<Rightarrow> Inr \<lparr>id_ms = ms, id_seq = sq\<rparr>
         | _ \<Rightarrow> Inl badID)
      else (case parse_u64 s of Some ms \<Rightarrow> Inr \<lparr>id_ms = ms, id_seq = 0\<rparr> | None \<Rightarrow> Inl badID))"

definition id_less :: "streamID \<Rightarrow> streamID \<Rightarrow> bool" where
  "id_less a b \<longleftrightarrow> (if id_ms a \<noteq> id_ms b then id_ms a < id_ms b else id_seq a < id_seq b)"

definition nextID :: "streamID \<Rightarrow> streamID" where
  "nextID i = (if id_seq i = -1 then \<lparr>id_ms = id_ms i + 1, id_seq = 0\<rparr> else \<lparr>id_ms = id_ms i, id_seq = id_seq i + 1\<rparr>)"

definition id_String :: "streamID \<Rightarrow> bytes" where
  "id_String i = format_uint (unat (id_ms i)) @ [45] @ format_uint (unat (id_seq i))"

definition must16 :: "streamID \<Rightarrow> bytes" where
  "must16 i = be64 (id_ms i) @ be64 (id_seq i)"

section \<open>Keys\<close>

definition appendStreamEntryKey :: "dbid \<Rightarrow> bytes \<Rightarrow> streamID \<Rightarrow> bytes" where
  "appendStreamEntryKey db key i = (([SegStreamEntry] @ be16 db) @ key) @ [0x00] @ be64 (id_ms i) @ be64 (id_seq i)"

definition streamIDOfEntryKey :: "bytes \<Rightarrow> bytes \<Rightarrow> streamID option" where
  "streamIDOfEntryKey pfx k =
     (if length k < length pfx + 16 then None
      else let b = drop (length pfx) k
           in Some \<lparr>id_ms = u64_of (take 8 b), id_seq = u64_of (take 8 (drop 8 b))\<rparr>)"

definition streamGroupPrefix :: "dbid \<Rightarrow> bytes \<Rightarrow> bytes \<Rightarrow> bytes" where
  "streamGroupPrefix db key grp = ((([SegStreamGroup] @ be16 db) @ key) @ [0x00]) @ grp @ [0x00]"

definition streamPELPrefix :: "dbid \<Rightarrow> bytes \<Rightarrow> bytes \<Rightarrow> bytes" where
  "streamPELPrefix db key grp = ((([SegStreamPEL] @ be16 db) @ key) @ [0x00]) @ grp @ [0x00]"

definition appendStreamPELKey :: "dbid \<Rightarrow> bytes \<Rightarrow> bytes \<Rightarrow> streamID \<Rightarrow> bytes" where
  "appendStreamPELKey db key grp i = streamPELPrefix db key grp @ be64 (id_ms i) @ be64 (id_seq i)"

section \<open>Fields\<close>

definition encField :: "bytes \<times> bytes \<Rightarrow> bytes" where
  "encField fv = be16 (of_nat (length (fst fv))) @ fst fv @ be32 (of_nat (length (snd fv))) @ snd fv"

definition encodeStreamFields :: "(bytes \<times> bytes) list \<Rightarrow> bytes" where
  "encodeStreamFields flds = be16 (of_nat (length flds)) @ concat (map encField flds)"

fun decFields :: "nat \<Rightarrow> bytes \<Rightarrow> goerr + (bytes \<times> bytes) list" where
  "decFields 0 v = Inr []"
| "decFields (Suc n) v =
     (if length v < 2 then Inl ErrCorruptValue
      else
        let fl = unat (u16_of (take 2 v)); r = drop 2 v in
        if length r < fl + 4 then Inl ErrCorruptValue
        else
          let vl = unat (u32_of (take 4 (drop fl r))); r' = drop (fl + 4) r in
          if length r' < vl then Inl ErrCorruptValue
          else (case decFields n (drop vl r') of
                  Inl err \<Rightarrow> Inl err | Inr out \<Rightarrow> Inr ((take fl r, take vl r') # out)))"

definition decodeStreamFields :: "bytes \<Rightarrow> goerr + (bytes \<times> bytes) list" where
  "decodeStreamFields v = (if length v < 2 then Inl ErrCorruptValue else decFields (unat (u16_of (take 2 v))) (drop 2 v))"

record streamEntry =
  se_id :: streamID
  se_fields :: "(bytes \<times> bytes) list"

section \<open>Entries\<close>

text \<open>\<open>LastInRange\<close> turns its upper bound into a prefix bound, and the caller passes one that already is.\<close>

definition lastStreamEntryID :: "'e pebble \<Rightarrow> dbid \<Rightarrow> bytes \<Rightarrow> 'e Store \<Rightarrow> goerr + streamID option" where
  "lastStreamEntryID P db key s =
     (let pfx = streamEntryPrefix db key
      in case LastInRange P (s_eng s) pfx (end_bytes (prefixEnd pfx)) of
           Inl err \<Rightarrow> Inl err
         | Inr None \<Rightarrow> Inr None
         | Inr (Some (k, v)) \<Rightarrow> Inr (streamIDOfEntryKey pfx k))"

definition topItemErr :: goerr where
  "topItemErr = ProtoError ''ERR The ID specified in XADD is equal or smaller than the target stream top item''"

text \<open>How the id of a new entry is asked for: given, generated, or generated within a millisecond.\<close>

datatype idSpec = GivenID streamID | AutoID | PartialID "64 word"

definition autoID :: "int \<Rightarrow> streamID option \<Rightarrow> streamID" where
  "autoID nowMs lst =
     (let now = word_of_int nowMs in
      case lst of
        None \<Rightarrow> \<lparr>id_ms = now, id_seq = 0\<rparr>
      | Some l \<Rightarrow> if now > id_ms l then \<lparr>id_ms = now, id_seq = 0\<rparr> else \<lparr>id_ms = id_ms l, id_seq = id_seq l + 1\<rparr>)"

definition partialID :: "64 word \<Rightarrow> streamID option \<Rightarrow> goerr + streamID" where
  "partialID ms lst =
     (case lst of
        None \<Rightarrow> Inr (if ms = 0 then \<lparr>id_ms = 0, id_seq = 1\<rparr> else \<lparr>id_ms = ms, id_seq = 0\<rparr>)
      | Some l \<Rightarrow>
          if ms < id_ms l then Inl topItemErr
          else if ms = id_ms l then
            (if id_seq l = -1 then Inl (ProtoError ''ERR The stream has already the maximal ID possible'')
             else Inr \<lparr>id_ms = id_ms l, id_seq = id_seq l + 1\<rparr>)
          else Inr \<lparr>id_ms = ms, id_seq = 0\<rparr>)"

definition checkTop :: "streamID option \<Rightarrow> streamID \<Rightarrow> goerr + streamID" where
  "checkTop lst i = (case lst of None \<Rightarrow> Inr i | Some l \<Rightarrow> if \<not> id_less l i then Inl topItemErr else Inr i)"

fun chooseID :: "int \<Rightarrow> idSpec \<Rightarrow> streamID option \<Rightarrow> goerr + streamID" where
  "chooseID nowMs AutoID lst = checkTop lst (autoID nowMs lst)"
| "chooseID nowMs (PartialID ms) lst = (case partialID ms lst of Inl err \<Rightarrow> Inl err | Inr i \<Rightarrow> checkTop lst i)"
| "chooseID nowMs (GivenID i) lst = (if i = zeroID \<and> lst \<noteq> None then Inl topItemErr else checkTop lst i)"

definition xAdd ::
  "'e pebble \<Rightarrow> Env \<Rightarrow> dbid \<Rightarrow> bytes \<Rightarrow> idSpec \<Rightarrow> (bytes \<times> bytes) list \<Rightarrow> bool \<Rightarrow> 'e Store \<Rightarrow> (goerr, streamID, 'e Store) res" where
  "xAdd P E db key spec flds nomkstream s =
     bindS (lastStreamEntryID P db key s) s (\<lambda>lst.
       bindS (chooseID (UnixMilli (clock_Now (env_now E))) spec lst) s (\<lambda>i.
         if nomkstream \<and> lst = None then (Inr zeroID, s)
         else bindE (applyBatch P [BSet (appendStreamEntryKey db key i) (encodeStreamFields flds)] s)
                (\<lambda>_ s1. (Inr i, keyChange (notifyListChanged s1)))))"

text \<open>The exclusive upper bound of a range: the successor of the last id, with a wrap at the very end.\<close>

definition rangeHi :: "streamID \<Rightarrow> streamID" where
  "rangeHi e = (if id_seq e = -1 \<and> id_ms e \<noteq> -1 then \<lparr>id_ms = id_ms e + 1, id_seq = 0\<rparr> else e\<lparr>id_seq := id_seq e + 1\<rparr>)"

definition rangeVisit :: "bytes \<Rightarrow> streamID \<Rightarrow> streamID \<Rightarrow> streamEntry list \<Rightarrow> bytes \<Rightarrow> bytes \<Rightarrow> goerr option \<times> streamEntry list" where
  "rangeVisit pfx start fin out k v =
     (None, case streamIDOfEntryKey pfx k of
              None \<Rightarrow> out
            | Some i \<Rightarrow>
                if id_less i start \<or> id_less fin i then out
                else (case decodeStreamFields v of
                        Inl err \<Rightarrow> out | Inr flds \<Rightarrow> out @ [\<lparr>se_id = i, se_fields = flds\<rparr>]))"

definition xRange ::
  "'e pebble \<Rightarrow> dbid \<Rightarrow> bytes \<Rightarrow> streamID \<Rightarrow> streamID \<Rightarrow> int \<Rightarrow> bool \<Rightarrow> 'e Store \<Rightarrow> goerr + streamEntry list" where
  "xRange P db key start0 fin0 count rv s =
     (let pfx = streamEntryPrefix db key;
          (start, fin) = (if id_less fin0 start0 then (fin0, start0) else (start0, fin0))
      in case ScanRange P (s_eng s) (pfx @ must16 start) (Some (pfx @ must16 (rangeHi fin))) (rangeVisit pfx start fin) [] of
           (err, out) \<Rightarrow>
             if err \<noteq> None \<and> err \<noteq> Some ErrStop then Inl (the err)
             else let out' = (if rv then rev out else out)
                  in Inr (if count > 0 then take (nat count) out' else out'))"

fun xDelOps :: "'e pebble \<Rightarrow> 'e \<Rightarrow> dbid \<Rightarrow> bytes \<Rightarrow> streamID list \<Rightarrow> goerr + bop list" where
  "xDelOps P e db key [] = Inr []"
| "xDelOps P e db key (i # is) =
     (let k = appendStreamEntryKey db key i in
      case eng_Get P e k of
        Inl err \<Rightarrow> if err = ErrNotFound then xDelOps P e db key is else Inl err
      | Inr v \<Rightarrow> (case xDelOps P e db key is of Inl err \<Rightarrow> Inl err | Inr ops \<Rightarrow> Inr (BDelete k # ops)))"

definition xDel :: "'e pebble \<Rightarrow> dbid \<Rightarrow> bytes \<Rightarrow> streamID list \<Rightarrow> 'e Store \<Rightarrow> (goerr, int, 'e Store) res" where
  "xDel P db key ids s =
     bindS (xDelOps P (s_eng s) db key ids) s (\<lambda>ops.
       if ops = [] then (Inr 0, s) else bindE (applyBatch P ops s) (\<lambda>_ s1. (Inr (int (length ops)), s1)))"

definition idsVisit :: "bytes \<Rightarrow> streamID list \<Rightarrow> bytes \<Rightarrow> goerr option \<times> streamID list" where
  "idsVisit pfx ids k = (None, case streamIDOfEntryKey pfx k of None \<Rightarrow> ids | Some i \<Rightarrow> ids @ [i])"

definition xTrimMaxlen :: "'e pebble \<Rightarrow> dbid \<Rightarrow> bytes \<Rightarrow> int \<Rightarrow> 'e Store \<Rightarrow> (goerr, int, 'e Store) res" where
  "xTrimMaxlen P db key n s =
     (let pfx = streamEntryPrefix db key
      in case ScanKeys P (s_eng s) pfx (idsVisit pfx) [] of
           (Some err, ids) \<Rightarrow> (Inl err, s)
         | (None, ids) \<Rightarrow>
             let excess = int (length ids) - n in
             if excess \<le> 0 then (Inr 0, s)
             else if excess > int (length ids) then (Inl GoPanic, s)
             else bindE (applyBatch P (map (\<lambda>i. BDelete (appendStreamEntryKey db key i)) (take (nat excess) ids)) s)
                    (\<lambda>_ s1. (Inr excess, s1)))"

definition deleteRangeCount :: "'e pebble \<Rightarrow> bytes \<Rightarrow> bytes \<Rightarrow> 'e Store \<Rightarrow> (goerr, int, 'e Store) res" where
  "deleteRangeCount P lo hi s =
     (case ScanRange P (s_eng s) lo (Some hi) (\<lambda>n k v. (None, n + 1)) 0 of
        (Some err, n) \<Rightarrow> (Inl err, s)
      | (None, n) \<Rightarrow> if n = 0 then (Inr 0, s) else bindE (engDeleteRange P lo hi s) (\<lambda>_ s1. (Inr n, s1)))"

definition xTrimMinID :: "'e pebble \<Rightarrow> dbid \<Rightarrow> bytes \<Rightarrow> streamID \<Rightarrow> 'e Store \<Rightarrow> (goerr, int, 'e Store) res" where
  "xTrimMinID P db key i s =
     (let pfx = streamEntryPrefix db key in deleteRangeCount P (pfx @ replicate 16 0) (pfx @ must16 i) s)"

section \<open>Groups\<close>

definition groupVisit :: "streamID option \<Rightarrow> bytes \<Rightarrow> bytes \<Rightarrow> goerr option \<times> streamID option" where
  "groupVisit st k v =
     (Some ErrStop, if length v \<ge> 16 then Some \<lparr>id_ms = u64_of (take 8 v), id_seq = u64_of (take 8 (drop 8 v))\<rparr> else st)"

definition groupGet :: "'e pebble \<Rightarrow> dbid \<Rightarrow> bytes \<Rightarrow> bytes \<Rightarrow> 'e Store \<Rightarrow> goerr + streamID option" where
  "groupGet P db key grp s =
     (case Scan P (s_eng s) (streamGroupPrefix db key grp) groupVisit None of
        (err, r) \<Rightarrow> if err \<noteq> None \<and> err \<noteq> Some ErrStop then Inl (the err) else Inr r)"

definition groupSet :: "'e pebble \<Rightarrow> dbid \<Rightarrow> bytes \<Rightarrow> bytes \<Rightarrow> streamID \<Rightarrow> 'e Store \<Rightarrow> (goerr, unit, 'e Store) res" where
  "groupSet P db key grp i s = engPut P (streamGroupPrefix db key grp) (must16 i) s"

definition groupDestroy :: "'e pebble \<Rightarrow> dbid \<Rightarrow> bytes \<Rightarrow> bytes \<Rightarrow> 'e Store \<Rightarrow> (goerr, unit, 'e Store) res" where
  "groupDestroy P db key grp s =
     bindE (engDelete P (streamGroupPrefix db key grp) s) (\<lambda>_ s1.
       let p = streamPELPrefix db key grp in engDeleteRange P p (end_bytes (prefixEnd p)) s1)"

definition pelValue :: "bytes \<Rightarrow> 32 word \<Rightarrow> int \<Rightarrow> bytes" where
  "pelValue consumer cnt nowMs = consumer @ [0x00] @ be32 cnt @ be64 (word_of_int nowMs)"

definition pelAdd :: "'e pebble \<Rightarrow> Env \<Rightarrow> dbid \<Rightarrow> bytes \<Rightarrow> bytes \<Rightarrow> bytes \<Rightarrow> streamID \<Rightarrow> 'e Store \<Rightarrow> (goerr, unit, 'e Store) res" where
  "pelAdd P E db key grp consumer i s =
     engPut P (appendStreamPELKey db key grp i) (pelValue consumer 1 (UnixMilli (clock_Now (env_now E)))) s"

definition pelRemove :: "'e pebble \<Rightarrow> dbid \<Rightarrow> bytes \<Rightarrow> bytes \<Rightarrow> streamID \<Rightarrow> 'e Store \<Rightarrow> (goerr, unit, 'e Store) res" where
  "pelRemove P db key grp i s = engDelete P (appendStreamPELKey db key grp i) s"

definition pelMoveTo :: "'e pebble \<Rightarrow> Env \<Rightarrow> dbid \<Rightarrow> bytes \<Rightarrow> bytes \<Rightarrow> bytes \<Rightarrow> streamID \<Rightarrow> 'e Store \<Rightarrow> (goerr, unit, 'e Store) res" where
  "pelMoveTo P E db key grp consumer i s = pelAdd P E db key grp consumer i s"

record pendingEntry =
  pe_id :: streamID
  pe_consumer :: bytes
  pe_deliveryMs :: int
  pe_deliveryCert :: "32 word"

text \<open>A pending value is the consumer up to the first zero byte, then the count and the time.\<close>

definition decodePending :: "streamID \<Rightarrow> bytes \<Rightarrow> pendingEntry option" where
  "decodePending i v =
     (if 0 \<notin> set v then None
      else
        let name = takeWhile (\<lambda>c. c \<noteq> 0) v; r = drop (length name + 1) v in
        if length v < length name + 13 then None
        else Some \<lparr>pe_id = i, pe_consumer = name, pe_deliveryMs = sint (u64_of (take 8 (drop 4 r))),
                   pe_deliveryCert = u32_of (take 4 r)\<rparr>)"

definition pelVisit :: "bytes \<Rightarrow> bytes \<Rightarrow> int \<Rightarrow> pendingEntry list \<Rightarrow> bytes \<Rightarrow> bytes \<Rightarrow> goerr option \<times> pendingEntry list" where
  "pelVisit pfx consumer count out k v =
     (case streamIDOfEntryKey pfx k of
        None \<Rightarrow> (None, out)
      | Some i \<Rightarrow>
          (case decodePending i v of
             None \<Rightarrow> (None, out)
           | Some e \<Rightarrow>
               if consumer \<noteq> [] \<and> pe_consumer e \<noteq> consumer then (None, out)
               else let out' = out @ [e]
                    in (if count > 0 \<and> int (length out') \<ge> count then Some ErrStop else None, out')))"

text \<open>The upper bound is the last id with its sequence incremented, without a carry.\<close>

definition pelHi :: "streamID \<Rightarrow> streamID" where
  "pelHi e = \<lparr>id_ms = id_ms e, id_seq = id_seq e + 1\<rparr>"

definition pelList ::
  "'e pebble \<Rightarrow> dbid \<Rightarrow> bytes \<Rightarrow> bytes \<Rightarrow> bytes \<Rightarrow> streamID \<Rightarrow> streamID \<Rightarrow> int \<Rightarrow> 'e Store \<Rightarrow> goerr + pendingEntry list" where
  "pelList P db key grp consumer start fin count s =
     (let pfx = streamPELPrefix db key grp
      in case ScanRange P (s_eng s) (pfx @ must16 start) (Some (pfx @ must16 (pelHi fin))) (pelVisit pfx consumer count) [] of
           (err, out) \<Rightarrow> if err \<noteq> None \<and> err \<noteq> Some ErrStop then Inl (the err) else Inr out)"

text \<open>Redelivery of what a consumer already holds; an entry that was deleted is reported without fields,
  one that cannot be decoded is left out.\<close>

fun redeliver ::
  "'e pebble \<Rightarrow> Env \<Rightarrow> dbid \<Rightarrow> bytes \<Rightarrow> bytes \<Rightarrow> pendingEntry list \<Rightarrow> 'e Store \<Rightarrow> (goerr, streamEntry list, 'e Store) res" where
  "redeliver P E db key grp [] s = (Inr [], s)"
| "redeliver P E db key grp (p # ps) s =
     bindE (engPut P (appendStreamPELKey db key grp (pe_id p))
              (pelValue (pe_consumer p) (pe_deliveryCert p + 1) (UnixMilli (clock_Now (env_now E)))) s) (\<lambda>_ s1.
       let here = (case eng_Get P (s_eng s1) (appendStreamEntryKey db key (pe_id p)) of
                     Inl err \<Rightarrow> [\<lparr>se_id = pe_id p, se_fields = []\<rparr>]
                   | Inr v \<Rightarrow> (case decodeStreamFields v of
                                Inl err \<Rightarrow> [] | Inr flds \<Rightarrow> [\<lparr>se_id = pe_id p, se_fields = flds\<rparr>]))
       in bindE (redeliver P E db key grp ps s1) (\<lambda>out s2. (Inr (here @ out), s2)))"

definition pelOwned ::
  "'e pebble \<Rightarrow> Env \<Rightarrow> dbid \<Rightarrow> bytes \<Rightarrow> bytes \<Rightarrow> bytes \<Rightarrow> int \<Rightarrow> 'e Store \<Rightarrow> (goerr, streamEntry list, 'e Store) res" where
  "pelOwned P E db key grp consumer count s =
     bindS (pelList P db key grp consumer zeroID maxID count s) s (\<lambda>pending. redeliver P E db key grp pending s)"

definition xGroupConsumerCount :: "'e pebble \<Rightarrow> dbid \<Rightarrow> bytes \<Rightarrow> bytes \<Rightarrow> 'e Store \<Rightarrow> nat" where
  "xGroupConsumerCount P db key grp s =
     (case pelList P db key grp [] zeroID maxID 0 s of
        Inl err \<Rightarrow> 0 | Inr pending \<Rightarrow> length (remdups (map pe_consumer pending)))"

section \<open>Copying and deleting\<close>

definition copyVisit :: "bytes \<Rightarrow> dbid \<Rightarrow> bytes \<Rightarrow> bop list \<Rightarrow> bytes \<Rightarrow> bytes \<Rightarrow> goerr option \<times> bop list" where
  "copyVisit pfx dstDB dst ops k v =
     (None, case streamIDOfEntryKey pfx k of None \<Rightarrow> ops | Some i \<Rightarrow> ops @ [BSet (appendStreamEntryKey dstDB dst i) v])"

definition copyStreamEntries :: "'e pebble \<Rightarrow> dbid \<Rightarrow> bytes \<Rightarrow> dbid \<Rightarrow> bytes \<Rightarrow> 'e Store \<Rightarrow> (goerr, bool, 'e Store) res" where
  "copyStreamEntries P srcDB src dstDB dst s =
     (let pfx = streamEntryPrefix srcDB src
      in case Scan P (s_eng s) pfx (copyVisit pfx dstDB dst) [] of
           (Some err, ops) \<Rightarrow> (Inl err, s)
         | (None, ops) \<Rightarrow> if ops = [] then (Inr False, s) else bindE (applyBatch P ops s) (\<lambda>_ s1. (Inr True, s1)))"

definition deleteStreamEntries :: "'e pebble \<Rightarrow> dbid \<Rightarrow> bytes \<Rightarrow> 'e Store \<Rightarrow> (goerr, unit, 'e Store) res" where
  "deleteStreamEntries P db key s =
     (case Scan P (s_eng s) (streamEntryPrefix db key) (\<lambda>ops k v. (None, ops @ [BDelete k])) [] of
        (Some err, ops) \<Rightarrow> (Inl err, s)
      | (None, ops) \<Rightarrow> applyBatch P ops s)"

end
