(* ===== verification/StreamCmds.thy ===== *)
theory StreamCmds
  imports Streams
begin

text \<open>
  The stream commands (\<open>cmd_stream.go\<close>, \<open>cmd_stream_dispatch.go\<close>). Of \<open>XREAD\<close> and \<open>XREADGROUP\<close> one attempt
  is modelled, the body of their loops: it returns the replies, or \<open>None\<close> when no stream has anything
  new and the command goes on to wait. Waiting is the subject of the theory \<open>Blocking\<close>.
\<close>

section \<open>Arguments\<close>

text \<open>\<open>atoi\<close> of \<open>cmd_stream.go\<close>: no digits are zero, and the value wraps.\<close>

fun atoiLoop :: "bytes \<Rightarrow> int \<Rightarrow> goerr + int" where
  "atoiLoop [] n = Inr n"
| "atoiLoop (c # cs) n = (if \<not> is_digit c then Inl ErrNotInteger else atoiLoop cs (wrap64 (n * 10 + (uint c - 48))))"

definition atoi :: "bytes \<Rightarrow> goerr + int" where
  "atoi b =
     (case b of
        [] \<Rightarrow> Inr 0
      | c # cs \<Rightarrow>
          if c = 45 then (case atoiLoop cs 0 of Inl err \<Rightarrow> Inl err | Inr n \<Rightarrow> Inr (wrap64 (- n)))
          else atoiLoop b 0)"

definition parseStreamBound :: "bytes \<Rightarrow> bool \<Rightarrow> goerr + streamID" where
  "parseStreamBound b asStart =
     (let excl = (b \<noteq> [] \<and> hd b = 40); s = (if excl then tl b else b) in
      if s = [45] then (if excl then Inl badID else Inr zeroID)
      else if s = [43] then (if excl then Inl badID else Inr maxID)
      else case parseStreamID s of
        Inl err \<Rightarrow> Inl err
      | Inr i \<Rightarrow>
          if excl then
            (if asStart then Inr (nextID i)
             else if id_seq i = 0 then
               (if id_ms i = 0 then Inl badID else Inr \<lparr>id_ms = id_ms i - 1, id_seq = -1\<rparr>)
             else Inr \<lparr>id_ms = id_ms i, id_seq = id_seq i - 1\<rparr>)
          else if \<not> asStart \<and> 45 \<notin> set s then Inr \<lparr>id_ms = id_ms i, id_seq = -1\<rparr>
          else Inr i)"

definition entryReply :: "streamEntry \<Rightarrow> reply list" where
  "entryReply e =
     [RArray 2, RBulk (id_String (se_id e)), RArray (int (length (se_fields e)) * 2)]
     @ concat (map (\<lambda>(f, v). [RBulk f, RBulk v]) (se_fields e))"

definition writeStreamEntries :: "streamEntry list \<Rightarrow> reply list" where
  "writeStreamEntries entries = RArray (int (length entries)) # concat (map entryReply entries)"

section \<open>Writing\<close>

text \<open>The trimming options of \<open>XADD\<close>; the markers \<open>~\<close> and \<open>=\<close> may repeat.\<close>

datatype trimOpt = NoTrim | TrimMaxlen int | TrimMinID streamID

fun skipMarkers :: "bytes list \<Rightarrow> bytes list" where
  "skipMarkers [] = []"
| "skipMarkers (a # rest) = (if a = [126] \<or> a = [61] then skipMarkers rest else a # rest)"

definition xaddTrim :: "bytes list \<Rightarrow> goerr + (trimOpt \<times> bytes list)" where
  "xaddTrim rest =
     (case rest of
        [] \<Rightarrow> Inr (NoTrim, [])
      | a # opts \<Rightarrow>
          if map to_upper a = ascii ''MAXLEN'' then
            (case skipMarkers opts of
               [] \<Rightarrow> Inl ErrSyntax
             | n # r \<Rightarrow> (case atoi n of Inl err \<Rightarrow> Inl ErrNotInteger
                        | Inr v \<Rightarrow> if v < 0 then Inl ErrNotInteger else Inr (TrimMaxlen v, r)))
          else if map to_upper a = ascii ''MINID'' then
            (case skipMarkers opts of
               [] \<Rightarrow> Inl ErrSyntax
             | i # r \<Rightarrow> (case parseStreamID i of Inl err \<Rightarrow> Inl err | Inr v \<Rightarrow> Inr (TrimMinID v, r)))
          else Inr (NoTrim, rest))"

definition skipLimit :: "bytes list \<Rightarrow> bytes list" where
  "skipLimit rest = (case rest of a # b # r \<Rightarrow> if fold_equal a ''LIMIT'' then r else rest | _ \<Rightarrow> rest)"

definition parseXAddID :: "bytes \<Rightarrow> goerr + idSpec" where
  "parseXAddID a =
     (if a = [42] then Inr AutoID
      else if length a \<ge> 2 \<and> drop (length a - 2) a = [45, 42] then
        (case parse_u64 (take (length a - 2) a) of None \<Rightarrow> Inl badID | Some v \<Rightarrow> Inr (PartialID v))
      else case parseStreamID a of
        Inl err \<Rightarrow> Inl err
      | Inr i \<Rightarrow> if i = zeroID then Inl (ProtoError ''ERR The ID specified in XADD must be greater than 0-0'')
                else Inr (GivenID i))"

definition oddFieldsErr :: goerr where
  "oddFieldsErr = ProtoError ''ERR wrong number of arguments for XADD: expected an even number of field-value pairs''"

definition parseXAdd :: "bytes list \<Rightarrow> goerr + (bool \<times> trimOpt \<times> idSpec \<times> (bytes \<times> bytes) list)" where
  "parseXAdd rest =
     (let nomk = (rest \<noteq> [] \<and> fold_equal (hd rest) ''NOMKSTREAM'') in
      case xaddTrim (if nomk then tl rest else rest) of
        Inl err \<Rightarrow> Inl err
      | Inr (trim, r) \<Rightarrow>
          (case skipLimit r of
             [] \<Rightarrow> Inl (WrongArgs ''xadd'')
           | a # flds \<Rightarrow>
               (case parseXAddID a of
                  Inl err \<Rightarrow> Inl err
                | Inr spec \<Rightarrow>
                    if length flds mod 2 \<noteq> 0 then Inl oddFieldsErr
                    else Inr (nomk, trim, spec, parsePairs flds))))"

definition xTrimBy :: "'e pebble \<Rightarrow> dbid \<Rightarrow> bytes \<Rightarrow> trimOpt \<Rightarrow> 'e Store \<Rightarrow> (goerr, unit, 'e Store) res" where
  "xTrimBy P db key trim s =
     (case trim of
        NoTrim \<Rightarrow> (Inr (), s)
      | TrimMaxlen n \<Rightarrow> bindE (xTrimMaxlen P db key n s) (\<lambda>_ s1. (Inr (), s1))
      | TrimMinID i \<Rightarrow> bindE (xTrimMinID P db key i s) (\<lambda>_ s1. (Inr (), s1)))"

definition cmdXAdd :: "'e pebble \<Rightarrow> Env \<Rightarrow> dbid \<Rightarrow> bytes list \<Rightarrow> 'e handler" where
  "cmdXAdd P E db args s =
     (if length args < 3 then (Inl (WrongArgs ''xadd''), s)
      else bindS (parseXAdd (drop 1 args)) s (\<lambda>(nomk, trim, spec, flds).
        bindE (xAdd P E db (args ! 0) spec flds nomk s) (\<lambda>i s1.
          bindE (xTrimBy P db (args ! 0) trim s1) (\<lambda>_ s2.
            (Inr [if nomk \<and> i = zeroID then RNull else RBulk (id_String i)], s2)))))"

definition countKeys :: "'e pebble \<Rightarrow> bytes \<Rightarrow> 'e Store \<Rightarrow> int" where
  "countKeys P pfx s = snd (ScanKeys P (s_eng s) pfx (\<lambda>n k. (None, n + 1)) 0)"

definition cmdXLen :: "'e pebble \<Rightarrow> dbid \<Rightarrow> string \<Rightarrow> bytes list \<Rightarrow> 'e handler" where
  "cmdXLen P db nm args s = withArity nm args 1 s (Inr [RInt (countKeys P (streamEntryPrefix db (args ! 0)) s)], s)"

definition xRangeCmd :: "'e pebble \<Rightarrow> dbid \<Rightarrow> bytes list \<Rightarrow> bool \<Rightarrow> 'e handler" where
  "xRangeCmd P db args rv s =
     (if length args < 3 then (Inl (WrongArgs ''xrange''), s)
      else bindS (parseStreamBound (args ! 1) (\<not> rv)) s (\<lambda>start.
        bindS (parseStreamBound (args ! 2) rv) s (\<lambda>fin.
          bindS (if length args > 3 then
                   (if length args \<noteq> 5 \<or> \<not> fold_equal (args ! 3) ''COUNT'' then Inl ErrSyntax else atoi (args ! 4))
                 else Inr 0) s (\<lambda>count.
            bindS (xRange P db (args ! 0) start fin count rv s) s (\<lambda>entries.
              (Inr (writeStreamEntries entries), s))))))"

fun parseIDs :: "bytes list \<Rightarrow> goerr + streamID list" where
  "parseIDs [] = Inr []"
| "parseIDs (a # rest) =
     (case parseStreamID a of
        Inl err \<Rightarrow> Inl err
      | Inr i \<Rightarrow> (case parseIDs rest of Inl err \<Rightarrow> Inl err | Inr ids \<Rightarrow> Inr (i # ids)))"

definition cmdXDel :: "'e pebble \<Rightarrow> dbid \<Rightarrow> string \<Rightarrow> bytes list \<Rightarrow> 'e handler" where
  "cmdXDel P db nm args s =
     withArity nm args (-2) s
       (bindS (parseIDs (drop 1 args)) s (\<lambda>ids.
          bindE (xDel P db (args ! 0) ids s) (\<lambda>n s1. (Inr [RInt n], s1))))"

definition cmdXTrim :: "'e pebble \<Rightarrow> dbid \<Rightarrow> bytes list \<Rightarrow> 'e handler" where
  "cmdXTrim P db args s =
     (if length args < 3 then (Inl (WrongArgs ''xtrim''), s)
      else if map to_upper (args ! 1) = ascii ''MAXLEN'' then
        (let idx = (if args ! 2 = [126] \<or> args ! 2 = [61] then 3 else 2) in
         if idx \<ge> length args then (Inl GoPanic, s)
         else (case atoi (args ! idx) of
                 Inl err \<Rightarrow> (Inl ErrNotInteger, s)
               | Inr n \<Rightarrow>
                   if n < 0 then (Inl ErrNotInteger, s)
                   else bindE (xTrimMaxlen P db (args ! 0) n s) (\<lambda>r s1. (Inr [RInt r], s1))))
      else if map to_upper (args ! 1) = ascii ''MINID'' then
        bindS (parseStreamID (args ! 2)) s (\<lambda>i.
          bindE (xTrimMinID P db (args ! 0) i s) (\<lambda>r s1. (Inr [RInt r], s1)))
      else (Inl ErrSyntax, s))"

section \<open>Reading\<close>

fun tailIDs :: "'e pebble \<Rightarrow> dbid \<Rightarrow> bytes list \<Rightarrow> bytes list \<Rightarrow> 'e Store \<Rightarrow> goerr + streamID list" where
  "tailIDs P db (k # ks) (a # as) s =
     (let one = (if a = [62] then Inr maxID
                 else if a = [36] then
                   (case lastStreamEntryID P db k s of
                      Inl err \<Rightarrow> Inl err | Inr None \<Rightarrow> Inr zeroID | Inr (Some l) \<Rightarrow> Inr l)
                 else parseStreamID a)
      in case one of
           Inl err \<Rightarrow> Inl err
         | Inr i \<Rightarrow> (case tailIDs P db ks as s of Inl err \<Rightarrow> Inl err | Inr ids \<Rightarrow> Inr (i # ids)))"
| "tailIDs P db _ _ s = Inr []"

definition parseStreamsTail :: "'e pebble \<Rightarrow> dbid \<Rightarrow> bytes list \<Rightarrow> 'e Store \<Rightarrow> goerr + (bytes list \<times> streamID list)" where
  "parseStreamsTail P db rest s =
     (if length rest < 3 \<or> \<not> fold_equal (hd rest) ''STREAMS'' then Inl ErrSyntax
      else
        let r = tl rest; n = length r div 2 in
        if n < 1 \<or> length r mod 2 \<noteq> 0 then Inl ErrSyntax
        else (case tailIDs P db (take n r) (drop n r) s of
                Inl err \<Rightarrow> Inl err | Inr ids \<Rightarrow> Inr (take n r, ids)))"

text \<open>The options before \<open>STREAMS\<close>: count and block time, \<open>None\<close> when not given.\<close>

fun xreadOpts :: "bytes list \<Rightarrow> int \<Rightarrow> int option \<Rightarrow> goerr + (int \<times> int option \<times> bytes list)" where
  "xreadOpts [] count block = Inr (count, block, [])"
| "xreadOpts [a] count block =
     (if map to_upper a \<in> {ascii ''COUNT'', ascii ''BLOCK''} then Inl ErrSyntax else Inr (count, block, [a]))"
| "xreadOpts (a # b # rest) count block =
     (if map to_upper a = ascii ''COUNT'' then
        (case atoi b of Inl err \<Rightarrow> Inl err | Inr v \<Rightarrow> xreadOpts rest v block)
      else if map to_upper a = ascii ''BLOCK'' then
        (case toInt64 b of
           Inl err \<Rightarrow> Inl (ProtoError ''ERR timeout is negative'')
         | Inr v \<Rightarrow> if v < 0 then Inl (ProtoError ''ERR timeout is negative'') else xreadOpts rest count (Some v))
      else Inr (count, block, a # b # rest))"

fun xReadBatches :: "'e pebble \<Rightarrow> dbid \<Rightarrow> (bytes \<times> streamID) list \<Rightarrow> int \<Rightarrow> 'e Store \<Rightarrow> goerr + (bytes \<times> streamEntry list) list" where
  "xReadBatches P db [] count s = Inr []"
| "xReadBatches P db ((k, i) # rest) count s =
     (case xRange P db k (nextID i) maxID count False s of
        Inl err \<Rightarrow> Inl err
      | Inr entries \<Rightarrow>
          (case xReadBatches P db rest count s of
             Inl err \<Rightarrow> Inl err
           | Inr out \<Rightarrow> Inr (if entries = [] then out else (k, entries) # out)))"

definition batchesReply :: "(bytes \<times> streamEntry list) list \<Rightarrow> reply list" where
  "batchesReply bs = RArray (int (length bs)) # concat (map (\<lambda>(k, es). [RArray 2, RBulk k] @ writeStreamEntries es) bs)"

text \<open>One attempt of \<open>XREAD\<close>.\<close>

definition xReadOnce :: "'e pebble \<Rightarrow> dbid \<Rightarrow> (bytes \<times> streamID) list \<Rightarrow> int \<Rightarrow> 'e Store \<Rightarrow> goerr + reply list option" where
  "xReadOnce P db kis count s =
     (case xReadBatches P db kis count s of
        Inl err \<Rightarrow> Inl err | Inr bs \<Rightarrow> Inr (if bs = [] then None else Some (batchesReply bs)))"

definition cmdXReadNow :: "'e pebble \<Rightarrow> dbid \<Rightarrow> bytes list \<Rightarrow> 'e Store \<Rightarrow> (goerr, reply list option \<times> int option, 'e Store) res" where
  "cmdXReadNow P db args s =
     (if length args < 3 then (Inl (WrongArgs ''xread''), s)
      else bindS (xreadOpts args 0 None) s (\<lambda>(count, block, rest).
        bindS (parseStreamsTail P db rest s) s (\<lambda>(keys, ids).
          bindS (xReadOnce P db (zip keys ids) count s) s (\<lambda>r.
            (Inr (case r of Some rs \<Rightarrow> Some rs | None \<Rightarrow> if block = None then Some [RNull] else None, block), s)))))"

section \<open>Groups\<close>

definition busyGroup :: "bytes \<Rightarrow> goerr" where
  "busyGroup grp = ProtoError (''BUSYGROUP consumer group name '' @ [CHR 0x27] @ go_string grp @ [CHR 0x27] @ '' already exists'')"

definition noGroup :: "bytes \<Rightarrow> bytes \<Rightarrow> goerr" where
  "noGroup key grp = ProtoError (''NOGROUP No such key '' @ [CHR 0x27] @ go_string key @ [CHR 0x27]
     @ '' or consumer group '' @ [CHR 0x27] @ go_string grp @ [CHR 0x27])"

definition noStreamErr :: goerr where
  "noStreamErr = ProtoError ''ERR The XGROUP subcommand requires the key to exist. Note that for CREATE you may want to use the MKSTREAM option to create an empty stream automatically.''"

definition cmdXGroupCreate :: "'e pebble \<Rightarrow> dbid \<Rightarrow> bytes list \<Rightarrow> 'e handler" where
  "cmdXGroupCreate P db args s =
     (if length args < 3 then (Inl (WrongArgs ''xgroup''), s)
      else
        let key = args ! 0; grp = args ! 1;
            mk = (length args > 3 \<and> fold_equal (args ! 3) ''MKSTREAM'') in
        bindS (groupGet P db key grp s) s (\<lambda>g.
          if g \<noteq> None then (Inl (busyGroup grp), s)
          else bindS (if mk then Inr True
                      else (case lastStreamEntryID P db key s of Inl err \<Rightarrow> Inl err | Inr l \<Rightarrow> Inr (l \<noteq> None))) s (\<lambda>ok.
            if \<not> ok then (Inl noStreamErr, s)
            else bindS (if args ! 2 = [36] then
                          (case lastStreamEntryID P db key s of
                             Inl err \<Rightarrow> Inl err | Inr None \<Rightarrow> Inr zeroID | Inr (Some l) \<Rightarrow> Inr l)
                        else parseStreamID (args ! 2)) s (\<lambda>i.
              bindE (groupSet P db key grp i s) (\<lambda>_ s1. (Inr writeOK, s1))))))"

definition cmdXGroupDestroy :: "'e pebble \<Rightarrow> dbid \<Rightarrow> string \<Rightarrow> bytes list \<Rightarrow> 'e handler" where
  "cmdXGroupDestroy P db nm args s =
     withArity nm args 2 s (bindE (groupDestroy P db (args ! 0) (args ! 1) s) (\<lambda>_ s1. (Inr [RInt 1], s1)))"

definition cmdXGroupCreateConsumer :: "string \<Rightarrow> bytes list \<Rightarrow> 'e handler" where
  "cmdXGroupCreateConsumer nm args s = withArity nm args 3 s (Inr [RInt 1], s)"

definition cmdXGroupDelConsumer :: "'e pebble \<Rightarrow> dbid \<Rightarrow> string \<Rightarrow> bytes list \<Rightarrow> 'e handler" where
  "cmdXGroupDelConsumer P db nm args s =
     withArity nm args 3 s
       (bindS (pelList P db (args ! 0) (args ! 1) (args ! 2) zeroID maxID 0 s) s (\<lambda>pending.
          bindE (applyBatch P (map (\<lambda>p. BDelete (appendStreamPELKey db (args ! 0) (args ! 1) (pe_id p))) pending) s)
            (\<lambda>_ s1. (Inr [RInt (int (length pending))], s1))))"

definition cmdXGroupSetID :: "'e pebble \<Rightarrow> dbid \<Rightarrow> bytes list \<Rightarrow> 'e handler" where
  "cmdXGroupSetID P db args s =
     (if length args < 3 then (Inl (WrongArgs ''xgroup setid''), s)
      else bindS (if args ! 2 = [45] then Inr zeroID else parseStreamID (args ! 2)) s (\<lambda>i.
        bindS (groupGet P db (args ! 0) (args ! 1) s) s (\<lambda>g.
          if g = None then (Inl (noGroup (args ! 0) (args ! 1)), s)
          else bindE (groupSet P db (args ! 0) (args ! 1) i s) (\<lambda>_ s1. (Inr writeOK, s1)))))"

definition cmdXGroup :: "'e pebble \<Rightarrow> dbid \<Rightarrow> string \<Rightarrow> bytes list \<Rightarrow> 'e handler" where
  "cmdXGroup P db nm args s =
     (if length args < 2 then (Inl (WrongArgs ''xgroup''), s)
      else
        let sub = map to_upper (args ! 0); rest = drop 1 args in
        if sub = ascii ''CREATE'' then cmdXGroupCreate P db rest s
        else if sub = ascii ''DESTROY'' then cmdXGroupDestroy P db nm rest s
        else if sub = ascii ''CREATECONSUMER'' then cmdXGroupCreateConsumer nm rest s
        else if sub = ascii ''DELCONSUMER'' then cmdXGroupDelConsumer P db nm rest s
        else if sub = ascii ''SETID'' then cmdXGroupSetID P db rest s
        else (Inl ErrSyntax, s))"

text \<open>Delivery of new entries: each is put into the pending list of the consumer, then the group moves to
  the last of them.\<close>

fun pelAddAll :: "'e pebble \<Rightarrow> Env \<Rightarrow> dbid \<Rightarrow> bytes \<Rightarrow> bytes \<Rightarrow> bytes \<Rightarrow> streamEntry list \<Rightarrow> 'e Store \<Rightarrow> (goerr, unit, 'e Store) res" where
  "pelAddAll P E db key grp consumer [] s = (Inr (), s)"
| "pelAddAll P E db key grp consumer (e # es) s =
     bindE (pelAdd P E db key grp consumer (se_id e) s) (\<lambda>_ s1. pelAddAll P E db key grp consumer es s1)"

definition deliverNew ::
  "'e pebble \<Rightarrow> Env \<Rightarrow> dbid \<Rightarrow> bytes \<Rightarrow> bytes \<Rightarrow> bytes \<Rightarrow> streamID \<Rightarrow> int \<Rightarrow> 'e Store \<Rightarrow> (goerr, streamEntry list, 'e Store) res" where
  "deliverNew P E db key grp consumer lst count s =
     bindS (xRange P db key (nextID lst) maxID count False s) s (\<lambda>entries.
       if entries = [] then (Inr [], s)
       else bindE (pelAddAll P E db key grp consumer entries s) (\<lambda>_ s1.
              bindE (groupSet P db key grp (se_id (last entries)) s1) (\<lambda>_ s2. (Inr entries, s2))))"

text \<open>The first read needs the group to exist; the read after a wakeup starts at \<open>0-0\<close> when it is gone.\<close>

fun readNew ::
  "'e pebble \<Rightarrow> Env \<Rightarrow> dbid \<Rightarrow> bool \<Rightarrow> bytes list \<Rightarrow> bytes \<Rightarrow> bytes \<Rightarrow> int \<Rightarrow> 'e Store \<Rightarrow> (goerr, (bytes \<times> streamEntry list) list, 'e Store) res" where
  "readNew P E db must [] grp consumer count s = (Inr [], s)"
| "readNew P E db must (k # ks) grp consumer count s =
     bindS (groupGet P db k grp s) s (\<lambda>g.
       if must \<and> g = None then
         (Inl (ProtoError (''NOGROUP No such consumer group '' @ [CHR 0x27] @ go_string grp @ [CHR 0x27]
                 @ '' for key name '' @ [CHR 0x27] @ go_string k @ [CHR 0x27])), s)
       else bindE (deliverNew P E db k grp consumer (case g of None \<Rightarrow> zeroID | Some l \<Rightarrow> l) count s) (\<lambda>entries s1.
              bindE (readNew P E db must ks grp consumer count s1) (\<lambda>out s2.
                (Inr (if entries = [] then out else (k, entries) # out), s2))))"

fun readHistory ::
  "'e pebble \<Rightarrow> Env \<Rightarrow> dbid \<Rightarrow> bytes list \<Rightarrow> bytes \<Rightarrow> bytes \<Rightarrow> int \<Rightarrow> 'e Store \<Rightarrow> (goerr, (bytes \<times> streamEntry list) list, 'e Store) res" where
  "readHistory P E db [] grp consumer count s = (Inr [], s)"
| "readHistory P E db (k # ks) grp consumer count s =
     bindE (pelOwned P E db k grp consumer count s) (\<lambda>entries s1.
       bindE (readHistory P E db ks grp consumer count s1) (\<lambda>out s2. (Inr ((k, entries) # out), s2)))"

fun checkStreams :: "'e pebble \<Rightarrow> Env \<Rightarrow> dbid \<Rightarrow> bytes list \<Rightarrow> 'e Store \<Rightarrow> (goerr, unit, 'e Store) res" where
  "checkStreams P E db [] s = (Inr (), s)"
| "checkStreams P E db (k # ks) s =
     (case getTyped P E db k s of
        (Inr (Some v), s1) \<Rightarrow>
          (case lastStreamEntryID P db k s1 of
             Inr (Some l) \<Rightarrow> checkStreams P E db ks s1
           | _ \<Rightarrow> (Inl ErrWrongType, s1))
      | (_, s1) \<Rightarrow> checkStreams P E db ks s1)"

text \<open>\<open>XREADGROUP\<close> up to the point where it waits: the replies, or \<open>None\<close> with the keys and the block time.\<close>

definition cmdXReadGroupNow ::
  "'e pebble \<Rightarrow> Env \<Rightarrow> dbid \<Rightarrow> bytes list \<Rightarrow> 'e Store \<Rightarrow> (goerr, reply list option \<times> int option, 'e Store) res" where
  "cmdXReadGroupNow P E db args s =
     (if length args < 6 then (Inl (WrongArgs ''xreadgroup''), s)
      else if \<not> fold_equal (args ! 0) ''GROUP'' then (Inl ErrSyntax, s)
      else
        let grp = args ! 1; consumer = args ! 2 in
        bindS (xreadOpts (drop 3 args) 0 None) s (\<lambda>(count, block, rest).
          bindS (parseStreamsTail P db rest s) s (\<lambda>(keys, ids).
            bindE (checkStreams P E db keys s) (\<lambda>_ s1.
              let newOnly = (ids \<noteq> [] \<and> hd ids = maxID) in
              bindE (if newOnly then readNew P E db True keys grp consumer count s1
                     else readHistory P E db keys grp consumer count s1) (\<lambda>bs s2.
                (Inr (if bs \<noteq> [] then Some (batchesReply bs)
                      else if block = None \<or> \<not> newOnly then Some [RNull] else None, block), s2))))))"

fun ackAll :: "'e pebble \<Rightarrow> dbid \<Rightarrow> bytes \<Rightarrow> bytes \<Rightarrow> bytes list \<Rightarrow> 'e Store \<Rightarrow> (goerr, int, 'e Store) res" where
  "ackAll P db key grp [] s = (Inr 0, s)"
| "ackAll P db key grp (a # rest) s =
     bindS (parseStreamID a) s (\<lambda>i.
       bindE (pelRemove P db key grp i s) (\<lambda>_ s1.
         bindE (ackAll P db key grp rest s1) (\<lambda>n s2. (Inr (n + 1), s2))))"

definition cmdXAck :: "'e pebble \<Rightarrow> dbid \<Rightarrow> bytes list \<Rightarrow> 'e handler" where
  "cmdXAck P db args s =
     (if length args < 3 then (Inl (WrongArgs ''xack''), s)
      else bindS (groupGet P db (args ! 0) (args ! 1) s) s (\<lambda>g.
        if g = None then (Inl (noGroup (args ! 0) (args ! 1)), s)
        else bindE (ackAll P db (args ! 0) (args ! 1) (drop 2 args) s) (\<lambda>n s1. (Inr [RInt n], s1))))"

definition pendingSummary :: "pendingEntry list \<Rightarrow> reply list" where
  "pendingSummary pending =
     (let order = rev (remdups (rev (map pe_consumer pending))) in
      [RArray 4, RInt (int (length pending))]
      @ (if pending = [] then [RNull, RNull]
         else [RBulk (id_String (pe_id (hd pending))), RBulk (id_String (pe_id (last pending)))])
      @ [RArray (int (length order))]
      @ concat (map (\<lambda>c. [RArray 2, RBulk c, RInt (int (length (filter (\<lambda>p. pe_consumer p = c) pending)))]) order))"

definition pendingRow :: "pendingEntry \<Rightarrow> reply list" where
  "pendingRow p = [RArray 4, RBulk (id_String (pe_id p)), RBulk (pe_consumer p), RInt (go_div (pe_deliveryMs p) 1000),
     RInt (int (unat (pe_deliveryCert p)))]"

definition cmdXPending :: "'e pebble \<Rightarrow> dbid \<Rightarrow> bytes list \<Rightarrow> 'e handler" where
  "cmdXPending P db args0 s =
     (if length args0 < 2 then (Inl (WrongArgs ''xpending''), s)
      else if length args0 = 3 \<and> fold_equal (args0 ! 2) ''IDLE'' then (Inl ErrSyntax, s)
      else
        let args = (if length args0 \<ge> 3 \<and> fold_equal (args0 ! 2) ''IDLE'' then take 2 args0 else args0) in
        if length args \<ge> 5 then
          bindS (parseStreamBound (args ! 2) True) s (\<lambda>start.
            bindS (parseStreamBound (args ! 3) False) s (\<lambda>fin.
              bindS (atoi (args ! 4)) s (\<lambda>count.
                bindS (pelList P db (args ! 0) (args ! 1) (if length args \<ge> 6 then args ! 5 else []) start fin count s) s
                  (\<lambda>pending. (Inr (RArray (int (length pending)) # concat (map pendingRow pending)), s)))))
        else bindS (pelList P db (args ! 0) (args ! 1) [] zeroID maxID 0 s) s (\<lambda>pending. (Inr (pendingSummary pending), s)))"

fun claimAll ::
  "'e pebble \<Rightarrow> Env \<Rightarrow> dbid \<Rightarrow> bytes \<Rightarrow> bytes \<Rightarrow> bytes \<Rightarrow> bytes list \<Rightarrow> 'e Store \<Rightarrow> (goerr, streamEntry list, 'e Store) res" where
  "claimAll P E db key grp consumer [] s = (Inr [], s)"
| "claimAll P E db key grp consumer (a # rest) s =
     bindS (parseStreamID a) s (\<lambda>i.
       bindE (pelMoveTo P E db key grp consumer i s) (\<lambda>_ s1.
         let here = (case eng_Get P (s_eng s1) (appendStreamEntryKey db key i) of
                       Inl err \<Rightarrow> []
                     | Inr v \<Rightarrow> (case decodeStreamFields v of
                                  Inl err \<Rightarrow> [] | Inr flds \<Rightarrow> [\<lparr>se_id = i, se_fields = flds\<rparr>]))
         in bindE (claimAll P E db key grp consumer rest s1) (\<lambda>out s2. (Inr (here @ out), s2))))"

definition cmdXClaim :: "'e pebble \<Rightarrow> Env \<Rightarrow> dbid \<Rightarrow> bytes list \<Rightarrow> 'e handler" where
  "cmdXClaim P E db args s =
     (if length args < 5 then (Inl (WrongArgs ''xclaim''), s)
      else bindS (toInt64 (args ! 3)) s (\<lambda>_.
        bindE (claimAll P E db (args ! 0) (args ! 1) (args ! 2) (drop 4 args) s) (\<lambda>out s1.
          (Inr (writeStreamEntries out), s1))))"

section \<open>Introspection\<close>

definition groupNames :: "bytes \<Rightarrow> bytes list \<Rightarrow> bytes \<Rightarrow> goerr option \<times> bytes list" where
  "groupNames gp out k =
     (let raw = drop (length gp) k in (None, if raw = [] \<or> last raw \<noteq> 0 then out else out @ [butlast raw]))"

definition groupInfo :: "'e pebble \<Rightarrow> dbid \<Rightarrow> bytes \<Rightarrow> bytes \<Rightarrow> 'e Store \<Rightarrow> reply list" where
  "groupInfo P db key g s =
     (let pending = (case pelList P db key g [] zeroID maxID 0 s of Inl err \<Rightarrow> [] | Inr ps \<Rightarrow> ps);
          lst = (case groupGet P db key g s of Inr (Some i) \<Rightarrow> i | _ \<Rightarrow> zeroID)
      in [RArray 6, RBulk (ascii ''name''), RBulk g, RBulk (ascii ''consumers''), RInt (int (xGroupConsumerCount P db key g s)),
          RBulk (ascii ''pending''), RInt (int (length pending)), RBulk (ascii ''last-delivered-id''), RBulk (id_String lst),
          RBulk (ascii ''entries-read''), RInt 0, RBulk (ascii ''lag''), RInt 0])"

definition cmdXInfoGroups :: "'e pebble \<Rightarrow> dbid \<Rightarrow> string \<Rightarrow> bytes list \<Rightarrow> 'e handler" where
  "cmdXInfoGroups P db nm args s =
     withArity nm args 1 s
       (let gp = butlast (streamGroupPrefix db (args ! 0) [])
        in case ScanKeys P (s_eng s) gp (groupNames gp) [] of
             (Some err, _) \<Rightarrow> (Inl err, s)
           | (None, groups) \<Rightarrow>
               (Inr (RArray (int (length groups)) # concat (map (\<lambda>g. groupInfo P db (args ! 0) g s) groups)), s))"

definition xGroupCount :: "'e pebble \<Rightarrow> dbid \<Rightarrow> bytes \<Rightarrow> 'e Store \<Rightarrow> int" where
  "xGroupCount P db key s = countKeys P (streamGroupPrefix db key []) s"

definition cmdXInfoStream :: "'e pebble \<Rightarrow> dbid \<Rightarrow> string \<Rightarrow> bytes list \<Rightarrow> 'e handler" where
  "cmdXInfoStream P db nm args s =
     withArity nm args 1 s
       (let n = countKeys P (streamEntryPrefix db (args ! 0)) s;
            lst = (case lastStreamEntryID P db (args ! 0) s of Inr (Some i) \<Rightarrow> id_String i | _ \<Rightarrow> ascii ''0-0'')
        in (Inr [RArray 10, RBulk (ascii ''length''), RInt n, RBulk (ascii ''radix-tree-keys''), RInt n,
                 RBulk (ascii ''radix-tree-nodes''), RInt n, RBulk (ascii ''last-generated-id''), RBulk lst,
                 RBulk (ascii ''groups''), RInt (xGroupCount P db (args ! 0) s)], s))"

definition cmdXInfo :: "'e pebble \<Rightarrow> dbid \<Rightarrow> string \<Rightarrow> bytes list \<Rightarrow> 'e handler" where
  "cmdXInfo P db nm args s =
     (if length args < 2 then (Inl (WrongArgs ''xinfo''), s)
      else
        let sub = map to_upper (args ! 0) in
        if sub = ascii ''GROUPS'' then cmdXInfoGroups P db nm (drop 1 args) s
        else if sub = ascii ''STREAM'' then cmdXInfoStream P db nm (drop 1 args) s
        else (Inl ErrSyntax, s))"

end
