(* ===== verification/Admin.thy ===== *)
theory Admin
  imports StreamCmds Numerals
begin

text \<open>
  Administration (\<open>admin.go\<close>, \<open>cmd_server.go\<close>): the slow log, the run-time configuration and the commands
  that inspect a key. Wall-clock readings are arguments.
\<close>

section \<open>The slow log\<close>

record slowEntry =
  sl_ID :: int
  sl_Timestamp :: int
  sl_Duration :: int
  sl_Args :: "bytes list"

record SlowLog =
  sl_entries :: "slowEntry list"
  sl_nextID :: int
  sl_maxLen :: int
  sl_slowerThan :: int

definition newSlowLog :: SlowLog where
  "newSlowLog = \<lparr>sl_entries = [], sl_nextID = 0, sl_maxLen = 128, sl_slowerThan = 10000\<rparr>"

text \<open>\<open>us\<close> is the duration in microseconds, \<open>secs\<close> the current Unix time.\<close>

definition sl_record :: "int \<Rightarrow> int \<Rightarrow> bytes list \<Rightarrow> SlowLog \<Rightarrow> SlowLog" where
  "sl_record us secs args sl =
     (if sl_slowerThan sl < 0 \<or> us < sl_slowerThan sl then sl
      else
        let n = sl_nextID sl + 1;
            es = sl_entries sl @ [\<lparr>sl_ID = n, sl_Timestamp = secs, sl_Duration = us, sl_Args = args\<rparr>]
        in sl\<lparr>sl_nextID := n,
             sl_entries := (if int (length es) > sl_maxLen sl then drop (nat (int (length es) - sl_maxLen sl)) es else es)\<rparr>)"

definition sl_reset :: "SlowLog \<Rightarrow> SlowLog" where "sl_reset sl = sl\<lparr>sl_entries := []\<rparr>"

definition sl_list :: "int \<Rightarrow> SlowLog \<Rightarrow> slowEntry list" where
  "sl_list n sl =
     (let len = length (sl_entries sl); m = (if n \<le> 0 \<or> n > int len then len else nat n)
      in take m (rev (sl_entries sl)))"

definition slowReply :: "slowEntry \<Rightarrow> reply list" where
  "slowReply e = [RArray 4, RInt (sl_ID e), RInt (sl_Timestamp e), RInt (sl_Duration e)] @ replyArray (sl_Args e)"

definition cmdSlowLog :: "bytes list \<Rightarrow> SlowLog \<Rightarrow> (goerr, reply list, SlowLog) res" where
  "cmdSlowLog args sl =
     (case args of
        [] \<Rightarrow> (Inl (WrongArgs ''slowlog''), sl)
      | sub # rest \<Rightarrow>
          if map to_upper sub = ascii ''GET'' then
            (case (case rest of [] \<Rightarrow> Inr 10 | a # _ \<Rightarrow> toInt64 a) of
               Inl err \<Rightarrow> (Inl err, sl)
             | Inr n \<Rightarrow> (let es = sl_list n sl in (Inr (RArray (int (length es)) # concat (map slowReply es)), sl)))
          else if map to_upper sub = ascii ''LEN'' then (Inr [RInt (int (length (sl_entries sl)))], sl)
          else if map to_upper sub = ascii ''RESET'' then (Inr writeOK, sl_reset sl)
          else (Inl ErrSyntax, sl))"

section \<open>Configuration at run time\<close>

text \<open>\<open>strings.TrimSpace\<close> on ASCII.\<close>

definition is_space :: "byte \<Rightarrow> bool" where "is_space c \<longleftrightarrow> c = 32 \<or> 9 \<le> c \<and> c \<le> 13"

definition trim_space :: "bytes \<Rightarrow> bytes" where
  "trim_space s = rev (dropWhile is_space (rev (dropWhile is_space s)))"

definition has_suffix :: "bytes \<Rightarrow> bytes \<Rightarrow> bool" where
  "has_suffix s suf \<longleftrightarrow> length suf \<le> length s \<and> drop (length s - length suf) s = suf"

definition maxmemErr :: goerr where "maxmemErr = ProtoError ''ERR Invalid maxmemory value''"

definition splitUnit :: "bytes \<Rightarrow> 64 word \<times> bytes" where
  "splitUnit s =
     (let cut = take (length s - 2) s in
      if has_suffix s (ascii ''gb'') then (2 ^ 30, cut)
      else if has_suffix s (ascii ''mb'') then (2 ^ 20, cut)
      else if has_suffix s (ascii ''kb'') then (2 ^ 10, cut)
      else (1, s))"

definition ParseByteSize :: "bytes \<Rightarrow> goerr + 64 word" where
  "ParseByteSize s0 =
     (let s = trim_space (map to_lower s0) in
      if s = [] then Inl maxmemErr
      else let (mult, r) = splitUnit s in
           case parse_u64 (trim_space r) of None \<Rightarrow> Inl maxmemErr | Some v \<Rightarrow> Inr (v * mult))"

definition parseEvictionPolicy :: "string \<Rightarrow> string" where
  "parseEvictionPolicy v =
     (if v \<in> {NoEviction, AllKeysLRU, AllKeysRandom, VolatileLRU, VolatileRandom, VolatileTTL, AllKeysLFU, VolatileLFU}
      then v else '''')"

text \<open>\<open>CONFIG SET\<close> on the configuration and the slow log.\<close>

definition cmdConfigSet :: "bytes \<Rightarrow> bytes \<Rightarrow> Config \<times> SlowLog \<Rightarrow> (goerr, reply list, Config \<times> SlowLog) res" where
  "cmdConfigSet nm v st =
     (let (c, sl) = st; nm' = map to_lower nm;
          bad = (\<lambda>m. (Inl (ProtoError m), st)) in
      if nm' = ascii ''maxmemory'' then
        (case ParseByteSize v of Inl err \<Rightarrow> (Inl err, st) | Inr n \<Rightarrow> (Inr writeOK, (c\<lparr>MaxMemory := n\<rparr>, sl)))
      else if nm' = ascii ''maxmemory-policy'' then
        (let p = parseEvictionPolicy (go_string (map to_lower v))
         in if p = '''' then bad ''ERR Unsupported maxmemory-policy'' else (Inr writeOK, (c\<lparr>EvictionPolicy := p\<rparr>, sl)))
      else if nm' = ascii ''maxmemory-samples'' then
        (case parse_int v of
           Some n \<Rightarrow> if n \<le> 0 then bad ''ERR Invalid maxmemory-samples value'' else (Inr writeOK, (c\<lparr>EvictionSample := n\<rparr>, sl))
         | None \<Rightarrow> bad ''ERR Invalid maxmemory-samples value'')
      else if nm' = ascii ''lfu-decay-time'' then
        (case parse_int v of
           Some n \<Rightarrow> if n < 0 then bad ''ERR Invalid lfu-decay-time value'' else (Inr writeOK, (c\<lparr>LFUDecayMinutes := n\<rparr>, sl))
         | None \<Rightarrow> bad ''ERR Invalid lfu-decay-time value'')
      else if nm' = ascii ''slowlog-log-slower-than'' then
        (case parse_int v of
           Some n \<Rightarrow> (Inr writeOK, (c, sl\<lparr>sl_slowerThan := n\<rparr>))
         | None \<Rightarrow> bad ''ERR Invalid slowlog-log-slower-than value'')
      else if nm' = ascii ''slowlog-max-len'' then
        (case parse_int v of
           Some n \<Rightarrow> if n \<le> 0 then bad ''ERR Invalid slowlog-max-len value'' else (Inr writeOK, (c, sl\<lparr>sl_maxLen := n\<rparr>))
         | None \<Rightarrow> bad ''ERR Invalid slowlog-max-len value'')
      else if nm' = ascii ''lua-time-limit'' then
        (case parse_int v of
           Some n \<Rightarrow> if n < 0 then bad ''ERR Invalid lua-time-limit value'' else (Inr writeOK, (c\<lparr>LuaTimeLimit := n\<rparr>, sl))
         | None \<Rightarrow> bad ''ERR Invalid lua-time-limit value'')
      else bad ''ERR CONFIG SET is not supported for this parameter'')"

definition configValue :: "Config \<Rightarrow> nat \<Rightarrow> bytes \<Rightarrow> bytes option" where
  "configValue c dbCount nm =
     (if nm = ascii ''maxmemory'' then Some (format_uint (unat (MaxMemory c)))
      else if nm = ascii ''maxmemory-policy'' then Some (ascii (EvictionPolicy c))
      else if nm = ascii ''maxmemory-samples'' then Some (format_int (EvictionSample c))
      else if nm = ascii ''databases'' then Some (format_int (int dbCount))
      else if nm = ascii ''dir'' then Some (ascii (Dir c))
      else if nm = ascii ''appendfsync'' then Some (ascii (SyncPolicy c))
      else None)"

definition configPairs :: "Config \<Rightarrow> nat \<Rightarrow> bytes list \<Rightarrow> bytes list" where
  "configPairs c dbCount names =
     concat (map (\<lambda>a. let nm = map to_lower a in case configValue c dbCount nm of None \<Rightarrow> [] | Some v \<Rightarrow> [nm, v]) names)"

definition cmdConfig :: "nat \<Rightarrow> bytes list \<Rightarrow> Config \<times> SlowLog \<Rightarrow> (goerr, reply list, Config \<times> SlowLog) res" where
  "cmdConfig dbCount args st =
     (case args of
        [] \<Rightarrow> (Inl (WrongArgs ''config''), st)
      | sub # rest \<Rightarrow>
          if map to_upper sub = ascii ''GET'' then
            (if rest = [] then (Inl (WrongArgs ''config''), st) else (Inr (replyArray (configPairs (fst st) dbCount rest)), st))
          else if map to_upper sub = ascii ''SET'' then
            (if length args \<noteq> 3 then (Inl (WrongArgs ''config''), st) else cmdConfigSet (args ! 1) (args ! 2) st)
          else (Inl ErrSyntax, st))"

section \<open>Inspecting keys\<close>

definition unknownSub :: "string \<Rightarrow> bytes \<Rightarrow> goerr" where
  "unknownSub cmd sub = ProtoError (''ERR unknown subcommand '' @ [CHR 0x27] @ go_string (map to_lower sub) @ [CHR 0x27]
     @ ''. Try '' @ cmd @ '' HELP.'')"

definition lfuOffErr :: goerr where
  "lfuOffErr = ProtoError ''ERR An LFU maxmemory policy is not selected, access frequency not tracked. Please note that when switching between policies at runtime LRU and LFU data will take some time to adjust.''"

definition lookupEntry :: "Env \<Rightarrow> dbid \<Rightarrow> bytes \<Rightarrow> 'e Store \<Rightarrow> Entry option \<times> 'e Store" where
  "lookupEntry E db key s = (case Lookup E db key (s_dict s) of (r, d) \<Rightarrow> (r, s\<lparr>s_dict := d\<rparr>))"

definition cmdObject :: "'e pebble \<Rightarrow> Env \<Rightarrow> dbid \<Rightarrow> bytes list \<Rightarrow> 'e handler" where
  "cmdObject P E db args s =
     (if length args < 1 then (Inl (WrongArgs ''object''), s)
      else if length args \<noteq> 2 then (Inl (WrongArgs ''object|idletime''), s)
      else
        let sub = map to_upper (args ! 0); key = args ! 1 in
        if sub = ascii ''ENCODING'' then
          bindE (typeOf P E db key s) (\<lambda>t s1.
            (Inr [case t of None \<Rightarrow> RNull
                  | Some typ \<Rightarrow> RBulk (if typ = TypeString then ascii ''embstr'' else ascii ''listpack'')], s1))
        else if sub = ascii ''FREQ'' then
          (if \<not> TracksLFU (env_cfg E) then (Inl lfuOffErr, s)
           else case lookupEntry E db key s of
                  (None, s1) \<Rightarrow> (Inr [RNull], s1)
                | (Some e, s1) \<Rightarrow> (Inr [RInt (int (unat (Freq e)))], s1))
        else if sub = ascii ''IDLETIME'' then
          (case lookupEntry E db key s of
             (None, s1) \<Rightarrow> (Inr [RNull], s1)
           | (Some e, s1) \<Rightarrow> (Inr [RInt (int (unat (Idle (LRUClock (env_now E)) (EntryClock e))))], s1))
        else if sub = ascii ''REFCOUNT'' then (Inr [RInt 1], s)
        else (Inl (unknownSub ''OBJECT'' (args ! 0)), s))"

definition cmdMemory :: "Env \<Rightarrow> dbid \<Rightarrow> bytes list \<Rightarrow> 'e handler" where
  "cmdMemory E db args s =
     (if args = [] then (Inl (WrongArgs ''memory''), s)
      else if map to_upper (args ! 0) = ascii ''USAGE'' then
        (if length args \<noteq> 2 then (Inl (WrongArgs ''memory''), s)
         else case lookupEntry E db (args ! 1) s of
                (None, s1) \<Rightarrow> (Inr [RNull], s1)
              | (Some e, s1) \<Rightarrow> (Inr [RInt (int (unat (e_size e)))], s1))
      else if map to_upper (args ! 0) = ascii ''STATS'' then
        (Inr [RArray 2, RBulk (ascii ''peak.allocated''), RInt (d_used (s_dict s))], s)
      else (Inl ErrSyntax, s))"

end
