(* ===== verification/ZCommands.thy ===== *)
theory ZCommands
  imports ZSets
begin

text \<open>
  The handlers of \<open>cmd_zset.go\<close> and, from \<open>cmd_zset2.go\<close>, the lexicographic ranges, the set
  operations on sorted sets, the stored ranges, the random members and the multi-key pop.  The
  blocking pops are in the theory of blocking commands.
\<close>

section \<open>Handlers of cmd-zset\<close>

fun zaddOpts :: "bytes list \<Rightarrow> ZAddOption \<Rightarrow> ZAddOption \<times> bytes list" where
  "zaddOpts [] opt = (opt, [])"
| "zaddOpts (a # rest) opt =
     (let u = map to_upper a in
      if u = ascii ''NX'' then zaddOpts rest (opt\<lparr>za_NX := True\<rparr>)
      else if u = ascii ''XX'' then zaddOpts rest (opt\<lparr>za_XX := True\<rparr>)
      else if u = ascii ''GT'' then zaddOpts rest (opt\<lparr>za_GT := True\<rparr>)
      else if u = ascii ''LT'' then zaddOpts rest (opt\<lparr>za_LT := True\<rparr>)
      else if u = ascii ''CH'' then zaddOpts rest (opt\<lparr>za_CH := True\<rparr>)
      else if u = ascii ''INCR'' then zaddOpts rest (opt\<lparr>za_INCR := True\<rparr>)
      else (opt, a # rest))"

definition isZAddOpt :: "bytes \<Rightarrow> bool" where
  "isZAddOpt a \<longleftrightarrow> list_ex (fold_equal a) [''NX'', ''XX'', ''GT'', ''LT'', ''CH'', ''INCR'']"

fun zaddPairs :: "bytes list \<Rightarrow> goerr + Member list" where
  "zaddPairs (a # b # rest) =
     (case toFloat a of
        Inl err \<Rightarrow> Inl (if isZAddOpt a then ErrSyntax else err)
      | Inr score \<Rightarrow>
          if f64_nan score then Inl (ProtoError ''ERR value is not a valid float'')
          else (case zaddPairs rest of
                  Inl err \<Rightarrow> Inl err | Inr ms \<Rightarrow> Inr (\<lparr>m_member = b, m_score = score\<rparr> # ms)))"
| "zaddPairs [a] = Inl ErrSyntax"
| "zaddPairs [] = Inr []"

definition parseZAdd :: "bytes list \<Rightarrow> goerr + (ZAddOption \<times> Member list)" where
  "parseZAdd args =
     (case zaddOpts args noZAdd of (opt, rest) \<Rightarrow>
        if za_NX opt \<and> (za_XX opt \<or> za_GT opt \<or> za_LT opt) \<or> za_GT opt \<and> za_LT opt
        then Inl (ProtoError ''ERR GT, LT, and/or NX options at the same time are not compatible'')
        else case zaddPairs rest of
               Inl err \<Rightarrow> Inl err
             | Inr members \<Rightarrow>
                 if members = [] then Inl (WrongArgs ''zadd'')
                 else if za_INCR opt \<and> length members \<noteq> 1
                 then Inl (ProtoError ''ERR INCR option supports a single increment-element pair'')
                 else Inr (opt, members))"

definition cmdZAdd :: "'e pebble \<Rightarrow> Env \<Rightarrow> dbid \<Rightarrow> string \<Rightarrow> bytes list \<Rightarrow> 'e handler" where
  "cmdZAdd P E db nm args s =
     withArity nm args (-3) s
       (bindS (parseZAdd (drop 1 args)) s (\<lambda>(opt, members).
          bindE (zAdd P E db (args ! 0) members opt s) (\<lambda>(added, incr) s1.
            (Inr [if za_INCR opt then (case incr of None \<Rightarrow> RNull | Some v \<Rightarrow> RBulk (formatFloat v)) else RInt added],
             notifyListChanged s1))))"

definition cmdZRem :: "'e pebble \<Rightarrow> Env \<Rightarrow> dbid \<Rightarrow> string \<Rightarrow> bytes list \<Rightarrow> 'e handler" where
  "cmdZRem P E db nm args s =
     withArity nm args (-2) s (bindE (zRem P E db (args ! 0) (drop 1 args) s) (\<lambda>n s1. (Inr [RInt n], s1)))"

definition scoreReply :: "f64 option \<Rightarrow> reply" where
  "scoreReply v = (case v of None \<Rightarrow> RNull | Some sc \<Rightarrow> RBulk (formatFloat sc))"

definition cmdZScore :: "'e pebble \<Rightarrow> Env \<Rightarrow> dbid \<Rightarrow> string \<Rightarrow> bytes list \<Rightarrow> 'e handler" where
  "cmdZScore P E db nm args s =
     withArity nm args 2 s (bindE (zScore P E db (args ! 0) (args ! 1) s) (\<lambda>v s1. (Inr [scoreReply v], s1)))"

definition cmdZMScore :: "'e pebble \<Rightarrow> Env \<Rightarrow> dbid \<Rightarrow> string \<Rightarrow> bytes list \<Rightarrow> 'e handler" where
  "cmdZMScore P E db nm args s =
     withArity nm args (-2) s
       (bindE (loadAgg P E db (args ! 0) TypeZSet s) (\<lambda>a s1.
          (Inr (RArray (int (length args) - 1) # map (\<lambda>m. scoreReply (map_of (a_zset a) m)) (drop 1 args)), s1)))"

definition cmdZCard :: "'e pebble \<Rightarrow> Env \<Rightarrow> dbid \<Rightarrow> string \<Rightarrow> bytes list \<Rightarrow> 'e handler" where
  "cmdZCard P E db nm args s =
     withArity nm args 1 s
       (bindE (loadAgg P E db (args ! 0) TypeZSet s) (\<lambda>a s1. (Inr [RInt (int (length (a_zset a)))], s1)))"

definition rankCmd :: "'e pebble \<Rightarrow> Env \<Rightarrow> dbid \<Rightarrow> bytes list \<Rightarrow> bool \<Rightarrow> 'e handler" where
  "rankCmd P E db args desc s =
     (if length args \<noteq> 2 \<and> length args \<noteq> 3 then (Inl (WrongArgs ''zrank''), s)
      else if length args = 3 \<and> \<not> fold_equal (args ! 2) ''WITHSCORE'' then (Inl ErrSyntax, s)
      else
        let withScore = (length args = 3) in
        bindE (zRank P E db (args ! 0) (args ! 1) desc s) (\<lambda>r s1.
          case r of
            None \<Rightarrow> (Inr [if withScore then RArray (-1) else RNull], s1)
          | Some idx \<Rightarrow>
              if \<not> withScore then (Inr [RInt (int idx)], s1)
              else bindE (zScore P E db (args ! 0) (args ! 1) s1) (\<lambda>v s2.
                (Inr [RArray 2, RInt (int idx), RBulk (formatFloat (case v of None \<Rightarrow> 0 | Some sc \<Rightarrow> sc))], s2))))"

definition cmdZIncrBy :: "'e pebble \<Rightarrow> Env \<Rightarrow> dbid \<Rightarrow> string \<Rightarrow> bytes list \<Rightarrow> 'e handler" where
  "cmdZIncrBy P E db nm args s =
     withArity nm args 3 s
       (bindS (toFloat (args ! 1)) s (\<lambda>d.
          if f64_nan d then (Inl (ProtoError ''ERR value is not a valid float''), s)
          else bindE (zIncrBy P E db (args ! 0) d (args ! 2) s) (\<lambda>v s1. (Inr [RBulk (formatFloat v)], s1))))"

section \<open>Lexicographic ranges\<close>

definition sortedByLex :: "(bytes \<times> f64) list \<Rightarrow> Member list" where
  "sortedByLex z = sort_key m_member (members_of z)"

datatype lexBound = LexMin | LexMax | LexIncl bytes | LexExcl bytes

definition parseLexBound :: "bytes \<Rightarrow> goerr + lexBound" where
  "parseLexBound b =
     (if b = ascii ''-'' then Inr LexMin
      else if b = ascii ''+'' then Inr LexMax
      else case b of
             [] \<Rightarrow> Inl (ProtoError ''ERR min or max not valid string range item'')
           | c # v \<Rightarrow>
               if c = 91 then (if v = [] then Inl ErrSyntax else Inr (LexIncl v))
               else if c = 40 then (if v = [] then Inl ErrSyntax else Inr (LexExcl v))
               else Inl (ProtoError ''ERR min or max not valid string range item''))"

fun aboveMin :: "lexBound \<Rightarrow> bytes \<Rightarrow> bool" where
  "aboveMin LexMin m = True"
| "aboveMin LexMax m = False"
| "aboveMin (LexIncl v) m = (v \<le> m)"
| "aboveMin (LexExcl v) m = (v < m)"

fun belowMax :: "lexBound \<Rightarrow> bytes \<Rightarrow> bool" where
  "belowMax LexMax m = True"
| "belowMax LexMin m = False"
| "belowMax (LexIncl v) m = (m \<le> v)"
| "belowMax (LexExcl v) m = (m < v)"

definition lexInRange :: "Member list \<Rightarrow> lexBound \<Rightarrow> lexBound \<Rightarrow> Member list" where
  "lexInRange items mn mx = filter (\<lambda>m. aboveMin mn (m_member m) \<and> belowMax mx (m_member m)) items"

definition cmdZLexCount :: "'e pebble \<Rightarrow> Env \<Rightarrow> dbid \<Rightarrow> string \<Rightarrow> bytes list \<Rightarrow> 'e handler" where
  "cmdZLexCount P E db nm args s =
     withArity nm args 3 s
       (bindS (parseLexBound (args ! 1)) s (\<lambda>mn. bindS (parseLexBound (args ! 2)) s (\<lambda>mx.
          bindE (loadAgg P E db (args ! 0) TypeZSet s) (\<lambda>a s1.
            (Inr [RInt (int (length (lexInRange (sortedByLex (a_zset a)) mn mx)))], s1)))))"

definition zRangeLex :: "'e pebble \<Rightarrow> Env \<Rightarrow> dbid \<Rightarrow> bytes list \<Rightarrow> bool \<Rightarrow> 'e handler" where
  "zRangeLex P E db args rv s =
     (if length args < 3 then (Inl (WrongArgs ''zrangebylex''), s)
      else bindS (parseLexBound (args ! 1)) s (\<lambda>b1. bindS (parseLexBound (args ! 2)) s (\<lambda>b2.
        bindS (parseZRangeOpts (drop 3 args)) s (\<lambda>opt.
          bindE (loadAgg P E db (args ! 0) TypeZSet s) (\<lambda>a s1.
            let items = lexInRange (sortedByLex (a_zset a)) (if rv then b2 else b1) (if rv then b1 else b2)
            in (Inr (writeMembers (limited opt (if rv then rev items else items)) (zr_withScore opt)), s1))))))"

text \<open>The members that the range removals delete.\<close>

definition removeVictims :: "'e pebble \<Rightarrow> Env \<Rightarrow> dbid \<Rightarrow> bytes \<Rightarrow> Member list \<Rightarrow> 'e handler" where
  "removeVictims P E db key victims s =
     (if victims = [] then (Inr [RInt 0], s)
      else bindE (zRem P E db key (map m_member victims) s) (\<lambda>n s1. (Inr [RInt n], s1)))"

definition cmdZRemRangeByLex :: "'e pebble \<Rightarrow> Env \<Rightarrow> dbid \<Rightarrow> string \<Rightarrow> bytes list \<Rightarrow> 'e handler" where
  "cmdZRemRangeByLex P E db nm args s =
     withArity nm args 3 s
       (bindS (parseLexBound (args ! 1)) s (\<lambda>mn. bindS (parseLexBound (args ! 2)) s (\<lambda>mx.
          bindE (loadAgg P E db (args ! 0) TypeZSet s) (\<lambda>a s1.
            removeVictims P E db (args ! 0) (lexInRange (sortedByLex (a_zset a)) mn mx) s1))))"

section \<open>Ranges by rank and score\<close>

definition zRangeItems :: "zRangeOpts \<Rightarrow> bytes \<Rightarrow> bytes \<Rightarrow> (bytes \<times> f64) list \<Rightarrow> goerr + Member list" where
  "zRangeItems opt lo hi z =
     (if zr_byScore opt then
        (case parseScoreBound lo of Inl err \<Rightarrow> Inl err
         | Inr (mn, minEx) \<Rightarrow>
             (case parseScoreBound hi of Inl err \<Rightarrow> Inl err
              | Inr (mx, maxEx) \<Rightarrow>
                  let items = filterByScoreRange (sortedMembers z False) mn mx minEx maxEx
                  in Inr (if zr_rev opt then rev items else items)))
      else if zr_byLex opt then
        (case parseLexBound lo of Inl err \<Rightarrow> Inl err
         | Inr b1 \<Rightarrow>
             (case parseLexBound hi of Inl err \<Rightarrow> Inl err
              | Inr b2 \<Rightarrow>
                  let items = lexInRange (sortedByLex z) b1 b2 in Inr (if zr_rev opt then rev items else items)))
      else
        (case toInt64 lo of Inl err \<Rightarrow> Inl err
         | Inr start \<Rightarrow>
             (case toInt64 hi of Inl err \<Rightarrow> Inl err
              | Inr stop \<Rightarrow> Inr (indexRange (sortedMembers z (zr_rev opt)) start stop))))"

definition cmdZRange :: "'e pebble \<Rightarrow> Env \<Rightarrow> dbid \<Rightarrow> string \<Rightarrow> bytes list \<Rightarrow> 'e handler" where
  "cmdZRange P E db nm args s =
     withArity nm args (-3) s
       (bindS (parseZRangeOpts (drop 3 args)) s (\<lambda>opt.
          if zr_hasLimit opt \<and> \<not> zr_byScore opt \<and> \<not> zr_byLex opt then
            (Inl (ProtoError ''ERR syntax error, LIMIT is only supported in combination with either BYSCORE or BYLEX''), s)
          else bindE (loadAgg P E db (args ! 0) TypeZSet s) (\<lambda>a s1.
            bindS (zRangeItems opt (args ! 1) (args ! 2) (a_zset a)) s1 (\<lambda>items.
              (Inr (writeMembers (limited opt items) (zr_withScore opt)), s1)))))"

text \<open>The check of the trailing arguments slices from index 3 even when there are only two arguments.\<close>

definition cmdZRevRange :: "'e pebble \<Rightarrow> Env \<Rightarrow> dbid \<Rightarrow> string \<Rightarrow> bytes list \<Rightarrow> 'e handler" where
  "cmdZRevRange P E db nm args s =
     (if length args < 2 then (Inl (WrongArgs ''zrevrange''), s)
      else if length args < 3 then (Inl GoPanic, s)
      else if list_ex (\<lambda>a. \<not> fold_equal a ''WITHSCORES'') (drop 3 args) then (Inl ErrSyntax, s)
      else cmdZRange P E db nm (args @ [ascii ''REV'']) s)"

definition cmdZRangeByScore :: "'e pebble \<Rightarrow> Env \<Rightarrow> dbid \<Rightarrow> string \<Rightarrow> bytes list \<Rightarrow> 'e handler" where
  "cmdZRangeByScore P E db nm args s =
     withArity nm args (-3) s
       (bindS (parseScoreBound (args ! 1)) s (\<lambda>(mn, minEx). bindS (parseScoreBound (args ! 2)) s (\<lambda>(mx, maxEx).
          bindS (parseZRangeOpts (drop 3 args)) s (\<lambda>opt.
            bindE (loadAgg P E db (args ! 0) TypeZSet s) (\<lambda>a s1.
              let items = filterByScoreRange (sortedMembers (a_zset a) False) mn mx minEx maxEx
              in (Inr (writeMembers (limited opt (if zr_rev opt then rev items else items)) (zr_withScore opt)), s1))))))"

definition cmdZRevRangeByScore :: "'e pebble \<Rightarrow> Env \<Rightarrow> dbid \<Rightarrow> string \<Rightarrow> bytes list \<Rightarrow> 'e handler" where
  "cmdZRevRangeByScore P E db nm args s =
     (if length args < 3 then (Inl (WrongArgs ''zrevrangebyscore''), s)
      else cmdZRangeByScore P E db nm (args[1 := args ! 2, 2 := args ! 1] @ [ascii ''REV'']) s)"

definition cmdZCount :: "'e pebble \<Rightarrow> Env \<Rightarrow> dbid \<Rightarrow> string \<Rightarrow> bytes list \<Rightarrow> 'e handler" where
  "cmdZCount P E db nm args s =
     withArity nm args 3 s
       (bindS (parseScoreBound (args ! 1)) s (\<lambda>(mn, minEx). bindS (parseScoreBound (args ! 2)) s (\<lambda>(mx, maxEx).
          bindE (loadAgg P E db (args ! 0) TypeZSet s) (\<lambda>a s1.
            (Inr [RInt (int (length (filterByScoreRange (sortedMembers (a_zset a) False) mn mx minEx maxEx)))], s1)))))"

definition zPopCmd :: "'e pebble \<Rightarrow> Env \<Rightarrow> dbid \<Rightarrow> bytes list \<Rightarrow> bool \<Rightarrow> 'e handler" where
  "zPopCmd P E db args mx s =
     (if length args < 1 then (Inl (WrongArgs ''zpopmin''), s)
      else if length args > 2 then (Inl ErrSyntax, s)
      else bindS (if length args = 2
                  then (case toInt64 (args ! 1) of
                          Inl err \<Rightarrow> Inl err
                        | Inr v \<Rightarrow> if v < 0 then Inl (ProtoError ''ERR value is out of range, must be positive'') else Inr v)
                  else Inr 1) s (\<lambda>n.
        bindE (zPopMinMax P E db (args ! 0) n mx s) (\<lambda>out s1. (Inr (writeMembers out True), s1))))"

definition cmdZRemRangeByRank :: "'e pebble \<Rightarrow> Env \<Rightarrow> dbid \<Rightarrow> string \<Rightarrow> bytes list \<Rightarrow> 'e handler" where
  "cmdZRemRangeByRank P E db nm args s =
     withArity nm args 3 s
       (bindS (toInt64 (args ! 1)) s (\<lambda>start. bindS (toInt64 (args ! 2)) s (\<lambda>stop.
          bindE (loadAgg P E db (args ! 0) TypeZSet s) (\<lambda>a s1.
            if a_zset a = [] then (Inr [RInt 0], s1)
            else removeVictims P E db (args ! 0) (indexRange (sortedMembers (a_zset a) False) start stop) s1))))"

definition cmdZRemRangeByScore :: "'e pebble \<Rightarrow> Env \<Rightarrow> dbid \<Rightarrow> string \<Rightarrow> bytes list \<Rightarrow> 'e handler" where
  "cmdZRemRangeByScore P E db nm args s =
     withArity nm args 3 s
       (bindS (parseScoreBound (args ! 1)) s (\<lambda>(mn, minEx). bindS (parseScoreBound (args ! 2)) s (\<lambda>(mx, maxEx).
          bindE (loadAgg P E db (args ! 0) TypeZSet s) (\<lambda>a s1.
            removeVictims P E db (args ! 0)
              (filterByScoreRange (sortedMembers (a_zset a) False) mn mx minEx maxEx) s1))))"

definition cmdZScan :: "'e pebble \<Rightarrow> Env \<Rightarrow> dbid \<Rightarrow> string \<Rightarrow> bytes list \<Rightarrow> 'e handler" where
  "cmdZScan P E db nm args s =
     withArity nm args (-2) s
       (case parse_uint (args ! 1) of
          None \<Rightarrow> (Inl (ProtoError ''ERR invalid cursor''), s)
        | Some start \<Rightarrow>
            bindS (parseScanOpts (Some ''NOSCORES'') (drop 2 args) noScanOpts) s (\<lambda>opt.
              bindE (loadAgg P E db (args ! 0) TypeZSet s) (\<lambda>a s1.
                let ms = filter (\<lambda>m. scanMatches opt (m_member m)) (sortedByLex (a_zset a));
                    flat = concat (map (\<lambda>m. m_member m # (if sc_keysOnly opt then [] else [formatFloat (m_score m)])) ms)
                in (Inr (scanPageReply flat start (wrap64 (sc_count opt * 2))), s1))))"

end
