(* ===== verification/ZOps.thy ===== *)
theory ZOps
  imports ZCommands
begin

text \<open>
  \<open>cmd_zset2.go\<close>: union, intersection and difference of sorted sets with weights and aggregation,
  their stored forms, stored ranges, random members and the multi-key pop.  A Go map is ranged over
  in an unspecified order; the scores that result do not depend on it, since each member is treated
  on its own.
\<close>

section \<open>Set operations\<close>

datatype zAggMode = zAggSum | zAggMin | zAggMax

definition f64_one :: f64 where "f64_one = 0x3FF0000000000000"

fun zApplyAgg :: "f64 \<Rightarrow> f64 \<Rightarrow> zAggMode \<Rightarrow> f64" where
  "zApplyAgg a b zAggMin = (if f64_less b a then b else a)"
| "zApplyAgg a b zAggMax = (if f64_less a b then b else a)"
| "zApplyAgg a b zAggSum = (let s = f64_add a b in if f64_nan s then 0 else s)"

text \<open>The sources: a sorted set or, when that fails, a set whose members score 1.\<close>

fun zLoadSources :: "'e pebble \<Rightarrow> Env \<Rightarrow> dbid \<Rightarrow> bytes list \<Rightarrow> 'e Store \<Rightarrow> (goerr, (bytes \<times> f64) list list, 'e Store) res" where
  "zLoadSources P E db [] s = (Inr [], s)"
| "zLoadSources P E db (k # ks) s =
     (case loadAgg P E db k TypeZSet s of
        (Inl err, s1) \<Rightarrow>
          bindE (loadAgg P E db k TypeSet s1) (\<lambda>sa s2.
          bindE (zLoadSources P E db ks s2) (\<lambda>sets s3. (Inr (map (\<lambda>m. (m, f64_one)) (a_set sa) # sets), s3)))
      | (Inr a, s1) \<Rightarrow> bindE (zLoadSources P E db ks s1) (\<lambda>sets s2. (Inr (a_zset a # sets), s2)))"

definition weightOf :: "f64 list \<Rightarrow> nat \<Rightarrow> f64" where
  "weightOf weights i = (if i < length weights then weights ! i else f64_one)"

definition unionStep :: "zAggMode \<Rightarrow> f64 \<Rightarrow> (bytes \<times> f64) list \<Rightarrow> bytes \<times> f64 \<Rightarrow> (bytes \<times> f64) list" where
  "unionStep agg w out msc =
     (case msc of (m, sc) \<Rightarrow>
        let v = f64_times sc w in
        case map_of out m of
          Some old \<Rightarrow> AList.update m (zApplyAgg old v agg) out
        | None \<Rightarrow> AList.update m v out)"

fun unionLoop :: "zAggMode \<Rightarrow> f64 list \<Rightarrow> nat \<Rightarrow> (bytes \<times> f64) list list \<Rightarrow> (bytes \<times> f64) list \<Rightarrow> (bytes \<times> f64) list" where
  "unionLoop agg ws i [] out = out"
| "unionLoop agg ws i (z # zs) out = unionLoop agg ws (Suc i) zs (foldl (unionStep agg (weightOf ws i)) out z)"

text \<open>One round of the intersection: members missing from the set are dropped, the others aggregated.\<close>

definition interStep :: "zAggMode \<Rightarrow> f64 \<Rightarrow> bool \<Rightarrow> (bytes \<times> f64) list \<Rightarrow> (bytes \<times> f64) list \<Rightarrow> (bytes \<times> f64) list" where
  "interStep agg w isFirst z out =
     List.map_filter (\<lambda>(m, cur). case map_of z m of
        None \<Rightarrow> None
      | Some sc \<Rightarrow> let v = f64_times sc w in Some (m, if isFirst then v else zApplyAgg cur v agg)) out"

fun interLoop :: "zAggMode \<Rightarrow> f64 list \<Rightarrow> nat \<Rightarrow> (bytes \<times> f64) list list \<Rightarrow> (bytes \<times> f64) list \<Rightarrow> (bytes \<times> f64) list" where
  "interLoop agg ws i [] out = out"
| "interLoop agg ws i (z # zs) out = interLoop agg ws (Suc i) zs (interStep agg (weightOf ws i) (i = 0) z out)"

fun zCombine :: "setop \<Rightarrow> zAggMode \<Rightarrow> f64 list \<Rightarrow> (bytes \<times> f64) list list \<Rightarrow> (bytes \<times> f64) list" where
  "zCombine opUnion agg ws sets = unionLoop agg ws 0 sets []"
| "zCombine opInter agg ws sets =
     (case sets of [] \<Rightarrow> [] | z # zs \<Rightarrow> interLoop agg ws 0 sets (map (\<lambda>(m, sc). (m, 0)) z))"
| "zCombine opDiff agg ws sets =
     (case sets of [] \<Rightarrow> []
      | z # zs \<Rightarrow> filter (\<lambda>(m, sc). \<not> list_ex (\<lambda>s. map_of s m \<noteq> None) zs) z)"

definition zOpResult ::
  "'e pebble \<Rightarrow> Env \<Rightarrow> dbid \<Rightarrow> bytes list \<Rightarrow> f64 list \<Rightarrow> zAggMode \<Rightarrow> setop \<Rightarrow> 'e Store \<Rightarrow> (goerr, (bytes \<times> f64) list, 'e Store) res" where
  "zOpResult P E db keys ws agg op s =
     bindE (zLoadSources P E db keys s) (\<lambda>sets s1. (Inr (zCombine op agg ws sets), s1))"

section \<open>Arguments\<close>

record zOpArgs =
  zo_weights :: "f64 list"
  zo_agg :: zAggMode
  zo_withScores :: bool

fun parseWeights :: "bytes list \<Rightarrow> goerr + f64 list" where
  "parseWeights [] = Inr []"
| "parseWeights (a # rest) =
     (case toFloat a of
        Inl err \<Rightarrow> Inl (ProtoError ''ERR weight is not a float'')
      | Inr w \<Rightarrow> (case parseWeights rest of Inl err \<Rightarrow> Inl err | Inr ws \<Rightarrow> Inr (w # ws)))"

function zOpLoop :: "nat \<Rightarrow> bool \<Rightarrow> bytes list \<Rightarrow> zOpArgs \<Rightarrow> goerr + zOpArgs" where
  "zOpLoop nk allow [] o' = Inr o'"
| "zOpLoop nk allow (a # rest) o' =
     (let u = map to_upper a in
      if u = ascii ''WEIGHTS'' then
        (if length rest < nk then Inl ErrSyntax
         else case parseWeights (take nk rest) of
                Inl err \<Rightarrow> Inl err
              | Inr ws \<Rightarrow> zOpLoop nk allow (drop nk rest) (o'\<lparr>zo_weights := zo_weights o' @ ws\<rparr>))
      else if u = ascii ''AGGREGATE'' then
        (case rest of
           [] \<Rightarrow> Inl ErrSyntax
         | m # rest' \<Rightarrow>
             if map to_upper m = ascii ''SUM'' then zOpLoop nk allow rest' (o'\<lparr>zo_agg := zAggSum\<rparr>)
             else if map to_upper m = ascii ''MIN'' then zOpLoop nk allow rest' (o'\<lparr>zo_agg := zAggMin\<rparr>)
             else if map to_upper m = ascii ''MAX'' then zOpLoop nk allow rest' (o'\<lparr>zo_agg := zAggMax\<rparr>)
             else Inl ErrSyntax)
      else if u = ascii ''WITHSCORES'' then
        (if \<not> allow then Inl ErrSyntax else zOpLoop nk allow rest (o'\<lparr>zo_withScores := True\<rparr>))
      else Inl ErrSyntax)"
  by pat_completeness auto
termination by (relation "measure (\<lambda>(nk, allow, args, o'). length args)") auto

definition zParseOpArgs :: "bytes list \<Rightarrow> bool \<Rightarrow> string \<Rightarrow> goerr + (bytes list \<times> zOpArgs)" where
  "zParseOpArgs args allow nm =
     (case args of
        [] \<Rightarrow> Inl (WrongArgs nm)
      | a # rest \<Rightarrow>
          (case toInt64 a of
             Inl err \<Rightarrow> Inl (WrongArgs nm)
           | Inr nk \<Rightarrow>
               if nk \<le> 0 then Inl (ProtoError (''ERR at least 1 input key is needed for '' @ nm))
               else if nk > int (length rest) then Inl ErrSyntax
               else (case zOpLoop (nat nk) allow (drop (nat nk) rest)
                             \<lparr>zo_weights = [], zo_agg = zAggSum, zo_withScores = False\<rparr> of
                       Inl err \<Rightarrow> Inl err | Inr o' \<Rightarrow> Inr (take (nat nk) rest, o'))))"

definition zCombineCmd :: "'e pebble \<Rightarrow> Env \<Rightarrow> dbid \<Rightarrow> bytes list \<Rightarrow> string \<Rightarrow> setop \<Rightarrow> 'e handler" where
  "zCombineCmd P E db args nm op s =
     bindS (zParseOpArgs args True nm) s (\<lambda>(keys, o').
       bindE (zOpResult P E db keys (zo_weights o') (zo_agg o') op s) (\<lambda>out s1.
         (Inr (writeMembers (sortedMembers out False) (zo_withScores o')), s1)))"

definition cmdZUnion :: "'e pebble \<Rightarrow> Env \<Rightarrow> dbid \<Rightarrow> bytes list \<Rightarrow> 'e handler" where
  "cmdZUnion P E db args s = zCombineCmd P E db args ''ZUNION'' opUnion s"

definition cmdZInter :: "'e pebble \<Rightarrow> Env \<Rightarrow> dbid \<Rightarrow> bytes list \<Rightarrow> 'e handler" where
  "cmdZInter P E db args s = zCombineCmd P E db args ''ZINTERSTORE/ZINTER'' opInter s"

definition numkeysErr :: goerr where
  "numkeysErr = ProtoError ''ERR numkeys should be greater than 0 and no larger than the number of keys''"

definition numKeys :: "bytes \<Rightarrow> nat \<Rightarrow> goerr + nat" where
  "numKeys a avail =
     (case toInt64 a of
        Inl err \<Rightarrow> Inl numkeysErr
      | Inr nk \<Rightarrow> if nk \<le> 0 \<or> nk > int avail then Inl numkeysErr else Inr (nat nk))"

definition cmdZDiff :: "'e pebble \<Rightarrow> Env \<Rightarrow> dbid \<Rightarrow> bytes list \<Rightarrow> 'e handler" where
  "cmdZDiff P E db args s =
     (if length args < 1 then (Inl (WrongArgs ''zdiff''), s)
      else bindS (numKeys (args ! 0) (length args - 1)) s (\<lambda>nk.
        bindE (zOpResult P E db (take nk (drop 1 args)) [] zAggSum opDiff s) (\<lambda>out s1.
          (Inr (writeMembers (sortedMembers out False)
             (list_ex (\<lambda>a. fold_equal a ''WITHSCORES'') (drop (1 + nk) args))), s1))))"

text \<open>A fresh sorted set that replaces whatever the destination held.\<close>

definition freshZSet :: "(bytes \<times> f64) list \<Rightarrow> agg" where
  "freshZSet z = (newAgg TypeZSet 0)\<lparr>a_exists := True, a_zset := z\<rparr>"

definition replaceZSet :: "'e pebble \<Rightarrow> Env \<Rightarrow> dbid \<Rightarrow> bytes \<Rightarrow> (bytes \<times> f64) list \<Rightarrow> 'e handler" where
  "replaceZSet P E db dst z s =
     bindE (deleteKey P E db dst s) (\<lambda>_ s1.
       if z = [] then (Inr [RInt 0], s1)
       else bindE (saveAgg P E db dst (freshZSet z) s1) (\<lambda>_ s2. (Inr [RInt (int (length z))], s2)))"

definition zStoreOp :: "'e pebble \<Rightarrow> Env \<Rightarrow> dbid \<Rightarrow> bytes list \<Rightarrow> setop \<Rightarrow> 'e handler" where
  "zStoreOp P E db args op s =
     (if length args < 2 then (Inl (WrongArgs ''zunionstore''), s)
      else bindS (zParseOpArgs (drop 1 args) False ''ZUNIONSTORE/ZINTERSTORE'') s (\<lambda>(keys, o').
        bindE (zOpResult P E db keys (zo_weights o') (zo_agg o') op s) (\<lambda>out s1.
          replaceZSet P E db (args ! 0) out s1)))"

section \<open>Stored ranges and random members\<close>

definition storeItems :: "zRangeOpts \<Rightarrow> bytes \<Rightarrow> bytes \<Rightarrow> (bytes \<times> f64) list \<Rightarrow> goerr + Member list" where
  "storeItems opt lo hi z =
     (if zr_byLex opt then
        (case parseLexBound lo of Inl err \<Rightarrow> Inl err
         | Inr b1 \<Rightarrow>
             (case parseLexBound hi of Inl err \<Rightarrow> Inl err
              | Inr b2 \<Rightarrow>
                  Inr (lexInRange (sortedByLex z) (if zr_rev opt then b2 else b1) (if zr_rev opt then b1 else b2))))
      else
        (case toInt64 lo of Inl err \<Rightarrow> Inl err
         | Inr start \<Rightarrow>
             (case toInt64 hi of Inl err \<Rightarrow> Inl err
              | Inr stop \<Rightarrow> Inr (indexRange (sortedMembers z (zr_rev opt)) start stop))))"

definition cmdZRangeStore :: "'e pebble \<Rightarrow> Env \<Rightarrow> dbid \<Rightarrow> bytes list \<Rightarrow> 'e handler" where
  "cmdZRangeStore P E db args s =
     (if length args < 4 then (Inl (WrongArgs ''zrangestore''), s)
      else bindS (parseZRangeOpts (drop 4 args)) s (\<lambda>opt.
        bindE (loadAgg P E db (args ! 1) TypeZSet s) (\<lambda>a s1.
          bindS (storeItems opt (args ! 2) (args ! 3) (a_zset a)) s1 (\<lambda>items.
            replaceZSet P E db (args ! 0) (map (\<lambda>m. (m_member m, m_score m)) (limited opt items)) s1))))"

definition cmdZRandMember ::
  "'e pebble \<Rightarrow> Env \<Rightarrow> (nat \<Rightarrow> nat) \<Rightarrow> (nat \<Rightarrow> nat list) \<Rightarrow> dbid \<Rightarrow> bytes list \<Rightarrow> 'e handler" where
  "cmdZRandMember P E rnd perm db args s =
     (if length args < 1 \<or> length args > 3 then (Inl (WrongArgs ''zrandmember''), s)
      else bindE (loadAgg P E db (args ! 0) TypeZSet s) (\<lambda>a s1.
        let mem = sortedMembers (a_zset a) False; withScores = (length args = 3 \<and> fold_equal (args ! 2) ''WITHSCORES'')
        in if length args = 1 then
             (Inr [if mem = [] then RNull else RBulk (m_member (mem ! (rnd 0 mod length mem)))], s1)
           else bindS (toInt64 (args ! 1)) s1 (\<lambda>n.
             if mem = [] then (Inr [RArray 0], s1)
             else bindS (pickCount n (length mem)) s1 (\<lambda>(k, dup).
               let out = (if dup then map (\<lambda>j. mem ! (rnd j mod length mem)) [0..<k]
                          else map (\<lambda>i. mem ! i) (take k (perm (length mem))))
               in (Inr (writeMembers out withScores), s1)))))"

section \<open>Popping from the first non-empty key\<close>

text \<open>The key is the empty string when nothing was popped.\<close>

fun zPopFromKeys :: "'e pebble \<Rightarrow> Env \<Rightarrow> dbid \<Rightarrow> bytes list \<Rightarrow> int \<Rightarrow> bool \<Rightarrow> 'e Store \<Rightarrow> (goerr, bytes \<times> Member list, 'e Store) res" where
  "zPopFromKeys P E db [] count mx s = (Inr ([], []), s)"
| "zPopFromKeys P E db (k # ks) count mx s =
     bindE (loadAgg P E db k TypeZSet s) (\<lambda>a s1.
       if a_zset a = [] then zPopFromKeys P E db ks count mx s1
       else bindE (zPopMinMax P E db k count mx s1) (\<lambda>out s2. (Inr (k, out), s2)))"

definition writeZPopReply :: "bytes \<Rightarrow> Member list \<Rightarrow> reply list" where
  "writeZPopReply key items =
     (if key = [] then [RNull]
      else [RArray 2, RBulk key, RArray (int (length items))]
           @ concat (map (\<lambda>m. [RArray 2, RBulk (m_member m), RBulk (formatFloat (m_score m))]) items))"

function zmpopOpts :: "bytes list \<Rightarrow> bool \<Rightarrow> int \<Rightarrow> goerr + (bool \<times> int)" where
  "zmpopOpts [] mx count = Inr (mx, count)"
| "zmpopOpts (a # rest) mx count =
     (let u = map to_upper a in
      if u = ascii ''MIN'' then zmpopOpts rest False count
      else if u = ascii ''MAX'' then zmpopOpts rest True count
      else if u = ascii ''COUNT'' then
        (case rest of [] \<Rightarrow> Inl ErrSyntax
         | v # rest' \<Rightarrow> (case toInt64 v of Inl err \<Rightarrow> Inl err | Inr n \<Rightarrow> zmpopOpts rest' mx n))
      else zmpopOpts rest mx count)"
  by pat_completeness auto
termination by (relation "measure (\<lambda>(args, mx, count). length args)") auto

definition cmdZMPop :: "'e pebble \<Rightarrow> Env \<Rightarrow> dbid \<Rightarrow> bytes list \<Rightarrow> 'e handler" where
  "cmdZMPop P E db args s =
     (if length args < 2 then (Inl (WrongArgs ''zmpop''), s)
      else bindS (numKeys (args ! 0) (length args - 1)) s (\<lambda>nk.
        bindS (zmpopOpts (drop (1 + nk) args) False 1) s (\<lambda>(mx, count).
          bindE (zPopFromKeys P E db (take nk (drop 1 args)) count mx s) (\<lambda>(key, items) s1.
            (Inr (writeZPopReply key items), s1)))))"

end
