(* ===== verification/Bits.thy ===== *)
theory Bits
  imports Strings
begin

text \<open>
  The bit commands (\<open>cmd_bit.go\<close>). Offset 0 is the most significant bit of the first byte, and a string is
  read as if zero bytes followed it.
\<close>

unbundle bit_operations_syntax

section \<open>Single bits\<close>

definition bitMaxOffset :: int where "bitMaxOffset = 4 * 1024 * 1024 * 8"

definition stringBits :: "'e pebble \<Rightarrow> Env \<Rightarrow> dbid \<Rightarrow> bytes \<Rightarrow> 'e Store \<Rightarrow> (goerr, bytes option, 'e Store) res" where
  "stringBits P E db key s =
     bindE (getTyped P E db key s) (\<lambda>r s1.
       case r of
         None \<Rightarrow> (Inr None, s1)
       | Some (typ, _, payload) \<Rightarrow> if typ \<noteq> TypeString then (Inl ErrWrongType, s1) else (Inr (Some payload), s1))"

definition bitOf :: "bytes \<Rightarrow> int \<Rightarrow> int" where
  "bitOf data off =
     (let byteIdx = nat (off div 8)
      in if byteIdx \<ge> length data then 0 else uint (drop_bit (nat (7 - off mod 8)) (data ! byteIdx) AND 1))"

definition bitOffset :: "bytes \<Rightarrow> goerr + int" where
  "bitOffset b =
     (case parse_int b of
        None \<Rightarrow> Inl ErrNotInteger
      | Some off \<Rightarrow>
          if off < 0 then Inl ErrNotInteger
          else if off \<ge> bitMaxOffset then Inl (ProtoError ''ERR bit offset is not an integer or out of range'')
          else Inr off)"

definition orNil :: "bytes option \<Rightarrow> bytes" where
  "orNil r = (case r of None \<Rightarrow> [] | Some d \<Rightarrow> d)"

definition cmdGetBit :: "'e pebble \<Rightarrow> Env \<Rightarrow> dbid \<Rightarrow> string \<Rightarrow> bytes list \<Rightarrow> 'e handler" where
  "cmdGetBit P E db nm args s =
     withArity nm args 2 s
       (bindS (bitOffset (args ! 1)) s (\<lambda>off.
          bindE (stringBits P E db (args ! 0) s) (\<lambda>r s1. (Inr [RInt (bitOf (orNil r) off)], s1))))"

text \<open>The string that \<open>SETBIT\<close> writes.\<close>

definition withBit :: "bytes \<Rightarrow> int \<Rightarrow> bool \<Rightarrow> bytes" where
  "withBit data off v =
     (let byteIdx = nat (off div 8);
          grown = (if byteIdx \<ge> length data then data @ replicate (byteIdx + 1 - length data) 0 else data);
          mask = push_bit (nat (7 - off mod 8)) 1
      in grown[byteIdx := (if v then grown ! byteIdx OR mask else grown ! byteIdx AND NOT mask)])"

definition cmdSetBit :: "'e pebble \<Rightarrow> Env \<Rightarrow> (nat \<Rightarrow> Draws) \<Rightarrow> dbid \<Rightarrow> string \<Rightarrow> bytes list \<Rightarrow> 'e handler" where
  "cmdSetBit P E drs db nm args s =
     withArity nm args 3 s
       (bindS (bitOffset (args ! 1)) s (\<lambda>off.
          if parse_int (args ! 2) \<noteq> Some 0 \<and> parse_int (args ! 2) \<noteq> Some 1
          then (Inl (ProtoError ''ERR bit is not an integer or out of range''), s)
          else bindE (stringBits P E db (args ! 0) s) (\<lambda>r s1.
            bindE (setStringSimple P E drs db (args ! 0) (withBit (orNil r) off (parse_int (args ! 2) = Some 1)) 0 s1) (\<lambda>_ s2.
              (Inr [RInt (bitOf (orNil r) off)], s2)))))"

section \<open>Ranges of bytes\<close>

definition byteRange :: "bytes \<Rightarrow> int \<Rightarrow> int \<Rightarrow> (int \<times> int) option" where
  "byteRange data start0 end0 =
     (let n = int (length data);
          start = max 0 (if start0 < 0 then start0 + n else start0);
          en = min (max 0 (if end0 < 0 then end0 + n else end0)) (n - 1)
      in if start > en \<or> start \<ge> n then None else Some (start, en))"

function bitPopLoop :: "byte \<Rightarrow> int \<Rightarrow> int" where
  "bitPopLoop b n = (if b = 0 then n else bitPopLoop (b AND (b - 1)) (n + 1))"
  by pat_completeness auto
termination
proof (relation "measure (\<lambda>(b, n). unat b)")
  show "((b AND (b - 1), n + 1), b, n) \<in> measure (\<lambda>(b, n). unat b)" if "b \<noteq> 0" for b :: byte and n
  proof -
    have "b AND (b - 1) \<le> b - 1" by (rule word_and_le1)
    also have "\<dots> < b" using that by (simp add: word_gt_0 word_less_sub1 measure_unat word_less_nat_alt)
    finally show ?thesis by (simp add: word_less_nat_alt)
  qed
qed simp

declare bitPopLoop.simps [simp del]

definition bitPopCount :: "byte \<Rightarrow> int" where "bitPopCount b = bitPopLoop b 0"

definition bytesIn :: "bytes \<Rightarrow> int \<Rightarrow> int \<Rightarrow> bytes" where
  "bytesIn data lo hi = take (nat (hi + 1 - lo)) (drop (nat lo) data)"

definition bitCount :: "bytes \<Rightarrow> int \<Rightarrow> int \<Rightarrow> int" where
  "bitCount data lo hi = foldl (\<lambda>n b. n + bitPopCount b) 0 (bytesIn data lo hi)"

definition cmdBitCount :: "'e pebble \<Rightarrow> Env \<Rightarrow> dbid \<Rightarrow> bytes list \<Rightarrow> 'e handler" where
  "cmdBitCount P E db args s =
     (if args = [] then (Inl (WrongArgs ''bitcount''), s)
      else if length args \<notin> {1, 3, 4} then (Inl ErrSyntax, s)
      else if length args = 4 \<and> \<not> fold_equal (args ! 3) ''BYTE'' \<and> \<not> fold_equal (args ! 3) ''BIT'' then (Inl ErrSyntax, s)
      else bindE (stringBits P E db (args ! 0) s) (\<lambda>r s1.
        let data = orNil r in
        if data = [] then (Inr [RInt 0], s1)
        else if length args \<ge> 3 then
          bindS (toInt64 (args ! 1)) s1 (\<lambda>start. bindS (toInt64 (args ! 2)) s1 (\<lambda>en.
            (Inr [RInt (case byteRange data start en of None \<Rightarrow> 0 | Some (lo, hi) \<Rightarrow> bitCount data lo hi)], s1)))
        else (Inr [RInt (bitCount data 0 (int (length data) - 1))], s1)))"

text \<open>The search of \<open>BITPOS\<close>: bytes from \<open>lo\<close> to \<open>hi\<close>, in each the bits from the left.\<close>

fun bitPosIn :: "byte \<Rightarrow> int \<Rightarrow> nat list \<Rightarrow> nat option" where
  "bitPosIn b want [] = None"
| "bitPosIn b want (k # ks) = (if uint (drop_bit (7 - k) b AND 1) = want then Some k else bitPosIn b want ks)"

fun bitPosScan :: "bytes \<Rightarrow> int \<Rightarrow> nat list \<Rightarrow> int option" where
  "bitPosScan data want [] = None"
| "bitPosScan data want (i # is) =
     (let b = data ! i in
      if (want = 0 \<and> b = 0xff) \<or> (want = 1 \<and> b = 0) then bitPosScan data want is
      else case bitPosIn b want [0..<8] of
             Some k \<Rightarrow> Some (int i * 8 + int k) | None \<Rightarrow> bitPosScan data want is)"

definition bitPosRange :: "bytes \<Rightarrow> int \<Rightarrow> int \<Rightarrow> int \<Rightarrow> bool \<Rightarrow> int" where
  "bitPosRange data want lo hi hasEnd =
     (case bitPosScan data want [nat lo..<nat (hi + 1)] of
        Some p \<Rightarrow> p
      | None \<Rightarrow> if want = 0 \<and> \<not> hasEnd \<and> hi = int (length data) - 1 then int (length data) * 8 else -1)"

definition cmdBitPos :: "'e pebble \<Rightarrow> Env \<Rightarrow> dbid \<Rightarrow> bytes list \<Rightarrow> 'e handler" where
  "cmdBitPos P E db args s =
     (if length args < 2 \<or> length args > 4 then (Inl (WrongArgs ''bitpos''), s)
      else if parse_int (args ! 1) \<noteq> Some 0 \<and> parse_int (args ! 1) \<noteq> Some 1 then (Inl ErrNotInteger, s)
      else
        let want = (if parse_int (args ! 1) = Some 1 then 1 else 0); hasEnd = (length args \<ge> 4) in
        bindE (stringBits P E db (args ! 0) s) (\<lambda>r s1.
          case r of
            None \<Rightarrow> (Inr [RInt (if want = 0 then 0 else -1)], s1)
          | Some data \<Rightarrow>
              if data = [] then (Inr [RInt (-1)], s1)
              else if length args \<ge> 3 then
                bindS (toInt64 (args ! 2)) s1 (\<lambda>start.
                  bindS (if hasEnd then toInt64 (args ! 3) else Inr (int (length data) - 1)) s1 (\<lambda>en.
                    (Inr [RInt (case byteRange data start en of
                                  None \<Rightarrow> -1 | Some (lo, hi) \<Rightarrow> bitPosRange data want lo hi hasEnd)], s1)))
              else (Inr [RInt (bitPosRange data want 0 (int (length data) - 1) hasEnd)], s1)))"

section \<open>BITOP\<close>

text \<open>One source into the result so far, both zero-padded to the longer one.\<close>

definition bitOpMerge :: "(byte \<Rightarrow> byte \<Rightarrow> byte) \<Rightarrow> bytes \<Rightarrow> bytes \<Rightarrow> bytes" where
  "bitOpMerge f res data =
     (let grown = res @ replicate (length data - length res) 0
      in map (\<lambda>i. f (grown ! i) (if i < length data then data ! i else 0)) [0..<length grown])"

fun bitOpSources ::
  "'e pebble \<Rightarrow> Env \<Rightarrow> dbid \<Rightarrow> (byte \<Rightarrow> byte \<Rightarrow> byte) \<Rightarrow> bytes list \<Rightarrow> bytes option \<Rightarrow> 'e Store \<Rightarrow> (goerr, bytes option, 'e Store) res" where
  "bitOpSources P E db f [] res s = (Inr res, s)"
| "bitOpSources P E db f (src # srcs) res s =
     bindE (stringBits P E db src s) (\<lambda>r s1.
       bitOpSources P E db f srcs
         (Some (case res of None \<Rightarrow> orNil r | Some x \<Rightarrow> bitOpMerge f x (orNil r))) s1)"

definition bitOpResult :: "'e pebble \<Rightarrow> Env \<Rightarrow> dbid \<Rightarrow> bytes \<Rightarrow> bytes list \<Rightarrow> 'e Store \<Rightarrow> (goerr, bytes, 'e Store) res" where
  "bitOpResult P E db op srcs s =
     (let fold_with = (\<lambda>f. bindE (bitOpSources P E db f srcs None s) (\<lambda>r s1. (Inr (orNil r), s1))) in
      if op = ascii ''AND'' then fold_with (AND)
      else if op = ascii ''OR'' then fold_with (OR)
      else if op = ascii ''XOR'' then fold_with (XOR)
      else if op = ascii ''NOT'' then
        (if length srcs \<noteq> 1 then (Inl (ProtoError ''ERR BITOP NOT must be called with a single source key.''), s)
         else bindE (stringBits P E db (srcs ! 0) s) (\<lambda>r s1. (Inr (map NOT (orNil r)), s1)))
      else (Inl (WrongArgs ''bitop''), s))"

definition cmdBitOp :: "'e pebble \<Rightarrow> Env \<Rightarrow> (nat \<Rightarrow> Draws) \<Rightarrow> dbid \<Rightarrow> bytes list \<Rightarrow> 'e handler" where
  "cmdBitOp P E drs db args s =
     (if length args < 3 then (Inl (WrongArgs ''bitop''), s)
      else bindE (bitOpResult P E db (args ! 0) (drop 2 args) s) (\<lambda>res s1.
        if res = [] then bindE (deleteKey P E db (args ! 1) s1) (\<lambda>_ s2. (Inr [RInt 0], s2))
        else bindE (setStringSimple P E drs db (args ! 1) res 0 s1) (\<lambda>_ s2. (Inr [RInt (int (length res))], s2))))"

section \<open>Strings as bit arrays\<close>

definition byteAt :: "bytes \<Rightarrow> nat \<Rightarrow> byte" where
  "byteAt data i = (if i < length data then data ! i else 0)"

lemma uint_bit: "uint (drop_bit n w AND 1 :: byte) = of_bool (bit w n)"
  by (simp add: and_one_eq mod_2_eq_odd bit_iff_odd_drop_bit)

lemma bitOf_bit: "bitOf data off = of_bool (bit (byteAt data (nat (off div 8))) (nat (7 - off mod 8)))"
  by (simp add: bitOf_def byteAt_def uint_bit Let_def)

lemma pad_zero: "k \<le> i \<Longrightarrow> \<not> k < n \<Longrightarrow> replicate (Suc i - n) (0 :: byte) ! (k - n) = 0"
  by (subst nth_replicate) auto

lemma byteAt_withBit:
  "byteAt (withBit data off v) j =
     (let i = nat (off div 8); mask = push_bit (nat (7 - off mod 8)) 1
      in if j = i then (if v then byteAt data i OR mask else byteAt data i AND NOT mask) else byteAt data j)"
  by (auto simp: byteAt_def withBit_def Let_def nth_append nth_list_update pad_zero)

lemma same_offset:
  fixes off off' :: int
  assumes "0 \<le> off" "0 \<le> off'" "nat (off div 8) = nat (off' div 8)" "nat (7 - off mod 8) = nat (7 - off' mod 8)"
  shows "off = off'"
proof -
  have "off mod 8 < 8" "off' mod 8 < 8" by simp_all
  then have "off mod 8 = off' mod 8" using assms(4) by linarith
  moreover have "off div 8 = off' div 8" using assms(1-3) by (simp add: nat_eq_iff pos_imp_zdiv_nonneg_iff)
  ultimately show ?thesis by (metis mult_div_mod_eq)
qed

text \<open>C33: \<open>SETBIT\<close> writes one bit: after it \<open>GETBIT\<close> returns the new value at that offset and the old value at
  every other one, also beyond the end of the old string.\<close>

theorem setbit_getbit:
  assumes "0 \<le> off" "0 \<le> off'"
  shows "bitOf (withBit data off v) off' = (if off' = off then of_bool v else bitOf data off')"
proof -
  define i n i' n' where defs: "i = nat (off div 8)" "n = nat (7 - off mod 8)" "i' = nat (off' div 8)" "n' = nat (7 - off' mod 8)"
  have n: "n < 8" "n' < 8" unfolding defs by (simp_all add: nat_less_iff)
  have same: "off' = off \<longleftrightarrow> i' = i \<and> n' = n" using same_offset[OF assms, folded defs] unfolding defs by metis
  have mask: "bit (2 ^ n :: byte) n' \<longleftrightarrow> n = n'" using n by (auto simp: bit_exp_iff)
  have new: "bitOf (withBit data off v) off' =
      of_bool (bit (if i' = i then if v then byteAt data i OR 2 ^ n else byteAt data i AND NOT (2 ^ n) else byteAt data i') n')"
    by (simp add: bitOf_bit byteAt_withBit Let_def defs)
  have old: "bitOf data off' = of_bool (bit (byteAt data i') n')"
    by (simp add: bitOf_bit defs)
  show ?thesis
    unfolding new old same
    by (cases "i' = i"; cases "n' = n"; cases v) (use n mask in \<open>simp_all add: bit_or_iff bit_and_iff bit_not_iff\<close>)
qed

theorem setbit_getbit_witness: "bitOf (withBit [] 9 True) 9 = 1"
  using setbit_getbit[of 9 9 "[]" True] by simp

lemma byteAt_merge:
  "f 0 0 = 0 \<Longrightarrow> byteAt (bitOpMerge f a b) i = f (byteAt a i) (byteAt b i)"
  by (auto simp: byteAt_def bitOpMerge_def Let_def nth_append)

text \<open>\<open>BITOP\<close> works on the zero-padded strings, bit by bit.\<close>

lemma bitop_bits:
  "bitOf (bitOpMerge (AND) a b) off = bitOf a off * bitOf b off"
  "bitOf (bitOpMerge (OR) a b) off = max (bitOf a off) (bitOf b off)"
  "bitOf (bitOpMerge (XOR) a b) off = (bitOf a off + bitOf b off) mod 2"
  by (simp_all add: bitOf_bit byteAt_merge bit_and_iff bit_or_iff bit_xor_iff)

section \<open>Counting and searching\<close>

text \<open>Clearing the lowest set bit until none is left counts the set bits.\<close>

fun onesOf :: "nat \<Rightarrow> nat" where
  "onesOf n = (if n = 0 then 0 else n mod 2 + onesOf (n div 2))"

declare onesOf.simps [simp del]

lemma onesOf_simps: "onesOf 0 = 0" "onesOf (2 * k) = onesOf k" "onesOf (Suc (2 * k)) = Suc (onesOf k)"
  using onesOf.simps[of 0] onesOf.simps[of "2 * k"] onesOf.simps[of "Suc (2 * k)"] by (cases "k = 0"; simp)+

lemma onesOf_clear: "0 < n \<Longrightarrow> Suc (onesOf (n AND (n - 1))) = onesOf n"
proof (induction n rule: less_induct)
  case (less n)
  show ?case
  proof (cases "even n")
    case True
    then obtain k where k: "n = 2 * k" by (elim evenE)
    then have "(n - 1) div 2 = k - 1" by simp
    then have "n AND (n - 1) = 2 * (k AND (k - 1))" using k by (subst and_nat_rec) simp
    then show ?thesis using less.IH[of k] less.prems k by (simp add: onesOf_simps)
  next
    case False
    then obtain k where k: "n = Suc (2 * k)" by (elim oddE) simp
    then have "n AND (n - 1) = 2 * k" by (subst and_nat_rec) simp
    then show ?thesis using k by (simp add: onesOf_simps)
  qed
qed

lemma onesOf_bits: "n < 2 ^ m \<Longrightarrow> onesOf n = length (filter (bit n) [0..<m])"
proof (induction m arbitrary: n)
  case (Suc m)
  have up: "[0..<Suc m] = 0 # map Suc [0..<m]" by (simp add: upt_conv_Cons map_Suc_upt del: upt_Suc)
  have "onesOf n = n mod 2 + onesOf (n div 2)" by (subst onesOf.simps) (simp add: onesOf_simps)
  also have "onesOf (n div 2) = length (filter (bit (n div 2)) [0..<m])" using Suc by (intro Suc.IH) simp
  finally show ?case unfolding up by (simp add: filter_map o_def bit_Suc bit_0 mod_2_eq_odd)
qed (simp add: onesOf_simps)

lemma bitPopLoop_ones: "bitPopLoop b n = n + int (onesOf (unat b))"
proof (induction b n rule: bitPopLoop.induct)
  case (1 b n)
  show ?case
  proof (cases "b = 0")
    case False
    then have "unat (b AND (b - 1)) = unat b AND (unat b - 1)"
      by (simp add: unsigned_and_eq unat_minus_one)
    then show ?thesis using 1[OF False] onesOf_clear[of "unat b"] False
      by (subst bitPopLoop.simps) (simp add: unat_gt_0)
  qed (simp add: bitPopLoop.simps onesOf_simps)
qed

lemma popcount_bits: "bitPopCount b = int (length (filter (bit b) [0..<8]))"
proof -
  have "unat b < 2 ^ 8" using unsigned_less[of b] by simp
  moreover have "bit (unat b) = bit b" by (rule ext) (simp add: bit_unsigned_iff)
  ultimately show ?thesis using onesOf_bits[of "unat b" 8] by (simp add: bitPopCount_def bitPopLoop_ones)
qed

text \<open>The leftmost hit of a search in a range of offsets.\<close>

definition leftmost :: "(int \<Rightarrow> bool) \<Rightarrow> int \<Rightarrow> int \<Rightarrow> int option \<Rightarrow> bool" where
  "leftmost Q lo hi r \<longleftrightarrow>
     (case r of
        Some p \<Rightarrow> lo \<le> p \<and> p < hi \<and> Q p \<and> (\<forall>q. lo \<le> q \<and> q < p \<longrightarrow> \<not> Q q)
      | None \<Rightarrow> \<forall>q. lo \<le> q \<and> q < hi \<longrightarrow> \<not> Q q)"

lemma leftmost_append:
  assumes "leftmost Q lo mid r" "leftmost Q mid hi r'" "lo \<le> mid" "mid \<le> hi"
  shows "leftmost Q lo hi (case r of Some p \<Rightarrow> Some p | None \<Rightarrow> r')"
  using assms unfolding leftmost_def by (cases r; cases r') (auto, (meson linorder_not_le order.strict_trans2 order.trans)+)

lemma bitPosIn_leftmost:
  "leftmost (\<lambda>q. of_bool (bit b (7 - nat q)) = want) (int m) (int n) (map_option int (bitPosIn b want [m..<n]))"
proof (induction "n - m" arbitrary: m)
  case 0
  then show ?case by (simp add: leftmost_def)
next
  case (Suc k)
  then have up: "[m..<n] = m # [Suc m..<n]" by (simp add: upt_conv_Cons)
  define Q where "Q = (\<lambda>q. of_bool (bit b (7 - nat q)) = want)"
  have one: "leftmost Q (int m) (int (Suc m)) (if Q (int m) then Some (int m) else None)"
  proof -
    have "q = int m" if "int m \<le> q" "q < int (Suc m)" for q using that by linarith
    then have "\<not> Q q" if "\<not> Q (int m)" "int m \<le> q" "q < int (Suc m)" for q using that by metis
    then show ?thesis by (auto simp: leftmost_def)
  qed
  have rest: "leftmost Q (int (Suc m)) (int n) (map_option int (bitPosIn b want [Suc m..<n]))"
    unfolding Q_def using Suc.hyps(2) by (intro Suc.hyps(1)) simp
  have step: "map_option int (bitPosIn b want [m..<n]) =
      (case if Q (int m) then Some (int m) else None of
         Some p \<Rightarrow> Some p | None \<Rightarrow> map_option int (bitPosIn b want [Suc m..<n]))"
    unfolding up Q_def by (simp add: uint_bit)
  show ?case using leftmost_append[OF one rest] Suc.hyps(2) unfolding step Q_def[symmetric] by linarith
qed

lemma bitOf_at: "i < length data \<Longrightarrow> 0 \<le> k \<Longrightarrow> k < 8 \<Longrightarrow> bitOf data (int i * 8 + k) = of_bool (bit (data ! i) (7 - nat k))"
  by (simp add: bitOf_bit byteAt_def nat_diff_distrib)

lemma bit_byte_max: "bit (0xff :: byte) n \<longleftrightarrow> n < 8"
proof -
  have "(0xff :: byte) = mask 8" by (simp add: mask_eq_exp_minus_1)
  then show ?thesis by (simp only: bit_mask_iff) simp
qed

text \<open>One byte of the search.\<close>

lemma byte_leftmost:
  assumes "i < length data" "want = 0 \<or> want = 1"
  shows "leftmost (\<lambda>q. bitOf data q = want) (int i * 8) (int (Suc i) * 8)
    (if (want = 0 \<and> data ! i = 0xff) \<or> (want = 1 \<and> data ! i = 0) then None
     else map_option (\<lambda>k. int i * 8 + int k) (bitPosIn (data ! i) want [0..<8]))"
proof -
  have at: "bitOf data q = of_bool (bit (data ! i) (7 - nat (q - int i * 8)))" if "int i * 8 \<le> q" "q < int (Suc i) * 8" for q
    using bitOf_at[OF assms(1), of "q - int i * 8"] that by simp
  show ?thesis
  proof (cases "(want = 0 \<and> data ! i = 0xff) \<or> (want = 1 \<and> data ! i = 0)")
    case True
    moreover have "7 - nat x < 8" for x :: int by simp
    ultimately have "bitOf data q \<noteq> want" if "int i * 8 \<le> q" "q < int (Suc i) * 8" for q
      using at[OF that] bit_byte_max[of "7 - nat (q - int i * 8)"] by force
    then show ?thesis unfolding if_P[OF True] leftmost_def by simp
  next
    case False
    have "leftmost (\<lambda>q. of_bool (bit (data ! i) (7 - nat q)) = want) 0 8 (map_option int (bitPosIn (data ! i) want [0..<8]))"
      using bitPosIn_leftmost[of "data ! i" want 0 8] by simp
    then show ?thesis
      using False at unfolding leftmost_def
      by (cases "bitPosIn (data ! i) want [0..<8]") (auto dest!: spec[of _ "_ - int i * 8"])
  qed
qed

lemma bitPosScan_leftmost:
  assumes "want = 0 \<or> want = 1" "b \<le> length data" "a \<le> b"
  shows "leftmost (\<lambda>q. bitOf data q = want) (int a * 8) (int b * 8) (bitPosScan data want [a..<b])"
  using assms(3)
proof (induction "b - a" arbitrary: a)
  case 0
  then show ?case by (simp add: leftmost_def)
next
  case (Suc k)
  then have up: "[a..<b] = a # [Suc a..<b]" and a: "a < length data" using assms(2) by (simp_all add: upt_conv_Cons)
  have "leftmost (\<lambda>q. bitOf data q = want) (int (Suc a) * 8) (int b * 8) (bitPosScan data want [Suc a..<b])"
    using Suc.hyps by (intro Suc.hyps(1)) simp_all
  from leftmost_append[OF byte_leftmost[OF a assms(1)] this] Suc.hyps(2) show ?case
    unfolding up by (auto simp: Let_def split: if_splits option.splits)
qed

text \<open>\<open>BITPOS\<close> returns the leftmost offset with the wanted bit: in the bytes from \<open>lo\<close> to \<open>hi\<close> if there is one;
  for a clear bit without an end argument, the first offset after the string; and -1 otherwise.\<close>

theorem bitpos_leftmost:
  assumes "want = 0 \<or> want = 1" "0 \<le> lo" "lo \<le> hi" "hi < int (length data)"
  shows "bitPosRange data want lo hi hasEnd =
    (if \<exists>q. lo * 8 \<le> q \<and> q < (hi + 1) * 8 \<and> bitOf data q = want
     then Min {q. lo * 8 \<le> q \<and> q < (hi + 1) * 8 \<and> bitOf data q = want}
     else if want = 0 \<and> \<not> hasEnd \<and> hi = int (length data) - 1 then int (length data) * 8 else -1)"
proof -
  let ?S = "{q. lo * 8 \<le> q \<and> q < (hi + 1) * 8 \<and> bitOf data q = want}"
  have scan: "leftmost (\<lambda>q. bitOf data q = want) (lo * 8) ((hi + 1) * 8) (bitPosScan data want [nat lo..<nat (hi + 1)])"
    using bitPosScan_leftmost[OF assms(1), of "nat (hi + 1)" data "nat lo"] assms(2-4) by simp
  show ?thesis
  proof (cases "bitPosScan data want [nat lo..<nat (hi + 1)]")
    case None
    then show ?thesis using scan by (auto simp: bitPosRange_def leftmost_def)
  next
    case (Some p)
    have fin: "finite ?S" by (rule finite_subset[of _ "{lo * 8..<(hi + 1) * 8}"]) auto
    have "p \<in> ?S" "\<And>q. q \<in> ?S \<Longrightarrow> p \<le> q"
      using scan Some by (auto simp: leftmost_def not_less[symmetric])
    then have "Min ?S = p" using fin by (intro Min_eqI) auto
    then show ?thesis using Some \<open>p \<in> ?S\<close> by (auto simp: bitPosRange_def)
  qed
qed

lemma bitpos_sample: "bitPosRange [0xff, 0x7f] 0 0 1 False = 8"
  by code_simp

theorem bitpos_leftmost_witness: "Min {q. 0 \<le> q \<and> q < 16 \<and> bitOf [0xff, 0x7f] q = 0} = 8"
  using bitpos_leftmost[of 0 0 1 "[0xff, 0x7f]" False] bitpos_sample by (auto split: if_splits)

end
