(* ===== verification/Blocking.thy ===== *)
theory Blocking
  imports Handlers
begin

text \<open>
  Waiting for data: the blocker of \<open>blocking.go\<close>. A blocked command reads the version, tries to serve
  itself, and sleeps on the version it read; a push writes its data, bumps the version and wakes every
  sleeper. The operations of the blocker are the sections its code runs under the mutex. The step
  relation runs any number of commands over one blocker and one shared store: every read of the
  version, attempt, critical section, channel send and receive is one step of its own. The theorem
  is that no push is lost.
\<close>

section \<open>The blocker\<close>

record blocker =
  bl_seq :: "64 word"
  bl_chans :: "nat list"

definition newBlocker :: blocker where
  "newBlocker = \<lparr>bl_seq = 0, bl_chans = []\<rparr>"

definition version :: "blocker \<Rightarrow> 64 word" where
  "version b = bl_seq b"

text \<open>The first critical section of \<open>sleepSince\<close>: \<open>None\<close> when the version has moved, otherwise the fresh
  channel \<open>ch\<close> is registered.\<close>

definition sleepEnter :: "64 word \<Rightarrow> nat \<Rightarrow> blocker \<Rightarrow> blocker option" where
  "sleepEnter since ch b =
     (if bl_seq b \<noteq> since then None else Some (b\<lparr>bl_chans := bl_chans b @ [ch]\<rparr>))"

text \<open>Its second one, after a timeout.\<close>

definition sleepLeave :: "nat \<Rightarrow> blocker \<Rightarrow> blocker" where
  "sleepLeave ch b = b\<lparr>bl_chans := remove1 ch (bl_chans b)\<rparr>"

definition notify :: "blocker \<Rightarrow> nat list \<times> blocker" where
  "notify b = (bl_chans b, b\<lparr>bl_seq := bl_seq b + 1, bl_chans := []\<rparr>)"

definition blockedLen :: "blocker \<Rightarrow> nat" where
  "blockedLen b = length (bl_chans b)"

text \<open>The blocker of a store.\<close>

definition blockerOf :: "'e Store \<Rightarrow> blocker" where
  "blockerOf s = \<lparr>bl_seq = s_blockSeq s, bl_chans = s_blockChans s\<rparr>"

lemma notify_store: "blockerOf (notifyListChanged s) = snd (notify (blockerOf s))"
  by (simp add: blockerOf_def notifyListChanged_def notify_def)

section \<open>Commands over one blocker\<close>

text \<open>Where a command stands. \<open>Check v\<close> is the attempt after version \<open>v\<close> was read. The commands of the
  form of \<open>XREADGROUP\<close> try first and read the version afterwards (\<open>TryFirst\<close>, \<open>LateVersion\<close>).\<close>

datatype 'r pc =
    Version | Check "64 word" | TryFirst | LateVersion | Sleep "64 word" | Parked nat | TimedOut nat
  | Notify 'r | Send "nat list" 'r | Done 'r

datatype wait = NoBlock | Forever | Timed

text \<open>An attempt serves the command or finds nothing. A served command whose writes must wake others
  notifies; a command that never waits is one whose attempt always serves.\<close>

record ('d, 'r) thread =
  th_attempt :: "'d \<Rightarrow> ('r \<times> bool) option \<times> 'd"
  th_wait :: wait
  th_late :: bool
  th_null :: 'r
  th_pc :: "'r pc"

record ('d, 'r) bstate =
  bs_data :: 'd
  bs_blocker :: blocker
  bs_full :: "nat set"
  bs_next :: nat
  bs_threads :: "('d, 'r) thread list"

definition at :: "('d, 'r) bstate \<Rightarrow> nat \<Rightarrow> 'r pc \<Rightarrow> bool" where
  "at s i p \<longleftrightarrow> i < length (bs_threads s) \<and> th_pc (bs_threads s ! i) = p"

definition goto :: "nat \<Rightarrow> 'r pc \<Rightarrow> ('d, 'r) bstate \<Rightarrow> ('d, 'r) bstate" where
  "goto i p s = s\<lparr>bs_threads := (bs_threads s)[i := (bs_threads s ! i)\<lparr>th_pc := p\<rparr>]\<rparr>"

definition start :: "('d, 'r) thread \<Rightarrow> 'r pc" where
  "start t = (if th_late t then TryFirst else Version)"

definition served :: "'r \<times> bool \<Rightarrow> 'r pc" where
  "served rn = (if snd rn then Notify (fst rn) else Done (fst rn))"

inductive blk_step :: "('d, 'r) bstate \<Rightarrow> ('d, 'r) bstate \<Rightarrow> bool" where
  read_version:
    "at s i Version \<Longrightarrow> blk_step s (goto i (Check (version (bs_blocker s))) s)"
| serve:
    "\<lbrakk>at s i (Check v) \<or> at s i TryFirst; th_attempt (bs_threads s ! i) (bs_data s) = (Some rn, d)\<rbrakk>
     \<Longrightarrow> blk_step s (goto i (served rn) (s\<lparr>bs_data := d\<rparr>))"
| empty:
    "\<lbrakk>at s i (Check v); th_attempt (bs_threads s ! i) (bs_data s) = (None, d)\<rbrakk>
     \<Longrightarrow> blk_step s (goto i (Sleep v) (s\<lparr>bs_data := d\<rparr>))"
| empty_late:
    "\<lbrakk>at s i TryFirst; th_attempt (bs_threads s ! i) (bs_data s) = (None, d)\<rbrakk>
     \<Longrightarrow> blk_step s (goto i LateVersion (s\<lparr>bs_data := d\<rparr>))"
| late_version:
    "at s i LateVersion \<Longrightarrow> blk_step s (goto i (Sleep (version (bs_blocker s))) s)"
| give_up:
    "\<lbrakk>at s i (Sleep v); th_wait (bs_threads s ! i) \<noteq> Forever\<rbrakk>
     \<Longrightarrow> blk_step s (goto i (Done (th_null (bs_threads s ! i))) s)"
| moved:
    "\<lbrakk>at s i (Sleep v); th_wait (bs_threads s ! i) \<noteq> NoBlock; sleepEnter v (bs_next s) (bs_blocker s) = None\<rbrakk>
     \<Longrightarrow> blk_step s (goto i (start (bs_threads s ! i)) s)"
| park:
    "\<lbrakk>at s i (Sleep v); th_wait (bs_threads s ! i) \<noteq> NoBlock; sleepEnter v (bs_next s) (bs_blocker s) = Some b\<rbrakk>
     \<Longrightarrow> blk_step s (goto i (Parked (bs_next s)) (s\<lparr>bs_blocker := b, bs_next := Suc (bs_next s)\<rparr>))"
| woken:
    "\<lbrakk>at s i (Parked c); c \<in> bs_full s\<rbrakk>
     \<Longrightarrow> blk_step s (goto i (start (bs_threads s ! i)) (s\<lparr>bs_full := bs_full s - {c}\<rparr>))"
| timeout:
    "\<lbrakk>at s i (Parked c); th_wait (bs_threads s ! i) = Timed\<rbrakk> \<Longrightarrow> blk_step s (goto i (TimedOut c) s)"
| leave:
    "at s i (TimedOut c)
     \<Longrightarrow> blk_step s (goto i (Done (th_null (bs_threads s ! i))) (s\<lparr>bs_blocker := sleepLeave c (bs_blocker s)\<rparr>))"
| bump:
    "\<lbrakk>at s i (Notify r); notify (bs_blocker s) = (chs, b)\<rbrakk>
     \<Longrightarrow> blk_step s (goto i (Send chs r) (s\<lparr>bs_blocker := b\<rparr>))"
| send:
    "at s i (Send (c # cs) r) \<Longrightarrow> blk_step s (goto i (Send cs r) (s\<lparr>bs_full := insert c (bs_full s)\<rparr>))"
| sent:
    "at s i (Send [] r) \<Longrightarrow> blk_step s (goto i (Done r) s)"

definition blkInit :: "'d \<Rightarrow> ('d, 'r) thread list \<Rightarrow> ('d, 'r) bstate" where
  "blkInit d ts = \<lparr>bs_data = d, bs_blocker = newBlocker, bs_full = {}, bs_next = 0,
     bs_threads = map (\<lambda>t. t\<lparr>th_pc := start t\<rparr>) ts\<rparr>"

text \<open>What the commands promise: an attempt after which another command could be served, and before
  which it could not, notifies.\<close>

definition ready :: "('d, 'r) thread \<Rightarrow> 'd \<Rightarrow> bool" where
  "ready t d \<longleftrightarrow> fst (th_attempt t d) \<noteq> None"

definition wakes_all :: "('d, 'r) thread list \<Rightarrow> bool" where
  "wakes_all ts \<longleftrightarrow>
     (\<forall>t\<in>set ts. \<forall>u\<in>set ts. \<forall>d. ready u (snd (th_attempt t d)) \<and> \<not> ready u d
        \<longrightarrow> (\<exists>r. fst (th_attempt t d) = Some (r, True)))"

section \<open>The invariant\<close>

lemma at_less: "at s i p \<Longrightarrow> i < length (bs_threads s)"
  by (simp add: at_def)

lemma at_inj: "at s i p \<Longrightarrow> at s i q \<Longrightarrow> p = q"
  by (simp add: at_def)

lemma at_goto [simp]: "at (goto i p s) j q \<longleftrightarrow> (if j = i then i < length (bs_threads s) \<and> q = p else at s j q)"
  by (auto simp: at_def goto_def)

lemma at_upd [simp]:
  "at (s\<lparr>bs_data := d\<rparr>) j q = at s j q" "at (s\<lparr>bs_blocker := b\<rparr>) j q = at s j q"
  "at (s\<lparr>bs_full := f\<rparr>) j q = at s j q" "at (s\<lparr>bs_next := n\<rparr>) j q = at s j q"
  by (simp_all add: at_def)

lemma goto_sel [simp]:
  "bs_data (goto i p s) = bs_data s" "bs_blocker (goto i p s) = bs_blocker s"
  "bs_full (goto i p s) = bs_full s" "bs_next (goto i p s) = bs_next s"
  "length (bs_threads (goto i p s)) = length (bs_threads s)"
  by (simp_all add: goto_def)

lemma goto_thread [simp]:
  "th_attempt (bs_threads (goto i p s) ! j) = th_attempt (bs_threads s ! j)"
  "th_wait (bs_threads (goto i p s) ! j) = th_wait (bs_threads s ! j)"
  "th_late (bs_threads (goto i p s) ! j) = th_late (bs_threads s ! j)"
  by (cases "i < length (bs_threads s)"; auto simp: goto_def nth_list_update list_update_beyond)+

lemma ready_goto [simp]: "ready (bs_threads (goto i p s) ! j) d = ready (bs_threads s ! j) d"
  by (simp add: ready_def)

text \<open>The channels a command waits on, and those it still has to send to.\<close>

fun pc_own :: "'r pc \<Rightarrow> nat set" where
  "pc_own (Parked c) = {c}"
| "pc_own (TimedOut c) = {c}"
| "pc_own _ = {}"

fun pc_send :: "'r pc \<Rightarrow> nat set" where
  "pc_send (Send cs r) = set cs"
| "pc_send _ = {}"

lemma pc_start_served [simp]:
  "pc_own (start t) = {}" "pc_send (start t) = {}" "pc_own (served rn) = {}" "pc_send (served rn) = {}"
  by (simp_all add: start_def served_def)

text \<open>Channels are allocated once and have one owner.\<close>

definition chan_inv :: "('d, 'r) bstate \<Rightarrow> bool" where
  "chan_inv s \<longleftrightarrow> bs_full s \<union> set (bl_chans (bs_blocker s)) \<subseteq> {..<bs_next s} \<and>
     (\<forall>i p. at s i p \<longrightarrow> pc_own p \<union> pc_send p \<subseteq> {..<bs_next s}) \<and>
     (\<forall>i j p q. at s i p \<and> at s j q \<and> i \<noteq> j \<longrightarrow> pc_own p \<inter> pc_own q = {})"

lemma chan_inv_goto:
  assumes "chan_inv s" "at s i q" "pc_own p \<subseteq> pc_own q" "pc_send p \<subseteq> {..<bs_next s}"
  shows "chan_inv (goto i p s)"
proof -
  have own: "pc_own p \<subseteq> {..<bs_next s}"
    using assms(1-3) unfolding chan_inv_def by blast
  have "pc_own p \<inter> pc_own r = {}" "pc_own r \<inter> pc_own p = {}" if "at s j r" "j \<noteq> i" for j r
  proof -
    have "pc_own q \<inter> pc_own r = {}" using assms(1,2) that unfolding chan_inv_def by blast
    then show "pc_own p \<inter> pc_own r = {}" "pc_own r \<inter> pc_own p = {}" using assms(3) by blast+
  qed
  then show ?thesis using assms(1,4) own
    unfolding chan_inv_def by (simp del: lessThan_iff) blast
qed

lemma chan_inv_step:
  assumes "blk_step s s'" and "chan_inv s"
  shows "chan_inv s'"
  using assms(1)
proof (cases rule: blk_step.cases)
  case (park i v b)
  let ?s = "s\<lparr>bs_blocker := b, bs_next := Suc (bs_next s)\<rparr>"
  have fresh: "bs_next s \<notin> pc_own p" if "at s j p" for j p
    using assms(2) that unfolding chan_inv_def by blast
  have "chan_inv ?s" using assms(2) park(4)
    unfolding chan_inv_def sleepEnter_def by (fastforce split: if_splits)
  then show ?thesis using fresh park(1) unfolding chan_inv_def by auto
next
  case (woken i c)
  have "chan_inv (s\<lparr>bs_full := bs_full s - {c}\<rparr>)"
    using assms(2) unfolding chan_inv_def by auto
  then show ?thesis unfolding woken(1) by (rule chan_inv_goto) (use woken in simp_all)
next
  case (leave i c)
  have "chan_inv (s\<lparr>bs_blocker := sleepLeave c (bs_blocker s)\<rparr>)"
    using assms(2) set_remove1_subset[of c "bl_chans (bs_blocker s)"] unfolding chan_inv_def sleepLeave_def by auto
  then show ?thesis unfolding leave(1) by (rule chan_inv_goto) (use leave in simp_all)
next
  case (bump i r chs b)
  have "chan_inv (s\<lparr>bs_blocker := b\<rparr>)" "set chs \<subseteq> {..<bs_next s}"
    using assms(2) bump(3) unfolding chan_inv_def notify_def by auto
  then show ?thesis unfolding bump(1) by (intro chan_inv_goto) (use bump in simp_all)
next
  case (send i c cs r)
  have b: "insert c (set cs) \<subseteq> {..<bs_next s}"
    using assms(2) send(2) unfolding chan_inv_def by force
  then have "chan_inv (s\<lparr>bs_full := insert c (bs_full s)\<rparr>)"
    using assms(2) unfolding chan_inv_def by auto
  then show ?thesis unfolding send(1) by (rule chan_inv_goto) (use send b in simp_all)
next
  case (serve i v rn d)
  have "chan_inv (s\<lparr>bs_data := d\<rparr>)" using assms(2) unfolding chan_inv_def by simp
  then show ?thesis unfolding serve(1) using serve(2) by (elim disjE; intro chan_inv_goto) simp_all
next
  case (empty i v d)
  have "chan_inv (s\<lparr>bs_data := d\<rparr>)" using assms(2) unfolding chan_inv_def by simp
  then show ?thesis unfolding empty(1) by (rule chan_inv_goto) (use empty in simp_all)
next
  case (empty_late i d)
  have "chan_inv (s\<lparr>bs_data := d\<rparr>)" using assms(2) unfolding chan_inv_def by simp
  then show ?thesis unfolding empty_late(1) by (rule chan_inv_goto) (use empty_late in simp_all)
qed (auto intro!: chan_inv_goto[OF assms(2)])

text \<open>A weight summed over the commands changes by the weight of the one that moves.\<close>

definition weight :: "('r pc \<Rightarrow> nat) \<Rightarrow> ('d, 'r) bstate \<Rightarrow> nat" where
  "weight f s = sum_list (map (\<lambda>t. f (th_pc t)) (bs_threads s))"

lemma weight_goto:
  assumes "at s i q"
  shows "weight f (goto i p s) + f q = weight f s + f p"
proof -
  have i: "i < length (bs_threads s)" "th_pc (bs_threads s ! i) = q" using assms by (auto simp: at_def)
  have "f q \<le> weight f s" unfolding weight_def
    using i by (intro member_le_sum_list) auto
  then show ?thesis using i
    by (simp add: weight_def goto_def map_update sum_list_update)
qed

lemma weight_upd [simp]:
  "weight f (s\<lparr>bs_data := d\<rparr>) = weight f s" "weight f (s\<lparr>bs_blocker := b\<rparr>) = weight f s"
  "weight f (s\<lparr>bs_full := fl\<rparr>) = weight f s" "weight f (s\<lparr>bs_next := n\<rparr>) = weight f s"
  by (simp_all add: weight_def)

text \<open>The commands that may still notify. Versions do not repeat as long as there are fewer than
  \<open>2\<^sup>64\<close> commands.\<close>

fun busy :: "'r pc \<Rightarrow> nat" where
  "busy (Send cs r) = 0"
| "busy (Done r) = 0"
| "busy _ = 1"

fun pc_seen :: "'r pc \<Rightarrow> 64 word set" where
  "pc_seen (Check v) = {v}"
| "pc_seen (Sleep v) = {v}"
| "pc_seen _ = {}"

lemma busy_start_served [simp]:
  "busy (start t) = 1" "busy (served rn) \<le> Suc 0" "pc_seen (start t) = {}" "pc_seen (served rn) = {}"
  by (simp_all add: start_def served_def)

definition seq_inv :: "nat \<Rightarrow> ('d, 'r) bstate \<Rightarrow> bool" where
  "seq_inv k s \<longleftrightarrow> bl_seq (bs_blocker s) = of_nat k \<and> k + weight busy s \<le> length (bs_threads s) \<and>
     (\<forall>i p. at s i p \<longrightarrow> pc_seen p \<subseteq> of_nat ` {..k})"

lemma seq_inv_goto:
  assumes "seq_inv k s" "at s i q" "busy p \<le> busy q" "pc_seen p \<subseteq> of_nat ` {..k}"
  shows "seq_inv k (goto i p s)"
  using assms weight_goto[OF assms(2), of busy p] unfolding seq_inv_def by auto

lemma seq_inv_upd [simp]:
  "seq_inv k (s\<lparr>bs_data := d\<rparr>) = seq_inv k s" "seq_inv k (s\<lparr>bs_full := fl\<rparr>) = seq_inv k s"
  "seq_inv k (s\<lparr>bs_next := n\<rparr>) = seq_inv k s"
  "bl_seq b = bl_seq (bs_blocker s) \<Longrightarrow> seq_inv k (s\<lparr>bs_blocker := b\<rparr>) = seq_inv k s"
  by (simp_all add: seq_inv_def)

lemma seq_inv_step:
  assumes "blk_step s s'" "seq_inv k s"
  shows "\<exists>k'. seq_inv k' s'"
proof -
  have now: "version (bs_blocker s) \<in> of_nat ` {..k}" using assms(2) by (auto simp: seq_inv_def version_def)
  from assms(1) show ?thesis
  proof (cases rule: blk_step.cases)
    case (bump i r chs b)
    have "seq_inv (Suc k) (goto i (Send chs r) (s\<lparr>bs_blocker := b\<rparr>))"
      using assms(2) bump(3) weight_goto[of "s\<lparr>bs_blocker := b\<rparr>" i "Notify r" busy "Send chs r"] bump(2)
      unfolding seq_inv_def notify_def by (force simp: algebra_simps atMost_Suc)
    then show ?thesis using bump(1) by blast
  next
    case (empty i v d)
    then have "pc_seen (Sleep v) \<subseteq> of_nat ` {..k}" using assms(2) unfolding seq_inv_def by fastforce
    then have "seq_inv k s'" unfolding empty(1) using assms(2) empty(2) by (intro seq_inv_goto) auto
    then show ?thesis ..
  next
    case (serve i v rn d)
    then have "seq_inv k s'" unfolding serve(1) using assms(2) serve(2)
      by (elim disjE; intro seq_inv_goto) auto
    then show ?thesis ..
  next
    case (park i v b)
    then have "seq_inv k s'" unfolding park(1) using assms(2)
      by (intro seq_inv_goto) (auto simp: sleepEnter_def split: if_splits)
    then show ?thesis ..
  next
    case (leave i c)
    then have "seq_inv k s'" unfolding leave(1) using assms(2)
      by (intro seq_inv_goto) (auto simp: sleepLeave_def)
    then show ?thesis ..
  qed (use assms(2) now in \<open>auto intro!: exI[of _ k] seq_inv_goto\<close>)
qed

text \<open>A sleeper that could be served has a notification on its way.\<close>

definition notifying :: "('d, 'r) bstate \<Rightarrow> bool" where
  "notifying s \<longleftrightarrow> (\<exists>i r. at s i (Notify r))"

definition reached :: "('d, 'r) bstate \<Rightarrow> nat \<Rightarrow> bool" where
  "reached s c \<longleftrightarrow> c \<in> bs_full s \<or> (\<exists>i p. at s i p \<and> c \<in> pc_send p)"

definition asleep_ok :: "('d, 'r) bstate \<Rightarrow> nat \<Rightarrow> 'r pc \<Rightarrow> bool" where
  "asleep_ok s j p \<longleftrightarrow>
     (case p of
        Sleep v \<Rightarrow> v = bl_seq (bs_blocker s) \<and> ready (bs_threads s ! j) (bs_data s) \<longrightarrow> notifying s
      | Parked c \<Rightarrow> reached s c \<or>
          (c \<in> set (bl_chans (bs_blocker s)) \<and> (ready (bs_threads s ! j) (bs_data s) \<longrightarrow> notifying s))
      | TryFirst \<Rightarrow> False | LateVersion \<Rightarrow> False
      | _ \<Rightarrow> True)"

definition wake_inv :: "('d, 'r) bstate \<Rightarrow> bool" where
  "wake_inv s \<longleftrightarrow> (\<forall>j p. at s j p \<longrightarrow> asleep_ok s j p \<and> \<not> th_late (bs_threads s ! j))"

text \<open>What the step of one command may change for the others.\<close>

lemma asleep_mono:
  assumes "asleep_ok s j p" and "at s j p"
    and "bl_seq (bs_blocker s') = bl_seq (bs_blocker s)"
    and "notifying s \<Longrightarrow> notifying s'"
    and "th_attempt (bs_threads s' ! j) = th_attempt (bs_threads s ! j)"
    and "ready (bs_threads s ! j) (bs_data s') \<Longrightarrow> \<not> ready (bs_threads s ! j) (bs_data s) \<Longrightarrow> notifying s'"
    and "\<And>c. p = Parked c \<Longrightarrow> reached s c \<Longrightarrow> reached s' c"
    and "\<And>c. p = Parked c \<Longrightarrow> c \<in> set (bl_chans (bs_blocker s)) \<Longrightarrow> c \<in> set (bl_chans (bs_blocker s'))"
  shows "asleep_ok s' j p"
  using assms by (cases p) (auto simp: asleep_ok_def ready_def)

lemma notifying_other:
  assumes "notifying s" "at s i q" "\<And>r. q \<noteq> Notify r" "\<And>j r. at u j r = at s j r"
  shows "notifying (goto i p u)"
proof -
  obtain j r where "at s j (Notify r)" using assms(1) unfolding notifying_def by blast
  moreover from this have "j \<noteq> i" using assms(2,3) at_inj by blast
  ultimately have "at (goto i p u) j (Notify r)" using assms(4) by simp
  then show ?thesis unfolding notifying_def by blast
qed

lemma reached_other:
  assumes "reached s c" "at s i q" "c \<notin> pc_send q" "c \<in> bs_full s \<Longrightarrow> c \<in> bs_full u" "\<And>j r. at u j r = at s j r"
  shows "reached (goto i p u) c"
proof (cases "c \<in> bs_full s")
  case False
  then obtain j r where j: "at s j r" "c \<in> pc_send r" using assms(1) unfolding reached_def by blast
  then have "j \<noteq> i" using assms(2,3) at_inj by blast
  then have "at (goto i p u) j r" using j(1) assms(5) by simp
  then show ?thesis using j(2) unfolding reached_def by blast
qed (use assms(4) in \<open>simp add: reached_def\<close>)

text \<open>The step of command \<open>i\<close>, from position \<open>q\<close> to \<open>p\<close>.\<close>

lemma wake_inv_goto:
  assumes inv: "wake_inv s" and q: "at s i q" "\<And>r. q = Notify r \<Longrightarrow> False"
    and same: "bs_threads u = bs_threads s" "bl_seq (bs_blocker u) = bl_seq (bs_blocker s)"
    and new: "asleep_ok (goto i p u) i p"
    and data: "\<And>j. j \<noteq> i \<Longrightarrow> j < length (bs_threads s) \<Longrightarrow> ready (bs_threads s ! j) (bs_data u)
        \<Longrightarrow> \<not> ready (bs_threads s ! j) (bs_data s) \<Longrightarrow> \<exists>r. p = Notify r"
    and kept: "\<And>j c. j \<noteq> i \<Longrightarrow> at s j (Parked c) \<Longrightarrow> c \<in> set (bl_chans (bs_blocker s)) \<Longrightarrow> c \<in> set (bl_chans (bs_blocker u))"
    and full: "\<And>j c. j \<noteq> i \<Longrightarrow> at s j (Parked c) \<Longrightarrow> c \<in> bs_full s \<or> c \<in> pc_send q \<Longrightarrow> c \<in> bs_full u \<or> c \<in> pc_send p"
  shows "wake_inv (goto i p u)"
proof -
  have at_u: "at u j r = at s j r" for j r using same(1) by (simp add: at_def)
  have i: "i < length (bs_threads u)" using q(1) same(1) by (simp add: at_def)
  have notif: "notifying (goto i p u)" if "notifying s"
    using notifying_other[OF that q(1)] q(2) at_u by blast
  have notif_p: "notifying (goto i p u)" if "p = Notify r" for r
    using that i unfolding notifying_def at_goto by metis
  have ok: "asleep_ok (goto i p u) j r" if j: "j \<noteq> i" "at s j r" for j r
  proof (rule asleep_mono[of s])
    show "asleep_ok s j r" using inv j unfolding wake_inv_def by blast
    show "notifying (goto i p u)"
      if "ready (bs_threads s ! j) (bs_data (goto i p u))" "\<not> ready (bs_threads s ! j) (bs_data s)"
      using data[of j] that j(1) at_less[OF j(2)] notif_p by auto
    show "reached (goto i p u) c" if r: "r = Parked c" "reached s c" for c
    proof (cases "c \<in> bs_full s \<or> c \<in> pc_send q")
      case True
      then have "c \<in> bs_full u \<or> c \<in> pc_send p" using full[of j c] j r(1) by simp
      then show ?thesis using i unfolding reached_def at_goto by auto
    next
      case False
      then show ?thesis using reached_other[OF r(2) q(1), of u p] at_u by blast
    qed
  qed (use j notif same kept in auto)
  show ?thesis using ok new inv q(1) same(1) unfolding wake_inv_def at_goto at_u
    by (auto simp: at_def)
qed

lemma wakes_attempt:
  assumes "wakes_all (bs_threads s)" "i < length (bs_threads s)" "j < length (bs_threads s)"
    and "th_attempt (bs_threads s ! i) (bs_data s) = (res, d)"
    and "ready (bs_threads s ! j) d" "\<not> ready (bs_threads s ! j) (bs_data s)"
  shows "\<exists>r. res = Some (r, True)"
  using assms unfolding wakes_all_def by (metis fst_conv nth_mem snd_conv)

lemma asleep_ok_simps [simp]:
  "asleep_ok s j Version" "asleep_ok s j (Check v)" "asleep_ok s j (TimedOut c)" "asleep_ok s j (Notify r)"
  "asleep_ok s j (Send cs r)" "asleep_ok s j (Done r)" "asleep_ok s j (served rn)"
  "\<not> th_late t \<Longrightarrow> asleep_ok s j (start t)"
  by (simp_all add: asleep_ok_def served_def start_def)

lemma other_chan:
  assumes "chan_inv s" "at s i p" "at s j (Parked c)" "j \<noteq> i"
  shows "c \<notin> pc_own p"
  using assms unfolding chan_inv_def by (metis IntI empty_iff insertI1 pc_own.simps(1))

text \<open>The bump of the version reaches every sleeper, and no version read before equals the new one.\<close>

lemma wake_inv_bump:
  assumes inv: "wake_inv s" "seq_inv k s" "length (bs_threads s) < 2 ^ 64"
    and i: "at s i (Notify r)" and n: "notify (bs_blocker s) = (chs, b)"
  shows "wake_inv (goto i (Send chs r) (s\<lparr>bs_blocker := b\<rparr>))"
proof -
  let ?s = "goto i (Send chs r) (s\<lparr>bs_blocker := b\<rparr>)"
  have b: "chs = bl_chans (bs_blocker s)" "bl_seq b = of_nat (Suc k)"
    using n inv(2) by (auto simp: notify_def seq_inv_def)
  have "1 \<le> weight busy s" using weight_goto[OF i, of busy "Done r"] by simp
  then have k: "Suc k < 2 ^ 64" using inv(2,3) by (simp add: seq_inv_def)
  have fresh: "v \<noteq> bl_seq b" if sl: "at s j (Sleep v)" for j v
  proof -
    have "v \<in> of_nat ` {..k}" using inv(2) sl unfolding seq_inv_def by force
    then obtain m where "m \<le> k" "v = of_nat m" by auto
    with k b(2) show ?thesis
      using word_of_nat_eq_iff[of m "Suc k", where 'a = 64] by (simp add: take_bit_nat_eq_self)
  qed
  have "asleep_ok ?s j p" if j: "j \<noteq> i" "at s j p" for j p
  proof -
    have ok: "asleep_ok s j p" using inv(1) j(2) by (auto simp: wake_inv_def)
    have reach: "reached ?s c" if c: "reached s c \<or> c \<in> set (bl_chans (bs_blocker s))" for c
    proof (cases "c \<in> set chs")
      case True
      then show ?thesis using at_less[OF i] unfolding reached_def at_goto by fastforce
    next
      case False
      then have "reached s c" using c b(1) by simp
      then show ?thesis using i by (intro reached_other[of s c i "Notify r"]) auto
    qed
    show ?thesis
      using ok reach fresh[of j] j by (cases p) (auto simp: asleep_ok_def)
  qed
  then show ?thesis using inv(1) at_less[OF i] i unfolding wake_inv_def at_goto by auto
qed

lemma wake_inv_early: "wake_inv s \<Longrightarrow> \<not> at s i TryFirst \<and> \<not> at s i LateVersion"
  unfolding wake_inv_def asleep_ok_def by fastforce

lemma wake_inv_step:
  assumes step: "blk_step s s'" and inv: "wake_inv s" "chan_inv s" "seq_inv k s"
    and wakes: "wakes_all (bs_threads s)" and few: "length (bs_threads s) < 2 ^ 64"
  shows "wake_inv s'"
  using step
proof (cases rule: blk_step.cases)
  case (read_version i)
  show ?thesis unfolding read_version(1) by (rule wake_inv_goto[OF inv(1) read_version(2)]) simp_all
next
  case (serve i v rn d)
  have "\<not> at s i TryFirst" using wake_inv_early[OF inv(1)] by blast
  then have i: "at s i (Check v)" using serve(2) by blast
  have "snd rn" if "j < length (bs_threads s)" "ready (bs_threads s ! j) d" "\<not> ready (bs_threads s ! j) (bs_data s)" for j
    using wakes_attempt[OF wakes at_less[OF i] that(1) serve(3) that(2,3)] by auto
  then show ?thesis unfolding serve(1) by (intro wake_inv_goto[OF inv(1) i]) (auto simp: served_def)
next
  case (empty i v d)
  note att = wakes_attempt[OF wakes at_less[OF empty(2)] _ empty(3)]
  have "\<not> ready (bs_threads s ! i) d"
    using att[of i] at_less[OF empty(2)] empty(3) by (auto simp: ready_def)
  then show ?thesis unfolding empty(1)
    by (intro wake_inv_goto[OF inv(1) empty(2)]) (use att in \<open>auto simp: asleep_ok_def\<close>)
next
  case (empty_late i d)
  then show ?thesis using wake_inv_early[OF inv(1)] by blast
next
  case (late_version i)
  then show ?thesis using wake_inv_early[OF inv(1)] by blast
next
  case (give_up i v)
  show ?thesis unfolding give_up(1) by (rule wake_inv_goto[OF inv(1) give_up(2)]) simp_all
next
  case (moved i v)
  then have "\<not> th_late (bs_threads s ! i)" using inv(1) by (auto simp: wake_inv_def)
  then show ?thesis unfolding moved(1) by (intro wake_inv_goto[OF inv(1) moved(2)]) simp_all
next
  case (park i v b)
  have v: "v = bl_seq (bs_blocker s)" and b: "bl_chans b = bl_chans (bs_blocker s) @ [bs_next s]" "bl_seq b = bl_seq (bs_blocker s)"
    using park(4) by (auto simp: sleepEnter_def split: if_splits)
  have "asleep_ok s i (Sleep v)" using inv(1) park(2) by (auto simp: wake_inv_def)
  then have "ready (bs_threads s ! i) (bs_data s) \<longrightarrow> notifying s" using v by (simp add: asleep_ok_def)
  moreover have "notifying (goto i (Parked (bs_next s)) (s\<lparr>bs_blocker := b, bs_next := Suc (bs_next s)\<rparr>))" if "notifying s"
    by (rule notifying_other[OF that park(2)]) simp_all
  ultimately show ?thesis unfolding park(1)
    by (intro wake_inv_goto[OF inv(1) park(2)]) (use b in \<open>auto simp: asleep_ok_def\<close>)
next
  case (woken i c)
  then have "\<not> th_late (bs_threads s ! i)" using inv(1) by (auto simp: wake_inv_def)
  then show ?thesis unfolding woken(1)
    by (intro wake_inv_goto[OF inv(1) woken(2)]) (use other_chan[OF inv(2) woken(2)] in auto)
next
  case (timeout i c)
  show ?thesis unfolding timeout(1) by (rule wake_inv_goto[OF inv(1) timeout(2)]) simp_all
next
  case (leave i c)
  show ?thesis unfolding leave(1)
    by (rule wake_inv_goto[OF inv(1) leave(2)])
      (use other_chan[OF inv(2) leave(2)] in \<open>auto simp: sleepLeave_def\<close>)
next
  case (bump i r chs b)
  show ?thesis unfolding bump(1) by (rule wake_inv_bump[OF inv(1,3) few bump(2,3)])
next
  case (send i c cs r)
  show ?thesis unfolding send(1) by (rule wake_inv_goto[OF inv(1) send(2)]) auto
next
  case (sent i r)
  show ?thesis unfolding sent(1) by (rule wake_inv_goto[OF inv(1) sent(2)]) simp_all
qed

lemma step_static:
  "blk_step s s' \<Longrightarrow> length (bs_threads s') = length (bs_threads s) \<and>
     (\<forall>j. th_attempt (bs_threads s' ! j) = th_attempt (bs_threads s ! j))"
  by (induction rule: blk_step.induct) simp_all

lemma wakes_all_step:
  assumes "blk_step s s'" "wakes_all (bs_threads s)"
  shows "wakes_all (bs_threads s')"
  using assms(2) step_static[OF assms(1)]
  unfolding wakes_all_def ready_def all_set_conv_all_nth by simp

definition blk_inv :: "('d, 'r) bstate \<Rightarrow> bool" where
  "blk_inv s \<longleftrightarrow> wake_inv s \<and> chan_inv s \<and> (\<exists>k. seq_inv k s) \<and> wakes_all (bs_threads s) \<and> length (bs_threads s) < 2 ^ 64"

lemma blk_inv_step: "blk_step s s' \<Longrightarrow> blk_inv s \<Longrightarrow> blk_inv s'"
  using wake_inv_step chan_inv_step seq_inv_step wakes_all_step step_static unfolding blk_inv_def by metis

section \<open>Termination\<close>

text \<open>The work left for a command until it is done or asleep with nothing on its way.\<close>

fun rank :: "('d, 'r) bstate \<Rightarrow> 'r pc \<Rightarrow> nat" where
  "rank s Version = 5"
| "rank s TryFirst = 5"
| "rank s LateVersion = 4"
| "rank s (Check v) = (if v = bl_seq (bs_blocker s) then 4 else 10)"
| "rank s (Sleep v) = (if v = bl_seq (bs_blocker s) then 3 else 9)"
| "rank s (Parked c) = (if reached s c then 8 else 2)"
| "rank s (TimedOut c) = 1"
| "rank s (Notify r) = 0"
| "rank s (Send cs r) = Suc (length cs)"
| "rank s (Done r) = 0"

lemma rank_start_served [simp]: "rank s (start t) = 5" "rank s (served rn) = 0"
  by (simp_all add: start_def served_def)

lemma weight_less:
  assumes "length (bs_threads s') = length (bs_threads s)" and i: "at s i q" "at s' i p" "f p < g q"
    and others: "\<And>j r. j \<noteq> i \<Longrightarrow> at s j r \<Longrightarrow> at s' j r \<and> f r \<le> g r"
  shows "weight f s' < weight g s"
proof -
  have w: "weight h u = (\<Sum>j<length (bs_threads u). h (th_pc (bs_threads u ! j)))" for h u
    by (simp add: weight_def sum_list_sum_nth atLeast0LessThan)
  have "f (th_pc (bs_threads s' ! j)) \<le> g (th_pc (bs_threads s ! j))" if "j < length (bs_threads s)" for j
    using others[of j] i that by (cases "j = i") (auto simp: at_def)
  moreover have "f (th_pc (bs_threads s' ! i)) < g (th_pc (bs_threads s ! i))" "i < length (bs_threads s)"
    using i by (auto simp: at_def)
  ultimately show ?thesis unfolding w assms(1) by (intro sum_strict_mono_ex1) auto
qed

lemma rank_goto:
  assumes i: "at s i q" and u: "bs_threads u = bs_threads s" "bl_seq (bs_blocker u) = bl_seq (bs_blocker s)"
    and less: "rank (goto i p u) p < rank s q"
    and reach: "bs_full u \<subseteq> bs_full s \<union> pc_send q" "pc_send p \<subseteq> pc_send q"
  shows "weight (rank (goto i p u)) (goto i p u) < weight (rank s) s"
proof (rule weight_less[where i = i and q = q and p = p])
  have at_u: "at u j r = at s j r" for j r using u by (simp add: at_def)
  then show "at (goto i p u) i p" using at_less[of u i q] i by simp
  have "reached s c" if "reached (goto i p u) c" for c
    using that i reach unfolding reached_def at_goto at_u goto_sel by (auto split: if_splits)
  then have "rank (goto i p u) r \<le> rank s r" for r
    using u by (cases r) auto
  then show "at (goto i p u) j r \<and> rank (goto i p u) r \<le> rank s r" if "j \<noteq> i" "at s j r" for j r
    using that at_u by simp
qed (use i less u in simp_all)

definition progress :: "('d, 'r) bstate \<Rightarrow> nat \<times> nat" where
  "progress s = (weight busy s, weight (rank s) s)"

lemma progress_busy:
  assumes "at u i q" "weight busy u = weight busy s" "busy q = 1" "busy p = 0"
  shows "(progress (goto i p u), progress s) \<in> less_than <*lex*> less_than"
  using weight_goto[OF assms(1), of busy p] assms by (simp add: progress_def)

lemma progress_rank:
  assumes "at s i q" "bs_threads u = bs_threads s" "bl_seq (bs_blocker u) = bl_seq (bs_blocker s)"
    "rank (goto i p u) p < rank s q" "bs_full u \<subseteq> bs_full s \<union> pc_send q" "pc_send p \<subseteq> pc_send q" "busy p \<le> busy q"
  shows "(progress (goto i p u), progress s) \<in> less_than <*lex*> less_than"
proof -
  have "at u i q" using assms(1,2) by (simp add: at_def)
  moreover have "weight busy u = weight busy s" using assms(2) by (simp add: weight_def)
  ultimately have "weight busy (goto i p u) \<le> weight busy s"
    using weight_goto[of u i q busy p] assms(7) by linarith
  then show ?thesis using rank_goto[OF assms(1-6)] by (auto simp: progress_def)
qed

lemma progress_step:
  assumes "blk_step s s'" "chan_inv s"
  shows "(progress s', progress s) \<in> less_than <*lex*> less_than"
  using assms(1)
proof (cases rule: blk_step.cases)
  case (park i v b)
  have "\<not> reached s (bs_next s)" using assms(2) unfolding chan_inv_def reached_def by blast
  then have "\<not> reached (goto i (Parked (bs_next s)) (s\<lparr>bs_blocker := b, bs_next := Suc (bs_next s)\<rparr>)) (bs_next s)"
    using park(2) unfolding reached_def at_goto by (auto split: if_splits)
  then show ?thesis unfolding park(1)
    by (intro progress_rank[OF park(2)]) (use park(4) in \<open>auto simp: sleepEnter_def split: if_splits\<close>)
next
  case (serve i v rn d)
  then show ?thesis unfolding serve(1)
  proof (elim disjE)
    assume "at s i (Check v)"
    then show "(progress (goto i (served rn) (s\<lparr>bs_data := d\<rparr>)), progress s) \<in> less_than <*lex*> less_than"
      by (rule progress_rank) simp_all
  next
    assume "at s i TryFirst"
    then show "(progress (goto i (served rn) (s\<lparr>bs_data := d\<rparr>)), progress s) \<in> less_than <*lex*> less_than"
      by (rule progress_rank) simp_all
  qed
next
  case (woken i c)
  have "reached s c" using woken(3) by (simp add: reached_def)
  then show ?thesis unfolding woken(1) by (intro progress_rank[OF woken(2)]) auto
next
  case (give_up i v)
  show ?thesis unfolding give_up(1) by (rule progress_busy[OF give_up(2)]) simp_all
next
  case (leave i c)
  show ?thesis unfolding leave(1) by (rule progress_busy[of _ i "TimedOut c"]) (use leave(2) in simp_all)
next
  case (bump i r chs b)
  show ?thesis unfolding bump(1) by (rule progress_busy[of _ i "Notify r"]) (use bump(2) in simp_all)
next
  case (moved i v)
  then show ?thesis unfolding moved(1) by (intro progress_rank[OF moved(2)]) (auto simp: sleepEnter_def split: if_splits)
qed (auto intro!: progress_rank simp: version_def)

section \<open>No push is lost\<close>

lemma at_blkInit: "at (blkInit d ts) i p \<longleftrightarrow> i < length ts \<and> p = start (ts ! i)"
  by (auto simp: at_def blkInit_def)

lemma blk_inv_init:
  assumes "wakes_all ts" "\<forall>t\<in>set ts. \<not> th_late t" "length ts < 2 ^ 64"
  shows "blk_inv (blkInit d ts)"
proof -
  have late: "\<not> th_late (ts ! i)" if "i < length ts" for i using assms(2) that by simp
  have "weight busy (blkInit d ts) = length ts"
    by (simp add: weight_def blkInit_def o_def sum_list_triv)
  then have "seq_inv 0 (blkInit d ts)"
    unfolding seq_inv_def at_blkInit by (auto simp: blkInit_def newBlocker_def)
  moreover have "chan_inv (blkInit d ts)"
    unfolding chan_inv_def at_blkInit by (auto simp: blkInit_def newBlocker_def)
  moreover have "wake_inv (blkInit d ts)"
    unfolding wake_inv_def at_blkInit using late by (auto simp: blkInit_def)
  moreover have "wakes_all (bs_threads (blkInit d ts))"
    using assms(1) by (auto simp: wakes_all_def ready_def blkInit_def)
  ultimately show ?thesis using assms(3) unfolding blk_inv_def by (auto simp: blkInit_def)
qed

lemma blk_inv_reach: "blk_step\<^sup>*\<^sup>* s s' \<Longrightarrow> blk_inv s \<Longrightarrow> blk_inv s'"
  by (induction rule: rtranclp_induct) (auto intro: blk_inv_step)

text \<open>A command that cannot move is done or asleep, with no wakeup on its way.\<close>

lemma stuck_pc:
  assumes "\<forall>s'. \<not> blk_step s s'" and "at s i p"
  shows "(\<exists>r. p = Done r) \<or> (\<exists>c. p = Parked c \<and> c \<notin> bs_full s \<and> th_wait (bs_threads s ! i) \<noteq> Timed)"
proof (cases p)
  case (Check v)
  then show ?thesis using assms blk_step.serve blk_step.empty by (metis old.prod.exhaust option.exhaust)
next
  case TryFirst
  then show ?thesis using assms blk_step.serve blk_step.empty_late by (metis old.prod.exhaust option.exhaust)
next
  case (Sleep v)
  then show ?thesis using assms blk_step.give_up blk_step.moved blk_step.park
    by (metis option.exhaust wait.distinct(1))
next
  case (Send cs r)
  then show ?thesis using assms by (cases cs) (auto dest: blk_step.send blk_step.sent)
next
  case (Notify r)
  then show ?thesis using assms blk_step.bump by (metis surj_pair)
qed (use assms blk_step.read_version blk_step.late_version blk_step.woken blk_step.timeout blk_step.leave in blast)+

lemma no_infinite_run:
  assumes "f 0 = s" "chan_inv s" "\<forall>n. blk_step (f n) (f (Suc n))"
  shows False
proof -
  have "chan_inv (f n)" for n
    by (induction n) (use assms chan_inv_step in auto)
  then have "(progress (f (Suc n)), progress (f n)) \<in> less_than <*lex*> less_than" for n
    using progress_step assms(3) by blast
  moreover have "wf (less_than <*lex*> less_than)" by auto
  ultimately show False using wf_no_infinite_down_chainE[of _ "\<lambda>n. progress (f n)"] by blast
qed


text \<open>A list with one waiter and one pusher. The waiter pops, the pusher appends and notifies.\<close>

definition popper :: "(nat list, nat option) thread" where
  "popper = \<lparr>th_attempt = (\<lambda>d. case d of [] \<Rightarrow> (None, []) | x # xs \<Rightarrow> (Some (Some x, False), xs)),
     th_wait = Forever, th_late = False, th_null = None, th_pc = Version\<rparr>"

definition pusher :: "nat \<Rightarrow> (nat list, nat option) thread" where
  "pusher x = \<lparr>th_attempt = (\<lambda>d. (Some (Some x, True), d @ [x])),
     th_wait = NoBlock, th_late = False, th_null = None, th_pc = Version\<rparr>"

lemma popper_pusher_wake: "wakes_all [popper, pusher x]"
  by (auto simp: wakes_all_def ready_def popper_def pusher_def split: list.splits)


text \<open>With the order of \<open>XREADGROUP\<close>, which looks at the data first and reads the version afterwards, a
  push in between is lost: the system comes to rest with the reader asleep beside its data.\<close>

definition lateRun :: "nat list \<Rightarrow> 64 word \<Rightarrow> nat list \<Rightarrow> nat option pc \<Rightarrow> nat option pc \<Rightarrow> (nat list, nat option) bstate" where
  "lateRun d sq chs p q = \<lparr>bs_data = d, bs_blocker = \<lparr>bl_seq = sq, bl_chans = chs\<rparr>, bs_full = {}, bs_next = length chs,
     bs_threads = [popper\<lparr>th_late := True, th_pc := p\<rparr>, (pusher 7)\<lparr>th_pc := q\<rparr>]\<rparr>"

lemma late_steps:
  "blk_step (lateRun [] 0 [] TryFirst q) (lateRun [] 0 [] LateVersion q)"
  "blk_step (lateRun [] 0 [] p Version) (lateRun [] 0 [] p (Check 0))"
  "blk_step (lateRun [] 0 [] p (Check 0)) (lateRun [7] 0 [] p (Notify (Some 7)))"
  "blk_step (lateRun [7] 0 [] p (Notify (Some 7))) (lateRun [7] 1 [] p (Send [] (Some 7)))"
  "blk_step (lateRun [7] 1 [] p (Send [] (Some 7))) (lateRun [7] 1 [] p (Done (Some 7)))"
  "blk_step (lateRun [7] 1 [] LateVersion q) (lateRun [7] 1 [] (Sleep 1) q)"
  "blk_step (lateRun [7] 1 [] (Sleep 1) q) (lateRun [7] 1 [0] (Parked 0) q)"
  using blk_step.empty_late[of "lateRun [] 0 [] TryFirst q" 0 "[]"]
    blk_step.read_version[of "lateRun [] 0 [] p Version" 1]
    blk_step.serve[of "lateRun [] 0 [] p (Check 0)" 1 0 "(Some 7, True)" "[7]"]
    blk_step.bump[of "lateRun [7] 0 [] p (Notify (Some 7))" 1 "Some 7" "[]" "\<lparr>bl_seq = 1, bl_chans = []\<rparr>"]
    blk_step.sent[of "lateRun [7] 1 [] p (Send [] (Some 7))" 1 "Some 7"]
    blk_step.late_version[of "lateRun [7] 1 [] LateVersion q" 0]
    blk_step.park[of "lateRun [7] 1 [] (Sleep 1) q" 0 1 "\<lparr>bl_seq = 1, bl_chans = [0]\<rparr>"]
  by (simp_all add: lateRun_def at_def goto_def popper_def pusher_def served_def version_def notify_def sleepEnter_def)

lemma late_stuck: "\<not> blk_step (lateRun [7] 1 [0] (Parked 0) (Done (Some 7))) s'"
proof
  assume "blk_step (lateRun [7] 1 [0] (Parked 0) (Done (Some 7))) s'"
  then show False
    by (cases rule: blk_step.cases)
      (auto simp: lateRun_def at_def popper_def pusher_def less_Suc_eq nth_Cons split: nat.splits)
qed

lemma late_version_loses_wakeup:
  "\<exists>s. blk_step\<^sup>*\<^sup>* (blkInit [] [popper\<lparr>th_late := True\<rparr>, pusher 7]) s \<and> (\<forall>s'. \<not> blk_step s s') \<and>
     at s 0 (Parked 0) \<and> ready (bs_threads s ! 0) (bs_data s)"
proof (intro exI conjI)
  have init: "blkInit [] [popper\<lparr>th_late := True\<rparr>, pusher 7] = lateRun [] 0 [] TryFirst Version"
    by (simp add: blkInit_def lateRun_def newBlocker_def start_def popper_def pusher_def)
  let ?rest = "lateRun [7] 1 [0] (Parked 0) (Done (Some 7))"
  show "blk_step\<^sup>*\<^sup>* (blkInit [] [popper\<lparr>th_late := True\<rparr>, pusher 7]) ?rest"
    unfolding init
    using late_steps(1)[of Version] late_steps(2-5)[of LateVersion] late_steps(6,7)[of "Done (Some 7)"]
    by (meson converse_rtranclp_into_rtranclp rtranclp.rtrancl_refl)
  show "\<forall>s'. \<not> blk_step ?rest s'" using late_stuck by blast
  show "at ?rest 0 (Parked 0)" "ready (bs_threads ?rest ! 0) (bs_data ?rest)"
    by (simp_all add: lateRun_def at_def ready_def popper_def)
qed

end
