(* ===== verification/Waiting.thy ===== *)
theory Waiting
  imports Blocking Lists ZOps StreamCmds
begin

text \<open>
  The blocking commands: \<open>BLPOP\<close>, \<open>BRPOP\<close> and \<open>BRPOPLPUSH\<close> of \<open>blocking.go\<close>, \<open>LMOVE\<close>, \<open>BLMOVE\<close>, \<open>LMPOP\<close> and \<open>BLMPOP\<close>
  of \<open>cmd_completion.go\<close>, \<open>BZPOPMIN\<close>, \<open>BZPOPMAX\<close> and \<open>BZMPOP\<close> of \<open>cmd_zset2.go\<close>, and the waiting part of \<open>XREAD\<close>
  and \<open>XREADGROUP\<close>. Parsing its arguments gives a command the body of its loop, the reply it gives up
  with and its timeout; \<open>asThread\<close> is the command as a participant of \<open>Blocking\<close>, and the
  functions of the last part are the rows of the dispatch table, up to the first sleep.
\<close>

section \<open>Loops\<close>

text \<open>A timeout is in nanoseconds, \<open>None\<close> for a command that waits forever.\<close>

record 'e blocking =
  bk_attempt :: "'e Store \<Rightarrow> (goerr, reply list option, 'e Store) res"
  bk_timeout :: "int option"
  bk_late :: bool
  bk_null :: "reply list"

definition runNoBlock :: "'e blocking \<Rightarrow> 'e handler" where
  "runNoBlock b s =
     bindE (bk_attempt b s) (\<lambda>r s1. (Inr (case r of Some rs \<Rightarrow> rs | None \<Rightarrow> bk_null b), s1))"

text \<open>The command as a participant. The attempt writes and notifies in one go; it counts as notifying
  when it moved the version of the store.\<close>

definition attemptOf :: "('e Store \<Rightarrow> (goerr, reply list option, 'e Store) res) \<Rightarrow> 'e Store \<Rightarrow> ((goerr + reply list) \<times> bool) option \<times> 'e Store" where
  "attemptOf f s =
     (case f s of
        (Inl err, s1) \<Rightarrow> (Some (Inl err, s_blockSeq s1 \<noteq> s_blockSeq s), s1)
      | (Inr None, s1) \<Rightarrow> (None, s1)
      | (Inr (Some rs), s1) \<Rightarrow> (Some (Inr rs, s_blockSeq s1 \<noteq> s_blockSeq s), s1))"

definition asThread :: "'e blocking \<Rightarrow> ('e Store, goerr + reply list) thread" where
  "asThread b = \<lparr>th_attempt = attemptOf (bk_attempt b), th_wait = (if bk_timeout b = None then Forever else Timed),
     th_late = bk_late b, th_null = Inr (bk_null b), th_pc = Version\<rparr>"

definition nullArray :: "reply list" where "nullArray = [RArray (-1)]"

section \<open>Timeouts\<close>

definition parseBlockTimeout :: "bytes \<Rightarrow> goerr + f64" where
  "parseBlockTimeout b =
     (case parse_float b of
        None \<Rightarrow> Inl (ProtoError ''ERR timeout is not a float or out of range'')
      | Some secs \<Rightarrow>
          if f64_nan secs \<or> secs = f64_neginf then Inl (ProtoError ''ERR timeout is not a float or out of range'')
          else if secs = f64_posinf then Inl (ProtoError ''ERR timeout is out of range'')
          else if f64_scaled secs < 0 then Inl (ProtoError ''ERR timeout is negative'')
          else Inr secs)"

text \<open>\<open>time.Duration(secs * float64(time.Second))\<close>, which is defined while the product is below \<open>2\<^sup>63\<close>; a
  deadline is set only for a positive number of seconds.\<close>

definition secondsTimeout :: "f64 \<Rightarrow> int option" where
  "secondsTimeout secs = (if f64_scaled secs > 0 then Some (f64_trunc (f64_times secs (f64_of_int 1000000000))) else None)"

text \<open>\<open>BLMOVE\<close> converts before it multiplies.\<close>

definition wholeSecondsTimeout :: "f64 \<Rightarrow> int option" where
  "wholeSecondsTimeout secs = (if f64_scaled secs > 0 then Some (wrap64 (f64_trunc secs * 1000000000)) else None)"

definition blockFrom :: "int option \<Rightarrow> ('e Store \<Rightarrow> (goerr, reply list option, 'e Store) res) \<Rightarrow> 'e blocking" where
  "blockFrom tmo f = \<lparr>bk_attempt = f, bk_timeout = tmo, bk_late = False, bk_null = nullArray\<rparr>"

section \<open>Lists\<close>

fun popFirst :: "'e pebble \<Rightarrow> Env \<Rightarrow> dbid \<Rightarrow> bytes list \<Rightarrow> bool \<Rightarrow> 'e Store \<Rightarrow> (goerr, reply list option, 'e Store) res" where
  "popFirst P E db [] left s = (Inr None, s)"
| "popFirst P E db (k # ks) left s =
     bindE (listPop P E db k 1 left s) (\<lambda>out s1.
       if out = [] then popFirst P E db ks left s1
       else (Inr (Some [RArray 2, RBulk k, RBulk (out ! 0)]), s1))"

definition blockedPop :: "'e pebble \<Rightarrow> Env \<Rightarrow> dbid \<Rightarrow> bytes list \<Rightarrow> bool \<Rightarrow> goerr + 'e blocking" where
  "blockedPop P E db args left =
     (if length args < 2 then Inl (WrongArgs ''blpop'')
      else case parseBlockTimeout (last args) of
             Inl err \<Rightarrow> Inl err
           | Inr secs \<Rightarrow> Inr (blockFrom (secondsTimeout secs) (popFirst P E db (butlast args) left)))"

text \<open>\<open>RPOPLPUSH\<close> and \<open>LMOVE\<close>: pop, push, and, within one key, restore the deadline in the index.\<close>

definition rpoplpushOnce :: "'e pebble \<Rightarrow> Env \<Rightarrow> dbid \<Rightarrow> bytes \<Rightarrow> bytes \<Rightarrow> 'e Store \<Rightarrow> (goerr, reply list option, 'e Store) res" where
  "rpoplpushOnce P E db src dst s =
     bindE (listPop P E db src 1 False s) (\<lambda>out s1.
       if out = [] then (Inr None, s1)
       else bindE (listPush P E db dst [out ! 0] True False s1) (\<lambda>_ s2. (Inr (Some [RBulk (out ! 0)]), s2)))"

definition cmdBRPopLPush :: "'e pebble \<Rightarrow> Env \<Rightarrow> dbid \<Rightarrow> string \<Rightarrow> bytes list \<Rightarrow> 'e Store \<Rightarrow> (goerr, 'e blocking, 'e Store) res" where
  "cmdBRPopLPush P E db nm args s =
     withArity nm args 3 s
       (bindS (parseBlockTimeout (args ! 2)) s (\<lambda>secs.
          bindE (checkListDest P E db (args ! 1) s) (\<lambda>_ s1.
            (Inr (blockFrom (secondsTimeout secs) (rpoplpushOnce P E db (args ! 0) (args ! 1))), s1))))"

definition parseSide :: "bytes \<Rightarrow> goerr + bool" where
  "parseSide b =
     (if map to_upper b = ascii ''LEFT'' then Inr True
      else if map to_upper b = ascii ''RIGHT'' then Inr False else Inl ErrSyntax)"

definition listPopSide :: "'e pebble \<Rightarrow> Env \<Rightarrow> dbid \<Rightarrow> bytes \<Rightarrow> bool \<Rightarrow> 'e Store \<Rightarrow> (goerr, bytes option, 'e Store) res" where
  "listPopSide P E db key left s =
     bindE (listPop P E db key 1 left s) (\<lambda>out s1. (Inr (if out = [] then None else Some (out ! 0)), s1))"

definition lmoveOnce ::
  "'e pebble \<Rightarrow> Env \<Rightarrow> dbid \<Rightarrow> bytes \<Rightarrow> bytes \<Rightarrow> bool \<Rightarrow> bool \<Rightarrow> 'e Store \<Rightarrow> (goerr, reply list option, 'e Store) res" where
  "lmoveOnce P E db src dst srcLeft dstLeft s =
     (let (e, d) = (if src = dst then Lookup E db src (s_dict s) else (None, s_dict s));
          expireAt = (case e of None \<Rightarrow> 0 | Some en \<Rightarrow> e_expireAt en)
      in bindE (listPopSide P E db src srcLeft (s\<lparr>s_dict := d\<rparr>)) (\<lambda>r s1.
           case r of
             None \<Rightarrow> (Inr None, s1)
           | Some v \<Rightarrow>
               bindE (listPush P E db dst [v] dstLeft False s1) (\<lambda>_ s2.
                 (Inr (Some [RBulk v]),
                  if src = dst \<and> expireAt \<noteq> 0 then s2\<lparr>s_dict := snd (SetExpiry E db dst expireAt (s_dict s2))\<rparr> else s2))))"

definition lmoveCmd :: "'e pebble \<Rightarrow> Env \<Rightarrow> dbid \<Rightarrow> string \<Rightarrow> bytes list \<Rightarrow> bool \<Rightarrow> 'e Store \<Rightarrow> (goerr, 'e blocking, 'e Store) res" where
  "lmoveCmd P E db nm args block s =
     withArity nm args (if block then 5 else 4) s
       (bindS (if block then parseBlockTimeout (last args) else Inr 0) s (\<lambda>secs.
          bindE (checkListDest P E db (args ! 1) s) (\<lambda>_ s1.
            bindS (parseSide (args ! 2)) s1 (\<lambda>srcLeft.
              bindS (parseSide (args ! 3)) s1 (\<lambda>dstLeft.
                (Inr ((blockFrom (wholeSecondsTimeout secs) (lmoveOnce P E db (args ! 0) (args ! 1) srcLeft dstLeft))
                        \<lparr>bk_null := (if block then nullArray else [RNull])\<rparr>), s1))))))"

definition cmdLMove :: "'e pebble \<Rightarrow> Env \<Rightarrow> dbid \<Rightarrow> string \<Rightarrow> bytes list \<Rightarrow> 'e handler" where
  "cmdLMove P E db nm args s = bindE (lmoveCmd P E db nm args False s) runNoBlock"

function lmpopOpts :: "bytes list \<Rightarrow> bool \<Rightarrow> bool \<Rightarrow> int \<Rightarrow> goerr + (bool \<times> int)" where
  "lmpopOpts [] left found count = (if found then Inr (left, count) else Inl ErrSyntax)"
| "lmpopOpts (a # rest) left found count =
     (let u = map to_upper a in
      if u = ascii ''LEFT'' then lmpopOpts rest True True count
      else if u = ascii ''RIGHT'' then lmpopOpts rest False True count
      else if u = ascii ''COUNT'' then
        (case rest of [] \<Rightarrow> Inl ErrSyntax
         | v # rest' \<Rightarrow>
             (case toInt64 v of
                Inl err \<Rightarrow> Inl err
              | Inr n \<Rightarrow> if n \<le> 0 then Inl (ProtoError ''ERR COUNT must be > 0'') else lmpopOpts rest' left found n))
      else Inl ErrSyntax)"
  by pat_completeness auto
termination by (relation "measure (\<lambda>(args, left, found, count). length args)") auto

fun lmpopOnce :: "'e pebble \<Rightarrow> Env \<Rightarrow> dbid \<Rightarrow> bytes list \<Rightarrow> bool \<Rightarrow> int \<Rightarrow> 'e Store \<Rightarrow> (goerr, reply list option, 'e Store) res" where
  "lmpopOnce P E db [] left count s = (Inr None, s)"
| "lmpopOnce P E db (k # ks) left count s =
     bindE (loadAgg P E db k TypeList s) (\<lambda>a s1.
       if a_list a = [] then lmpopOnce P E db ks left count s1
       else bindE (listPop P E db k (nat count) left s1) (\<lambda>out s2.
              (Inr (Some ([RArray 2, RBulk k] @ replyArray out)), s2)))"

definition lmpopCmd :: "'e pebble \<Rightarrow> Env \<Rightarrow> dbid \<Rightarrow> bytes list \<Rightarrow> bool \<Rightarrow> goerr + 'e blocking" where
  "lmpopCmd P E db args block =
     (let nkPos = (if block then 1 else 0 :: nat) in
      if length args < nkPos + 2 then Inl (WrongArgs ''lmpop'')
      else case (if block then parseBlockTimeout (args ! 0) else Inr 0) of
             Inl err \<Rightarrow> Inl err
           | Inr secs \<Rightarrow>
               (case numKeys (args ! nkPos) (length args - nkPos - 1) of
                  Inl err \<Rightarrow> Inl err
                | Inr nk \<Rightarrow>
                    (case lmpopOpts (drop (nkPos + 1 + nk) args) True False 1 of
                       Inl err \<Rightarrow> Inl err
                     | Inr (left, count) \<Rightarrow>
                         Inr ((blockFrom (secondsTimeout secs) (lmpopOnce P E db (take nk (drop (nkPos + 1) args)) left count))
                                \<lparr>bk_null := (if block then nullArray else [RNull])\<rparr>))))"

definition cmdLMPop :: "'e pebble \<Rightarrow> Env \<Rightarrow> dbid \<Rightarrow> bytes list \<Rightarrow> 'e handler" where
  "cmdLMPop P E db args s = bindS (lmpopCmd P E db args False) s (\<lambda>b. runNoBlock b s)"

section \<open>Sorted sets\<close>

definition bzPopOnce :: "'e pebble \<Rightarrow> Env \<Rightarrow> dbid \<Rightarrow> bytes list \<Rightarrow> bool \<Rightarrow> 'e Store \<Rightarrow> (goerr, reply list option, 'e Store) res" where
  "bzPopOnce P E db keys mx s =
     bindE (zPopFromKeys P E db keys 1 mx s) (\<lambda>(key, items) s1.
       (Inr (if key = [] then None
             else Some [RArray 3, RBulk key, RBulk (m_member (items ! 0)), RBulk (formatFloat (m_score (items ! 0)))]), s1))"

definition bzPopCmd :: "'e pebble \<Rightarrow> Env \<Rightarrow> dbid \<Rightarrow> bytes list \<Rightarrow> bool \<Rightarrow> goerr + 'e blocking" where
  "bzPopCmd P E db args mx =
     (if length args < 2 then Inl (WrongArgs ''bzpopmin'')
      else case parseBlockTimeout (last args) of
             Inl err \<Rightarrow> Inl err
           | Inr secs \<Rightarrow> Inr (blockFrom (secondsTimeout secs) (bzPopOnce P E db (butlast args) mx)))"

definition bzmpopOnce :: "'e pebble \<Rightarrow> Env \<Rightarrow> dbid \<Rightarrow> bytes list \<Rightarrow> int \<Rightarrow> bool \<Rightarrow> 'e Store \<Rightarrow> (goerr, reply list option, 'e Store) res" where
  "bzmpopOnce P E db keys count mx s =
     bindE (zPopFromKeys P E db keys count mx s) (\<lambda>(key, items) s1.
       (Inr (if key = [] then None else Some (writeZPopReply key items)), s1))"

definition cmdBZMPop :: "'e pebble \<Rightarrow> Env \<Rightarrow> dbid \<Rightarrow> bytes list \<Rightarrow> goerr + 'e blocking" where
  "cmdBZMPop P E db args =
     (if length args < 3 then Inl (WrongArgs ''bzmpop'')
      else case toInt64 (args ! 0) of
             Inl err \<Rightarrow> Inl err
           | Inr secs \<Rightarrow>
               if secs < 0 then Inl (ProtoError ''ERR timeout is negative'')
               else (case numKeys (args ! 1) (length args - 2) of
                  Inl err \<Rightarrow> Inl err
                | Inr nk \<Rightarrow>
                    (case zmpopOpts (drop (2 + nk) args) False 1 of
                       Inl err \<Rightarrow> Inl err
                     | Inr (mx, count) \<Rightarrow>
                         Inr (blockFrom (if secs > 0 then Some (wrap64 (secs * 1000000000)) else None)
                                (bzmpopOnce P E db (take nk (drop 2 args)) count mx)))))"

section \<open>Streams\<close>

text \<open>\<open>XREAD\<close> waits only with \<open>BLOCK\<close>; the flag says whether it does. A timeout of zero is none.\<close>

definition millisTimeout :: "int \<Rightarrow> int option" where
  "millisTimeout ms = (if ms > 0 then Some (wrap64 (ms * 1000000)) else None)"

definition cmdXRead :: "'e pebble \<Rightarrow> dbid \<Rightarrow> bytes list \<Rightarrow> 'e Store \<Rightarrow> (goerr, 'e blocking \<times> bool, 'e Store) res" where
  "cmdXRead P db args s =
     (if length args < 3 then (Inl (WrongArgs ''xread''), s)
      else bindS (xreadOpts args 0 None) s (\<lambda>(count, block, rest).
        bindS (parseStreamsTail P db rest s) s (\<lambda>(keys, ids).
          (Inr (\<lparr>bk_attempt = (\<lambda>s. bindS (xReadOnce P db (zip keys ids) count s) s (\<lambda>r. (Inr r, s))),
                 bk_timeout = (case block of None \<Rightarrow> None | Some ms \<Rightarrow> millisTimeout ms),
                 bk_late = False, bk_null = [RNull]\<rparr>, block \<noteq> None), s))))"

text \<open>\<open>XREADGROUP\<close> looks at the data once before it reads the version, and after each wakeup before it reads
  the version again. \<open>Inl\<close> is the reply of the first look, \<open>Inr\<close> the loop behind it.\<close>

definition readNewOnce ::
  "'e pebble \<Rightarrow> Env \<Rightarrow> dbid \<Rightarrow> bytes list \<Rightarrow> bytes \<Rightarrow> bytes \<Rightarrow> int \<Rightarrow> 'e Store \<Rightarrow> (goerr, reply list option, 'e Store) res" where
  "readNewOnce P E db keys grp consumer count s =
     bindE (readNew P E db False keys grp consumer count s) (\<lambda>bs s1.
       (Inr (if bs = [] then None else Some (batchesReply bs)), s1))"

definition cmdXReadGroup ::
  "'e pebble \<Rightarrow> Env \<Rightarrow> dbid \<Rightarrow> bytes list \<Rightarrow> 'e Store \<Rightarrow> (goerr, reply list + 'e blocking, 'e Store) res" where
  "cmdXReadGroup P E db args s =
     bindE (cmdXReadGroupNow P E db args s) (\<lambda>(r, block) s1.
       case r of
         Some rs \<Rightarrow> (Inr (Inl rs), s1)
       | None \<Rightarrow>
           bindS (xreadOpts (drop 3 args) 0 None) s1 (\<lambda>(count, _, rest).
             bindS (parseStreamsTail P db rest s) s1 (\<lambda>(keys, _).
               (Inr (Inr \<lparr>bk_attempt = readNewOnce P E db keys (args ! 1) (args ! 2) count,
                          bk_timeout = (case block of None \<Rightarrow> None | Some ms \<Rightarrow> millisTimeout ms),
                          bk_late = True, bk_null = [RNull]\<rparr>), s1))))"

section \<open>Starting a command\<close>

text \<open>What the handler of a blocking command does before its loop: it replies (\<open>Inl\<close>), or is about to enter the loop
  (\<open>Inr\<close>). One function per row of the dispatch table.\<close>

type_synonym 'e waiting = "'e Store \<Rightarrow> (goerr, reply list + 'e blocking, 'e Store) res"

definition entering :: "goerr + 'e blocking \<Rightarrow> 'e waiting" where
  "entering r s = (case r of Inl err \<Rightarrow> (Inl err, s) | Inr b \<Rightarrow> (Inr (Inr b), s))"

definition cmdBLPop :: "'e pebble \<Rightarrow> Env \<Rightarrow> dbid \<Rightarrow> string \<Rightarrow> bytes list \<Rightarrow> 'e waiting" where
  "cmdBLPop P E db nm args = entering (blockedPop P E db args True)"

definition cmdBRPop :: "'e pebble \<Rightarrow> Env \<Rightarrow> dbid \<Rightarrow> string \<Rightarrow> bytes list \<Rightarrow> 'e waiting" where
  "cmdBRPop P E db nm args = entering (blockedPop P E db args False)"

definition startBRPopLPush :: "'e pebble \<Rightarrow> Env \<Rightarrow> dbid \<Rightarrow> string \<Rightarrow> bytes list \<Rightarrow> 'e waiting" where
  "startBRPopLPush P E db nm args s = bindE (cmdBRPopLPush P E db nm args s) (\<lambda>b s1. (Inr (Inr b), s1))"

definition cmdBLMove :: "'e pebble \<Rightarrow> Env \<Rightarrow> dbid \<Rightarrow> string \<Rightarrow> bytes list \<Rightarrow> 'e waiting" where
  "cmdBLMove P E db nm args s = bindE (lmoveCmd P E db nm args True s) (\<lambda>b s1. (Inr (Inr b), s1))"

definition cmdBLMPop :: "'e pebble \<Rightarrow> Env \<Rightarrow> dbid \<Rightarrow> string \<Rightarrow> bytes list \<Rightarrow> 'e waiting" where
  "cmdBLMPop P E db nm args = entering (lmpopCmd P E db args True)"

definition cmdBZPopMin :: "'e pebble \<Rightarrow> Env \<Rightarrow> dbid \<Rightarrow> string \<Rightarrow> bytes list \<Rightarrow> 'e waiting" where
  "cmdBZPopMin P E db nm args = entering (bzPopCmd P E db args False)"

definition cmdBZPopMax :: "'e pebble \<Rightarrow> Env \<Rightarrow> dbid \<Rightarrow> string \<Rightarrow> bytes list \<Rightarrow> 'e waiting" where
  "cmdBZPopMax P E db nm args = entering (bzPopCmd P E db args True)"

definition startBZMPop :: "'e pebble \<Rightarrow> Env \<Rightarrow> dbid \<Rightarrow> string \<Rightarrow> bytes list \<Rightarrow> 'e waiting" where
  "startBZMPop P E db nm args = entering (cmdBZMPop P E db args)"

text \<open>\<open>XREAD\<close> without \<open>BLOCK\<close> looks once.\<close>

definition startXRead :: "'e pebble \<Rightarrow> Env \<Rightarrow> dbid \<Rightarrow> string \<Rightarrow> bytes list \<Rightarrow> 'e waiting" where
  "startXRead P E db nm args s =
     bindE (cmdXRead P db args s) (\<lambda>(b, blocks) s1.
       if blocks then (Inr (Inr b), s1) else bindE (runNoBlock b s1) (\<lambda>rs s2. (Inr (Inl rs), s2)))"

definition startXReadGroup :: "'e pebble \<Rightarrow> Env \<Rightarrow> dbid \<Rightarrow> string \<Rightarrow> bytes list \<Rightarrow> 'e waiting" where
  "startXReadGroup P E db nm args = cmdXReadGroup P E db args"

text \<open>The first look of a command at the data, up to its first sleep: \<open>Inr (Some rs)\<close> is its reply, \<open>Inr None\<close> says
  that it would sleep. A late command has looked already.\<close>

definition firstLook :: "'e blocking \<Rightarrow> 'e Store \<Rightarrow> (goerr, reply list option, 'e Store) res" where
  "firstLook b s = (if bk_late b then (Inr None, s) else bk_attempt b s)"

text \<open>A timeout of \<open>BLMOVE\<close> below one second is cut to zero nanoseconds: the deadline has passed when the
  command first looks at it.\<close>

lemma blmove_fraction:
  "0 < f64_scaled secs \<Longrightarrow> f64_scaled secs < 2 ^ 1074 \<Longrightarrow> wholeSecondsTimeout secs = Some 0"
  by (simp add: wholeSecondsTimeout_def f64_trunc_def go_div_def wrap64_def)

end
