(* ===== verification/Completion.thy ===== *)
theory Completion
  imports Waiting Generic "HOL-Library.Sublist"
begin

text \<open>
  The rest of \<open>cmd_completion.go\<close>: \<open>LPOS\<close>, \<open>COPY\<close>, \<open>MOVE\<close>, \<open>SWAPDB\<close>, \<open>RANDOMKEY\<close>, \<open>EXPIRETIME\<close> and \<open>LCS\<close>. The table of
  \<open>LCS\<close> is the one the code fills, row by row from the ends of the strings, and the walk over it is the
  code's; the theorem says that together they find a longest common subsequence.
\<close>

section \<open>LPOS\<close>

record lposOpts =
  lp_rank :: int
  lp_count :: "int option"
  lp_maxLen :: int

definition rankZeroErr :: goerr where
  "rankZeroErr = ProtoError (''ERR RANK can'' @ [CHR 0x27] @ ''t be zero. Use 1 to start searching from the first, matching element in the head, or -1 to start searching from the tail.'')"

definition negativeErr :: "string \<Rightarrow> goerr" where
  "negativeErr nm = ProtoError (''ERR '' @ nm @ '' can'' @ [CHR 0x27] @ ''t be negative'')"

fun lposOptLoop :: "bytes list \<Rightarrow> lposOpts \<Rightarrow> goerr + lposOpts" where
  "lposOptLoop [] opt = Inr opt"
| "lposOptLoop [a] opt = Inl ErrSyntax"
| "lposOptLoop (a # b # rest) opt =
     (let u = map to_upper a in
      if u = ascii ''RANK'' then
        (case toInt64 b of
           Inl _ \<Rightarrow> Inl rankZeroErr
         | Inr v \<Rightarrow> if v = 0 then Inl rankZeroErr else lposOptLoop rest (opt\<lparr>lp_rank := v\<rparr>))
      else if u = ascii ''COUNT'' then
        (case toInt64 b of
           Inl err \<Rightarrow> Inl err
         | Inr v \<Rightarrow> if v < 0 then Inl (negativeErr ''COUNT'') else lposOptLoop rest (opt\<lparr>lp_count := Some v\<rparr>))
      else if u = ascii ''MAXLEN'' then
        (case toInt64 b of
           Inl _ \<Rightarrow> Inl (negativeErr ''MAXLEN'')
         | Inr v \<Rightarrow> if v < 0 then Inl (negativeErr ''MAXLEN'') else lposOptLoop rest (opt\<lparr>lp_maxLen := v\<rparr>))
      else Inl ErrSyntax)"

text \<open>The scan over positions in the order of the search; \<open>limit\<close> is the count that stops it, \<open>found\<close> the
  number of matches so far.\<close>

fun lposScan :: "bytes \<Rightarrow> int option \<Rightarrow> bytes list \<Rightarrow> nat list \<Rightarrow> int \<Rightarrow> int \<Rightarrow> nat list" where
  "lposScan elem limit l [] skip found = []"
| "lposScan elem limit l (i # is) skip found =
     (if l ! i \<noteq> elem then lposScan elem limit l is skip found
      else if skip > 0 then lposScan elem limit l is (skip - 1) found
      else i # (case limit of
                  Some c \<Rightarrow> if c > 0 \<and> found + 1 \<ge> c then [] else lposScan elem limit l is skip (found + 1)
                | None \<Rightarrow> lposScan elem limit l is skip (found + 1)))"

definition lposMatches :: "bytes list \<Rightarrow> bytes \<Rightarrow> lposOpts \<Rightarrow> nat list" where
  "lposMatches l elem opt =
     (let order = (if lp_rank opt > 0 then [0..<length l] else rev [0..<length l]);
          seen = (if lp_maxLen opt = 0 then order else take (nat (lp_maxLen opt)) order);
          skip = (if lp_rank opt > 0 then lp_rank opt - 1 else wrap64 (wrap64 (- lp_rank opt) - 1))
      in lposScan elem (lp_count opt) l seen skip 0)"

definition cmdLPos :: "'e pebble \<Rightarrow> Env \<Rightarrow> dbid \<Rightarrow> bytes list \<Rightarrow> 'e handler" where
  "cmdLPos P E db args s =
     (if length args < 2 then (Inl (WrongArgs ''lpos''), s)
      else bindS (lposOptLoop (drop 2 args) \<lparr>lp_rank = 1, lp_count = None, lp_maxLen = 0\<rparr>) s (\<lambda>opt.
        bindE (loadAgg P E db (args ! 0) TypeList s) (\<lambda>a s1.
          let ms = lposMatches (a_list a) (args ! 1) opt
          in (Inr (if lp_count opt = None then [if ms = [] then RNull else RInt (int (ms ! 0))]
                   else RArray (int (length ms)) # map (\<lambda>i. RInt (int i)) ms), s1))))"

section \<open>COPY, MOVE, SWAPDB\<close>

text \<open>The copy of an aggregate starts without the baseline of the original.\<close>

definition copyKey :: "'e pebble \<Rightarrow> Env \<Rightarrow> dbid \<Rightarrow> bytes \<Rightarrow> dbid \<Rightarrow> bytes \<Rightarrow> bool \<Rightarrow> 'e Store \<Rightarrow> (goerr, bool, 'e Store) res" where
  "copyKey P E srcDB src dstDB dst replc s =
     (if srcDB = dstDB \<and> src = dst \<and> \<not> replc then (Inr False, s)
      else bindE (if replc then (Inr None, s) else getTyped P E dstDB dst s) (\<lambda>old s1.
        if old \<noteq> None then (Inr False, s1)
        else bindE (getTyped P E srcDB src s1) (\<lambda>r s2.
          case r of
            None \<Rightarrow> (Inr False, s2)
          | Some (typ, expireAt, payload) \<Rightarrow>
              if typ \<noteq> TypeString then
                bindE (loadAgg P E srcDB src typ s2) (\<lambda>a s3.
                  bindE (deleteKey P E dstDB dst s3) (\<lambda>_ s4.
                    bindE (saveAgg P E dstDB dst
                             ((newAgg typ 0)\<lparr>a_exists := True, a_sparse := a_sparse a, a_expireAt := expireAt,
                                a_hash := a_hash a, a_set := a_set a, a_zset := a_zset a, a_list := a_list a,
                                a_seqs := a_seqs a, a_head := a_head a, a_tail := a_tail a\<rparr>) s4)
                      (\<lambda>_ s5. (Inr True, s5))))
              else
                let (prevExpire, s3) = oldExpiry P E dstDB dst s2
                in bindE (putValue P E dstDB dst typ payload expireAt prevExpire s3) (\<lambda>_ s4. (Inr True, s4)))))"

fun copyOpts :: "'e Store \<Rightarrow> bytes list \<Rightarrow> dbid \<Rightarrow> bool \<Rightarrow> goerr + (dbid \<times> bool)" where
  "copyOpts s [] dstDB replc = Inr (dstDB, replc)"
| "copyOpts s [a] dstDB replc = (if map to_upper a = ascii ''REPLACE'' then Inr (dstDB, True) else Inl ErrSyntax)"
| "copyOpts s (a # b # rest) dstDB replc =
     (if map to_upper a = ascii ''DB'' then
        (case toInt64 b of
           Inl _ \<Rightarrow> Inl ErrNotInteger
         | Inr v \<Rightarrow> if \<not> Valid (word_of_int v) (s_dict s) then Inl ErrDBIndex else copyOpts s rest (word_of_int v) replc)
      else if map to_upper a = ascii ''REPLACE'' then copyOpts s (b # rest) dstDB True
      else Inl ErrSyntax)"

definition sameObjErr :: goerr where
  "sameObjErr = ProtoError ''ERR source and destination objects are the same''"

text \<open>The part for streams, which are not in the index.\<close>

definition copyStream :: "'e pebble \<Rightarrow> Env \<Rightarrow> dbid \<Rightarrow> bytes \<Rightarrow> dbid \<Rightarrow> bytes \<Rightarrow> bool \<Rightarrow> 'e handler" where
  "copyStream P E srcDB src dstDB dst replc s =
     bindE (getTyped P E dstDB dst s) (\<lambda>r s1.
       bindS (if r \<noteq> None then Inr True else streamExists P dstDB dst s1) s1 (\<lambda>dstExists.
         if dstExists \<and> \<not> replc then (Inr [RInt 0], s1)
         else bindE (if dstExists then deleteStreamEntries P dstDB dst s1 else (Inr (), s1)) (\<lambda>_ s2.
           bindE (copyStreamEntries P srcDB src dstDB dst s2) (\<lambda>cok s3. (Inr [RInt (btoi cok)], s3)))))"

definition cmdCopy :: "'e pebble \<Rightarrow> Env \<Rightarrow> dbid \<Rightarrow> bytes list \<Rightarrow> 'e handler" where
  "cmdCopy P E db args s =
     (if length args < 2 then (Inl (WrongArgs ''copy''), s)
      else bindS (copyOpts s (drop 2 args) db False) s (\<lambda>(dstDB, replc).
        if db = dstDB \<and> args ! 0 = args ! 1 then (Inl sameObjErr, s)
        else bindE (copyKey P E db (args ! 0) dstDB (args ! 1) replc s) (\<lambda>ok s1.
          if ok then (Inr [RInt 1], s1) else copyStream P E db (args ! 0) dstDB (args ! 1) replc s1)))"

definition cmdMove :: "'e pebble \<Rightarrow> Env \<Rightarrow> dbid \<Rightarrow> string \<Rightarrow> bytes list \<Rightarrow> 'e handler" where
  "cmdMove P E db nm args s =
     withArity nm args 2 s
       (case toInt64 (args ! 1) of
          Inl _ \<Rightarrow> (Inl ErrDBIndex, s)
        | Inr v \<Rightarrow>
            if \<not> Valid (word_of_int v) (s_dict s) then (Inl ErrDBIndex, s)
            else if word_of_int v = db then (Inl sameObjErr, s)
            else bindE (copyKey P E db (args ! 0) (word_of_int v) (args ! 0) True s) (\<lambda>ok s1.
              if \<not> ok then (Inr [RInt 0], s1)
              else bindE (deleteKey P E db (args ! 0) s1) (\<lambda>_ s2. (Inr [RInt 1], s2))))"

definition swapdbTmpPrefix :: bytes where "swapdbTmpPrefix = 0 # ascii ''swapdb:''"

text \<open>One of the three passes of \<open>SWAPDB\<close>: copy every key from the first name to the second, then drop
  the first where asked to.\<close>

fun swapPass ::
  "'e pebble \<Rightarrow> Env \<Rightarrow> dbid \<Rightarrow> dbid \<Rightarrow> bool \<Rightarrow> (bytes \<times> bytes) list \<Rightarrow> 'e Store \<Rightarrow> (goerr, unit, 'e Store) res" where
  "swapPass P E from to drp [] s = (Inr (), s)"
| "swapPass P E from to drp ((k, k') # ks) s =
     bindE (copyKey P E from k to k' True s) (\<lambda>_ s1.
       bindE (if drp then deleteKey P E from k s1 else (Inr False, s1)) (\<lambda>_ s2.
         swapPass P E from to drp ks s2))"

definition swapDBs :: "'e pebble \<Rightarrow> Env \<Rightarrow> dbid \<Rightarrow> dbid \<Rightarrow> 'e Store \<Rightarrow> (goerr, unit, 'e Store) res" where
  "swapDBs P E db1 db2 s =
     (let keys2 = Keys db2 (s_dict s)
      in bindE (swapPass P E db2 db2 False (map (\<lambda>k. (k, swapdbTmpPrefix @ k)) keys2) s) (\<lambda>_ s1.
           bindE (swapPass P E db1 db2 True (map (\<lambda>k. (k, k)) (Keys db1 (s_dict s1))) s1) (\<lambda>_ s2.
             swapPass P E db2 db2 True (map (\<lambda>k. (swapdbTmpPrefix @ k, k)) keys2) s2)))"

definition dbArg :: "bytes \<Rightarrow> string \<Rightarrow> 'e Store \<Rightarrow> goerr + dbid" where
  "dbArg b which s =
     (case toInt64 b of
        Inl _ \<Rightarrow> Inl (ProtoError (''ERR invalid '' @ which @ '' DB index''))
      | Inr v \<Rightarrow> if \<not> Valid (word_of_int v) (s_dict s) then Inl ErrDBIndex else Inr (word_of_int v))"

definition cmdSwapDB :: "'e pebble \<Rightarrow> Env \<Rightarrow> string \<Rightarrow> bytes list \<Rightarrow> 'e handler" where
  "cmdSwapDB P E nm args s =
     withArity nm args 2 s
       (bindS (dbArg (args ! 0) ''first'' s) s (\<lambda>db1.
          bindS (dbArg (args ! 1) ''second'' s) s (\<lambda>db2.
            if db1 = db2 then (Inr writeOK, s)
            else bindE (swapDBs P E db1 db2 s) (\<lambda>_ s1. (Inr writeOK, s1)))))"

section \<open>RANDOMKEY and EXPIRETIME\<close>

text \<open>\<open>rnd\<close> gives the random draws: the database to start with, then for each database the shard and the
  entry.\<close>

definition cmdRandomKey :: "(nat \<Rightarrow> nat) \<Rightarrow> string \<Rightarrow> bytes list \<Rightarrow> 'e handler" where
  "cmdRandomKey rnd nm args s =
     withArity nm args 0 s
       (let n = d_dbCount (s_dict s); start = (if n = 0 then 0 else rnd 0 mod n);
            found = map (\<lambda>i. RandomKey (rnd (2 * i + 1)) (rnd (2 * i + 2)) (of_nat ((start + i) mod n)) (s_dict s)) [0..<n]
        in (Inr [case find (\<lambda>k. k \<noteq> None) found of Some (Some k) \<Rightarrow> RBulk k | _ \<Rightarrow> RNull], s))"

definition expireTimeCmd :: "'e pebble \<Rightarrow> Env \<Rightarrow> dbid \<Rightarrow> string \<Rightarrow> bytes list \<Rightarrow> bool \<Rightarrow> 'e handler" where
  "expireTimeCmd P E db nm args ms s =
     withArity nm args 1 s
       (bindE (getTyped P E db (args ! 0) s) (\<lambda>r s1.
          (Inr [RInt (case r of
             None \<Rightarrow> -2
           | Some (_, expireAt, _) \<Rightarrow> if expireAt = 0 then -1 else if ms then expireAt else go_div expireAt 1000)], s1)))"

section \<open>LCS\<close>

record lcsMatch =
  aStart :: int
  aEnd :: int
  bStart :: int
  bEnd :: int

text \<open>One row of the table, from the row below it: a cell holds the length for the two rests and the move
  (0 diagonal, 1 down, 2 right). The last cell of a row and the last row are zero.\<close>

fun lcsRow :: "byte \<Rightarrow> bytes \<Rightarrow> (nat \<times> nat) list \<Rightarrow> (nat \<times> nat) list" where
  "lcsRow x [] below = [(0, 0)]"
| "lcsRow x (y # ys) below =
     (let right = lcsRow x ys (tl below)
      in (if x = y then (fst (below ! 1) + 1, 0)
          else if fst (below ! 0) \<ge> fst (right ! 0) then (fst (below ! 0), 1)
          else (fst (right ! 0), 2)) # right)"

fun lcsTable :: "bytes \<Rightarrow> bytes \<Rightarrow> (nat \<times> nat) list list" where
  "lcsTable [] b = [replicate (length b + 1) (0, 0)]"
| "lcsTable (x # xs) b = (let t = lcsTable xs b in lcsRow x b (t ! 0) # t)"

fun lcsRun :: "bytes \<Rightarrow> bytes \<Rightarrow> nat" where
  "lcsRun (x # xs) (y # ys) = (if x = y then Suc (lcsRun xs ys) else 0)"
| "lcsRun _ _ = 0"

lemma lcsRun_pos: "i < length a \<Longrightarrow> j < length b \<Longrightarrow> a ! i = b ! j \<Longrightarrow> 0 < lcsRun (drop i a) (drop j b)"
  by (simp add: Cons_nth_drop_Suc[symmetric])

lemma lcsRun_less:
  assumes "a ! i = b ! j" "i < length a" "j < length b"
  shows "length a - (i + lcsRun (drop i a) (drop j b)) + (length b - (j + lcsRun (drop i a) (drop j b)))
    < length a + length b - (j + i)"
  using lcsRun_pos[OF assms(2,3,1)] assms by linarith

function lcsWalk :: "bytes \<Rightarrow> bytes \<Rightarrow> (nat \<times> nat) list list \<Rightarrow> int \<Rightarrow> nat \<Rightarrow> nat \<Rightarrow> lcsMatch list \<times> int" where
  "lcsWalk a b dp minMatch i j =
     (if i < length a \<and> j < length b then
        if a ! i = b ! j then
          (let k = lcsRun (drop i a) (drop j b); (ms, n) = lcsWalk a b dp minMatch (i + k) (j + k)
           in if int k \<ge> minMatch
              then (\<lparr>aStart = int i, aEnd = int (i + k) - 1, bStart = int j, bEnd = int (j + k) - 1\<rparr> # ms, n + int k)
              else (ms, n))
        else if snd (dp ! i ! j) = 1 then lcsWalk a b dp minMatch (i + 1) j
        else lcsWalk a b dp minMatch i (j + 1)
      else ([], 0))"
  by pat_completeness auto
termination
  by (relation "measure (\<lambda>(a, b, dp, minMatch, i, j). (length a - i) + (length b - j))")
    (auto simp: lcsRun_less)

declare lcsWalk.simps [simp del]

definition lcsCompute :: "bytes \<Rightarrow> bytes \<Rightarrow> int \<Rightarrow> lcsMatch list \<times> int" where
  "lcsCompute a b minMatch = lcsWalk a b (lcsTable a b) minMatch 0 0"

definition lcsString :: "bytes \<Rightarrow> lcsMatch list \<Rightarrow> bytes" where
  "lcsString a ms = concat (map (\<lambda>m. take (nat (aEnd m + 1 - aStart m)) (drop (nat (aStart m)) a)) ms)"

record lcsOpts =
  lc_idx :: bool
  lc_len :: bool
  lc_min :: int

fun lcsOptLoop :: "bytes list \<Rightarrow> lcsOpts \<Rightarrow> goerr + lcsOpts" where
  "lcsOptLoop [] opt = Inr opt"
| "lcsOptLoop (a # rest) opt =
     (let u = map to_upper a in
      if u = ascii ''IDX'' then lcsOptLoop rest (opt\<lparr>lc_idx := True\<rparr>)
      else if u = ascii ''LEN'' \<or> u = ascii ''WITHMATCHLEN'' then lcsOptLoop rest (opt\<lparr>lc_len := True\<rparr>)
      else if u = ascii ''MINMATCHLEN'' then
        (case rest of
           [] \<Rightarrow> Inl ErrSyntax
         | v # rest' \<Rightarrow>
             (case toInt64 v of
                Inl _ \<Rightarrow> Inl ErrNotInteger
              | Inr n \<Rightarrow> if n < 0 then Inl ErrNotInteger else lcsOptLoop rest' (opt\<lparr>lc_min := n\<rparr>)))
      else Inl ErrSyntax)"

definition lcsMatchReply :: "bool \<Rightarrow> lcsMatch \<Rightarrow> reply list" where
  "lcsMatchReply withLen m =
     [RArray (if withLen then 5 else 4), RInt (aStart m), RInt (aEnd m), RInt (bStart m), RInt (bEnd m)]
     @ (if withLen then [RInt (aEnd m - aStart m + 1)] else [])"

definition cmdLCS :: "'e pebble \<Rightarrow> Env \<Rightarrow> dbid \<Rightarrow> bytes list \<Rightarrow> 'e handler" where
  "cmdLCS P E db args s =
     (if length args < 2 then (Inl (WrongArgs ''lcs''), s)
      else bindS (lcsOptLoop (drop 2 args) \<lparr>lc_idx = False, lc_len = False, lc_min = 1\<rparr>) s (\<lambda>opt.
        bindE (getString P E db (args ! 0) s) (\<lambda>ra s1.
          bindE (getString P E db (args ! 1) s1) (\<lambda>rb s2.
            case (ra, rb) of
              (Some a, Some b) \<Rightarrow>
                if length a * length b > 64 * 1024 * 1024 then (Inl (ProtoError ''ERR string too long for LCS''), s2)
                else
                  let (ms, n) = lcsCompute a b (lc_min opt)
                  in (Inr (if lc_len opt \<and> \<not> lc_idx opt then [RInt n]
                           else if \<not> lc_idx opt then [RBulk (lcsString a ms)]
                           else [RArray 2, RBulk (ascii ''matches''), RArray (int (length ms))]
                                @ concat (map (lcsMatchReply (lc_len opt)) ms) @ [RBulk (ascii ''len''), RInt n]), s2)
            | _ \<Rightarrow> (Inr [RNull], s2)))))"

section \<open>LCS finds a longest common subsequence\<close>

fun lcsLen :: "bytes \<Rightarrow> bytes \<Rightarrow> nat" where
  "lcsLen (x # xs) (y # ys) = (if x = y then Suc (lcsLen xs ys) else max (lcsLen xs (y # ys)) (lcsLen (x # xs) ys))"
| "lcsLen _ _ = 0"

lemma lcsLen_upper: "subseq zs xs \<Longrightarrow> subseq zs ys \<Longrightarrow> length zs \<le> lcsLen xs ys"
proof (induction xs ys arbitrary: zs rule: lcsLen.induct)
  case (1 x xs y ys)
  show ?case
  proof (cases zs)
    case (Cons z zs')
    show ?thesis
    proof (cases "x = y")
      case True
      have "subseq zs' xs" "subseq zs' ys" using 1 Cons by (auto elim: subseq_Cons' simp: subseq_Cons2_iff split: if_splits)
      then show ?thesis using 1(1)[OF True, of zs'] True Cons by simp
    next
      case False
      then have "subseq zs xs \<or> subseq zs ys" using 1(4,5) Cons by (auto split: if_splits)
      then show ?thesis using 1(2)[OF False, of zs] 1(3)[OF False, of zs] 1(4,5) False by auto
    qed
  qed simp
qed (auto)

lemma lcsRow_spec:
  assumes "length below = length ys + 1" "\<And>j. j \<le> length ys \<Longrightarrow> fst (below ! j) = lcsLen xs (drop j ys)" "j \<le> length ys"
  shows "length (lcsRow x ys below) = length ys + 1 \<and> fst (lcsRow x ys below ! j) = lcsLen (x # xs) (drop j ys)"
  using assms
proof (induction ys arbitrary: below j)
  case (Cons y ys)
  have below: "length (tl below) = length ys + 1" "fst (tl below ! k) = lcsLen xs (drop k ys)" if "k \<le> length ys" for k
    using Cons.prems(1) Cons.prems(2)[of "Suc k"] that by (simp_all add: nth_tl)
  note IH = Cons.IH[of "tl below", OF below]
  have r0: "fst (lcsRow x ys (tl below) ! 0) = lcsLen (x # xs) ys" using IH[of 0] by simp
  have b: "fst (below ! 0) = lcsLen xs (y # ys)" "fst (below ! 1) = lcsLen xs ys"
    using Cons.prems(2)[of 0] Cons.prems(2)[of 1] by simp_all
  show ?case
  proof (cases j)
    case 0
    then show ?thesis using IH[of 0] r0 b by (auto simp: Let_def)
  next
    case (Suc k)
    then show ?thesis using IH[of k] Cons.prems(3) by (simp add: Let_def)
  qed
qed simp

lemma lcsRow_move:
  "j < length ys \<Longrightarrow> x \<noteq> ys ! j \<Longrightarrow> length below = length ys + 1 \<Longrightarrow>
     snd (lcsRow x ys below ! j) = (if fst (below ! j) \<ge> fst (lcsRow x ys below ! Suc j) then 1 else 2)"
proof (induction ys arbitrary: below j)
  case (Cons y ys)
  then show ?case by (cases j) (auto simp: Let_def nth_tl)
qed simp

lemma lcsTable_spec:
  assumes "i \<le> length a" "j \<le> length b"
  shows "fst (lcsTable a b ! i ! j) = lcsLen (drop i a) (drop j b) \<and> length (lcsTable a b ! i) = length b + 1"
  using assms
proof (induction a arbitrary: i j)
  case (Cons x xs)
  show ?case
  proof (cases i)
    case 0
    have "length (lcsTable xs b ! 0) = length b + 1" "fst (lcsTable xs b ! 0 ! k) = lcsLen xs (drop k b)" if "k \<le> length b" for k
      using Cons.IH[of 0 k] that by auto
    then show ?thesis using lcsRow_spec[of "lcsTable xs b ! 0" b xs j x] Cons.prems 0 by (simp add: Let_def)
  next
    case (Suc k)
    then show ?thesis using Cons by (simp add: Let_def)
  qed
qed (simp del: replicate.simps)

lemma lcsTable_move:
  assumes "i < length a" "j < length b" "a ! i \<noteq> b ! j"
  shows "snd (lcsTable a b ! i ! j) = 1 \<longleftrightarrow> lcsLen (drop (Suc i) a) (drop j b) \<ge> lcsLen (drop i a) (drop (Suc j) b)"
proof -
  have row: "lcsTable a b ! i = lcsRow (a ! i) b (lcsTable a b ! Suc i)" if "i < length a" for a b i
    using that by (induction a arbitrary: i) (auto simp: Let_def nth_Cons split: nat.split)
  show ?thesis
    using lcsRow_move[OF assms(2,3), of "lcsTable a b ! Suc i"] row[OF assms(1), of b]
      lcsTable_spec[of "Suc i" a j b] lcsTable_spec[of i a "Suc j" b] assms by (simp split: if_splits)
qed

lemma lcsRun_spec:
  "take (lcsRun xs ys) xs = take (lcsRun xs ys) ys \<and> lcsRun xs ys \<le> length xs \<and> lcsRun xs ys \<le> length ys \<and>
     lcsLen xs ys = lcsRun xs ys + lcsLen (drop (lcsRun xs ys) xs) (drop (lcsRun xs ys) ys)"
  by (induction xs ys rule: lcsRun.induct) auto

lemma lcsWalk_correct:
  assumes "minMatch \<le> 1"
  shows "lcsWalk a b (lcsTable a b) minMatch i j = (ms, n) \<Longrightarrow> i \<le> length a \<Longrightarrow> j \<le> length b \<Longrightarrow>
     subseq (lcsString a ms) (drop i a) \<and> subseq (lcsString a ms) (drop j b) \<and>
     n = int (lcsLen (drop i a) (drop j b)) \<and> int (length (lcsString a ms)) = n"
proof (induction "length a - i + (length b - j)" arbitrary: i j ms n rule: less_induct)
  case less
  note step = less.prems(1)[unfolded lcsWalk.simps[of a b _ _ i j]]
  show ?case
  proof (cases "i < length a \<and> j < length b")
    case False
    then have "drop i a = [] \<or> drop j b = []" by auto
    then have "lcsLen (drop i a) (drop j b) = 0" by (cases "drop i a") auto
    then show ?thesis using step False by (auto simp: lcsString_def)
  next
    case in_range: True
    then have a: "drop i a = a ! i # drop (Suc i) a" and b: "drop j b = b ! j # drop (Suc j) b"
      by (simp_all add: Cons_nth_drop_Suc)
    show ?thesis
    proof (cases "a ! i = b ! j")
      case True
      define k where "k = lcsRun (drop i a) (drop j b)"
      obtain ms' n' where w: "lcsWalk a b (lcsTable a b) minMatch (i + k) (j + k) = (ms', n')" by fastforce
      have k: "0 < k" using lcsRun_pos in_range True by (simp add: k_def)
      have run: "take k (drop i a) = take k (drop j b)" "k \<le> length a - i" "k \<le> length b - j"
        "lcsLen (drop i a) (drop j b) = k + lcsLen (drop (i + k) a) (drop (j + k) b)"
        using lcsRun_spec[of "drop i a" "drop j b"] by (simp_all add: k_def add.commute)
      have eq: "ms = \<lparr>aStart = int i, aEnd = int (i + k) - 1, bStart = int j, bEnd = int (j + k) - 1\<rparr> # ms'" "n = n' + int k"
        using step in_range True w k assms by (auto simp: k_def[symmetric] Let_def)
      have IH: "subseq (lcsString a ms') (drop (i + k) a)" "subseq (lcsString a ms') (drop (j + k) b)"
        "n' = int (lcsLen (drop (i + k) a) (drop (j + k) b))" "int (length (lcsString a ms')) = n'"
        using less.hyps[OF _ w] run(2,3) k in_range by auto
      have str: "lcsString a ms = take k (drop i a) @ lcsString a ms'" unfolding eq by (simp add: lcsString_def)
      have "subseq (take k (drop i a) @ lcsString a ms') (take k (drop i a) @ drop (i + k) a)"
        "subseq (take k (drop j b) @ lcsString a ms') (take k (drop j b) @ drop (j + k) b)"
        using IH(1,2) by (auto intro: list_emb_append_mono)
      then have "subseq (lcsString a ms) (drop i a)" "subseq (lcsString a ms) (drop j b)"
        unfolding str using append_take_drop_id[of k "drop i a"] append_take_drop_id[of k "drop j b"] run(1)
        by (simp_all add: add.commute)
      then show ?thesis using IH(3,4) run str eq(2) by simp
    next
      case False
      note move = lcsTable_move[of i a j b, OF _ _ False]
      show ?thesis
      proof (cases "snd (lcsTable a b ! i ! j) = 1")
        case True
        then have "lcsWalk a b (lcsTable a b) minMatch (i + 1) j = (ms, n)" using step in_range False by simp
        from less.hyps[OF _ this] move True in_range False show ?thesis
          unfolding a b by (auto simp: max_absorb1)
      next
        case right: False
        then have "lcsWalk a b (lcsTable a b) minMatch i (j + 1) = (ms, n)" using step in_range False by simp
        from less.hyps[OF _ this] move right in_range False show ?thesis
          unfolding a b by (auto simp: max_absorb2)
      qed
    qed
  qed
qed

text \<open>C31: \<open>LCS\<close> returns a longest common subsequence of the two values: the string put together from the matches
  is a subsequence of both, its length is the length reported, and no common subsequence is longer
  (for the default \<open>MINMATCHLEN\<close>).\<close>

theorem lcs_longest:
  assumes "minMatch \<le> 1" "lcsCompute a b minMatch = (ms, n)"
  shows "subseq (lcsString a ms) a \<and> subseq (lcsString a ms) b \<and> int (length (lcsString a ms)) = n \<and>
    (\<forall>zs. subseq zs a \<and> subseq zs b \<longrightarrow> int (length zs) \<le> n)"
  using lcsWalk_correct[OF assms(1), of a b 0 0 ms n] assms(2) lcsLen_upper[of _ a b] by (auto simp: lcsCompute_def)

lemma lcs_sample:
  "lcsCompute [1, 2, 3, 4] [9, 2, 4] 1 =
     ([\<lparr>aStart = 1, aEnd = 1, bStart = 1, bEnd = 1\<rparr>, \<lparr>aStart = 3, aEnd = 3, bStart = 2, bEnd = 2\<rparr>], 2)"
  by code_simp

theorem lcs_longest_witness:
  "subseq (lcsString [1, 2, 3, 4] (fst (lcsCompute [1, 2, 3, 4] [9, 2, 4] 1))) [9, 2, 4] \<and> snd (lcsCompute [1, 2, 3, 4] [9, 2, 4] 1) = 2"
  using lcs_longest[OF _ lcs_sample] by (simp add: lcs_sample)

section \<open>LPOS finds the positions\<close>

lemma lposScan_spec:
  assumes "0 \<le> skip"
  shows "lposScan elem limit l is skip found =
    (let hits = drop (nat skip) (filter (\<lambda>i. l ! i = elem) is)
     in case limit of Some c \<Rightarrow> if c > 0 then take (max 1 (nat (c - found))) hits else hits | None \<Rightarrow> hits)"
  using assms
proof (induction elem limit l "is" skip found rule: lposScan.induct)
  case (2 elem limit l i js skip found)
  show ?case
  proof (cases "l ! i = elem \<and> \<not> skip > 0")
    case True
    have next_c: "nat (c - (found + 1)) = nat (c - found) - Suc 0" for c by linarith
    show ?thesis using 2 True by (cases limit) (auto simp: Let_def take_Cons' max_def next_c split: if_splits)
  next
    case False
    then show ?thesis using 2 by (auto simp: Let_def drop_Cons' nat_diff_distrib split: option.split)
  qed
qed (simp split: option.split)

end
