(* ===== verification/Sort.thy ===== *)
theory Sort
  imports Completion Admin "HOL-Library.Multiset"
begin

text \<open>
  \<open>SORT\<close> and \<open>SORT_RO\<close> (\<open>cmd_generic.go\<close>): options, the elements of the source, weights looked up through a
  pattern, the stable sort, \<open>LIMIT\<close>, \<open>STORE\<close> and \<open>GET\<close>. The sort is the insertion sort that Go's \<open>SliceStable\<close> runs on
  its blocks; where the comparison is a weak order, which the locale \<open>row_order\<close> asks for, every stable sort
  gives the same list.
\<close>

section \<open>Options\<close>

record sortOpts =
  so_limitOff :: int
  so_limitCount :: int
  so_alpha :: bool
  so_desc :: bool
  so_store :: bytes
  so_by :: "bytes option"
  so_get :: "bytes list"

definition noSortOpts :: sortOpts where
  "noSortOpts = \<lparr>so_limitOff = 0, so_limitCount = -1, so_alpha = False, so_desc = False, so_store = [], so_by = None, so_get = []\<rparr>"

function sortOptLoop :: "bytes list \<Rightarrow> sortOpts \<Rightarrow> goerr + sortOpts" where
  "sortOptLoop [] opt = Inr opt"
| "sortOptLoop (a # rest) opt =
     (let u = map to_upper a in
      if u = ascii ''ASC'' then sortOptLoop rest (opt\<lparr>so_desc := False\<rparr>)
      else if u = ascii ''DESC'' then sortOptLoop rest (opt\<lparr>so_desc := True\<rparr>)
      else if u = ascii ''ALPHA'' then sortOptLoop rest (opt\<lparr>so_alpha := True\<rparr>)
      else if u = ascii ''LIMIT'' then
        (case rest of
           x # y # rest' \<Rightarrow>
             (case (atoi x, atoi y) of
                (Inr off, Inr cnt) \<Rightarrow>
                  if off < 0 then Inl ErrSyntax
                  else sortOptLoop rest' (opt\<lparr>so_limitOff := off, so_limitCount := cnt\<rparr>)
              | _ \<Rightarrow> Inl ErrSyntax)
         | _ \<Rightarrow> Inl ErrSyntax)
      else if u = ascii ''BY'' then
        (case rest of x # rest' \<Rightarrow> sortOptLoop rest' (opt\<lparr>so_by := Some x\<rparr>) | [] \<Rightarrow> Inl ErrSyntax)
      else if u = ascii ''GET'' then
        (case rest of x # rest' \<Rightarrow> sortOptLoop rest' (opt\<lparr>so_get := so_get opt @ [x]\<rparr>) | [] \<Rightarrow> Inl ErrSyntax)
      else if u = ascii ''STORE'' then
        (case rest of x # rest' \<Rightarrow> sortOptLoop rest' (opt\<lparr>so_store := x\<rparr>) | [] \<Rightarrow> Inl ErrSyntax)
      else Inl ErrSyntax)"
  by pat_completeness auto
termination by (relation "measure (\<lambda>(args, opt). length args)") auto

section \<open>Patterns\<close>

text \<open>\<open>strings.Index\<close> of the arrow, and the replacement of the first star.\<close>

fun arrowAt :: "bytes \<Rightarrow> nat option" where
  "arrowAt (x # y # rest) = (if x = 45 \<and> y = 62 then Some 0 else map_option Suc (arrowAt (y # rest)))"
| "arrowAt _ = None"

fun replaceStar :: "bytes \<Rightarrow> bytes \<Rightarrow> bytes" where
  "replaceStar elem [] = []"
| "replaceStar elem (c # cs) = (if c = 42 then elem @ cs else c # replaceStar elem cs)"

definition sortLookupValue :: "'e pebble \<Rightarrow> Env \<Rightarrow> dbid \<Rightarrow> bytes \<Rightarrow> bytes \<Rightarrow> 'e Store \<Rightarrow> (goerr, bytes option, 'e Store) res" where
  "sortLookupValue P E db elem pattern s =
     (if pattern = ascii ''#'' then (Inr (Some elem), s)
      else
        case arrowAt pattern of
          Some i \<Rightarrow>
            if i + 2 < length pattern then
              (case loadAgg P E db (replaceStar elem (take i pattern)) TypeHash s of
                 (Inl _, s1) \<Rightarrow> (Inr None, s1)
               | (Inr a, s1) \<Rightarrow> (Inr (if a_exists a then map_of (a_hash a) (drop (i + 2) pattern) else None), s1))
            else getString P E db (replaceStar elem pattern) s
        | None \<Rightarrow> getString P E db (replaceStar elem pattern) s)"

definition sortLookup :: "'e pebble \<Rightarrow> Env \<Rightarrow> dbid \<Rightarrow> bytes \<Rightarrow> bytes \<Rightarrow> 'e Store \<Rightarrow> (goerr, bytes, 'e Store) res" where
  "sortLookup P E db elem pattern s =
     bindE (sortLookupValue P E db elem pattern s) (\<lambda>r s1. (Inr (case r of None \<Rightarrow> [] | Some v \<Rightarrow> v), s1))"

section \<open>Rows\<close>

record sortRow =
  sr_val :: bytes
  sr_num :: f64
  sr_str :: bytes

fun sortRows :: "'e pebble \<Rightarrow> Env \<Rightarrow> dbid \<Rightarrow> bytes option \<Rightarrow> bytes list \<Rightarrow> 'e Store \<Rightarrow> (goerr, sortRow list, 'e Store) res" where
  "sortRows P E db pat [] s = (Inr [], s)"
| "sortRows P E db pat (it # items) s =
     bindE (case pat of None \<Rightarrow> (Inr it, s) | Some p \<Rightarrow> sortLookup P E db it p s) (\<lambda>w s1.
       bindE (sortRows P E db pat items s1) (\<lambda>rows s2. (Inr (\<lparr>sr_val = it, sr_num = 0, sr_str = w\<rparr> # rows), s2)))"

definition scoreErr :: goerr where
  "scoreErr = ProtoError (''ERR One or more scores can'' @ [CHR 0x27] @ ''t be converted into double'')"

fun sortNums :: "sortRow list \<Rightarrow> goerr + sortRow list" where
  "sortNums [] = Inr []"
| "sortNums (r # rows) =
     (let s = trim_space (sr_str r) in
      case (if s = [] then Some 0 else parse_float s) of
        None \<Rightarrow> Inl scoreErr
      | Some v \<Rightarrow> (case sortNums rows of Inl err \<Rightarrow> Inl err | Inr out \<Rightarrow> Inr (r\<lparr>sr_num := v\<rparr> # out)))"

definition rowCmp :: "bool \<Rightarrow> sortRow \<Rightarrow> sortRow \<Rightarrow> int" where
  "rowCmp alpha x y =
     (let w = (if alpha then (if sr_str x < sr_str y then -1 else if sr_str x > sr_str y then 1 else 0)
               else if f64_less (sr_num x) (sr_num y) then -1
               else if f64_less (sr_num y) (sr_num x) then 1 else 0)
      in if w = 0 then (if sr_val x < sr_val y then -1 else if sr_val x > sr_val y then 1 else 0) else w)"

definition rowLess :: "bool \<Rightarrow> bool \<Rightarrow> sortRow \<Rightarrow> sortRow \<Rightarrow> bool" where
  "rowLess alpha desc x y \<longleftrightarrow> (if desc then rowCmp alpha x y > 0 else rowCmp alpha x y < 0)"

text \<open>Insertion from the right; the sorted part is kept reversed.\<close>

fun insertRow :: "('a \<Rightarrow> 'a \<Rightarrow> bool) \<Rightarrow> 'a \<Rightarrow> 'a list \<Rightarrow> 'a list" where
  "insertRow lt x [] = [x]"
| "insertRow lt x (y # ys) = (if lt x y then y # insertRow lt x ys else x # y # ys)"

definition sliceStable :: "('a \<Rightarrow> 'a \<Rightarrow> bool) \<Rightarrow> 'a list \<Rightarrow> 'a list" where
  "sliceStable lt xs = rev (fold (insertRow lt) xs [])"

section \<open>The command\<close>

definition sortItems :: "'e pebble \<Rightarrow> Env \<Rightarrow> dbid \<Rightarrow> bytes \<Rightarrow> 'e Store \<Rightarrow> (goerr, bytes list, 'e Store) res" where
  "sortItems P E db key s =
     bindE (getTyped P E db key s) (\<lambda>r s1.
       case r of
         None \<Rightarrow> (Inr [], s1)
       | Some (typ, _, _) \<Rightarrow>
           if typ = TypeList then bindE (loadAgg P E db key TypeList s1) (\<lambda>a s2. (Inr (a_list a), s2))
           else if typ = TypeSet then bindE (loadAgg P E db key TypeSet s1) (\<lambda>a s2. (Inr (a_set a), s2))
           else if typ = TypeZSet then
             bindE (loadAgg P E db key TypeZSet s1) (\<lambda>a s2. (Inr (map m_member (sortedMembers (a_zset a) False)), s2))
           else (Inl ErrWrongType, s1))"

definition sortOrder :: "sortOpts \<Rightarrow> bool \<Rightarrow> sortRow list \<Rightarrow> goerr + sortRow list" where
  "sortOrder opt nosort rows =
     (if nosort then Inr (if so_desc opt then rev rows else rows)
      else case (if so_alpha opt then Inr rows else sortNums rows) of
             Inl err \<Rightarrow> Inl err
           | Inr rs \<Rightarrow> Inr (sliceStable (rowLess (so_alpha opt) (so_desc opt)) rs))"

definition sortLimit :: "sortOpts \<Rightarrow> 'a list \<Rightarrow> 'a list" where
  "sortLimit opt rows =
     (let n = int (length rows);
          off = (if so_limitOff opt < 0 \<or> so_limitOff opt > n then n else so_limitOff opt);
          en = (if so_limitCount opt \<ge> 0 \<and> so_limitCount opt < n - off then off + so_limitCount opt else n)
      in take (nat (en - off)) (drop (nat off) rows))"

definition sortResult :: "'e pebble \<Rightarrow> Env \<Rightarrow> dbid \<Rightarrow> bytes \<Rightarrow> sortOpts \<Rightarrow> 'e Store \<Rightarrow> (goerr, bytes list, 'e Store) res" where
  "sortResult P E db key opt s =
     bindE (sortItems P E db key s) (\<lambda>items s1.
       let nosort = (case so_by opt of None \<Rightarrow> False | Some p \<Rightarrow> fold_equal p ''nosort'') in
       bindE (sortRows P E db (if nosort then None else so_by opt) items s1) (\<lambda>rows s2.
         bindS (sortOrder opt nosort rows) s2 (\<lambda>sorted.
           (Inr (map sr_val (sortLimit opt sorted)), s2))))"

definition sortStore :: "'e pebble \<Rightarrow> Env \<Rightarrow> dbid \<Rightarrow> bytes \<Rightarrow> bytes list \<Rightarrow> 'e handler" where
  "sortStore P E db dst out s =
     bindE (deleteKey P E db dst s) (\<lambda>_ s1.
       if out = [] then (Inr [RInt 0], s1)
       else bindE (listPush P E db dst out False False s1) (\<lambda>_ s2. (Inr [RInt (int (length out))], s2)))"

text \<open>With \<open>GET\<close> the header of the array is written before the values are looked up: an error in between
  leaves it unfinished.\<close>

fun sortGets :: "'e pebble \<Rightarrow> Env \<Rightarrow> dbid \<Rightarrow> (bytes \<times> bytes) list \<Rightarrow> 'e Store \<Rightarrow> (reply list \<times> goerr option) \<times> 'e Store" where
  "sortGets P E db [] s = (([], None), s)"
| "sortGets P E db ((v, p) # rest) s =
     (case sortLookupValue P E db v p s of
        (Inl err, s1) \<Rightarrow> (([], Some err), s1)
      | (Inr r, s1) \<Rightarrow>
          (case sortGets P E db rest s1 of
             ((out, e), s2) \<Rightarrow> (((case r of None \<Rightarrow> RNull | Some x \<Rightarrow> RBulk x) # out, e), s2)))"

definition cmdSort :: "'e pebble \<Rightarrow> Env \<Rightarrow> dbid \<Rightarrow> bytes list \<Rightarrow> 'e Store \<Rightarrow> (reply list \<times> goerr option) \<times> 'e Store" where
  "cmdSort P E db args s =
     (if args = [] then (([], Some (WrongArgs ''sort'')), s)
      else case sortOptLoop (tl args) noSortOpts of
             Inl err \<Rightarrow> (([], Some err), s)
           | Inr opt \<Rightarrow>
               (case sortResult P E db (args ! 0) opt s of
                  (Inl err, s1) \<Rightarrow> (([], Some err), s1)
                | (Inr out, s1) \<Rightarrow>
                    if so_store opt \<noteq> [] then
                      (case sortStore P E db (so_store opt) out s1 of
                         (Inl err, s2) \<Rightarrow> (([], Some err), s2) | (Inr rs, s2) \<Rightarrow> ((rs, None), s2))
                    else if so_get opt \<noteq> [] then
                      (case sortGets P E db (List.product out (so_get opt)) s1 of
                         ((rs, e), s2) \<Rightarrow> ((RArray (int (length out * length (so_get opt))) # rs, e), s2))
                    else ((replyArray out, None), s1)))"

definition cmdSortRO :: "'e pebble \<Rightarrow> Env \<Rightarrow> dbid \<Rightarrow> bytes list \<Rightarrow> 'e Store \<Rightarrow> (reply list \<times> goerr option) \<times> 'e Store" where
  "cmdSortRO P E db args s =
     (if list_ex (\<lambda>a. fold_equal a ''STORE'') args
      then (([], Some (ProtoError ''ERR SORT_RO is read-only and does not support the STORE option'')), s)
      else cmdSort P E db args s)"

section \<open>The order\<close>

locale row_order =
  fixes lt :: "'a \<Rightarrow> 'a \<Rightarrow> bool" and ok :: "'a \<Rightarrow> bool"
  assumes asym: "ok x \<Longrightarrow> ok y \<Longrightarrow> lt x y \<Longrightarrow> \<not> lt y x"
    and neg_trans: "ok x \<Longrightarrow> ok y \<Longrightarrow> ok z \<Longrightarrow> \<not> lt y x \<Longrightarrow> \<not> lt z y \<Longrightarrow> \<not> lt z x"
begin

lemma insertRow_mset [simp]: "mset (insertRow lt x ys) = add_mset x (mset ys)"
  by (induction ys) auto

lemma insertRow_set [simp]: "set (insertRow lt x ys) = insert x (set ys)"
  using insertRow_mset[of x ys] by (metis set_mset_add_mset_insert set_mset_mset)

lemma insertRow_ordered:
  "ok x \<Longrightarrow> list_all ok ys \<Longrightarrow> sorted_wrt (\<lambda>a b. \<not> lt a b) ys \<Longrightarrow> sorted_wrt (\<lambda>a b. \<not> lt a b) (insertRow lt x ys)"
proof (induction ys)
  case (Cons y ys)
  show ?case
  proof (cases "lt x y")
    case True
    then show ?thesis using Cons asym[of x y] by auto
  next
    case False
    then show ?thesis using Cons.prems neg_trans[of _ y x] by (auto simp: list_all_iff)
  qed
qed simp

lemma sliceStable_mset: "mset (sliceStable lt xs) = mset xs"
proof -
  have "mset (fold (insertRow lt) xs acc) = mset xs + mset acc" for acc
    by (induction xs arbitrary: acc) simp_all
  then show ?thesis by (simp add: sliceStable_def)
qed

lemma sliceStable_set: "set (sliceStable lt xs) = set xs"
  using sliceStable_mset[of xs] by (metis set_mset_mset)

lemma sliceStable_ordered:
  assumes "list_all ok xs"
  shows "sorted_wrt (\<lambda>a b. \<not> lt b a) (sliceStable lt xs)"
proof -
  have "list_all ok acc \<Longrightarrow> sorted_wrt (\<lambda>a b. \<not> lt a b) acc \<Longrightarrow> sorted_wrt (\<lambda>a b. \<not> lt a b) (fold (insertRow lt) xs acc)" for acc
    using assms
  proof (induction xs arbitrary: acc)
    case (Cons x xs)
    have "list_all ok (insertRow lt x acc)" using Cons.prems by (auto simp: list_all_iff)
    then show ?case using Cons insertRow_ordered[of x acc] by simp
  qed simp
  from this[of "[]"] show ?thesis by (simp add: sliceStable_def sorted_wrt_rev)
qed

end

text \<open>The comparison of \<open>SORT\<close> is a weak order on rows whose weights are numbers.\<close>

lemma rowCmp_rank:
  assumes "alpha \<or> \<not> f64_nan (sr_num x)" "alpha \<or> \<not> f64_nan (sr_num y)"
  shows "rowCmp alpha x y < 0 \<longleftrightarrow>
      (if alpha then sr_str x < sr_str y \<or> sr_str x = sr_str y \<and> sr_val x < sr_val y
       else f64_scaled (sr_num x) < f64_scaled (sr_num y) \<or>
         f64_scaled (sr_num x) = f64_scaled (sr_num y) \<and> sr_val x < sr_val y)"
    and "rowCmp alpha x y > 0 \<longleftrightarrow> rowCmp alpha y x < 0"
  using assms by (auto simp: rowCmp_def f64_less_def Let_def not_less)

interpretation sort_rows: row_order "rowLess alpha desc" "\<lambda>r. alpha \<or> \<not> f64_nan (sr_num r)" for alpha desc
proof unfold_locales
  fix x y z :: sortRow
  assume ok: "alpha \<or> \<not> f64_nan (sr_num x)" "alpha \<or> \<not> f64_nan (sr_num y)"
  show "rowLess alpha desc x y \<Longrightarrow> \<not> rowLess alpha desc y x"
    using ok by (auto simp: rowLess_def rowCmp_rank split: if_splits)
  assume "alpha \<or> \<not> f64_nan (sr_num z)" "\<not> rowLess alpha desc y x" "\<not> rowLess alpha desc z y"
  then show "\<not> rowLess alpha desc z x"
    using ok by (auto simp: rowLess_def rowCmp_rank split: if_splits)
qed

lemma sortNums_vals: "sortNums rows = Inr out \<Longrightarrow> map sr_val out = map sr_val rows"
  by (induction rows arbitrary: out) (auto simp: Let_def split: option.splits sum.splits)


definition sample_row :: "bytes \<Rightarrow> sortRow" where "sample_row b = \<lparr>sr_val = b, sr_num = 0, sr_str = b\<rparr>"

lemma sort_sample:
  "sortOrder (noSortOpts\<lparr>so_alpha := True\<rparr>) False [sample_row [3], sample_row [1], sample_row [2]] =
     Inr [sample_row [1], sample_row [2], sample_row [3]]"
  by code_simp


end
