(* ===== verification/PubSub.thy ===== *)
theory PubSub
  imports Handlers
begin

text \<open>
  Publish and subscribe (\<open>pubsub.go\<close>, and the registry in \<open>server.go\<close>). The delivery of messages belongs to the protocol
  library: what it writes when a connection subscribes and how many receivers a message had are parameters. The
  registry the server keeps beside it, two maps from a name to a count, is modelled, with \<open>PUBSUB\<close> that
  reports it.
\<close>

section \<open>The registry\<close>

record pubsub =
  ps_channels :: "(bytes \<times> int) list"
  ps_patterns :: "(bytes \<times> int) list"

definition newPubSub :: pubsub where "newPubSub = \<lparr>ps_channels = [], ps_patterns = []\<rparr>"

text \<open>Reading a Go map: a missing name counts zero.\<close>

definition countOf :: "(bytes \<times> int) list \<Rightarrow> bytes \<Rightarrow> int" where
  "countOf m ch = (case map_of m ch of None \<Rightarrow> 0 | Some n \<Rightarrow> n)"

definition bump :: "bytes \<Rightarrow> (bytes \<times> int) list \<Rightarrow> (bytes \<times> int) list" where
  "bump ch m = AList.update ch (countOf m ch + 1) m"

definition drop1 :: "bytes \<Rightarrow> (bytes \<times> int) list \<Rightarrow> (bytes \<times> int) list" where
  "drop1 ch m = (if countOf m ch > 1 then AList.update ch (countOf m ch - 1) m else AList.delete ch m)"

definition subscribe :: "bytes \<Rightarrow> bool \<Rightarrow> pubsub \<Rightarrow> pubsub" where
  "subscribe ch pattern ps =
     (if pattern then ps\<lparr>ps_patterns := bump ch (ps_patterns ps)\<rparr> else ps\<lparr>ps_channels := bump ch (ps_channels ps)\<rparr>)"

definition unsubscribeCount :: "bytes \<Rightarrow> bool \<Rightarrow> pubsub \<Rightarrow> pubsub" where
  "unsubscribeCount ch pattern ps =
     (if pattern then ps\<lparr>ps_patterns := drop1 ch (ps_patterns ps)\<rparr> else ps\<lparr>ps_channels := drop1 ch (ps_channels ps)\<rparr>)"

definition globMatch :: "bytes \<Rightarrow> bytes \<Rightarrow> bool" where
  "globMatch pattern s = (if pattern = [] \<or> pattern = ascii ''*'' then True else match pattern s)"

definition channelNames :: "bytes \<Rightarrow> pubsub \<Rightarrow> bytes list" where
  "channelNames pattern ps = sort (filter (\<lambda>ch. pattern = [] \<or> globMatch pattern ch) (map fst (ps_channels ps)))"

definition channelCounts :: "bytes list \<Rightarrow> pubsub \<Rightarrow> (bytes \<times> int) list" where
  "channelCounts chs ps = map (\<lambda>ch. (ch, countOf (ps_channels ps) ch)) chs"

definition patternCount :: "pubsub \<Rightarrow> nat" where
  "patternCount ps = length (ps_patterns ps)"

section \<open>Commands\<close>

text \<open>\<open>confirm\<close> is what the protocol library writes for one subscription, \<open>pub\<close> its count of receivers. A command
  that a transaction runs has no connection to hand over (\<open>conn\<close>).\<close>

definition subscribeCmd ::
  "(bytes \<Rightarrow> bool \<Rightarrow> reply list) \<Rightarrow> bool \<Rightarrow> bytes list \<Rightarrow> bool \<Rightarrow> pubsub \<Rightarrow> (goerr + reply list) \<times> pubsub" where
  "subscribeCmd confirm conn args pattern ps =
     (if args = [] then (Inl (WrongArgs ''subscribe''), ps)
      else if \<not> conn then (Inl (ProtoError ''ERR SUBSCRIBE is only available on a server connection''), ps)
      else (Inr (concat (map (\<lambda>a. confirm a pattern) args)), fold (\<lambda>a. subscribe a pattern) args ps))"

definition unsubscribeCmd :: "bytes list \<Rightarrow> bool \<Rightarrow> pubsub \<Rightarrow> reply list \<times> pubsub" where
  "unsubscribeCmd args pattern ps =
     (let kind = RBulk (ascii (if pattern then ''punsubscribe'' else ''unsubscribe'')) in
      (if args = [] then [RArray 3, kind, RNull, RInt 0]
       else concat (map (\<lambda>a. [RArray 3, kind, RBulk a, RInt 0]) args),
       fold (\<lambda>a. unsubscribeCount a pattern) args ps))"

definition cmdPublish :: "(bytes \<Rightarrow> bytes \<Rightarrow> int) \<Rightarrow> bool \<Rightarrow> string \<Rightarrow> bytes list \<Rightarrow> goerr + reply list" where
  "cmdPublish pub conn nm args =
     (case checkArgLen nm (length args) 2 of
        Some err \<Rightarrow> Inl err
      | None \<Rightarrow> if \<not> conn then Inr [RInt 0] else Inr [RInt (pub (args ! 0) (args ! 1))])"

definition cmdPubSub :: "bytes list \<Rightarrow> pubsub \<Rightarrow> goerr + reply list" where
  "cmdPubSub args ps =
     (if args = [] then Inl (WrongArgs ''pubsub'')
      else if map to_upper (args ! 0) = ascii ''CHANNELS'' then
        Inr (replyArray (channelNames (if length args > 1 then args ! 1 else []) ps))
      else if map to_upper (args ! 0) = ascii ''NUMSUB'' then
        (let counts = channelCounts (tl args) ps in
         Inr (RArray (int (length counts) * 2) # concat (map (\<lambda>(ch, n). [RBulk ch, RInt n]) counts)))
      else if map to_upper (args ! 0) = ascii ''NUMPAT'' then Inr [RInt (int (patternCount ps))]
      else Inl ErrSyntax)"

section \<open>What the registry reports\<close>

text \<open>A history of the registry.\<close>

datatype event = Subscribed bytes bool | Unsubscribed bytes bool

fun record_event :: "event \<Rightarrow> pubsub \<Rightarrow> pubsub" where
  "record_event (Subscribed ch p) ps = subscribe ch p ps"
| "record_event (Unsubscribed ch p) ps = unsubscribeCount ch p ps"

text \<open>How many more subscriptions than cancellations a name has had, never counting below zero.\<close>

fun balance :: "bytes \<Rightarrow> bool \<Rightarrow> event list \<Rightarrow> int" where
  "balance ch p [] = 0"
| "balance ch p (e # es) =
     (if e = Subscribed ch p then balance ch p es + 1
      else if e = Unsubscribed ch p then max 0 (balance ch p es - 1) else balance ch p es)"

definition counts_ok :: "(bytes \<times> int) list \<Rightarrow> (bytes \<Rightarrow> int) \<Rightarrow> bool" where
  "counts_ok m f \<longleftrightarrow> distinct (map fst m) \<and> (\<forall>ch. countOf m ch = f ch \<and> (ch \<in> fst ` set m \<longleftrightarrow> f ch > 0))"

lemma countOf_update: "countOf (AList.update ch n m) x = (if x = ch then n else countOf m x)"
  by (simp add: countOf_def update_conv')

lemma countOf_delete: "countOf (AList.delete ch m) x = (if x = ch then 0 else countOf m x)"
  by (simp add: countOf_def delete_conv')

lemma counts_ok_nonneg: "counts_ok m f \<Longrightarrow> 0 \<le> f ch"
  unfolding counts_ok_def countOf_def by (metis map_of_eq_None_iff option.case(1) order.order_iff_strict order_refl)

lemma counts_ok_bump: "counts_ok m f \<Longrightarrow> counts_ok (bump ch m) (f(ch := f ch + 1))"
  using counts_ok_nonneg[of m f ch] by (auto simp: counts_ok_def bump_def countOf_update distinct_update update_conv' dom_map_of_conv_image_fst[symmetric])

lemma counts_ok_drop1: "counts_ok m f \<Longrightarrow> counts_ok (drop1 ch m) (f(ch := max 0 (f ch - 1)))"
  using counts_ok_nonneg[of m f ch]
  by (auto simp: counts_ok_def drop1_def countOf_update countOf_delete distinct_update distinct_delete update_conv' delete_conv' dom_map_of_conv_image_fst[symmetric])

lemma registry_counts:
  "counts_ok (ps_channels (foldr record_event es newPubSub)) (\<lambda>ch. balance ch False es) \<and>
   counts_ok (ps_patterns (foldr record_event es newPubSub)) (\<lambda>ch. balance ch True es)"
proof (induction es)
  case Nil
  show ?case by (simp add: newPubSub_def counts_ok_def countOf_def)
next
  case (Cons e es)
  have upd: "(\<lambda>x. if e = Subscribed x p then f x + 1 else if e = Unsubscribed x p then max 0 (f x - 1) else f x) =
      (case e of Subscribed ch q \<Rightarrow> if q = p then f(ch := f ch + 1) else f
       | Unsubscribed ch q \<Rightarrow> if q = p then f(ch := max 0 (f ch - 1)) else f)" for p and f :: "bytes \<Rightarrow> int"
    by (auto simp: fun_eq_iff split: event.split)
  note step = counts_ok_bump[where f = "\<lambda>ch. balance ch p es" for p] counts_ok_drop1[where f = "\<lambda>ch. balance ch p es" for p]
  show ?case using Cons unfolding balance.simps upd
    by (auto simp: subscribe_def unsubscribeCount_def step split: event.split)
qed

text \<open>C40: The registry reports its history. After any sequence of subscriptions and cancellations \<open>PUBSUB NUMSUB\<close> gives the
  balance of each channel asked for, in the order asked; \<open>PUBSUB CHANNELS\<close> lists, in order and once each, exactly
  the channels with a positive balance that fit the pattern; and \<open>PUBSUB NUMPAT\<close> is the number of patterns with a
  positive balance.\<close>

theorem registry_reports:
  "channelCounts chs (foldr record_event es newPubSub) = map (\<lambda>ch. (ch, balance ch False es)) chs \<and>
   sorted (channelNames pattern (foldr record_event es newPubSub)) \<and>
   distinct (channelNames pattern (foldr record_event es newPubSub)) \<and>
   set (channelNames pattern (foldr record_event es newPubSub)) = {ch. balance ch False es > 0 \<and> globMatch pattern ch} \<and>
   patternCount (foldr record_event es newPubSub) = card {ch. balance ch True es > 0}"
proof -
  let ?ps = "foldr record_event es newPubSub"
  have c: "counts_ok (ps_channels ?ps) (\<lambda>ch. balance ch False es)" and p: "counts_ok (ps_patterns ?ps) (\<lambda>ch. balance ch True es)"
    using registry_counts by blast+
  have "fst ` set (ps_patterns ?ps) = {ch. balance ch True es > 0}" "distinct (map fst (ps_patterns ?ps))"
    using p by (auto simp: counts_ok_def)
  then have "patternCount ?ps = card {ch. balance ch True es > 0}"
    by (metis patternCount_def distinct_card length_map list.set_map)
  moreover have "set (channelNames pattern ?ps) = {ch. balance ch False es > 0 \<and> globMatch pattern ch}"
    using c by (auto simp: channelNames_def counts_ok_def globMatch_def)
  ultimately show ?thesis using c by (simp add: channelCounts_def channelNames_def counts_ok_def)
qed

text \<open>A client that never subscribed can cancel the subscription of another one in the registry.\<close>

lemma unsubscribe_of_others:
  "countOf (ps_channels (snd (unsubscribeCmd [ch] False (subscribe ch False newPubSub)))) ch = 0"
  by (simp add: unsubscribeCmd_def unsubscribeCount_def subscribe_def newPubSub_def bump_def drop1_def countOf_def)

text \<open>\<open>PUBLISH\<close> in a transaction reaches nobody.\<close>

lemma publish_in_exec: "length args = 2 \<Longrightarrow> cmdPublish pub False nm args = Inr [RInt 0]"
  by (simp add: cmdPublish_def checkArgLen_def)

end
