(* ===== verification/Info.thy ===== *)
theory Info
  imports Admin
begin

text \<open>
  The introspection commands of \<open>cmd_server.go\<close>: the text of \<open>INFO\<close>, \<open>SAVE\<close>, \<open>BGSAVE\<close>, \<open>LASTSAVE\<close> and \<open>TIME\<close>, and
  \<open>SHUTDOWN\<close> of \<open>admin.go\<close>. What the process knows and the store does not (the uptime, the block cache, the size
  on disk) is the record \<open>gauges\<close>; flushing the memtables is a call of the storage library.
\<close>

section \<open>Sizes\<close>

text \<open>The loop of \<open>humanBytes\<close>: the divisor and the index of the unit.\<close>

fun unitLoop :: "nat \<Rightarrow> nat \<Rightarrow> nat \<Rightarrow> nat \<times> nat" where
  "unitLoop i dv ex = (if i \<ge> 1024 \<and> ex < 5 then unitLoop (i div 1024) (dv * 1024) (ex + 1) else (dv, ex))"

declare unitLoop.simps [simp del]

text \<open>\<open>"%.2f"\<close> of a non-negative double over a power of two, which is exact; ties go to the even digit.\<close>

definition hundredths :: "f64 \<Rightarrow> nat \<Rightarrow> nat" where
  "hundredths x dv = div_even (nat (f64_scaled x) * 100) (2 ^ 1074 * dv)"

definition fixed2 :: "nat \<Rightarrow> bytes" where
  "fixed2 h = nat_digits (h div 100) @ [46] @ nat_digits (h mod 100 div 10) @ nat_digits (h mod 10)"

definition unitNames :: "bytes" where "unitNames = ascii ''KMGTP''"

text \<open>Indexing the unit names past their end panics.\<close>

definition humanBytes :: "64 word \<Rightarrow> goerr + bytes" where
  "humanBytes n =
     (if unat n < 1024 then Inr (format_uint (unat n) @ ascii ''B'')
      else let (dv, ex) = unitLoop (unat n div 1024) 1024 0 in
           if ex < length unitNames then Inr (fixed2 (hundredths (f64_of_int (uint n)) dv) @ [unitNames ! ex] @ ascii ''B'')
           else Inl GoPanic)"

section \<open>INFO\<close>

record gauges =
  g_uptime :: int
  g_blockCache :: int
  g_diskUsage :: nat
  g_lastSave :: int
  g_commands :: int

definition crlf :: bytes where "crlf = [13, 10]"

definition pebbisVersion :: string where "pebbisVersion = ''0.1.0''"

definition field :: "string \<Rightarrow> bytes \<Rightarrow> bytes" where
  "field nm v = ascii nm @ ascii '':'' @ v @ crlf"

definition serverSection :: "gauges \<Rightarrow> 'e Store \<Rightarrow> bytes" where
  "serverSection g s = ascii ''# Server'' @ crlf @ field ''pebbis_version'' (ascii pebbisVersion) @ field ''redis_mode'' (ascii ''standalone'')
     @ field ''databases'' (format_uint (d_dbCount (s_dict s))) @ field ''uptime_in_seconds'' (format_int (g_uptime g)) @ crlf"

definition clientsSection :: bytes where
  "clientsSection = ascii ''# Clients'' @ crlf @ field ''connected_clients'' (ascii ''0'') @ crlf"

definition memorySection :: "gauges \<Rightarrow> Config \<Rightarrow> 'e Store \<Rightarrow> goerr + bytes" where
  "memorySection g c s =
     (case humanBytes (word_of_int (d_used (s_dict s))) of
        Inl err \<Rightarrow> Inl err
      | Inr used \<Rightarrow>
          (case humanBytes (MaxMemory c) of
             Inl err \<Rightarrow> Inl err
           | Inr mx \<Rightarrow>
               Inr (ascii ''# Memory'' @ crlf @ field ''used_memory'' (format_int (d_used (s_dict s))) @ field ''used_memory_human'' used
                 @ field ''maxmemory'' (format_uint (unat (MaxMemory c))) @ field ''maxmemory_human'' mx
                 @ field ''maxmemory_policy'' (ascii (EvictionPolicy c)) @ field ''block_cache_memory'' (format_int (g_blockCache g)) @ crlf)))"

definition persistenceSection :: "gauges \<Rightarrow> bytes" where
  "persistenceSection g = ascii ''# Persistence'' @ crlf @ field ''storage_engine'' (ascii ''pebble'')
     @ field ''disk_usage'' (format_uint (g_diskUsage g)) @ field ''rdb_last_save_time'' (format_int (g_lastSave g)) @ crlf"

definition statsSection :: "gauges \<Rightarrow> 'e Store \<Rightarrow> bytes" where
  "statsSection g s = ascii ''# Stats'' @ crlf @ field ''keyspace_hits'' (format_int (s_hits s)) @ field ''keyspace_misses'' (format_int (s_misses s))
     @ field ''expired_keys'' (format_int (wrap64 (s_expired s + s_reaped s))) @ field ''evicted_keys'' (format_int (s_evicted s))
     @ field ''total_commands_processed'' (format_int (g_commands g)) @ crlf"

definition dbLine :: "'e Store \<Rightarrow> nat \<Rightarrow> bytes" where
  "dbLine s db =
     (let keys = Len (word_of_nat db) (s_dict s) in
      if keys = 0 then []
      else ascii ''db'' @ format_uint db @ ascii '':keys='' @ format_uint keys @ ascii '',expires=0,avg_ttl=0'' @ crlf)"

definition keyspaceSection :: "'e Store \<Rightarrow> bytes" where
  "keyspaceSection s = ascii ''# Keyspace'' @ crlf @ concat (map (dbLine s) [0..<d_dbCount (s_dict s)]) @ crlf"

definition cmdInfo :: "gauges \<Rightarrow> Config \<Rightarrow> bytes list \<Rightarrow> 'e handler" where
  "cmdInfo g c args s =
     (if length args > 1 then (Inl ErrSyntax, s)
      else
        let sec = (if length args = 1 then map to_lower (args ! 0) else ascii ''default'');
            want = (\<lambda>nm. sec = ascii ''default'' \<or> sec = ascii ''all'' \<or> sec = ascii nm);
            part = (\<lambda>nm t. if want nm then t else [])
        in bindS (if want ''memory'' then memorySection g c s else Inr []) s (\<lambda>mem.
             (Inr [RBulk (part ''server'' (serverSection g s) @ part ''clients'' clientsSection @ mem
                @ part ''persistence'' (persistenceSection g) @ part ''stats'' (statsSection g s)
                @ part ''keyspace'' (keyspaceSection s))], s)))"

text \<open>\<open>cmdInfoClients\<close> of \<open>admin.go\<close> renders the connection count; nothing calls it.\<close>

definition writeIntField :: "bytes \<Rightarrow> string \<Rightarrow> int \<Rightarrow> bytes" where
  "writeIntField b nm v = b @ ascii nm @ ascii '':'' @ format_int v @ crlf"

definition cmdInfoClients :: "int \<Rightarrow> bytes" where
  "cmdInfoClients conns = writeIntField (ascii ''# Clients'' @ crlf) ''connected_clients'' conns"

text \<open>\<open>INFO clients\<close> reports no client, however many are connected.\<close>

lemma info_reports_no_clients:
  "cmdInfo g c [ascii ''clients''] s = (Inr [RBulk (cmdInfoClients 0 @ crlf)], s)"
proof -
  have "map to_lower (ascii ''clients'') = ascii ''clients''" "format_int 0 = ascii ''0''" by code_simp+
  then show ?thesis
    by (simp add: cmdInfo_def Let_def bindS_def clientsSection_def cmdInfoClients_def writeIntField_def field_def ascii_def)
qed

section \<open>Saving and stopping\<close>

text \<open>\<open>Engine.Flush\<close>.\<close>

definition eng_Flush :: "('e \<Rightarrow> goerr option \<times> 'e) \<Rightarrow> 'e Store \<Rightarrow> (goerr, unit, 'e Store) res" where
  "eng_Flush fl s = (case fl (s_eng s) of (Some err, e') \<Rightarrow> (Inl err, s\<lparr>s_eng := e'\<rparr>) | (None, e') \<Rightarrow> (Inr (), s\<lparr>s_eng := e'\<rparr>))"

text \<open>\<open>SAVE\<close> returns the time it records, \<open>SHUTDOWN\<close> asks the process to stop.\<close>

definition cmdSave :: "('e \<Rightarrow> goerr option \<times> 'e) \<Rightarrow> int \<Rightarrow> 'e Store \<Rightarrow> (goerr, reply list \<times> int, 'e Store) res" where
  "cmdSave fl secs s = bindE (eng_Flush fl s) (\<lambda>_ s1. (Inr (writeOK, secs), s1))"

definition cmdLastSave :: "int \<Rightarrow> reply list" where
  "cmdLastSave at = [RInt at]"

definition cmdTime :: "int \<Rightarrow> reply list" where
  "cmdTime wall =
     (let us = wall div 1000
      in [RArray 2, RBulk (format_int (wall div 1000000000)), RBulk (format_int (us - 1000000 * go_div us 1000000))])"

definition cmdShutdown :: "('e \<Rightarrow> goerr option \<times> 'e) \<Rightarrow> bytes list \<Rightarrow> 'e handler" where
  "cmdShutdown fl args s =
     (if length args > 1 then (Inl ErrSyntax, s) else bindE (eng_Flush fl s) (\<lambda>_ s1. (Inr [RNull], s1)))"

section \<open>Units\<close>

lemma unitLoop_spec:
  assumes "i * dv \<le> n" "n < (i + 1) * dv" "dv = 1024 ^ Suc ex" "0 < i" "unitLoop i dv ex = (dv', ex')" "ex \<le> 5"
  shows "dv' = 1024 ^ Suc ex' \<and> dv' \<le> n \<and> ex' \<le> 5 \<and> (n < 1024 * dv' \<or> ex' = 5)"
  using assms
proof (induction i dv ex rule: unitLoop.induct)
  case (1 i dv ex)
  show ?case
  proof (cases "i \<ge> 1024 \<and> ex < 5")
    case True
    have "i div 1024 * 1024 \<le> i" "i < (i div 1024 + 1) * 1024" by simp_all
    then have lo: "i div 1024 * (dv * 1024) \<le> i * dv" and hi: "(i + 1) * dv \<le> (i div 1024 + 1) * (dv * 1024)"
      by (metis mult.assoc mult.commute mult_le_mono1) (metis Suc_eq_plus1 Suc_leI \<open>i < (i div 1024 + 1) * 1024\<close> mult.assoc mult.commute mult_le_mono1)
    have "unitLoop (i div 1024) (dv * 1024) (ex + 1) = (dv', ex')" using 1(6) True by (simp add: unitLoop.simps[of i])
    moreover have "i div 1024 * (dv * 1024) \<le> n" "n < (i div 1024 + 1) * (dv * 1024)" using 1(2,3) lo hi by linarith+
    moreover have "dv * 1024 = 1024 ^ Suc (ex + 1)" using 1(4) by simp
    moreover have "0 < i div 1024" "ex + 1 \<le> 5" using True by (auto simp: div_greater_zero_iff)
    ultimately show ?thesis using 1(1)[OF True] by blast
  next
    case False
    then have "dv' = dv" "ex' = ex" using 1(6) by (auto simp: unitLoop.simps[of i])
    moreover have "dv \<le> n" using 1(2,5) by (metis Suc_leI le_trans mult.commute mult_le_mono2 mult.right_neutral One_nat_def)
    moreover have "n < 1024 * dv \<or> ex = 5"
    proof (cases "ex = 5")
      case no: False
      then have "i + 1 \<le> 1024" using False 1(7) by auto
      then have "(i + 1) * dv \<le> 1024 * dv" by (rule mult_le_mono1)
      then show ?thesis using 1(3) by linarith
    qed simp
    ultimately show ?thesis using 1(4,7) by blast
  qed
qed

lemma unitLoop_start:
  assumes "1024 \<le> n" "unitLoop (n div 1024) 1024 0 = (dv, ex)"
  shows "dv = 1024 ^ Suc ex \<and> dv \<le> n \<and> ex \<le> 5 \<and> (n < 1024 * dv \<or> ex = 5)"
proof (rule unitLoop_spec[OF _ _ _ _ assms(2)])
  show "n div 1024 * 1024 \<le> n" by simp
  show "n < (n div 1024 + 1) * 1024" by simp
qed (use assms(1) in \<open>simp_all add: div_greater_zero_iff\<close>)

text \<open>The size of a count of bytes in \<open>INFO\<close>. Below \<open>2\<^sup>60\<close> the unit is the one whose multiple \<open>n\<close> lies between 1 and 1024,
  with two decimals of the quotient; from \<open>2\<^sup>60\<close> on the code runs past the last unit name and panics.\<close>

theorem human_bytes_bounds:
  "(humanBytes n = Inl GoPanic \<longleftrightarrow> 2 ^ 60 \<le> unat n) \<and>
   (1024 \<le> unat n \<and> unat n < 2 ^ 60 \<longrightarrow> (\<exists>ex < 5. 1024 ^ Suc ex \<le> unat n \<and> unat n < 1024 ^ Suc (Suc ex) \<and>
     humanBytes n = Inr (fixed2 (hundredths (f64_of_int (uint n)) (1024 ^ Suc ex)) @ [ascii ''KMGTP'' ! ex] @ ascii ''B'')))"
proof (cases "unat n < 1024")
  case True
  then have "\<not> 2 ^ 60 \<le> unat n" by simp
  then show ?thesis using True by (simp add: humanBytes_def)
next
  case False
  obtain dv ex where u: "unitLoop (unat n div 1024) 1024 0 = (dv, ex)" by fastforce
  then have d: "dv = 1024 ^ Suc ex" "dv \<le> unat n" "ex \<le> 5" "unat n < 1024 * dv \<or> ex = 5"
    using unitLoop_start[OF _ u] False by (blast intro: leI)+
  have five: "ex = 5 \<longleftrightarrow> 2 ^ 60 \<le> unat n"
  proof
    assume "2 ^ 60 \<le> unat n"
    moreover have "1024 * dv \<le> 2 ^ 60" if "ex \<noteq> 5"
    proof -
      have "(1024::nat) ^ Suc (Suc ex) \<le> 1024 ^ 6" using d(3) that by (intro power_increasing) auto
      then show ?thesis by (simp add: d(1))
    qed
    ultimately show "ex = 5" using d(4) by fastforce
  qed (use d in simp)
  have len: "length unitNames = 5" by (simp add: unitNames_def ascii_def)
  have h: "humanBytes n = (if ex < 5 then Inr (fixed2 (hundredths (f64_of_int (uint n)) dv) @ [unitNames ! ex] @ ascii ''B'') else Inl GoPanic)"
    using False by (simp add: humanBytes_def u len)
  show ?thesis using five d h by (auto simp: unitNames_def)
qed

theorem human_bytes_bounds_witness:
  "humanBytes (2 ^ 60) = Inl GoPanic \<and>
   (\<exists>ex < 5. 1024 ^ Suc ex \<le> unat (1536 :: 64 word) \<and> unat (1536 :: 64 word) < 1024 ^ Suc (Suc ex) \<and>
     humanBytes 1536 = Inr (fixed2 (hundredths (f64_of_int (uint (1536 :: 64 word))) (1024 ^ Suc ex)) @ [ascii ''KMGTP'' ! ex] @ ascii ''B''))"
proof -
  have "unat (2 ^ 60 :: 64 word) = 2 ^ 60" "unat (1536 :: 64 word) = 1536" by simp_all
  then show ?thesis using human_bytes_bounds[of "2 ^ 60"] human_bytes_bounds[of 1536] by auto
qed

end
