(* ===== verification/Server.thy ===== *)
theory Server
  imports Locks Admin Strings Lists Hashes Sets ZOps Bits Sort Counters PubSub Info
begin

text \<open>
  The serving layer: the dispatch table (\<open>dispatch.go\<close>), the per-connection state and the request loop
  (\<open>server.go\<close>), the connection commands (\<open>cmd_conn.go\<close>), authentication and transactions (\<open>txn.go\<close>).
  The table calls its handlers through function values; here \<open>handlerOf\<close> gives them. A blocking command
  that finds nothing and may sleep goes on as the parameter \<open>fb\<close> of the functions that dispatch: what it replies then
  depends on the other clients (the subject of \<open>Blocking\<close>).
  One call of \<open>handle\<close> is one request; the locks it takes are the subject of \<open>Locks\<close>.
\<close>

section \<open>State\<close>

text \<open>The three maps of \<open>WATCH\<close> are made together; \<open>None\<close> is a nil map.\<close>

record connState =
  cs_ID :: int
  cs_Addr :: bytes
  cs_Name :: bytes
  cs_db :: dbid
  cs_authed :: bool
  cs_inTxn :: bool
  cs_queue :: "bytes list list"
  cs_watched :: "(bytes \<times> 64 word) list"
  cs_watchedExpiry :: "(bytes \<times> int) list option"
  cs_watchedStale :: "(bytes \<times> bool) list option"
  cs_dirtyTxn :: bool

record 'e Server =
  sv_store :: "'e Store"
  sv_cursors :: scanCursorTable
  sv_cfg :: Config
  sv_slow :: SlowLog
  sv_commands :: int
  sv_activeExpire :: bool
  sv_ps :: pubsub
  sv_lastSave :: int
  sv_shutdown :: bool

text \<open>The context of one command (\<open>Ctx\<close>; the commands of a transaction have \<open>noBlock\<close> and no connection), and what a
  run takes from outside: the storage library with its merge and flush calls, the clock and hash of the environment,
  random draws, the wall clock in nanoseconds and in seconds, the duration of the command in microseconds, the
  reader of \<open>big.Float\<close> texts, the figures of \<open>INFO\<close>, and the delivery of messages.\<close>

record ctx =
  c_DB :: dbid
  c_Name :: string
  c_maxBulk :: int
  c_noBlock :: bool

record 'e world =
  w_P :: "'e pebble"
  w_E :: Env
  w_drs :: "nat \<Rightarrow> Draws"
  w_rnd :: "nat \<Rightarrow> nat"
  w_perm :: "nat \<Rightarrow> nat list"
  w_wall :: int
  w_secs :: int
  w_us :: int
  w_mg :: "'e merging"
  w_flush :: "'e \<Rightarrow> goerr option \<times> 'e"
  w_rd :: "bytes \<Rightarrow> bigf option"
  w_gauges :: gauges
  w_confirm :: "bytes \<Rightarrow> bool \<Rightarrow> reply list"
  w_pub :: "bytes \<Rightarrow> bytes \<Rightarrow> int"

definition envOf :: "'e world \<Rightarrow> 'e Server \<Rightarrow> Env" where
  "envOf W sv = (w_E W)\<lparr>env_cfg := sv_cfg sv\<rparr>"

text \<open>A handler writes replies, may return an error, may change the database of its context, the
  connection and the server.\<close>

type_synonym 'e cmdres = "(reply list \<times> goerr option) \<times> dbid \<times> connState \<times> 'e Server"
type_synonym 'e cmdfn = "ctx \<Rightarrow> bytes list \<Rightarrow> connState \<Rightarrow> 'e Server \<Rightarrow> 'e cmdres"

definition written :: "goerr + reply list \<Rightarrow> reply list \<times> goerr option" where
  "written r = (case r of Inl err \<Rightarrow> ([], Some err) | Inr rs \<Rightarrow> (rs, None))"

definition onStore :: "('e pebble \<Rightarrow> Env \<Rightarrow> dbid \<Rightarrow> string \<Rightarrow> bytes list \<Rightarrow> 'e handler) \<Rightarrow> 'e world \<Rightarrow> 'e cmdfn" where
  "onStore h W c args cs sv =
     (case h (w_P W) (envOf W sv) (c_DB c) (c_Name c) args (sv_store sv) of
        (r, s) \<Rightarrow> (written r, c_DB c, cs, sv\<lparr>sv_store := s\<rparr>))"

section \<open>Connection commands\<close>

definition arityErr :: "string \<Rightarrow> bytes list \<Rightarrow> int \<Rightarrow> (goerr + 'a) \<Rightarrow> goerr + 'a" where
  "arityErr nm args arity k = (case checkArgLen nm (length args) arity of Some err \<Rightarrow> Inl err | None \<Rightarrow> k)"

definition cmdPing :: "'e cmdfn" where
  "cmdPing c args cs sv =
     (written (if args = [] then Inr [RString ''PONG'']
               else if length args > 1 then Inl (WrongArgs ''ping'') else Inr [RBulk (args ! 0)]), c_DB c, cs, sv)"

definition cmdEcho :: "'e cmdfn" where
  "cmdEcho c args cs sv = (written (arityErr (c_Name c) args 1 (Inr [RBulk (args ! 0)])), c_DB c, cs, sv)"

definition cmdSelect :: "'e cmdfn" where
  "cmdSelect c args cs sv =
     (case arityErr (c_Name c) args 1 (toInt64 (args ! 0)) of
        Inl err \<Rightarrow> (([], Some err), c_DB c, cs, sv)
      | Inr idx \<Rightarrow>
          if idx < 0 \<or> idx \<ge> int (d_dbCount (s_dict (sv_store sv))) then (([], Some ErrDBIndex), c_DB c, cs, sv)
          else ((writeOK, None), word_of_int idx, cs, sv))"

definition cmdQuit :: "'e cmdfn" where
  "cmdQuit c args cs sv =
     (case arityErr (c_Name c) args 0 (Inr ()) of
        Inl err \<Rightarrow> (([], Some err), c_DB c, cs, sv) | Inr _ \<Rightarrow> ((writeOK, Some ErrQuit), c_DB c, cs, sv))"

definition cmdHello :: "'e cmdfn" where
  "cmdHello c args cs sv =
     (written (if args \<noteq> [] \<and> map to_lower (hd args) = ascii ''3'' then Inl (ProtoError ''NOPROTO unsupported protocol version'')
               else Inr [RArray 4, RBulk (ascii ''server''), RBulk (ascii ''pebbis''), RBulk (ascii ''proto''), RInt 2]),
      c_DB c, cs, sv)"

section \<open>The dispatch table\<close>

text \<open>Name, arity (counting the name; negative means at least) and whether it writes.\<close>

definition commandTable :: "(string \<times> int \<times> bool) list" where
  "commandTable = [
    (''PING'', -1, False), (''ECHO'', 2, False), (''SELECT'', 2, False), (''QUIT'', 1, False),
    (''COMMAND'', -1, False), (''HELLO'', -1, False), (''GET'', 2, False), (''SET'', -3, True),
    (''SETNX'', 3, True), (''SETXX'', 3, True), (''SETEX'', 4, True), (''PSETEX'', 4, True),
    (''GETSET'', 3, True), (''GETDEL'', 2, True), (''GETEX'', -2, True), (''DELEX'', -2, True),
    (''SETBIT'', 3, True), (''GETBIT'', 2, False), (''BITCOUNT'', -2, False), (''BITPOS'', -2, False),
    (''BITOP'', -3, True), (''MSET'', -3, True), (''MSETNX'', -3, True), (''MGET'', -2, False),
    (''APPEND'', 3, True), (''STRLEN'', 2, False), (''INCR'', 2, True), (''DECR'', 2, True),
    (''INCRBY'', 3, True), (''DECRBY'', 3, True), (''GETRANGE'', 4, False), (''SETRANGE'', 4, True),
    (''SUBSTR'', 4, False), (''DEL'', -2, True), (''UNLINK'', -2, True), (''EXISTS'', -2, False),
    (''TYPE'', 2, False), (''TTL'', 2, False), (''PTTL'', 2, False), (''EXPIRE'', -3, True),
    (''PEXPIRE'', -3, True), (''EXPIREAT'', -3, True), (''PEXPIREAT'', -3, True), (''PERSIST'', 2, True),
    (''KEYS'', 2, False), (''DBSIZE'', 1, False), (''FLUSHDB'', -1, True), (''FLUSHALL'', -1, True),
    (''RENAME'', 3, True), (''RENAMENX'', 3, True), (''SCAN'', -2, False), (''TOUCH'', -2, False),
    (''HSET'', -4, True), (''HSETNX'', 4, True), (''HGET'', 3, False), (''HDEL'', -3, True),
    (''HEXISTS'', 3, False), (''HLEN'', 2, False), (''HKEYS'', 2, False), (''HVALS'', 2, False),
    (''HGETALL'', 2, False), (''HMGET'', -3, False), (''HMSET'', -4, True), (''HINCRBY'', 4, True),
    (''HINCRBYFLOAT'', 4, True), (''HSCAN'', -3, False), (''HSTRLEN'', 3, False), (''HRANDFIELD'', -2, False),
    (''LPUSH'', -3, True), (''RPUSH'', -3, True), (''LPUSHX'', -3, True), (''RPUSHX'', -3, True),
    (''LPOP'', -2, True), (''RPOP'', -2, True), (''LRANGE'', 4, False), (''LLEN'', 2, False),
    (''LINDEX'', 3, False), (''LSET'', 4, True), (''LREM'', 4, True), (''LTRIM'', 4, True),
    (''BLPOP'', -3, True), (''BRPOP'', -3, True), (''BRPOPLPUSH'', 4, True), (''RPOPLPUSH'', 3, True),
    (''SADD'', -3, True), (''SREM'', -3, True), (''SMEMBERS'', 2, False), (''SISMEMBER'', 3, False),
    (''SMISMEMBER'', -3, False), (''SCARD'', 2, False), (''SMOVE'', 4, True), (''SPOP'', -2, True),
    (''SRANDMEMBER'', -2, False), (''SUNION'', -2, False), (''SINTER'', -2, False), (''SDIFF'', -2, False),
    (''SUNIONSTORE'', -3, True), (''SINTERSTORE'', -3, True), (''SDIFFSTORE'', -3, True),
    (''SINTERCARD'', -3, False), (''SSCAN'', -3, False), (''ZADD'', -4, True), (''ZREM'', -3, True),
    (''ZSCORE'', 3, False), (''ZSCAN'', -3, False), (''ZMSCORE'', -3, False), (''ZCARD'', 2, False),
    (''ZRANK'', 3, False), (''ZREVRANK'', 3, False), (''ZINCRBY'', 4, True), (''ZRANGE'', -4, False),
    (''ZREVRANGE'', -4, False), (''ZRANGEBYSCORE'', -4, False), (''ZREVRANGEBYSCORE'', -4, False),
    (''ZCOUNT'', 4, False), (''ZPOPMIN'', -2, True), (''ZPOPMAX'', -2, True), (''ZREMRANGEBYRANK'', 4, True),
    (''ZREMRANGEBYSCORE'', 4, True), (''MULTI'', 1, False), (''EXEC'', 1, False), (''DISCARD'', 1, False),
    (''WATCH'', -2, False), (''UNWATCH'', 1, False), (''SUBSCRIBE'', -2, False), (''PSUBSCRIBE'', -2, False),
    (''UNSUBSCRIBE'', -1, False), (''PUNSUBSCRIBE'', -1, False), (''PUBLISH'', 3, False),
    (''PUBSUB'', -2, False), (''ZLEXCOUNT'', 4, False), (''ZRANGEBYLEX'', -4, False),
    (''ZREVRANGEBYLEX'', -4, False), (''ZREMRANGEBYLEX'', 4, True), (''ZUNION'', -3, False),
    (''ZINTER'', -3, False), (''ZDIFF'', -3, False), (''ZUNIONSTORE'', -4, True), (''ZINTERSTORE'', -4, True),
    (''ZDIFFSTORE'', -4, True), (''ZRANGESTORE'', -5, True), (''ZRANDMEMBER'', -2, False),
    (''ZMPOP'', -4, True), (''BZPOPMIN'', -3, True), (''BZPOPMAX'', -3, True), (''BZMPOP'', -5, True),
    (''LMOVE'', 5, True), (''BLMOVE'', 6, True), (''LPOS'', -3, False), (''LINSERT'', 5, True),
    (''LMPOP'', -4, True), (''BLMPOP'', -5, True), (''COPY'', -3, True), (''MOVE'', 3, True),
    (''SWAPDB'', 3, True), (''RANDOMKEY'', 1, False), (''EXPIRETIME'', 2, False), (''PEXPIRETIME'', 2, False),
    (''INCRBYFLOAT'', 3, True), (''LCS'', -3, False), (''XADD'', -5, True), (''XLEN'', 2, False),
    (''XRANGE'', -4, False), (''XREVRANGE'', -4, False), (''XREAD'', -4, False), (''XDEL'', -3, True),
    (''XTRIM'', -4, True), (''XGROUP'', -2, True), (''XREADGROUP'', -7, True), (''XACK'', -4, True),
    (''XPENDING'', -2, False), (''XCLAIM'', -6, True), (''XINFO'', -2, False), (''AUTH'', -2, False),
    (''INFO'', -1, False), (''CONFIG'', -2, False), (''DEBUG'', -1, False), (''SORT'', -2, True),
    (''SORT_RO'', -2, False), (''SAVE'', 1, False), (''BGSAVE'', 1, False), (''LASTSAVE'', 1, False),
    (''TIME'', 1, False), (''MEMORY'', -2, False), (''SLOWLOG'', -2, False), (''CLIENT'', -2, False),
    (''OBJECT'', -3, False), (''SHUTDOWN'', -1, False)]"

definition commandNames :: "bytes list" where
  "commandNames = sort (map (\<lambda>r. ascii (fst r)) commandTable)"

definition cmdCommand :: "'e cmdfn" where
  "cmdCommand c args cs sv =
     (written (Inr (if args = [] then [RArray 0]
                    else if map to_lower (hd args) = ascii ''count'' then [RInt (int (length commandTable))]
                    else if map to_lower (hd args) = ascii ''list'' then replyArray commandNames
                    else [RArray 0])), c_DB c, cs, sv)"

definition validateQueued :: "string \<Rightarrow> nat \<Rightarrow> goerr option" where
  "validateQueued name argc =
     (case map_of commandTable name of
        None \<Rightarrow> Some (UnknownCommand name)
      | Some (arity, _) \<Rightarrow>
          if arity \<ge> 0 then (if int argc \<noteq> arity then Some (WrongArgs name) else None)
          else if int argc < - arity then Some (WrongArgs name) else None)"

definition blockingCmds :: "string list" where
  "blockingCmds = [''BLPOP'', ''BRPOP'', ''BRPOPLPUSH'', ''BLMOVE'', ''BLMPOP'', ''BZPOPMIN'', ''BZPOPMAX'', ''BZMPOP'']"

definition lockFreeCmds :: "string list" where
  "lockFreeCmds = [''INCR'', ''DECR'', ''INCRBY'', ''DECRBY'', ''INCRBYFLOAT'']"

section \<open>Authentication and clients\<close>

definition requiresAuth :: "Config \<Rightarrow> bool" where "requiresAuth c \<longleftrightarrow> RequirePass c \<noteq> ''''"

definition checkPassword :: "Config \<Rightarrow> string \<Rightarrow> bool" where
  "checkPassword c pass \<longleftrightarrow> RequirePass c \<noteq> '''' \<and> RequirePass c = pass"

definition cmdAuth :: "'e cmdfn" where
  "cmdAuth c args cs sv =
     (if length args < 1 \<or> length args > 2 then (([], Some (WrongArgs ''auth'')), c_DB c, cs, sv)
      else if \<not> requiresAuth (sv_cfg sv) then
        (([], Some (ProtoError ''ERR Client sent AUTH, but no password is set'')), c_DB c, cs, sv)
      else if \<not> checkPassword (sv_cfg sv) (go_string (last args)) then
        (([], Some (ProtoError ''WRONGPASS invalid username-password pair or user is disabled.'')), c_DB c, cs\<lparr>cs_authed := False\<rparr>, sv)
      else ((writeOK, None), c_DB c, cs\<lparr>cs_authed := True\<rparr>, sv))"

definition clientInfo :: "dbid \<Rightarrow> connState \<Rightarrow> bytes" where
  "clientInfo db cs = ascii ''id='' @ format_int (cs_ID cs) @ ascii '' addr='' @ cs_Addr cs @ ascii '' db='' @ format_uint (unat db)
     @ ascii '' name='' @ cs_Name cs @ [10]"

definition cmdClient :: "'e cmdfn" where
  "cmdClient c args cs sv =
     (let ret = (\<lambda>r. (written r, c_DB c, cs, sv)) in
      case args of
        [] \<Rightarrow> ret (Inl (WrongArgs ''client''))
      | sub0 # rest \<Rightarrow>
          let sub = map to_upper sub0 in
          if sub = ascii ''ID'' then ret (Inr [RInt (cs_ID cs)])
          else if sub = ascii ''SETNAME'' then
            (if length args \<noteq> 2 then ret (Inl (WrongArgs ''client''))
             else if list_ex (\<lambda>b. b \<in> {32, 10, 13, 9}) (args ! 1) then
               ret (Inl (ProtoError ''ERR Client names cannot contain spaces, newlines or special characters.''))
             else ((writeOK, None), c_DB c, cs\<lparr>cs_Name := args ! 1\<rparr>, sv))
          else if sub = ascii ''GETNAME'' then
            (if length args \<noteq> 1 then ret (Inl (WrongArgs ''client''))
             else ret (Inr [if cs_Name cs = [] then RNull else RBulk (cs_Name cs)]))
          else if sub = ascii ''INFO'' \<or> sub = ascii ''LIST'' then ret (Inr [RBulk (clientInfo (c_DB c) cs)])
          else if sub = ascii ''SETINFO'' then
            (if length args \<noteq> 3 then ret (Inl (WrongArgs ''client''))
             else if map to_lower (args ! 1) \<in> {ascii ''lib-ver'', ascii ''lib-name''} then ret (Inr writeOK)
             else ret (Inl (ProtoError ''ERR Unrecognized option specified by CLIENT SETINFO'')))
          else ret (Inl (unknownSub ''CLIENT'' sub0)))"

definition cmdDebug :: "'e cmdfn" where
  "cmdDebug c args cs sv =
     (if args = [] then (([], Some (WrongArgs ''debug'')), c_DB c, cs, sv)
      else if map to_upper (args ! 0) = ascii ''SET-ACTIVE-EXPIRE'' then
        (if length args \<noteq> 2 then (([], Some (WrongArgs ''debug set-active-expire'')), c_DB c, cs, sv)
         else (case atoi (args ! 1) of
                 Inr v \<Rightarrow> if v \<noteq> 0 \<and> v \<noteq> 1 then (([], Some ErrSyntax), c_DB c, cs, sv)
                         else ((writeOK, None), c_DB c, cs, sv\<lparr>sv_activeExpire := (v = 1)\<rparr>)
               | Inl err \<Rightarrow> (([], Some ErrSyntax), c_DB c, cs, sv)))
      else (([], Some (ProtoError (''ERR DEBUG subcommand '' @ [CHR 0x27] @ go_string (map to_upper (args ! 0)) @ [CHR 0x27]
                       @ '' is not supported''))), c_DB c, cs, sv))"

section \<open>Transactions\<close>

definition abortTxn :: "connState \<Rightarrow> connState" where
  "abortTxn cs = cs\<lparr>cs_inTxn := False, cs_queue := [], cs_dirtyTxn := False, cs_watched := [],
     cs_watchedExpiry := None, cs_watchedStale := None\<rparr>"

definition cmdMulti :: "'e cmdfn" where
  "cmdMulti c args cs sv =
     (case arityErr (c_Name c) args 0 (Inr ()) of
        Inl err \<Rightarrow> (([], Some err), c_DB c, cs, sv)
      | Inr _ \<Rightarrow>
          if cs_inTxn cs then (([], Some (ProtoError ''ERR MULTI calls can not be nested'')), c_DB c, cs, sv)
          else ((writeOK, None), c_DB c, cs\<lparr>cs_inTxn := True, cs_queue := [], cs_dirtyTxn := False\<rparr>, sv))"

definition cmdDiscard :: "'e cmdfn" where
  "cmdDiscard c args cs sv =
     (case arityErr (c_Name c) args 0 (Inr ()) of
        Inl err \<Rightarrow> (([], Some err), c_DB c, cs, sv)
      | Inr _ \<Rightarrow>
          if \<not> cs_inTxn cs then (([], Some (ProtoError ''ERR DISCARD without MULTI'')), c_DB c, cs, sv)
          else ((writeOK, None), c_DB c, abortTxn cs, sv))"

definition watchOne :: "Env \<Rightarrow> dbid \<Rightarrow> bytes \<Rightarrow> connState \<times> Dict \<Rightarrow> connState \<times> Dict" where
  "watchOne E db key st =
     (let (cs, d) = st in
      if map_of (cs_watched cs) key \<noteq> None then st
      else
        let (e, d') = Lookup E db key d;
            (ver, ex, stale) = (case e of
               None \<Rightarrow> (0, -1, False)
             | Some en \<Rightarrow> (e_version en, e_expireAt en, e_expireAt en > 0 \<and> e_expireAt en \<le> env_now E))
        in (cs\<lparr>cs_watched := cs_watched cs @ [(key, ver)],
              cs_watchedExpiry := Some (AList.update key ex (case cs_watchedExpiry cs of None \<Rightarrow> [] | Some m \<Rightarrow> m)),
              cs_watchedStale := Some (AList.update key stale (case cs_watchedStale cs of None \<Rightarrow> [] | Some m \<Rightarrow> m))\<rparr>, d'))"

definition cmdWatch :: "'e world \<Rightarrow> 'e cmdfn" where
  "cmdWatch W c args cs sv =
     (case arityErr (c_Name c) args (-1) (Inr ()) of
        Inl err \<Rightarrow> (([], Some err), c_DB c, cs, sv)
      | Inr _ \<Rightarrow>
          if cs_inTxn cs then (([], Some (ProtoError ''ERR WATCH inside MULTI is not allowed'')), c_DB c, cs, sv)
          else
            let cs0 = cs\<lparr>cs_watchedExpiry := Some (case cs_watchedExpiry cs of None \<Rightarrow> [] | Some m \<Rightarrow> m),
                         cs_watchedStale := Some (case cs_watchedStale cs of None \<Rightarrow> [] | Some m \<Rightarrow> m)\<rparr>;
                (cs', d') = fold (watchOne (envOf W sv) (c_DB c)) args (cs0, s_dict (sv_store sv))
            in ((writeOK, None), c_DB c, cs', sv\<lparr>sv_store := (sv_store sv)\<lparr>s_dict := d'\<rparr>\<rparr>))"

definition cmdUnwatch :: "'e cmdfn" where
  "cmdUnwatch c args cs sv =
     (case arityErr (c_Name c) args 0 (Inr ()) of
        Inl err \<Rightarrow> (([], Some err), c_DB c, cs, sv)
      | Inr _ \<Rightarrow> ((writeOK, None), c_DB c, cs\<lparr>cs_watched := [], cs_watchedExpiry := None, cs_watchedStale := None\<rparr>, sv))"

text \<open>Whether one watched key counts as modified. The keys are visited in the order of the list; Go's map
  order is arbitrary.\<close>

definition watchBroken :: "Env \<Rightarrow> connState \<Rightarrow> bytes \<Rightarrow> 64 word \<Rightarrow> Entry option \<Rightarrow> bool" where
  "watchBroken E cs key ver e =
     (let we = (case cs_watchedExpiry cs of
                  None \<Rightarrow> -1 | Some m \<Rightarrow> (case map_of m key of None \<Rightarrow> 0 | Some v \<Rightarrow> v));
          stale = (case cs_watchedStale cs of
                     None \<Rightarrow> False | Some m \<Rightarrow> (case map_of m key of None \<Rightarrow> False | Some b \<Rightarrow> b))
      in case e of
           Some en \<Rightarrow> we < 0 \<or> e_version en \<noteq> ver \<or> (\<not> stale \<and> e_expireAt en > 0 \<and> e_expireAt en \<le> env_now E)
         | None \<Rightarrow> we \<ge> 0 \<and> \<not> stale)"

fun checkWatched :: "Env \<Rightarrow> dbid \<Rightarrow> connState \<Rightarrow> (bytes \<times> 64 word) list \<Rightarrow> Dict \<Rightarrow> bool \<times> Dict" where
  "checkWatched E db cs [] d = (False, d)"
| "checkWatched E db cs ((key, ver) # ws) d =
     (let (e, d') = Lookup E db key d in
      if watchBroken E cs key ver e then (True, d') else checkWatched E db cs ws d')"

text \<open>The commands of the queue, run one after the other. \<open>run\<close> is the table. A panic leaves the loop: the
  recovery is in \<open>runCommand\<close>, around \<open>EXEC\<close> as a whole.\<close>

fun execQueue ::
  "'e world \<Rightarrow> (string \<Rightarrow> 'e cmdfn) \<Rightarrow> int \<Rightarrow> bytes list list \<Rightarrow> dbid \<Rightarrow> connState \<Rightarrow> 'e Server \<Rightarrow> 'e cmdres" where
  "execQueue W run maxBulk [] db cs sv = (([], None), db, cs, sv)"
| "execQueue W run maxBulk (line # lines) db cs sv =
     (if line = [] then execQueue W run maxBulk lines db cs sv
      else
        let upper = go_string (map to_upper (hd line)) in
        case map_of commandTable upper of
          None \<Rightarrow>
            (let ((rs, err), rest) = execQueue W run maxBulk lines db cs sv
             in ((RError (UnknownCommand (go_string (map to_lower (hd line)))) # rs, err), rest))
        | Some (_, write) \<Rightarrow>
            if write \<and> memoryFull (sv_cfg sv) (sv_store sv) then
              (let ((rs, err), rest) = execQueue W run maxBulk lines db cs sv in ((RError (OOM upper) # rs, err), rest))
            else
              (case run upper \<lparr>c_DB = db, c_Name = upper, c_maxBulk = maxBulk, c_noBlock = True\<rparr> (tl line) cs sv of
                 ((out, err), db', cs', sv') \<Rightarrow>
                   if err = Some GoPanic then ((out, err), db, cs', sv')
                   else
                     let ((rs, err'), rest) =
                           execQueue W run maxBulk lines (if upper = ''SELECT'' then db' else db) cs' sv'
                     in ((out @ (case err of None \<Rightarrow> [] | Some e \<Rightarrow> [RError e]) @ rs, err'), rest)))"

definition cmdExec :: "'e world \<Rightarrow> (string \<Rightarrow> 'e cmdfn) \<Rightarrow> 'e cmdfn" where
  "cmdExec W run c args cs sv =
     (case arityErr (c_Name c) args 0 (Inr ()) of
        Inl err \<Rightarrow> (([], Some err), c_DB c, cs, sv)
      | Inr _ \<Rightarrow>
          if \<not> cs_inTxn cs then (([], Some (ProtoError ''ERR EXEC without MULTI'')), c_DB c, cs, sv)
          else
            let (abort, d') = checkWatched (envOf W sv) (c_DB c) cs (cs_watched cs) (s_dict (sv_store sv));
                sv1 = sv\<lparr>sv_store := (sv_store sv)\<lparr>s_dict := d'\<rparr>\<rparr>
            in if abort then (([RNull], None), c_DB c, abortTxn cs, sv1)
               else if cs_dirtyTxn cs then
                 (([], Some (ProtoError ''EXECABORT Transaction discarded because of previous errors.'')), c_DB c, abortTxn cs, sv1)
               else
                 let queue = cs_queue cs;
                     cs1 = cs\<lparr>cs_inTxn := False, cs_queue := [], cs_watched := [], cs_dirtyTxn := False\<rparr>
                 in case execQueue W run (c_maxBulk c) queue (c_DB c) cs1 sv1 of
                      ((rs, err), db', cs', sv') \<Rightarrow>
                        ((RArray (int (length queue)) # rs, err),
                         if err = None then db' else c_DB c, if err = None then cs'\<lparr>cs_db := db'\<rparr> else cs', sv'))"

section \<open>The modelled handlers\<close>

definition cmdMGetFn :: "'e world \<Rightarrow> 'e cmdfn" where
  "cmdMGetFn W c args cs sv =
     (case cmdMGet (w_P W) (envOf W sv) (c_DB c) (c_Name c) args (sv_store sv) of
        (r, s) \<Rightarrow> (r, c_DB c, cs, sv\<lparr>sv_store := s\<rparr>))"

definition cmdScanFn :: "'e world \<Rightarrow> 'e cmdfn" where
  "cmdScanFn W c args cs sv =
     (case cmdScan (w_P W) (envOf W sv) (w_wall W) (c_DB c) (c_Name c) args (sv_store sv, sv_cursors sv) of
        (r, s, t) \<Rightarrow> (written r, c_DB c, cs, sv\<lparr>sv_store := s, sv_cursors := t\<rparr>))"

definition cmdConfigFn :: "'e cmdfn" where
  "cmdConfigFn c args cs sv =
     (case cmdConfig (d_dbCount (s_dict (sv_store sv))) args (sv_cfg sv, sv_slow sv) of
        (r, cfg, sl) \<Rightarrow> (written r, c_DB c, cs, sv\<lparr>sv_cfg := cfg, sv_slow := sl\<rparr>))"

definition cmdSlowLogFn :: "'e cmdfn" where
  "cmdSlowLogFn c args cs sv =
     (case cmdSlowLog args (sv_slow sv) of (r, sl) \<Rightarrow> (written r, c_DB c, cs, sv\<lparr>sv_slow := sl\<rparr>))"

definition cmdSortFn :: "('e pebble \<Rightarrow> Env \<Rightarrow> dbid \<Rightarrow> bytes list \<Rightarrow> 'e Store \<Rightarrow> (reply list \<times> goerr option) \<times> 'e Store) \<Rightarrow> 'e world \<Rightarrow> 'e cmdfn" where
  "cmdSortFn f W c args cs sv =
     (case f (w_P W) (envOf W sv) (c_DB c) args (sv_store sv) of (r, s) \<Rightarrow> (r, c_DB c, cs, sv\<lparr>sv_store := s\<rparr>))"

definition subscribeFn :: "bool \<Rightarrow> 'e world \<Rightarrow> 'e cmdfn" where
  "subscribeFn pattern W c args cs sv =
     (case subscribeCmd (w_confirm W) (\<not> c_noBlock c) args pattern (sv_ps sv) of
        (r, ps) \<Rightarrow> (written r, c_DB c, cs, sv\<lparr>sv_ps := ps\<rparr>))"

definition unsubscribeFn :: "bool \<Rightarrow> 'e cmdfn" where
  "unsubscribeFn pattern c args cs sv =
     (case unsubscribeCmd args pattern (sv_ps sv) of (rs, ps) \<Rightarrow> ((rs, None), c_DB c, cs, sv\<lparr>sv_ps := ps\<rparr>))"

definition cmdPublishFn :: "'e world \<Rightarrow> 'e cmdfn" where
  "cmdPublishFn W c args cs sv = (written (cmdPublish (w_pub W) (\<not> c_noBlock c) (c_Name c) args), c_DB c, cs, sv)"

definition cmdPubSubFn :: "'e cmdfn" where
  "cmdPubSubFn c args cs sv = (written (cmdPubSub args (sv_ps sv)), c_DB c, cs, sv)"

definition cmdInfoFn :: "'e world \<Rightarrow> 'e cmdfn" where
  "cmdInfoFn W c args cs sv =
     (case cmdInfo ((w_gauges W)\<lparr>g_lastSave := sv_lastSave sv, g_commands := sv_commands sv\<rparr>) (sv_cfg sv) args (sv_store sv) of
        (r, s) \<Rightarrow> (written r, c_DB c, cs, sv\<lparr>sv_store := s\<rparr>))"

definition cmdSaveFn :: "'e world \<Rightarrow> 'e cmdfn" where
  "cmdSaveFn W c args cs sv =
     (case cmdSave (w_flush W) (w_secs W) (sv_store sv) of
        (Inl err, s) \<Rightarrow> (([], Some err), c_DB c, cs, sv\<lparr>sv_store := s\<rparr>)
      | (Inr (rs, t), s) \<Rightarrow> ((rs, None), c_DB c, cs, sv\<lparr>sv_store := s, sv_lastSave := t\<rparr>))"

definition cmdLastSaveFn :: "'e cmdfn" where
  "cmdLastSaveFn c args cs sv = ((cmdLastSave (sv_lastSave sv), None), c_DB c, cs, sv)"

definition cmdTimeFn :: "'e world \<Rightarrow> 'e cmdfn" where
  "cmdTimeFn W c args cs sv = ((cmdTime (w_wall W), None), c_DB c, cs, sv)"

definition cmdShutdownFn :: "'e world \<Rightarrow> 'e cmdfn" where
  "cmdShutdownFn W c args cs sv =
     (case cmdShutdown (w_flush W) args (sv_store sv) of
        (Inl err, s) \<Rightarrow> (([], Some err), c_DB c, cs, sv\<lparr>sv_store := s\<rparr>)
      | (Inr rs, s) \<Rightarrow> ((rs, None), c_DB c, cs, sv\<lparr>sv_store := s, sv_shutdown := True\<rparr>))"

text \<open>The commands on the store.\<close>

definition storeHandlers :: "'e world \<Rightarrow> (string \<times> 'e cmdfn) list" where
  "storeHandlers W = [
    (''GET'', onStore cmdGet W),
    (''SETNX'', onStore (\<lambda>P E. cmdSetNX P E (w_drs W)) W),
    (''SETXX'', onStore (\<lambda>P E. cmdSetXX P E (w_drs W)) W),
    (''SETEX'', onStore (\<lambda>P E. cmdSetEx P E (w_drs W)) W),
    (''PSETEX'', onStore (\<lambda>P E. cmdPSetEx P E (w_drs W)) W),
    (''GETSET'', onStore (\<lambda>P E. cmdGetSet P E (w_drs W)) W),
    (''GETDEL'', onStore cmdGetDel W),
    (''GETEX'', onStore (\<lambda>P E. cmdGetEx P E (w_drs W)) W),
    (''DELEX'', onStore (\<lambda>P E db nm. cmdDelex P E db) W),
    (''MSET'', onStore (\<lambda>P E. cmdMSet P E (w_drs W)) W),
    (''MSETNX'', onStore (\<lambda>P E. cmdMSetNX P E (w_drs W)) W),
    (''APPEND'', onStore (\<lambda>P E. cmdAppend P E (w_drs W)) W),
    (''STRLEN'', onStore cmdStrLen W),
    (''GETRANGE'', onStore cmdGetRange W),
    (''SETRANGE'', onStore (\<lambda>P E. cmdSetRange P E (w_drs W)) W),
    (''SUBSTR'', onStore cmdGetRange W),
    (''DEL'', onStore cmdDel W),
    (''UNLINK'', onStore cmdDel W),
    (''EXISTS'', onStore cmdExists W),
    (''TYPE'', onStore cmdType W),
    (''TTL'', onStore cmdTTL W),
    (''PTTL'', onStore cmdPTTL W),
    (''EXPIRE'', onStore cmdExpire W),
    (''PEXPIRE'', onStore cmdPExpire W),
    (''EXPIREAT'', onStore cmdExpireAt W),
    (''PEXPIREAT'', onStore cmdPExpireAt W),
    (''PERSIST'', onStore cmdPersist W),
    (''KEYS'', onStore cmdKeys W),
    (''DBSIZE'', onStore cmdDBSize W),
    (''FLUSHDB'', onStore (\<lambda>P E db nm. cmdFlushDB P E db) W),
    (''FLUSHALL'', onStore (\<lambda>P E db nm. cmdFlushAll P E) W),
    (''RENAME'', onStore cmdRename W),
    (''RENAMENX'', onStore cmdRenameNX W),
    (''TOUCH'', onStore cmdTouch W),
    (''HSET'', onStore cmdHSet W),
    (''HSETNX'', onStore cmdHSetNX W),
    (''HGET'', onStore cmdHGet W),
    (''HDEL'', onStore cmdHDel W),
    (''HEXISTS'', onStore cmdHExists W),
    (''HLEN'', onStore cmdHLen W),
    (''HKEYS'', onStore cmdHKeys W),
    (''HVALS'', onStore cmdHVals W),
    (''HGETALL'', onStore cmdHGetAll W),
    (''HMGET'', onStore cmdHMGet W),
    (''HMSET'', onStore cmdHMSet W),
    (''HINCRBY'', onStore cmdHIncrBy W),
    (''HSCAN'', onStore cmdHScan W),
    (''HSTRLEN'', onStore cmdHStrLen W),
    (''HRANDFIELD'', onStore (\<lambda>P E db nm. cmdHRandField P E (w_rnd W) (w_perm W) db) W),
    (''LPUSH'', onStore (\<lambda>P E db nm args. pushCmd P E db nm args True False) W),
    (''RPUSH'', onStore (\<lambda>P E db nm args. pushCmd P E db nm args False False) W),
    (''LPUSHX'', onStore (\<lambda>P E db nm args. pushCmd P E db nm args True True) W),
    (''RPUSHX'', onStore (\<lambda>P E db nm args. pushCmd P E db nm args False True) W),
    (''LPOP'', onStore (\<lambda>P E db nm args. popCmd P E db args True) W),
    (''RPOP'', onStore (\<lambda>P E db nm args. popCmd P E db args False) W),
    (''LRANGE'', onStore cmdLRange W),
    (''LLEN'', onStore cmdLLen W),
    (''LINDEX'', onStore cmdLIndex W),
    (''LSET'', onStore cmdLSet W),
    (''LREM'', onStore cmdLRem W),
    (''LTRIM'', onStore cmdLTrim W),
    (''RPOPLPUSH'', onStore cmdRPopLPush W),
    (''SADD'', onStore cmdSAdd W),
    (''SREM'', onStore cmdSRem W),
    (''SMEMBERS'', onStore cmdSMembers W),
    (''SISMEMBER'', onStore cmdSIsMember W),
    (''SMISMEMBER'', onStore cmdSMIsMember W),
    (''SCARD'', onStore cmdSCard W),
    (''SMOVE'', onStore cmdSMove W),
    (''SPOP'', onStore (\<lambda>P E db nm. cmdSPop P E (w_rnd W) db) W),
    (''SRANDMEMBER'', onStore (\<lambda>P E db nm. cmdSRandMember P E (w_rnd W) (w_perm W) db) W),
    (''SUNION'', onStore (\<lambda>P E db nm args. setOp P E db nm args opUnion) W),
    (''SINTER'', onStore (\<lambda>P E db nm args. setOp P E db nm args opInter) W),
    (''SDIFF'', onStore (\<lambda>P E db nm args. setOp P E db nm args opDiff) W),
    (''SUNIONSTORE'', onStore (\<lambda>P E db nm args. setStoreOp P E db nm args opUnion) W),
    (''SINTERSTORE'', onStore (\<lambda>P E db nm args. setStoreOp P E db nm args opInter) W),
    (''SDIFFSTORE'', onStore (\<lambda>P E db nm args. setStoreOp P E db nm args opDiff) W),
    (''SINTERCARD'', onStore (\<lambda>P E db nm. cmdSInterCard P E db) W),
    (''SSCAN'', onStore cmdSScan W),
    (''ZADD'', onStore cmdZAdd W),
    (''ZREM'', onStore cmdZRem W),
    (''ZSCORE'', onStore cmdZScore W),
    (''ZSCAN'', onStore cmdZScan W),
    (''ZMSCORE'', onStore cmdZMScore W),
    (''ZCARD'', onStore cmdZCard W),
    (''ZRANK'', onStore (\<lambda>P E db nm args. rankCmd P E db args False) W),
    (''ZREVRANK'', onStore (\<lambda>P E db nm args. rankCmd P E db args True) W),
    (''ZINCRBY'', onStore cmdZIncrBy W),
    (''ZRANGE'', onStore cmdZRange W),
    (''ZREVRANGE'', onStore cmdZRevRange W),
    (''ZRANGEBYSCORE'', onStore cmdZRangeByScore W),
    (''ZREVRANGEBYSCORE'', onStore cmdZRevRangeByScore W),
    (''ZCOUNT'', onStore cmdZCount W),
    (''ZPOPMIN'', onStore (\<lambda>P E db nm args. zPopCmd P E db args False) W),
    (''ZPOPMAX'', onStore (\<lambda>P E db nm args. zPopCmd P E db args True) W),
    (''ZREMRANGEBYRANK'', onStore cmdZRemRangeByRank W),
    (''ZREMRANGEBYSCORE'', onStore cmdZRemRangeByScore W),
    (''ZLEXCOUNT'', onStore cmdZLexCount W),
    (''ZRANGEBYLEX'', onStore (\<lambda>P E db nm args. zRangeLex P E db args False) W),
    (''ZREVRANGEBYLEX'', onStore (\<lambda>P E db nm args. zRangeLex P E db args True) W),
    (''ZREMRANGEBYLEX'', onStore cmdZRemRangeByLex W),
    (''ZUNION'', onStore (\<lambda>P E db nm. cmdZUnion P E db) W),
    (''ZINTER'', onStore (\<lambda>P E db nm. cmdZInter P E db) W),
    (''ZDIFF'', onStore (\<lambda>P E db nm. cmdZDiff P E db) W),
    (''ZUNIONSTORE'', onStore (\<lambda>P E db nm args. zStoreOp P E db args opUnion) W),
    (''ZINTERSTORE'', onStore (\<lambda>P E db nm args. zStoreOp P E db args opInter) W),
    (''ZDIFFSTORE'', onStore (\<lambda>P E db nm args. zStoreOp P E db args opDiff) W),
    (''ZRANGESTORE'', onStore (\<lambda>P E db nm. cmdZRangeStore P E db) W),
    (''ZRANDMEMBER'', onStore (\<lambda>P E db nm. cmdZRandMember P E (w_rnd W) (w_perm W) db) W),
    (''ZMPOP'', onStore (\<lambda>P E db nm. cmdZMPop P E db) W),
    (''LINSERT'', onStore cmdLInsert W),
    (''XADD'', onStore (\<lambda>P E db nm. cmdXAdd P E db) W),
    (''XLEN'', onStore (\<lambda>P E. cmdXLen P) W),
    (''XRANGE'', onStore (\<lambda>P E db nm args. xRangeCmd P db args False) W),
    (''XREVRANGE'', onStore (\<lambda>P E db nm args. xRangeCmd P db args True) W),
    (''XDEL'', onStore (\<lambda>P E. cmdXDel P) W),
    (''XTRIM'', onStore (\<lambda>P E db nm. cmdXTrim P db) W),
    (''XGROUP'', onStore (\<lambda>P E. cmdXGroup P) W),
    (''XACK'', onStore (\<lambda>P E db nm. cmdXAck P db) W),
    (''XPENDING'', onStore (\<lambda>P E db nm. cmdXPending P db) W),
    (''XCLAIM'', onStore (\<lambda>P E db nm. cmdXClaim P E db) W),
    (''XINFO'', onStore (\<lambda>P E. cmdXInfo P) W),
    (''LMOVE'', onStore cmdLMove W),
    (''LMPOP'', onStore (\<lambda>P E db nm. cmdLMPop P E db) W),
    (''LPOS'', onStore (\<lambda>P E db nm. cmdLPos P E db) W),
    (''COPY'', onStore (\<lambda>P E db nm. cmdCopy P E db) W),
    (''MOVE'', onStore cmdMove W),
    (''SWAPDB'', onStore (\<lambda>P E db. cmdSwapDB P E) W),
    (''RANDOMKEY'', onStore (\<lambda>P E db. cmdRandomKey (w_rnd W)) W),
    (''EXPIRETIME'', onStore (\<lambda>P E db nm args. expireTimeCmd P E db nm args False) W),
    (''PEXPIRETIME'', onStore (\<lambda>P E db nm args. expireTimeCmd P E db nm args True) W),
    (''LCS'', onStore (\<lambda>P E db nm. cmdLCS P E db) W),
    (''GETBIT'', onStore cmdGetBit W),
    (''SETBIT'', onStore (\<lambda>P E. cmdSetBit P E (w_drs W)) W),
    (''BITCOUNT'', onStore (\<lambda>P E db nm. cmdBitCount P E db) W),
    (''BITPOS'', onStore (\<lambda>P E db nm. cmdBitPos P E db) W),
    (''BITOP'', onStore (\<lambda>P E db nm. cmdBitOp P E (w_drs W) db) W),
    (''INCR'', onStore (\<lambda>P. cmdIncr P (w_mg W)) W),
    (''DECR'', onStore (\<lambda>P. cmdDecr P (w_mg W)) W),
    (''INCRBY'', onStore (\<lambda>P. cmdIncrBy P (w_mg W)) W),
    (''DECRBY'', onStore (\<lambda>P. cmdDecrBy P (w_mg W)) W),
    (''INCRBYFLOAT'', onStore (\<lambda>P. cmdIncrByFloat (w_rd W) P (w_mg W)) W),
    (''HINCRBYFLOAT'', onStore (cmdHIncrByFloat (w_rd W)) W),
    (''MEMORY'', onStore (\<lambda>P E db nm. cmdMemory E db) W),
    (''OBJECT'', onStore (\<lambda>P E db nm. cmdObject P E db) W)]"

text \<open>The commands on the connection and the server.\<close>

definition connHandlers :: "'e world \<Rightarrow> (string \<times> 'e cmdfn) list" where
  "connHandlers W = [
    (''PING'', cmdPing), (''ECHO'', cmdEcho), (''SELECT'', cmdSelect), (''QUIT'', cmdQuit), (''COMMAND'', cmdCommand),
    (''HELLO'', cmdHello), (''SET'', \<lambda>c. onStore (\<lambda>P E. cmdSet P E (w_drs W) (c_maxBulk c)) W c), (''MGET'', cmdMGetFn W),
    (''SCAN'', cmdScanFn W), (''MULTI'', cmdMulti), (''DISCARD'', cmdDiscard), (''WATCH'', cmdWatch W), (''UNWATCH'', cmdUnwatch),
    (''AUTH'', cmdAuth), (''CONFIG'', cmdConfigFn), (''DEBUG'', cmdDebug), (''SLOWLOG'', cmdSlowLogFn), (''CLIENT'', cmdClient),
    (''SORT'', cmdSortFn cmdSort W), (''SORT_RO'', cmdSortFn cmdSortRO W), (''SUBSCRIBE'', subscribeFn False W), (''PSUBSCRIBE'', subscribeFn True W),
    (''UNSUBSCRIBE'', unsubscribeFn False), (''PUNSUBSCRIBE'', unsubscribeFn True), (''PUBLISH'', cmdPublishFn W), (''PUBSUB'', cmdPubSubFn),
    (''INFO'', cmdInfoFn W), (''SAVE'', cmdSaveFn W), (''BGSAVE'', cmdSaveFn W), (''LASTSAVE'', cmdLastSaveFn), (''TIME'', cmdTimeFn W),
    (''SHUTDOWN'', cmdShutdownFn W)]"

definition handlerOf :: "'e world \<Rightarrow> string \<Rightarrow> 'e cmdfn option" where
  "handlerOf W name =
     (case map_of (connHandlers W) name of Some h \<Rightarrow> Some h | None \<Rightarrow> map_of (storeHandlers W) name)"

text \<open>The blocking commands. A command looks at its data once; when it finds nothing it gives up inside a transaction, and
  sleeps otherwise.\<close>

definition blockHandlers :: "(string \<times> ('e pebble \<Rightarrow> Env \<Rightarrow> dbid \<Rightarrow> string \<Rightarrow> bytes list \<Rightarrow> 'e waiting)) list" where
  "blockHandlers = [
    (''BLPOP'', cmdBLPop), (''BRPOP'', cmdBRPop), (''BRPOPLPUSH'', startBRPopLPush), (''BLMOVE'', cmdBLMove), (''BLMPOP'', cmdBLMPop),
    (''BZPOPMIN'', cmdBZPopMin), (''BZPOPMAX'', cmdBZPopMax), (''BZMPOP'', startBZMPop), (''XREAD'', startXRead), (''XREADGROUP'', startXReadGroup)]"

definition blockFn ::
  "('e pebble \<Rightarrow> Env \<Rightarrow> dbid \<Rightarrow> string \<Rightarrow> bytes list \<Rightarrow> 'e waiting) \<Rightarrow> 'e world \<Rightarrow> (string \<Rightarrow> 'e cmdfn) \<Rightarrow> 'e cmdfn" where
  "blockFn h W fb c args cs sv =
     (let ret = (\<lambda>r s. (written r, c_DB c, cs, sv\<lparr>sv_store := s\<rparr>)) in
      case h (w_P W) (envOf W sv) (c_DB c) (c_Name c) args (sv_store sv) of
        (Inl err, s) \<Rightarrow> ret (Inl err) s
      | (Inr (Inl rs), s) \<Rightarrow> ret (Inr rs) s
      | (Inr (Inr b), s) \<Rightarrow>
          (case firstLook b s of
             (Inl err, s1) \<Rightarrow> ret (Inl err) s1
           | (Inr (Some rs), s1) \<Rightarrow> ret (Inr rs) s1
           | (Inr None, s1) \<Rightarrow>
               if c_noBlock c then ret (Inr (bk_null b)) s1 else fb (c_Name c) c args cs (sv\<lparr>sv_store := s1\<rparr>)))"

text \<open>The handler of a name. \<open>EXEC\<close> runs its queue through the same table; a queue never holds \<open>EXEC\<close>, and
  outside a transaction \<open>EXEC\<close> is an error.\<close>

definition baseFn :: "'e world \<Rightarrow> (string \<Rightarrow> 'e cmdfn) \<Rightarrow> string \<Rightarrow> 'e cmdfn" where
  "baseFn W fb name =
     (case handlerOf W name of
        Some h \<Rightarrow> h
      | None \<Rightarrow> (case map_of blockHandlers name of Some h \<Rightarrow> blockFn h W fb | None \<Rightarrow> fb name))"

definition commandFn :: "'e world \<Rightarrow> (string \<Rightarrow> 'e cmdfn) \<Rightarrow> string \<Rightarrow> 'e cmdfn" where
  "commandFn W fb name = (if name = ''EXEC'' then cmdExec W (baseFn W fb) else baseFn W fb name)"

section \<open>Requests\<close>

datatype outcome = Served "reply list" | Closed "reply list" | Crashed

definition newConn :: "Config \<Rightarrow> int \<Rightarrow> bytes \<Rightarrow> connState" where
  "newConn cfg cid addr = \<lparr>cs_ID = cid, cs_Addr = addr, cs_Name = [], cs_db = 0, cs_authed = (\<not> requiresAuth cfg), cs_inTxn = False,
     cs_queue = [], cs_watched = [], cs_watchedExpiry = None, cs_watchedStale = None, cs_dirtyTxn = False\<rparr>"

definition txnControl :: "string list" where
  "txnControl = [''MULTI'', ''EXEC'', ''DISCARD'', ''QUIT'', ''WATCH'']"

text \<open>\<open>runCommand\<close> turns a panic into an error.\<close>

definition runCommand :: "'e cmdfn \<Rightarrow> ctx \<Rightarrow> bytes list \<Rightarrow> connState \<Rightarrow> 'e Server \<Rightarrow> 'e cmdres" where
  "runCommand f c args cs sv =
     (case f c args cs sv of
        ((rs, err), rest) \<Rightarrow> ((rs, if err = Some GoPanic then Some (ProtoError ''ERR internal error'') else err), rest))"

definition execute ::
  "'e world \<Rightarrow> (string \<Rightarrow> 'e cmdfn) \<Rightarrow> int \<Rightarrow> string \<Rightarrow> bytes list \<Rightarrow> connState \<Rightarrow> 'e Server \<Rightarrow> outcome \<times> connState \<times> 'e Server" where
  "execute W fb maxBulk upper req cs sv =
     (case runCommand (commandFn W fb upper) \<lparr>c_DB = cs_db cs, c_Name = upper, c_maxBulk = maxBulk, c_noBlock = False\<rparr> (tl req) cs sv of
        ((rs, err), db', cs', sv') \<Rightarrow>
          let sv2 = sv'\<lparr>sv_slow := sl_record (w_us W) (w_secs W) req (sv_slow sv')\<rparr> in
          (case err of
             None \<Rightarrow> (Served rs, cs'\<lparr>cs_db := db'\<rparr>, sv2)
           | Some e \<Rightarrow> if e = ErrQuit then (Closed rs, cs', sv2) else (Served (rs @ [RError e]), cs', sv2)))"

definition handle ::
  "'e world \<Rightarrow> (string \<Rightarrow> 'e cmdfn) \<Rightarrow> int \<Rightarrow> bytes list \<Rightarrow> connState \<Rightarrow> 'e Server \<Rightarrow> outcome \<times> connState \<times> 'e Server" where
  "handle W fb maxBulk req cs sv0 =
     (if req = [] then (Served [], cs, sv0)
      else
        let sv = sv0\<lparr>sv_commands := sv_commands sv0 + 1\<rparr>;
            args = tl req;
            upper = go_string (map to_upper (hd req)) in
        case map_of commandTable upper of
          None \<Rightarrow>
            (Served [RError (UnknownCommand (go_string (map to_lower (hd req))))],
             if cs_inTxn cs then cs\<lparr>cs_dirtyTxn := True\<rparr> else cs, sv)
        | Some (_, write) \<Rightarrow>
            if \<not> cs_authed cs \<and> requiresAuth (sv_cfg sv) \<and> upper \<noteq> ''AUTH'' then
              (Served [RError (ProtoError ''NOAUTH Authentication required'')], cs, sv)
            else if cs_inTxn cs \<and> upper \<notin> set txnControl then
              (case validateQueued upper (length args + 1) of
                 Some err \<Rightarrow> (Served [RError err], cs\<lparr>cs_dirtyTxn := True\<rparr>, sv)
               | None \<Rightarrow> (Served [RString ''QUEUED''], cs\<lparr>cs_queue := cs_queue cs @ [req]\<rparr>, sv))
            else if write \<and> memoryFull (sv_cfg sv) (sv_store sv) then (Served [RError (OOM upper)], cs, sv)
            else if upper \<notin> set blockingCmds \<and> upper \<notin> set lockFreeCmds \<and> commandKeys upper args = Inl GoPanic then
              (Crashed, cs, sv)
            else execute W fb maxBulk upper req cs sv)"

text \<open>\<open>XREADGROUP\<close> sleeps with a lock: it is not one of the commands exempt from key locks, and the key it locks, exclusively,
  is its first word. All group reads of a database share it, and none of them locks its stream.\<close>

lemma xreadgroup_locks_keyword:
  "commandKeys ''XREADGROUP'' (ascii ''GROUP'' # rest) = Inr [ascii ''GROUP'']" "''XREADGROUP'' \<notin> set blockingCmds"
  by (simp_all add: commandKeys_def blockingCmds_def)

end
