(* ===== verification/Wire.thy ===== *)
theory Wire
  imports Replies Strings Lists Hashes Sets ZOps Admin Waiting Completion Bits Counters Info PubSub
begin

text \<open>
  Every handler of the string, list, hash, set, sorted-set, generic, stream, bit, counter and administration
  commands that succeeds writes exactly one RESP value, and so does every blocking command. The exceptions are
  \<open>XINFO GROUPS\<close> and \<open>LCS IDX\<close>, whose array headers announce half of the elements that follow.
\<close>

lemma scoreReply_scalar [simp]: "is_scalar (scoreReply v)"
  by (simp add: scoreReply_def split: option.split)

lemma page_of_keys [simp]: "resp_rest (Suc 0) (replyArray out) = Some []"
  by (simp add: replyArray_def)

lemma string_replies [reply_intros]:
  "replies_ok (cmdGet P E db nm args s)"
  "replies_ok (cmdSet P E drs maxBulk db nm args s)"
  "replies_ok (setCond P E drs db nm args opt s)"
  "replies_ok (cmdSetEx P E drs db nm args s)"
  "replies_ok (cmdPSetEx P E drs db nm args s)"
  "replies_ok (cmdGetSet P E drs db nm args s)"
  "replies_ok (cmdGetDel P E db nm args s)"
  "replies_ok (cmdMSet P E drs db nm args s)"
  "replies_ok (cmdMSetNX P E drs db nm args s)"
  "replies_ok (cmdAppend P E drs db nm args s)"
  "replies_ok (cmdStrLen P E db nm args s)"
  "replies_ok (cmdGetRange P E db nm args s)"
  "replies_ok (cmdSetRange P E drs db nm args s)"
  "replies_ok (cmdGetEx P E drs db nm args s)"
  "replies_ok (cmdDelex P E db args s)"
  unfolding cmdGet_def cmdSet_def setCond_def cmdSetEx_def cmdPSetEx_def cmdGetSet_def cmdGetDel_def
    cmdMSet_def cmdMSetNX_def cmdAppend_def cmdStrLen_def cmdGetRange_def cmdSetRange_def cmdGetEx_def
    cmdDelex_def Let_def
  by (intro reply_intros | simp split del: if_split split: prod.split
      | auto intro!: reply_intros split: option.splits list.splits prod.splits sum.splits)+

lemma string_replies_derived [reply_intros]:
  "replies_ok (cmdSetNX P E drs db nm args s)"
  "replies_ok (cmdSetXX P E drs db nm args s)"
  unfolding cmdSetNX_def cmdSetXX_def Let_def
  by (intro reply_intros | simp split del: if_split split: prod.split
      | auto intro!: reply_intros split: option.splits list.splits prod.splits sum.splits)+

lemma list_replies [reply_intros]:
  "replies_ok (pushCmd P E db nm args left x s)"
  "replies_ok (popCmd P E db args left s)"
  "replies_ok (cmdLRange P E db nm args s)"
  "replies_ok (cmdLLen P E db nm args s)"
  "replies_ok (cmdLIndex P E db nm args s)"
  "replies_ok (cmdLSet P E db nm args s)"
  "replies_ok (cmdLRem P E db nm args s)"
  "replies_ok (cmdLTrim P E db nm args s)"
  "replies_ok (cmdRPopLPush P E db nm args s)"
  "replies_ok (cmdLInsert P E db nm args s)"
  unfolding pushCmd_def popCmd_def cmdLRange_def cmdLLen_def cmdLIndex_def cmdLSet_def cmdLRem_def
    cmdLTrim_def cmdRPopLPush_def cmdLInsert_def Let_def
  by (intro reply_intros | simp split del: if_split split: prod.split
      | auto intro!: reply_intros split: option.splits list.splits prod.splits sum.splits)+

lemma ok_pairsReply [reply_intros]: "one_reply (pairsReply a flds)"
  using resp_rest_pairs[of "\<lambda>f. [RBulk f, RBulk (field_value a f)]" flds]
  by (simp add: pairsReply_def one_reply_def)

lemma hash_replies [reply_intros]:
  "replies_ok (cmdHSet P E db nm args s)"
  "replies_ok (cmdHSetNX P E db nm args s)"
  "replies_ok (cmdHGet P E db nm args s)"
  "replies_ok (cmdHDel P E db nm args s)"
  "replies_ok (cmdHExists P E db nm args s)"
  "replies_ok (cmdHLen P E db nm args s)"
  "replies_ok (hashEnumerate P E db nm args keys s)"
  "replies_ok (cmdHGetAll P E db nm args s)"
  "replies_ok (cmdHMGet P E db nm args s)"
  "replies_ok (cmdHMSet P E db nm args s)"
  "replies_ok (cmdHIncrBy P E db nm args s)"
  "replies_ok (cmdHStrLen P E db nm args s)"
  "replies_ok (cmdHRandField P E rnd perm db args s)"
  "replies_ok (cmdHScan P E db nm args s)"
  unfolding cmdHSet_def cmdHSetNX_def cmdHGet_def cmdHDel_def cmdHExists_def cmdHLen_def hashEnumerate_def
    cmdHGetAll_def cmdHMGet_def cmdHMSet_def cmdHIncrBy_def cmdHStrLen_def cmdHRandField_def cmdHScan_def
    Let_def
  by (intro reply_intros | simp split del: if_split split: prod.split
      | auto intro!: reply_intros split: option.splits list.splits prod.splits sum.splits)+

lemma hash_replies_derived [reply_intros]:
  "replies_ok (cmdHKeys P E db nm args s)"
  "replies_ok (cmdHVals P E db nm args s)"
  unfolding cmdHKeys_def cmdHVals_def Let_def
  by (intro reply_intros | simp split del: if_split split: prod.split
      | auto intro!: reply_intros split: option.splits list.splits prod.splits sum.splits)+

lemma set_replies [reply_intros]:
  "replies_ok (cmdSAdd P E db nm args s)"
  "replies_ok (cmdSRem P E db nm args s)"
  "replies_ok (cmdSMembers P E db nm args s)"
  "replies_ok (cmdSIsMember P E db nm args s)"
  "replies_ok (cmdSMIsMember P E db nm args s)"
  "replies_ok (cmdSCard P E db nm args s)"
  "replies_ok (cmdSMove P E db nm args s)"
  "replies_ok (cmdSPop P E rnd db args s)"
  "replies_ok (cmdSRandMember P E rnd perm db args s)"
  "replies_ok (setOp P E db nm args op s)"
  "replies_ok (setStoreOp P E db nm args op s)"
  "replies_ok (cmdSInterCard P E db args s)"
  "replies_ok (cmdSScan P E db nm args s)"
  unfolding cmdSAdd_def cmdSRem_def cmdSMembers_def cmdSIsMember_def cmdSMIsMember_def cmdSCard_def
    cmdSMove_def cmdSPop_def cmdSRandMember_def setOp_def setStoreOp_def cmdSInterCard_def cmdSScan_def
    Let_def
  by (intro reply_intros | simp split del: if_split split: prod.split
      | auto intro!: reply_intros split: option.splits list.splits prod.splits sum.splits)+

lemma ok_writeMembers [reply_intros]: "one_reply (writeMembers items withScores)"
  unfolding writeMembers_def by (auto intro!: reply_intros)

lemma zset_replies [reply_intros]:
  "replies_ok (cmdZAdd P E db nm args s)"
  "replies_ok (cmdZRem P E db nm args s)"
  "replies_ok (cmdZScore P E db nm args s)"
  "replies_ok (cmdZMScore P E db nm args s)"
  "replies_ok (cmdZCard P E db nm args s)"
  "replies_ok (rankCmd P E db args desc s)"
  "replies_ok (cmdZIncrBy P E db nm args s)"
  "replies_ok (cmdZLexCount P E db nm args s)"
  "replies_ok (zRangeLex P E db args rv s)"
  "replies_ok (removeVictims P E db key victims s)"
  "replies_ok (cmdZRange P E db nm args s)"
  "replies_ok (cmdZRangeByScore P E db nm args s)"
  "replies_ok (cmdZCount P E db nm args s)"
  "replies_ok (zPopCmd P E db args mx s)"
  "replies_ok (cmdZScan P E db nm args s)"
  unfolding cmdZAdd_def cmdZRem_def cmdZScore_def cmdZMScore_def cmdZCard_def rankCmd_def cmdZIncrBy_def
    cmdZLexCount_def zRangeLex_def removeVictims_def cmdZRange_def cmdZRangeByScore_def cmdZCount_def
    zPopCmd_def cmdZScan_def Let_def
  by (intro reply_intros | simp split del: if_split split: prod.split
      | auto intro!: reply_intros split: option.splits list.splits prod.splits sum.splits)+

lemma zset_replies_derived [reply_intros]:
  "replies_ok (cmdZRemRangeByLex P E db nm args s)"
  "replies_ok (cmdZRevRange P E db nm args s)"
  "replies_ok (cmdZRevRangeByScore P E db nm args s)"
  "replies_ok (cmdZRemRangeByRank P E db nm args s)"
  "replies_ok (cmdZRemRangeByScore P E db nm args s)"
  unfolding cmdZRemRangeByLex_def cmdZRevRange_def cmdZRevRangeByScore_def cmdZRemRangeByRank_def
    cmdZRemRangeByScore_def Let_def
  by (intro reply_intros | simp split del: if_split split: prod.split
      | auto intro!: reply_intros split: option.splits list.splits prod.splits sum.splits)+

lemma ok_writeZPopReply [reply_intros]: "one_reply (writeZPopReply key items)"
  using resp_rest_concat[of items 1 "\<lambda>m. [RArray 2, RBulk (m_member m), RBulk (formatFloat (m_score m))]"]
  by (simp add: writeZPopReply_def one_reply_def)

lemma zop_replies [reply_intros]:
  "replies_ok (zCombineCmd P E db args nm op s)"
  "replies_ok (cmdZDiff P E db args s)"
  "replies_ok (replaceZSet P E db dst z s)"
  "replies_ok (cmdZRandMember P E rnd perm db args s)"
  "replies_ok (cmdZMPop P E db args s)"
  unfolding zCombineCmd_def cmdZDiff_def replaceZSet_def cmdZRandMember_def cmdZMPop_def Let_def
  by (intro reply_intros | simp split del: if_split split: prod.split
      | auto intro!: reply_intros split: option.splits list.splits prod.splits sum.splits)+

lemma zop_replies_derived [reply_intros]:
  "replies_ok (cmdZUnion P E db args s)"
  "replies_ok (cmdZInter P E db args s)"
  "replies_ok (zStoreOp P E db args op s)"
  "replies_ok (cmdZRangeStore P E db args s)"
  unfolding cmdZUnion_def cmdZInter_def zStoreOp_def cmdZRangeStore_def Let_def
  by (intro reply_intros | simp split del: if_split split: prod.split
      | auto intro!: reply_intros split: option.splits list.splits prod.splits sum.splits)+

lemma generic_replies [reply_intros]:
  "replies_ok (cmdDel P E db nm args s)"
  "replies_ok (cmdExists P E db nm args s)"
  "replies_ok (cmdType P E db nm args s)"
  "replies_ok (cmdTTL P E db nm args s)"
  "replies_ok (cmdPTTL P E db nm args s)"
  "replies_ok (cmdTouch P E db nm args s)"
  "replies_ok (expireAtCmd P E db key t opt s)"
  "replies_ok (cmdPersist P E db nm args s)"
  "replies_ok (cmdKeys P E db nm args s)"
  "replies_ok (cmdDBSize P E db nm args s)"
  "replies_ok (cmdFlushDB P E db args s)"
  "replies_ok (cmdFlushAll P E args s)"
  "replies_ok (cmdRename P E db nm args s)"
  "replies_ok (cmdRenameNX P E db nm args s)"
  "replies_ok (scanFrom P E wall db o' startKey st)"
  unfolding cmdDel_def cmdExists_def cmdType_def cmdTTL_def cmdPTTL_def cmdTouch_def expireAtCmd_def
    cmdPersist_def cmdKeys_def cmdDBSize_def cmdFlushDB_def cmdFlushAll_def cmdRename_def cmdRenameNX_def
    scanFrom_def Let_def
  by (intro reply_intros | simp split del: if_split split: prod.split
      | auto intro!: reply_intros split: option.splits list.splits prod.splits sum.splits)+

lemma generic_replies_derived [reply_intros]:
  "replies_ok (expireRelCmd P E db nm args m s)"
  "replies_ok (cmdExpireAt P E db nm args s)"
  "replies_ok (cmdPExpireAt P E db nm args s)"
  "replies_ok (cmdScan P E wall db nm args st)"
  unfolding expireRelCmd_def cmdExpireAt_def cmdPExpireAt_def cmdScan_def Let_def
  by (intro reply_intros | simp split del: if_split split: prod.split
      | auto intro!: reply_intros split: option.splits list.splits prod.splits sum.splits)+

lemma generic_replies_derived2 [reply_intros]:
  "replies_ok (cmdExpire P E db nm args s)"
  "replies_ok (cmdPExpire P E db nm args s)"
  unfolding cmdExpire_def cmdPExpire_def Let_def
  by (intro reply_intros | simp split del: if_split split: prod.split
      | auto intro!: reply_intros split: option.splits list.splits prod.splits sum.splits)+

lemma entryReply_one [simp]: "resp_rest (Suc 0) (entryReply e) = Some []"
  using resp_rest_pairs[of "\<lambda>(f, v). [RBulk f, RBulk v]" "se_fields e"]
  by (simp add: entryReply_def split: prod.split)

lemma ok_writeStreamEntries [reply_intros]: "one_reply (writeStreamEntries es)"
  using resp_rest_concat[of es 1 entryReply] by (simp add: writeStreamEntries_def one_reply_def)

lemma batch_one: "resp_rest (Suc 0) ([RArray 2, RBulk k] @ writeStreamEntries es) = Some []"
  using ok_writeStreamEntries[of es] by (simp add: one_reply_def)

lemma ok_batchesReply [reply_intros]: "one_reply (batchesReply bs)"
  using resp_rest_concat[of bs 1 "\<lambda>(k, es). [RArray 2, RBulk k] @ writeStreamEntries es"] batch_one
  by (simp add: batchesReply_def one_reply_def split: prod.split)

lemma resp_rest_4 [simp]: "is_scalar r \<Longrightarrow> resp_rest 4 (r # rs) = resp_rest 3 rs"
  "is_scalar r \<Longrightarrow> resp_rest 3 (r # rs) = resp_rest 2 rs"
  by (simp_all add: numeral_eq_Suc)

lemma ok_pendingRows [reply_intros]: "one_reply (RArray (int (length ps)) # concat (map pendingRow ps))"
  using resp_rest_concat[of ps 1 pendingRow] by (simp add: one_reply_def pendingRow_def)

lemma ok_pendingSummary [reply_intros]: "one_reply (pendingSummary ps)"
proof -
  define order where "order = rev (remdups (rev (map pe_consumer ps)))"
  have "resp_rest (length order)
      (concat (map (\<lambda>c. [RArray 2, RBulk c, RInt (int (length (filter (\<lambda>p. pe_consumer p = c) ps)))]) order)) = Some []"
    using resp_rest_concat[of order 1 "\<lambda>c. [RArray 2, RBulk c, RInt (int (length (filter (\<lambda>p. pe_consumer p = c) ps)))]"] by simp
  then show ?thesis by (auto simp: pendingSummary_def one_reply_def order_def[symmetric] Let_def)
qed

lemma stream_replies_inner [reply_intros]:
  "replies_ok (cmdXGroupCreate P db args s)"
  "replies_ok (cmdXGroupDestroy P db nm args s)"
  "replies_ok (cmdXGroupCreateConsumer nm args s)"
  "replies_ok (cmdXGroupDelConsumer P db nm args s)"
  "replies_ok (cmdXGroupSetID P db args s)"
  unfolding cmdXGroupCreate_def cmdXGroupDestroy_def cmdXGroupCreateConsumer_def cmdXGroupDelConsumer_def
    cmdXGroupSetID_def Let_def
  by (intro reply_intros)+

lemma stream_replies [reply_intros]:
  "replies_ok (cmdXAdd P E db args s)"
  "replies_ok (cmdXLen P db nm args s)"
  "replies_ok (xRangeCmd P db args rv s)"
  "replies_ok (cmdXDel P db nm args s)"
  "replies_ok (cmdXTrim P db args s)"
  "replies_ok (cmdXGroup P db nm args s)"
  "replies_ok (cmdXAck P db args s)"
  "replies_ok (cmdXPending P db args s)"
  "replies_ok (cmdXClaim P E db args s)"
  unfolding cmdXAdd_def cmdXLen_def xRangeCmd_def cmdXDel_def cmdXTrim_def cmdXGroup_def cmdXAck_def cmdXPending_def
    cmdXClaim_def Let_def
  by (intro reply_intros)+

lemma admin_replies [reply_intros]:
  "replies_ok (cmdObject P E db args s)"
  "replies_ok (cmdMemory E db args s)"
  "replies_ok (cmdConfigSet a b st)"
  unfolding cmdObject_def cmdMemory_def cmdConfigSet_def Let_def
  by (intro reply_intros | simp split: prod.split)+

lemma slowReply_one [simp]: "resp_rest (Suc 0) (slowReply e) = Some []"
  by (simp add: slowReply_def numeral_2_eq_2)

lemma admin_replies_derived [reply_intros]:
  "replies_ok (cmdConfig n args st)"
  "replies_ok (cmdSlowLog args sl)"
proof -
  have slow: "one_reply (RArray (int (length es)) # concat (map slowReply es))" for es
    using resp_rest_concat[of es 1 slowReply] by (simp add: one_reply_def)
  show "replies_ok (cmdConfig n args st)" "replies_ok (cmdSlowLog args sl)"
    unfolding cmdConfig_def cmdSlowLog_def Let_def
    by (intro reply_intros slow | simp split del: if_split split: prod.split
      | auto intro!: reply_intros slow split: option.splits list.splits prod.splits sum.splits)+
qed

text \<open>\<open>XINFO GROUPS\<close> on a stream with one group: the client is left in the middle of the reply.\<close>

lemma xinfo_groups_malformed: "\<not> one_reply (RArray 1 # groupInfo P db key g s)"
  by (simp add: one_reply_def groupInfo_def Let_def numeral_eq_Suc)

text \<open>\<open>LCS IDX\<close> announces two values and writes four.\<close>

lemma lcs_idx_malformed:
  "\<not> one_reply ([RArray 2, RBulk x, RArray (int (length ms))] @ concat (map (lcsMatchReply w) ms) @ [RBulk y, RInt n])"
proof -
  have "resp_rest (length ms) (concat (map (lcsMatchReply w) ms)) = Some []"
    using resp_rest_concat[of ms 1 "lcsMatchReply w"] by (simp add: lcsMatchReply_def numeral_eq_Suc)
  from resp_rest_append[OF this, of 0] show ?thesis by (simp add: one_reply_def)
qed

lemma completion_replies [reply_intros]:
  "replies_ok (cmdLPos P E db args s)"
  "replies_ok (copyStream P E db1 k1 db2 k2 replc s)"
  "replies_ok (cmdMove P E db nm args s)"
  "replies_ok (cmdSwapDB P E nm args s)"
  "replies_ok (expireTimeCmd P E db nm args ms s)"
  unfolding cmdLPos_def copyStream_def cmdMove_def cmdSwapDB_def expireTimeCmd_def Let_def
  by (intro reply_intros | simp split del: if_split)+

lemma completion_replies_derived [reply_intros]:
  "replies_ok (cmdCopy P E db args s)"
  "replies_ok (cmdRandomKey rnd nm args s)"
  unfolding cmdCopy_def cmdRandomKey_def Let_def
  by (intro reply_intros | simp split del: if_split split: option.split)+

lemma bit_replies [reply_intros]:
  "replies_ok (cmdGetBit P E db nm args s)"
  "replies_ok (cmdSetBit P E drs db nm args s)"
  "replies_ok (cmdBitCount P E db args s)"
  "replies_ok (cmdBitPos P E db args s)"
  "replies_ok (cmdBitOp P E drs db args s)"
  unfolding cmdGetBit_def cmdSetBit_def cmdBitCount_def cmdBitPos_def cmdBitOp_def Let_def
  by (intro reply_intros | simp split del: if_split)+

lemma counter_replies [reply_intros]:
  "replies_ok (incrBy P mg E db key d s)"
  "replies_ok (addFloat P mg E db key cur inc s)"
  "replies_ok (cmdHIncrByFloat rd P E db nm args s)"
  unfolding incrBy_def addFloat_def cmdHIncrByFloat_def Let_def
  by (intro reply_intros | simp split del: if_split)+

lemma counter_replies_derived [reply_intros]:
  "replies_ok (cmdIncr P mg E db nm args s)"
  "replies_ok (cmdDecr P mg E db nm args s)"
  "replies_ok (cmdIncrBy P mg E db nm args s)"
  "replies_ok (cmdDecrBy P mg E db nm args s)"
  "replies_ok (cmdIncrByFloat rd P mg E db nm args s)"
  unfolding cmdIncr_def cmdDecr_def cmdIncrBy_def cmdDecrBy_def cmdIncrByFloat_def Let_def
  by (intro reply_intros | simp split del: if_split)+

lemma info_replies [reply_intros]:
  "replies_ok (cmdInfo g c args s)"
  "replies_ok (cmdShutdown fl args s)"
  unfolding cmdInfo_def cmdShutdown_def Let_def
  by (intro reply_intros | simp split del: if_split)+

section \<open>Blocking commands\<close>

text \<open>What holds of the value of a call that returns one, with a rule per combinator.\<close>

definition yields :: "('a \<Rightarrow> bool) \<Rightarrow> (goerr, 'a, 's) res \<Rightarrow> bool" where
  "yields Q r \<longleftrightarrow> (\<forall>v. fst r = Inr v \<longrightarrow> Q v)"

named_theorems yield_intros

lemma yield_rules [yield_intros]:
  "yields Q (Inl e, s)" "Q v \<Longrightarrow> yields Q (Inr v, s)"
  "(\<And>v s. yields Q (f v s)) \<Longrightarrow> yields Q (bindE r f)"
  "(\<And>v. yields Q (g v)) \<Longrightarrow> yields Q (bindS x st g)"
  "yields Q a \<Longrightarrow> yields Q (withArity nm args n st a)"
  "yields Q a \<Longrightarrow> yields Q b \<Longrightarrow> yields Q (if c then a else b)"
  "yields Q a \<Longrightarrow> (\<And>v. yields Q (h v)) \<Longrightarrow> yields Q (case opt of None \<Rightarrow> a | Some v \<Rightarrow> h v)"
  "(\<And>x y. yields Q (k x y)) \<Longrightarrow> yields Q (case p of (x, y) \<Rightarrow> k x y)"
  "(\<And>x y. yields Q (k' x y s)) \<Longrightarrow> yields Q ((case p of (x, y) \<Rightarrow> k' x y) s)"
  by (auto simp: yields_def bindE_def bindS_def withArity_def split: sum.splits prod.splits option.splits)

lemma yields_bindE: "yields R r \<Longrightarrow> (\<And>v s1. R v \<Longrightarrow> yields Q (f v s1)) \<Longrightarrow> yields Q (bindE r f)"
  by (cases r; cases "fst r") (auto simp: yields_def bindE_def)

text \<open>One look at the data, a loop, and the start of a command: whatever they reply is one value.\<close>

definition look_ok :: "reply list option \<Rightarrow> bool" where
  "look_ok v \<longleftrightarrow> (\<forall>rs. v = Some rs \<longrightarrow> one_reply rs)"

definition loop_ok :: "'e blocking \<Rightarrow> bool" where
  "loop_ok b \<longleftrightarrow> one_reply (bk_null b) \<and> (\<forall>s. yields look_ok (bk_attempt b s))"

definition start_ok :: "reply list + 'e blocking \<Rightarrow> bool" where
  "start_ok v \<longleftrightarrow> (case v of Inl rs \<Rightarrow> one_reply rs | Inr b \<Rightarrow> loop_ok b)"

lemma value_rules [yield_intros]:
  "look_ok None" "one_reply rs \<Longrightarrow> look_ok (Some rs)" "look_ok v \<Longrightarrow> look_ok w \<Longrightarrow> look_ok (if c then v else w)"
  "one_reply rs \<Longrightarrow> start_ok (Inl rs)" "loop_ok b \<Longrightarrow> start_ok (Inr b)"
  by (auto simp: look_ok_def start_ok_def)

lemma null_replies [reply_intros]: "one_reply nullArray" "one_reply [RNull]"
  by (simp_all add: nullArray_def one_reply_def)

lemma attempts [yield_intros]:
  "yields look_ok (popFirst P E db ks left s)"
  "yields look_ok (rpoplpushOnce P E db src dst s)"
  "yields look_ok (lmoveOnce P E db src dst a b s)"
  "yields look_ok (lmpopOnce P E db ks left n s)"
  "yields look_ok (bzPopOnce P E db ks mx s)"
  "yields look_ok (bzmpopOnce P E db ks n mx s)"
  "yields look_ok (readNewOnce P E db ks grp con n s)"
  "yields look_ok (bindS (xReadOnce P db kis n s) s (\<lambda>r. (Inr r, s)))"
proof -
  have pop: "one_reply [RArray 2, RBulk k, RBulk v]" "one_reply ([RArray 2, RBulk k] @ replyArray out)" for k v out
    using one_replyArray[of out] by (simp_all add: one_reply_def)
  have bz: "one_reply [RArray 3, RBulk k, RBulk a, RBulk b]" for k a b by (simp add: one_reply_def numeral_eq_Suc)
  show "yields look_ok (popFirst P E db ks left s)"
    by (induction ks arbitrary: s) (auto intro!: yield_intros pop simp del: append.simps)
  show "yields look_ok (lmpopOnce P E db ks left n s)"
    by (induction ks arbitrary: s) (auto intro!: yield_intros pop simp del: append.simps)
  show "yields look_ok (rpoplpushOnce P E db src dst s)" "yields look_ok (lmoveOnce P E db src dst a b s)"
    unfolding rpoplpushOnce_def lmoveOnce_def Let_def by (intro yield_intros reply_intros)+
  show "yields look_ok (bzPopOnce P E db ks mx s)" "yields look_ok (bzmpopOnce P E db ks n mx s)"
    "yields look_ok (readNewOnce P E db ks grp con n s)"
    unfolding bzPopOnce_def bzmpopOnce_def readNewOnce_def Let_def by (intro yield_intros reply_intros bz)+
  show "yields look_ok (bindS (xReadOnce P db kis n s) s (\<lambda>r. (Inr r, s)))"
    unfolding xReadOnce_def by (cases "xReadBatches P db kis n s") (auto simp: bindS_def intro!: yield_intros reply_intros)
qed

lemma loop_blockFrom [yield_intros]:
  "(\<And>s. yields look_ok (f s)) \<Longrightarrow> loop_ok (blockFrom tmo f)"
  "(\<And>s. yields look_ok (f s)) \<Longrightarrow> one_reply n \<Longrightarrow> loop_ok ((blockFrom tmo f)\<lparr>bk_null := n\<rparr>)"
  by (auto simp: loop_ok_def blockFrom_def intro: reply_intros)

lemma loop_runNoBlock: "loop_ok b \<Longrightarrow> replies_ok (runNoBlock b s)"
  by (auto simp: runNoBlock_def replies_ok_def loop_ok_def yields_def look_ok_def bindE_def split: sum.splits prod.splits option.splits)
     (metis fst_conv)

lemma start_entering: "(\<And>b. r = Inr b \<Longrightarrow> loop_ok b) \<Longrightarrow> yields start_ok (entering r s)"
  by (auto simp: entering_def intro!: yield_intros split: sum.split)

lemma loops:
  "blockedPop P E db args left = Inr b \<Longrightarrow> loop_ok b"
  "lmpopCmd P E db args blk = Inr b \<Longrightarrow> loop_ok b"
  "bzPopCmd P E db args mx = Inr b \<Longrightarrow> loop_ok b"
  "cmdBZMPop P E db args = Inr b \<Longrightarrow> loop_ok b"
  unfolding blockedPop_def lmpopCmd_def bzPopCmd_def cmdBZMPop_def Let_def
  by (auto intro!: yield_intros reply_intros split: if_splits sum.splits)

lemma loops_parsed:
  "yields loop_ok (lmoveCmd P E db nm args blk s)"
  "yields loop_ok (cmdBRPopLPush P E db nm args s)"
  "yields (\<lambda>(b, w). loop_ok b) (cmdXRead P db args s)"
  unfolding lmoveCmd_def cmdBRPopLPush_def cmdXRead_def
  by (intro yield_intros reply_intros | simp add: loop_ok_def attempts(8) null_replies split: if_split)+

lemma group_now: "yields (\<lambda>(r, w). look_ok r) (cmdXReadGroupNow P E db args s)"
  unfolding cmdXReadGroupNow_def Let_def
  by (intro yield_intros reply_intros | simp only: prod.case)+

lemma blocking_starts:
  "yields start_ok (cmdBLPop P E db nm args s)"
  "yields start_ok (cmdBRPop P E db nm args s)"
  "yields start_ok (cmdBLMPop P E db nm args s)"
  "yields start_ok (cmdBZPopMin P E db nm args s)"
  "yields start_ok (cmdBZPopMax P E db nm args s)"
  "yields start_ok (startBZMPop P E db nm args s)"
  "yields start_ok (startBRPopLPush P E db nm args s)"
  "yields start_ok (cmdBLMove P E db nm args s)"
  unfolding cmdBLPop_def cmdBRPop_def cmdBLMPop_def cmdBZPopMin_def cmdBZPopMax_def startBZMPop_def startBRPopLPush_def cmdBLMove_def
  by (rule start_entering, erule loops)+ (rule yields_bindE[OF loops_parsed(1)] yields_bindE[OF loops_parsed(2)], intro yield_intros, assumption)+

lemma xread_start: "yields start_ok (startXRead P E db nm args s)"
  unfolding startXRead_def
proof (rule yields_bindE[OF loops_parsed(3)], clarify)
  fix b w s1 assume "loop_ok b"
  then have "yields one_reply (runNoBlock b s1)" using loop_runNoBlock[of b s1] by (simp add: yields_def replies_ok_def)
  then have "yields start_ok (bindE (runNoBlock b s1) (\<lambda>rs s2. (Inr (Inl rs), s2)))"
    by (rule yields_bindE) (intro yield_intros)
  then show "yields start_ok (if w then (Inr (Inr b), s1) else bindE (runNoBlock b s1) (\<lambda>rs s2. (Inr (Inl rs), s2)))"
    using \<open>loop_ok b\<close> by (cases w) (simp_all only: if_True if_False yield_rules(2) value_rules(5) not_False_eq_True)
qed

lemma xreadgroup_start: "yields start_ok (startXReadGroup P E db nm args s)"
  unfolding startXReadGroup_def cmdXReadGroup_def
  by (rule yields_bindE[OF group_now], clarify)
     (auto simp: look_ok_def loop_ok_def null_replies attempts(7) intro!: yield_intros split: option.split)

lemma list_move_replies [reply_intros]:
  "replies_ok (cmdLMove P E db nm args s)"
  "replies_ok (cmdLMPop P E db args s)"
proof -
  have "yields one_reply (cmdLMove P E db nm args s)" unfolding cmdLMove_def
    by (rule yields_bindE[OF loops_parsed(1)]) (use loop_runNoBlock in \<open>auto simp: yields_def replies_ok_def\<close>)
  then show "replies_ok (cmdLMove P E db nm args s)" by (simp add: yields_def replies_ok_def)
  show "replies_ok (cmdLMPop P E db args s)" unfolding cmdLMPop_def
    using loop_runNoBlock[OF loops(2)] by (auto simp: bindS_def replies_ok_Inl split: sum.splits)
qed

end
