(* ===== verification/Transactions.thy ===== *)
theory Transactions
  imports Server Wire
begin

text \<open>
  What the serving layer guarantees: every request is answered with exactly one value, a transaction
  queue only ever holds commands that were validated, and \<open>EXEC\<close> is aborted exactly when a watched key
  is not what it was at \<open>WATCH\<close>. A blocking command that goes to sleep (the parameter \<open>fb\<close>) is assumed to come back with one
  value or an error, and to leave the transaction state of the connection alone.
\<close>

section \<open>One reply per command\<close>

definition once :: "'e cmdres \<Rightarrow> bool" where
  "once r \<longleftrightarrow> (case snd (fst r) of None \<Rightarrow> one_reply (fst (fst r)) | Some _ \<Rightarrow> fst (fst r) = [])"

definition keepsTxn :: "connState \<Rightarrow> 'e cmdres \<Rightarrow> bool" where
  "keepsTxn cs r \<longleftrightarrow> (let cs' = fst (snd (snd r)) in
     cs_inTxn cs' = cs_inTxn cs \<and> cs_queue cs' = cs_queue cs \<and> cs_dirtyTxn cs' = cs_dirtyTxn cs)"

text \<open>The contract of the commands that sleep.\<close>

definition fb_ok :: "(string \<Rightarrow> 'e cmdfn) \<Rightarrow> bool" where
  "fb_ok fb \<longleftrightarrow> (\<forall>name c args cs sv. once (fb name c args cs sv) \<and> keepsTxn cs (fb name c args cs sv))"

lemma once_written: "replies_ok (r, s) \<Longrightarrow> once (written r, rest)"
  by (cases r) (auto simp: once_def written_def replies_ok_def)

lemma keepsTxn_same [simp]: "keepsTxn cs (w, db, cs, sv)"
  by (simp add: keepsTxn_def)

lemma once_onStore:
  assumes "\<And>P E db nm args s. replies_ok (f P E db nm args s)"
  shows "once (onStore f W c args cs sv)"
  using assms[of "w_P W" "envOf W sv" "c_DB c" "c_Name c" args "sv_store sv"] once_written
  by (auto simp: onStore_def split: prod.split)

lemma keepsTxn_onStore: "keepsTxn cs (onStore f W c args cs sv)"
  by (simp add: onStore_def split: prod.split)

definition fine :: "string \<Rightarrow> 'e cmdfn \<Rightarrow> bool" where
  "fine n h \<longleftrightarrow> (n \<in> {''XINFO'', ''LCS''} \<or> (\<forall>c args cs sv. once (h c args cs sv))) \<and> (\<forall>c args cs sv. keepsTxn cs (h c args cs sv))"

lemma fine_onStore:
  assumes "\<And>P E db nm args s. replies_ok (f P E db nm args s)"
  shows "fine n (onStore f W)"
  using once_onStore[OF assms] keepsTxn_onStore by (auto simp: fine_def)

lemma fine_unfinished: "fine ''XINFO'' (onStore f W)" "fine ''LCS'' (onStore f W)"
  using keepsTxn_onStore by (auto simp: fine_def)

lemma storeHandlers_fine: "list_all (\<lambda>(n, h). fine n h) (storeHandlers W)"
  unfolding storeHandlers_def list.pred_inject prod.case
  by (intro conjI) (rule fine_unfinished | (rule fine_onStore, simp only: reply_intros) | simp)+

text \<open>The commands whose handlers can leave a reply unfinished or write more than one: \<open>MGET\<close> and \<open>SORT\<close> with \<open>GET\<close> when the
  storage fails after the header is written, \<open>XINFO\<close> and \<open>LCS IDX\<close>, and the four that change subscriptions.\<close>

definition unfinished :: "string set" where
  "unfinished = {''MGET'', ''XINFO'', ''LCS'', ''SORT'', ''SORT_RO'', ''SUBSCRIBE'', ''PSUBSCRIBE'', ''UNSUBSCRIBE'', ''PUNSUBSCRIBE''}"

lemma arityErr_cases: "arityErr nm args n (Inr ()) = Inr () \<or> (\<exists>e. arityErr nm args n (Inr ()) = Inl e)"
  by (simp add: arityErr_def split: option.split)

lemma onceI: "one_reply rs \<Longrightarrow> once ((rs, None), rest)" "once (([], Some e), rest)"
  by (simp_all add: once_def)

lemma scan_once: "once (cmdScanFn W c args cs sv)"
proof -
  have "replies_ok (r, s, t)" if "cmdScan P E wall db nm args st = (r, s, t)" for P :: "'a pebble" and E wall db nm args st r s t
    unfolding that[symmetric] by (rule reply_intros)
  then show ?thesis unfolding cmdScanFn_def by (simp split: prod.split) (blast intro: once_written)
qed

lemma admin_once: "once (cmdConfigFn c args cs sv)" "once (cmdSlowLogFn c args cs sv)" "once (cmdInfoFn W c args cs sv)"
proof -
  have cfg: "replies_ok (r, x, y)" if "cmdConfig n args st = (r, x, y)" for n args st r x y
    unfolding that[symmetric] by (rule reply_intros)
  have slow: "replies_ok (r, sl')" if "cmdSlowLog args sl = (r, sl')" for args sl r sl'
    unfolding that[symmetric] by (rule reply_intros)
  have info: "replies_ok (r, s)" if "cmdInfo g cfg args st = (r, s)" for g cfg args and st :: "'a Store" and r s
    unfolding that[symmetric] by (rule reply_intros)
  show "once (cmdConfigFn c args cs sv)" "once (cmdSlowLogFn c args cs sv)" "once (cmdInfoFn W c args cs sv)"
    unfolding cmdConfigFn_def cmdSlowLogFn_def cmdInfoFn_def
    by (simp_all split: prod.split) (blast intro: once_written cfg slow info)+
qed

lemma once_rules:
  "once (written (Inl e), rest)" "one_reply rs \<Longrightarrow> once (written (Inr rs), rest)"
  "once x \<Longrightarrow> once y \<Longrightarrow> once (if b then x else y)"
  "once x \<Longrightarrow> (\<And>y ys. once (k y ys)) \<Longrightarrow> once (case l of [] \<Rightarrow> x | y # ys \<Rightarrow> k y ys)"
  by (simp_all add: once_def written_def split: list.split)

lemma client_once: "once (cmdClient c args cs sv)"
  unfolding cmdClient_def Let_def by (intro once_rules onceI one_writeOK one_scalar scalar_intros)

lemma plain_once:
  "once (cmdPing c args cs sv)" "once (cmdEcho c args cs sv)" "once (cmdSelect c args cs sv)"
  "once (cmdCommand c args cs sv)" "once (cmdHello c args cs sv)" "once (cmdMulti c args cs sv)" "once (cmdDiscard c args cs sv)"
  "once (cmdWatch W c args cs sv)" "once (cmdUnwatch c args cs sv)" "once (cmdAuth c args cs sv)" "once (cmdDebug c args cs sv)"
  unfolding cmdPing_def cmdEcho_def cmdSelect_def cmdCommand_def cmdHello_def cmdMulti_def cmdDiscard_def cmdWatch_def cmdUnwatch_def
    cmdAuth_def cmdDebug_def written_def arityErr_def
  by (auto intro!: onceI one_writeOK one_replyArray simp: one_reply_def numeral_eq_Suc split: option.split sum.split prod.split)

lemma server_once:
  "once (cmdShutdownFn W c args cs sv)" "once (cmdSaveFn W c args cs sv)"
  "once (cmdPublishFn W c args cs sv)" "once (cmdPubSubFn c args cs sv)"
  "once (cmdLastSaveFn c args cs sv)" "once (cmdTimeFn W c args cs sv)"
proof -
  show "once (cmdShutdownFn W c args cs sv)" "once (cmdSaveFn W c args cs sv)"
    unfolding cmdShutdownFn_def cmdSaveFn_def cmdShutdown_def cmdSave_def eng_Flush_def bindE_def
    by (auto intro!: onceI one_scalar one_writeOK split: prod.splits option.splits sum.splits if_splits)
  show "once (cmdPublishFn W c args cs sv)" "once (cmdPubSubFn c args cs sv)"
    unfolding cmdPublishFn_def cmdPubSubFn_def cmdPublish_def cmdPubSub_def written_def Let_def
    by (auto intro!: onceI one_scalar one_replyArray one_array resp_rest_pairs split: option.split prod.split)
  show "once (cmdLastSaveFn c args cs sv)" "once (cmdTimeFn W c args cs sv)"
    unfolding cmdLastSaveFn_def cmdTimeFn_def cmdLastSave_def cmdTime_def Let_def by (auto intro!: onceI one_scalar one_array)
qed

lemma set_once: "once (onStore (\<lambda>P E. cmdSet P E (w_drs W) (c_maxBulk c)) W c args cs sv)"
  by (rule once_onStore) (rule reply_intros)

lemmas conn_once = plain_once server_once client_once admin_once scan_once set_once

lemma connHandlers_fine: "list_all (\<lambda>(n, h). n \<in> insert ''QUIT'' unfinished \<or> (\<forall>c args cs sv. once (h c args cs sv))) (connHandlers W)"
  unfolding connHandlers_def list.pred_inject prod.case
  by (intro conjI) (rule list.pred_inject(1) | (rule disjI2, intro allI, rule conn_once) | (rule disjI1, simp add: unfinished_def))+

lemma watchOne_keeps:
  "watchOne E db key st = (cs', d') \<Longrightarrow>
     cs_inTxn cs' = cs_inTxn (fst st) \<and> cs_queue cs' = cs_queue (fst st) \<and> cs_dirtyTxn cs' = cs_dirtyTxn (fst st)"
  by (cases st) (auto simp: watchOne_def Let_def split: prod.splits if_splits)

lemma watch_fold_keeps:
  "fold (watchOne E db) keys st = (cs', d') \<Longrightarrow>
     cs_inTxn cs' = cs_inTxn (fst st) \<and> cs_queue cs' = cs_queue (fst st) \<and> cs_dirtyTxn cs' = cs_dirtyTxn (fst st)"
proof (induction keys arbitrary: st)
  case (Cons k ks)
  obtain cs1 d1 where w: "watchOne E db k st = (cs1, d1)" by fastforce
  then have "fold (watchOne E db) ks (cs1, d1) = (cs', d')" using Cons.prems by simp
  from Cons.IH[OF this] watchOne_keeps[OF w] show ?case by simp
qed auto

lemma keeps_cases:
  "keepsTxn cs x \<Longrightarrow> keepsTxn cs y \<Longrightarrow> keepsTxn cs (if b then x else y)"
  "(\<And>e. keepsTxn cs (g e)) \<Longrightarrow> (\<And>v. keepsTxn cs (f v)) \<Longrightarrow> keepsTxn cs (case r of Inl e \<Rightarrow> g e | Inr v \<Rightarrow> f v)"
  "(\<And>a b. keepsTxn cs (h a b)) \<Longrightarrow> keepsTxn cs (case p of (a, b) \<Rightarrow> h a b)"
  "keepsTxn cs x \<Longrightarrow> (\<And>y ys. keepsTxn cs (k y ys)) \<Longrightarrow> keepsTxn cs (case l of [] \<Rightarrow> x | y # ys \<Rightarrow> k y ys)"
  by (simp_all split: sum.split prod.split list.split)

lemma keepsTxn_upd [simp]:
  "keepsTxn cs (w, db, cs\<lparr>cs_authed := b\<rparr>, sv)" "keepsTxn cs (w, db, cs\<lparr>cs_Name := nm\<rparr>, sv)"
  "keepsTxn cs (w, db, cs\<lparr>cs_watched := x, cs_watchedExpiry := y, cs_watchedStale := z\<rparr>, sv)"
  by (simp_all add: keepsTxn_def)

lemmas keeps_intros = keeps_cases keepsTxn_same keepsTxn_upd keepsTxn_onStore

lemma keepsTxn_watch: "keepsTxn cs (cmdWatch W c args cs sv)"
  unfolding cmdWatch_def Let_def
  by (auto simp: keepsTxn_def dest!: watch_fold_keeps split: sum.split prod.splits)

lemma conn_keeps:
  "keepsTxn cs (cmdPing c args cs sv)" "keepsTxn cs (cmdEcho c args cs sv)" "keepsTxn cs (cmdSelect c args cs sv)"
  "keepsTxn cs (cmdQuit c args cs sv)" "keepsTxn cs (cmdCommand c args cs sv)" "keepsTxn cs (cmdHello c args cs sv)"
  "keepsTxn cs (cmdMGetFn W c args cs sv)" "keepsTxn cs (cmdScanFn W c args cs sv)" "keepsTxn cs (cmdUnwatch c args cs sv)"
  "keepsTxn cs (cmdAuth c args cs sv)" "keepsTxn cs (cmdConfigFn c args cs sv)" "keepsTxn cs (cmdDebug c args cs sv)"
  "keepsTxn cs (cmdSlowLogFn c args cs sv)" "keepsTxn cs (cmdClient c args cs sv)" "keepsTxn cs (cmdSortFn f W c args cs sv)"
  "keepsTxn cs (subscribeFn b W c args cs sv)" "keepsTxn cs (unsubscribeFn b c args cs sv)" "keepsTxn cs (cmdPublishFn W c args cs sv)"
  "keepsTxn cs (cmdPubSubFn c args cs sv)" "keepsTxn cs (cmdInfoFn W c args cs sv)" "keepsTxn cs (cmdSaveFn W c args cs sv)"
  "keepsTxn cs (cmdLastSaveFn c args cs sv)" "keepsTxn cs (cmdTimeFn W c args cs sv)" "keepsTxn cs (cmdShutdownFn W c args cs sv)"
  unfolding cmdPing_def cmdEcho_def cmdSelect_def cmdQuit_def cmdCommand_def cmdHello_def cmdMGetFn_def cmdScanFn_def cmdUnwatch_def
    cmdAuth_def cmdConfigFn_def cmdDebug_def cmdSlowLogFn_def cmdClient_def cmdSortFn_def subscribeFn_def unsubscribeFn_def
    cmdPublishFn_def cmdPubSubFn_def cmdInfoFn_def cmdSaveFn_def cmdLastSaveFn_def cmdTimeFn_def cmdShutdownFn_def Let_def
  by (intro keeps_intros)+

lemma connHandlers_keep: "list_all (\<lambda>(n, h). n \<in> {''MULTI'', ''DISCARD''} \<or> (\<forall>c args cs sv. keepsTxn cs (h c args cs sv))) (connHandlers W)"
  unfolding connHandlers_def list.pred_inject prod.case
  by (intro conjI) (rule list.pred_inject(1) | (rule disjI2, intro allI, rule conn_keeps keepsTxn_onStore keepsTxn_watch) | (rule disjI1, simp))+

text \<open>The handler of a name, in the table.\<close>

lemma handlerOf_cases:
  assumes "handlerOf W n = Some h"
  shows "(n, h) \<in> set (connHandlers W) \<or> (n, h) \<in> set (storeHandlers W)"
  using assms by (auto simp: handlerOf_def split: option.splits dest: map_of_SomeD)

lemma handlerOf_fine:
  assumes "handlerOf W n = Some h"
  shows "n \<notin> insert ''QUIT'' unfinished \<Longrightarrow> once (h c args cs sv)"
    and "n \<notin> {''MULTI'', ''DISCARD''} \<Longrightarrow> keepsTxn cs (h c args cs sv)"
proof -
  have store: "fine n h" if "(n, h) \<in> set (storeHandlers W)"
    using storeHandlers_fine[of W] that by (auto simp: list_all_iff)
  have conn: "n \<in> insert ''QUIT'' unfinished \<or> once (h c args cs sv)" "n \<in> {''MULTI'', ''DISCARD''} \<or> keepsTxn cs (h c args cs sv)"
    if "(n, h) \<in> set (connHandlers W)"
    using connHandlers_fine[of W] connHandlers_keep[of W] that unfolding list_all_iff by fast+
  have "n \<in> {''XINFO'', ''LCS''} \<Longrightarrow> n \<in> unfinished" by (auto simp: unfinished_def)
  then show "once (h c args cs sv)" if "n \<notin> insert ''QUIT'' unfinished"
    using handlerOf_cases[OF assms] store conn(1) that unfolding fine_def by blast
  show "keepsTxn cs (h c args cs sv)" if "n \<notin> {''MULTI'', ''DISCARD''}"
    using handlerOf_cases[OF assms] store conn(2) that unfolding fine_def by blast
qed

lemma blockHandlers_start:
  assumes "(n, h) \<in> set blockHandlers"
  shows "yields start_ok (h P E db nm args s)"
  using assms by (auto simp: blockHandlers_def blocking_starts xread_start xreadgroup_start)

lemma blockFn_fine:
  assumes "\<And>P E db nm args s. yields start_ok (h P E db nm args s)" "fb_ok fb"
  shows "once (blockFn h W fb c args cs sv)" "keepsTxn cs (blockFn h W fb c args cs sv)"
proof -
  have "once (blockFn h W fb c args cs sv) \<and> keepsTxn cs (blockFn h W fb c args cs sv)"
    using assms(1)[of "w_P W" "envOf W sv" "c_DB c" "c_Name c" args "sv_store sv"] assms(2)
    by (auto simp: blockFn_def yields_def start_ok_def loop_ok_def look_ok_def firstLook_def fb_ok_def written_def Let_def
        intro!: onceI split: prod.splits sum.splits option.splits) (metis fst_conv)+
  then show "once (blockFn h W fb c args cs sv)" "keepsTxn cs (blockFn h W fb c args cs sv)" by blast+
qed

lemma baseFn_once: "fb_ok fb \<Longrightarrow> n \<notin> insert ''QUIT'' unfinished \<Longrightarrow> once (baseFn W fb n c args cs sv)"
  using blockFn_fine(1)[OF blockHandlers_start]
  by (auto simp: baseFn_def fb_ok_def intro: handlerOf_fine(1) split: option.split dest!: map_of_SomeD)

lemma baseFn_keeps: "fb_ok fb \<Longrightarrow> n \<notin> {''MULTI'', ''DISCARD''} \<Longrightarrow> keepsTxn cs (baseFn W fb n c args cs sv)"
  using blockFn_fine(2)[OF blockHandlers_start]
  by (auto simp: baseFn_def fb_ok_def intro: handlerOf_fine(2) split: option.split dest!: map_of_SomeD)

section \<open>The queue\<close>

definition upperOf :: "bytes list \<Rightarrow> string" where
  "upperOf line = go_string (map to_upper (hd line))"

text \<open>What \<open>handle\<close> lets into a queue.\<close>

definition line_ok :: "bytes list \<Rightarrow> bool" where
  "line_ok line \<longleftrightarrow> line \<noteq> [] \<and> upperOf line \<notin> set txnControl \<and> validateQueued (upperOf line) (length line) = None"

definition conn_ok :: "connState \<Rightarrow> bool" where
  "conn_ok cs \<longleftrightarrow> list_all line_ok (cs_queue cs) \<and> (\<not> cs_inTxn cs \<longrightarrow> cs_queue cs = [] \<and> \<not> cs_dirtyTxn cs)"

definition plain :: "bytes list \<Rightarrow> bool" where
  "plain line \<longleftrightarrow> upperOf line \<notin> unfinished"

lemma line_ok_known: "line_ok line \<Longrightarrow> \<exists>v. map_of commandTable (upperOf line) = Some v"
  by (auto simp: line_ok_def validateQueued_def split: option.splits)

lemma line_ok_control: "line_ok line \<Longrightarrow> upperOf line \<notin> {''MULTI'', ''EXEC'', ''DISCARD'', ''QUIT'', ''WATCH''}"
  by (auto simp: line_ok_def txnControl_def)

lemma resp_rest_once:
  assumes "once ((out, err), rest)"
  shows "resp_rest (Suc n) (out @ (case err of None \<Rightarrow> [] | Some e \<Rightarrow> [RError e]) @ rs) = resp_rest n rs"
proof (cases err)
  case None
  then have "resp_rest 1 out = Some []" using assms by (simp add: once_def one_reply_def)
  then show ?thesis using resp_rest_append[of 1 out n rs] None by simp
next
  case (Some e)
  then show ?thesis using assms by (simp add: once_def)
qed

lemma execQueue_replies:
  assumes "fb_ok fb"
  shows "list_all line_ok queue \<Longrightarrow> list_all plain queue \<Longrightarrow>
     execQueue W (baseFn W fb) maxBulk queue db cs sv = ((rs, err), rest) \<Longrightarrow>
     (err = None \<longrightarrow> resp_rest (length queue) rs = Some []) \<and> (err = None \<or> err = Some GoPanic)"
proof (induction queue arbitrary: db cs sv rs err rest)
  case (Cons line queue)
  obtain ar wr where row: "map_of commandTable (upperOf line) = Some (ar, wr)" using Cons.prems(1) line_ok_known by fastforce
  have ne: "line \<noteq> []" using Cons.prems(1) by (simp add: line_ok_def)
  show ?case
  proof (cases "wr \<and> memoryFull (sv_cfg sv) (sv_store sv)")
    case True
    obtain rs' err' rest' where r: "execQueue W (baseFn W fb) maxBulk queue db cs sv = ((rs', err'), rest')" by (metis surj_pair)
    then have "rs = RError (OOM (upperOf line)) # rs'" "err = err'"
      using Cons.prems(3) row ne True by (auto simp: upperOf_def Let_def)
    then show ?thesis using Cons.IH[OF _ _ r] Cons.prems(1,2) by simp
  next
    case False
    define c where "c = \<lparr>c_DB = db, c_Name = upperOf line, c_maxBulk = maxBulk, c_noBlock = True\<rparr>"
    obtain out e1 db1 cs1 sv1 where h: "baseFn W fb (upperOf line) c (tl line) cs sv = ((out, e1), db1, cs1, sv1)" by (metis surj_pair)
    have one: "once ((out, e1), db1, cs1, sv1)"
      using baseFn_once[OF assms, of "upperOf line" W c "tl line" cs sv] Cons.prems(1,2) line_ok_control[of line]
      by (auto simp: h plain_def)
    obtain rs' err' rest' where r:
      "execQueue W (baseFn W fb) maxBulk queue (if upperOf line = ''SELECT'' then db1 else db) cs1 sv1 = ((rs', err'), rest')"
      by (metis surj_pair)
    show ?thesis
    proof (cases "e1 = Some GoPanic")
      case True
      then show ?thesis using Cons.prems(3) row ne False h by (auto simp: upperOf_def c_def Let_def)
    next
      case no: False
      then have "rs = out @ (case e1 of None \<Rightarrow> [] | Some e \<Rightarrow> [RError e]) @ rs'" "err = err'"
        using Cons.prems(3) row ne False h r by (auto simp: upperOf_def c_def Let_def split: if_splits)
      then show ?thesis using Cons.IH[OF _ _ r] Cons.prems(1,2) resp_rest_once[OF one] by simp
    qed
  qed
qed simp

lemma execQueue_keeps:
  assumes "fb_ok fb"
  shows "list_all line_ok queue \<Longrightarrow> keepsTxn cs (execQueue W (baseFn W fb) maxBulk queue db cs sv)"
proof (induction queue arbitrary: db cs sv)
  case (Cons line queue)
  obtain ar wr where row: "map_of commandTable (upperOf line) = Some (ar, wr)" using Cons.prems line_ok_known by fastforce
  have ne: "line \<noteq> []" using Cons.prems by (simp add: line_ok_def)
  define c where "c = \<lparr>c_DB = db, c_Name = upperOf line, c_maxBulk = maxBulk, c_noBlock = True\<rparr>"
  obtain out e1 db1 cs1 sv1 where h: "baseFn W fb (upperOf line) c (tl line) cs sv = ((out, e1), db1, cs1, sv1)" by (metis surj_pair)
  have k: "keepsTxn cs ((out, e1), db1, cs1, sv1)"
    using baseFn_keeps[OF assms, of "upperOf line" cs W c "tl line" sv] Cons.prems line_ok_control[of line] by (auto simp: h)
  note IH = Cons.IH[of cs db sv] Cons.IH[of cs1 "if upperOf line = ''SELECT'' then db1 else db" sv1]
  show ?case using IH Cons.prems k row ne h
    by (auto simp: keepsTxn_def Let_def upperOf_def c_def split: prod.splits if_splits)
qed (simp add: keepsTxn_def)

section \<open>Requests\<close>

lemma execute_served:
  assumes "execute W fb maxBulk upper req cs sv = (Served rs, rest)"
    and "\<And>c. once (commandFn W fb upper c (tl req) cs sv)"
  shows "one_reply rs"
proof -
  define c where "c = \<lparr>c_DB = cs_db cs, c_Name = upper, c_maxBulk = maxBulk, c_noBlock = False\<rparr>"
  obtain out e db1 cs1 sv1 where h: "commandFn W fb upper c (tl req) cs sv = ((out, e), db1, cs1, sv1)" by (metis surj_pair)
  have "once ((out, e), db1, cs1, sv1)" using assms(2)[of c] h by simp
  then show ?thesis using assms(1) h
    by (auto simp: execute_def runCommand_def c_def[symmetric] once_def one_reply_def Let_def split: option.splits if_splits)
qed

lemma handlerOf_quit: "handlerOf W ''QUIT'' = Some cmdQuit"
  by (simp add: handlerOf_def connHandlers_def)

lemma quit_served:
  assumes "execute W fb maxBulk ''QUIT'' req cs sv = (Served rs, rest)"
  shows "one_reply rs"
proof -
  have "commandFn W fb ''QUIT'' = cmdQuit" by (simp add: commandFn_def baseFn_def handlerOf_quit)
  then show ?thesis using assms
    by (auto simp: execute_def runCommand_def cmdQuit_def one_reply_def arityErr_def Let_def checkArgLen_def
        split: option.splits sum.splits if_splits)
qed

lemma exec_served:
  assumes "fb_ok fb" "conn_ok cs" "list_all plain (cs_queue cs)"
    and "execute W fb maxBulk ''EXEC'' req cs sv = (Served rs, rest)"
  shows "one_reply rs \<or> last rs = RError (ProtoError ''ERR internal error'')"
proof -
  define c where "c = \<lparr>c_DB = cs_db cs, c_Name = ''EXEC'', c_maxBulk = maxBulk, c_noBlock = False\<rparr>"
  have fn: "commandFn W fb ''EXEC'' = cmdExec W (baseFn W fb)" by (simp add: commandFn_def)
  obtain out e db1 cs1 sv1 where h: "cmdExec W (baseFn W fb) c (tl req) cs sv = ((out, e), db1, cs1, sv1)" by (metis surj_pair)
  have "once ((out, e), db1, cs1, sv1) \<or> e = Some GoPanic"
  proof -
    obtain b d where cw: "checkWatched (envOf W sv) (c_DB c) cs (cs_watched cs) (s_dict (sv_store sv)) = (b, d)" by fastforce
    define sv2 where "sv2 = sv\<lparr>sv_store := (sv_store sv)\<lparr>s_dict := d\<rparr>\<rparr>"
    define cs2 where "cs2 = cs\<lparr>cs_inTxn := False, cs_queue := [], cs_watched := [], cs_dirtyTxn := False\<rparr>"
    obtain qs qe qr where q: "execQueue W (baseFn W fb) (c_maxBulk c) (cs_queue cs) (c_DB c) cs2 sv2 = ((qs, qe), qr)" by (metis surj_pair)
    have "list_all line_ok (cs_queue cs)" using assms(2) by (simp add: conn_ok_def)
    note Q = execQueue_replies[OF assms(1) this assms(3) q]
    show ?thesis using h Q q cw
      by (auto simp: cmdExec_def once_def one_reply_def Let_def sv2_def[symmetric] cs2_def[symmetric] split: sum.splits if_splits prod.splits)
  qed
  then show ?thesis using assms(4) h fn
    by (auto simp: execute_def runCommand_def c_def[symmetric] once_def one_reply_def Let_def split: option.splits if_splits)
qed


text \<open>A small server for concrete runs: the reference engine, an empty store, and no handler outside the
  model.\<close>

definition sample_world :: "(bytes \<times> bytes) list world" where
  "sample_world = \<lparr>w_P = ref_pebble, w_E = small_env 1000, w_drs = (\<lambda>_. \<lparr>dr_shard = (\<lambda>_ _. 0), dr_order = (\<lambda>_ _ m. m), dr_late = False\<rparr>),
     w_rnd = (\<lambda>_. 0), w_perm = (\<lambda>n. [0..<n]), w_wall = 0, w_secs = 0, w_us = 0, w_mg = (\<lambda>e k v. (Some (PebbleError 0), e)),
     w_flush = (\<lambda>e. (None, e)), w_rd = (\<lambda>_. None), w_gauges = \<lparr>g_uptime = 0, g_blockCache = 0, g_diskUsage = 0, g_lastSave = 0, g_commands = 0\<rparr>,
     w_confirm = (\<lambda>ch p. []), w_pub = (\<lambda>ch m. 0)\<rparr>"

definition sample_server :: "(bytes \<times> bytes) list Server" where
  "sample_server = \<lparr>sv_store = empty_store, sv_cursors = newScanCursorTable, sv_cfg = env_cfg (small_env 1000), sv_slow = newSlowLog,
     sv_commands = 0, sv_activeExpire = True, sv_ps = newPubSub, sv_lastSave = 0, sv_shutdown = False\<rparr>"

definition no_fb :: "string \<Rightarrow> 'e cmdfn" where
  "no_fb name c args cs sv = (([], Some ErrUnknownCmd), c_DB c, cs, sv)"

definition sample_conn :: connState where "sample_conn = newConn DefaultConfig 1 []"

lemma no_fb_ok: "fb_ok no_fb"
  by (simp add: fb_ok_def no_fb_def once_def)

lemma sample_conn_ok: "conn_ok sample_conn" "cs_queue sample_conn = []" "\<not> cs_inTxn sample_conn" "cs_authed sample_conn"
  by (simp_all add: conn_ok_def sample_conn_def newConn_def requiresAuth_def DefaultConfig_def)

lemma upper_ping: "go_string (map to_upper (ascii ''ping'')) = ''PING''" by code_simp

lemma upperOf_ping: "upperOf [ascii ''ping''] = ''PING''" by (simp add: upperOf_def upper_ping)

lemma ping_run: "\<exists>rest. handle sample_world no_fb 0 [ascii ''ping''] sample_conn sample_server = (Served [RString ''PONG''], rest)"
proof -
  have "handlerOf sample_world ''PING'' = Some cmdPing" by (simp add: handlerOf_def connHandlers_def)
  moreover have "map_of commandTable ''PING'' = Some (-1, False)" by (simp add: commandTable_def)
  moreover have "commandKeys ''PING'' [] = Inr []" by (simp add: commandKeys_def)
  ultimately show ?thesis
    by (simp add: handle_def upper_ping Let_def sample_conn_ok execute_def runCommand_def commandFn_def baseFn_def
        cmdPing_def written_def)
qed


section \<open>The transaction invariant\<close>

lemma conn_ok_keeps: "keepsTxn cs r \<Longrightarrow> conn_ok cs \<Longrightarrow> conn_ok (fst (snd (snd r)))"
  by (auto simp: keepsTxn_def conn_ok_def Let_def)

lemma conn_ok_abort: "conn_ok (abortTxn cs)"
  by (simp add: conn_ok_def abortTxn_def)

lemma conn_ok_db [simp]: "conn_ok (cs\<lparr>cs_db := db\<rparr>) = conn_ok cs"
  by (simp add: conn_ok_def)

lemma conn_ok_dirty: "conn_ok cs \<Longrightarrow> cs_inTxn cs \<Longrightarrow> conn_ok (cs\<lparr>cs_dirtyTxn := True\<rparr>)"
  by (simp add: conn_ok_def)

lemma conn_ok_exec:
  assumes "fb_ok fb" "conn_ok cs"
  shows "conn_ok (fst (snd (snd (cmdExec W (baseFn W fb) c args cs sv))))"
proof -
  define cs2 where "cs2 = cs\<lparr>cs_inTxn := False, cs_queue := [], cs_watched := [], cs_dirtyTxn := False\<rparr>"
  have "list_all line_ok (cs_queue cs)" using assms(2) by (simp add: conn_ok_def)
  then have "keepsTxn cs2 (execQueue W (baseFn W fb) mb (cs_queue cs) db cs2 sv2)" for mb db sv2
    by (rule execQueue_keeps[OF assms(1)])
  then have q: "conn_ok (fst (snd (snd (execQueue W (baseFn W fb) mb (cs_queue cs) db cs2 sv2))))" for mb db sv2
    by (rule conn_ok_keeps) (simp add: conn_ok_def cs2_def)
  show ?thesis
    using assms(2) q conn_ok_abort by (auto simp: cmdExec_def Let_def cs2_def[symmetric] split: sum.split prod.splits)
       (metis fst_conv snd_conv)+
qed

lemma conn_ok_command:
  assumes "fb_ok fb" "conn_ok cs"
  shows "conn_ok (fst (snd (snd (commandFn W fb name c args cs sv))))"
proof -
  consider "name = ''EXEC''" | "name = ''MULTI''" | "name = ''DISCARD''" | "name \<notin> {''EXEC'', ''MULTI'', ''DISCARD''}" by blast
  then show ?thesis
  proof cases
    case 1
    then show ?thesis using conn_ok_exec[OF assms] by (simp add: commandFn_def)
  next
    case 2
    then have "commandFn W fb name = cmdMulti" by (simp add: commandFn_def baseFn_def handlerOf_def connHandlers_def)
    then show ?thesis using assms(2) by (auto simp: cmdMulti_def conn_ok_def split: sum.split)
  next
    case 3
    then have "commandFn W fb name = cmdDiscard" by (simp add: commandFn_def baseFn_def handlerOf_def connHandlers_def)
    then show ?thesis using assms(2) conn_ok_abort by (auto simp: cmdDiscard_def split: sum.split)
  next
    case 4
    then show ?thesis using conn_ok_keeps[OF baseFn_keeps[OF assms(1)] assms(2)] by (simp add: commandFn_def)
  qed
qed

text \<open>C15: The transaction state of a connection is an invariant of the request loop. A queue only holds commands
  that exist, have an acceptable number of arguments and are none of \<open>MULTI\<close>, \<open>EXEC\<close>, \<open>DISCARD\<close>, \<open>QUIT\<close>
  and \<open>WATCH\<close>; outside a transaction the queue is empty and the dirty flag is off. Every request keeps it,
  whatever it is and however it ends.\<close>

theorem txn_invariant:
  assumes "fb_ok fb" "conn_ok cs" "handle W fb maxBulk req cs sv = (out, cs', sv')"
  shows "conn_ok cs'"
proof -
  define sv1 where "sv1 = sv\<lparr>sv_commands := sv_commands sv + 1\<rparr>"
  have run: "conn_ok (fst (snd (execute W fb maxBulk (upperOf req) req cs sv1)))"
    using conn_ok_command[OF assms(1,2), of W "upperOf req" "\<lparr>c_DB = cs_db cs, c_Name = upperOf req, c_maxBulk = maxBulk, c_noBlock = False\<rparr>" "tl req" sv1]
    by (auto simp: execute_def runCommand_def Let_def split: prod.splits option.splits if_splits)
  have queued: "conn_ok (cs\<lparr>cs_queue := cs_queue cs @ [req]\<rparr>)"
    if "req \<noteq> []" "cs_inTxn cs" "upperOf req \<notin> set txnControl" "validateQueued (upperOf req) (length (tl req) + 1) = None"
    using assms(2) that by (auto simp: conn_ok_def line_ok_def)
  have "conn_ok (fst (snd (handle W fb maxBulk req cs sv)))"
    unfolding handle_def Let_def upperOf_def[symmetric] sv1_def[symmetric]
    using assms(2) queued run
    by (simp add: conn_ok_dirty split: option.split prod.split)
  then show ?thesis by (simp add: assms(3))
qed

theorem txn_invariant_witness:
  "conn_ok (fst (snd (handle sample_world no_fb 0 [ascii ''ping''] sample_conn sample_server)))"
  using txn_invariant[OF no_fb_ok sample_conn_ok(1)] by (metis prod.collapse)

section \<open>Watched keys\<close>

text \<open>What a lookup returns: the entry of the index, unless it has expired.\<close>

definition alive :: "Env \<Rightarrow> Dict \<Rightarrow> dbid \<Rightarrow> bytes \<Rightarrow> Entry option" where
  "alive E d db key = (case dlook E d db key of None \<Rightarrow> None | Some e \<Rightarrow> if Expired e (env_now E) then None else Some e)"

lemma alive_Lookup:
  assumes "dict_wf d" "env_ok E"
  shows "fst (Lookup E db k d) = alive E d db k" "alive E (snd (Lookup E db k d)) = alive E d" "dict_wf (snd (Lookup E db k d))"
  using Lookup_spec[OF assms] by (auto simp: alive_def fun_eq_iff split: option.splits)

lemma checkWatched_iff:
  assumes "env_ok E"
  shows "dict_wf d \<Longrightarrow> fst (checkWatched E db cs ws d) \<longleftrightarrow> (\<exists>(k, v) \<in> set ws. watchBroken E cs k v (alive E d db k))"
proof (induction ws arbitrary: d)
  case (Cons w ws)
  obtain k v where w: "w = (k, v)" by fastforce
  note L = alive_Lookup[OF Cons.prems assms, of db k]
  show ?case using Cons.IH[OF L(3)] L(1,2) by (simp add: w case_prod_beta)
qed simp

text \<open>Two states of a key differ for \<open>WATCH\<close>: it appeared, disappeared (by deletion or expiry) or was written.\<close>

definition changed :: "Entry option \<Rightarrow> Entry option \<Rightarrow> bool" where
  "changed a b = (case (a, b) of (None, None) \<Rightarrow> False | (Some e, Some e') \<Rightarrow> e_version e \<noteq> e_version e' | _ \<Rightarrow> True)"

definition expiryMark :: "Entry option \<Rightarrow> int" where
  "expiryMark e = (case e of None \<Rightarrow> -1 | Some en \<Rightarrow> e_expireAt en)"

definition versionMark :: "Entry option \<Rightarrow> 64 word" where
  "versionMark e = (case e of None \<Rightarrow> 0 | Some en \<Rightarrow> e_version en)"

lemma alive_not_stale: "alive E d db k = Some e \<Longrightarrow> \<not> (e_expireAt e > 0 \<and> e_expireAt e \<le> env_now E)"
  by (auto simp: alive_def Expired_def split: option.splits if_splits)

lemma alive_expiry_sign: "alive E d db k = Some e \<Longrightarrow> 0 \<le> env_now E \<Longrightarrow> 0 \<le> e_expireAt e"
  by (auto simp: alive_def Expired_def split: option.splits if_splits)

text \<open>What \<open>WATCH\<close> records, key by key.\<close>

definition recorded :: "Env \<Rightarrow> Dict \<Rightarrow> dbid \<Rightarrow> bytes set \<Rightarrow> connState \<Rightarrow> bool" where
  "recorded E d db K cs \<longleftrightarrow> fst ` set (cs_watched cs) = K \<and>
     (\<forall>(k, v) \<in> set (cs_watched cs). v = versionMark (alive E d db k) \<and>
        (\<exists>m m'. cs_watchedExpiry cs = Some m \<and> map_of m k = Some (expiryMark (alive E d db k)) \<and>
                cs_watchedStale cs = Some m' \<and> map_of m' k = Some False))"

lemma watchOne_recorded:
  assumes "env_ok E" "dict_wf d'" "alive E d' = alive E d" "recorded E d db K cs"
    and "watchOne E db k (cs, d') = (cs2, d2)"
  shows "recorded E d db (insert k K) cs2 \<and> dict_wf d2 \<and> alive E d2 = alive E d"
proof (cases "map_of (cs_watched cs) k = None")
  case False
  then have "k \<in> K" using assms(4) unfolding recorded_def map_of_eq_None_iff by blast
  then show ?thesis using False assms by (auto simp: watchOne_def insert_absorb)
next
  case True
  then have new: "k \<notin> fst ` set (cs_watched cs)" by (simp add: map_of_eq_None_iff)
  note L = alive_Lookup[OF assms(2,1), of db k]
  have cs2: "cs2 = cs\<lparr>cs_watched := cs_watched cs @ [(k, versionMark (alive E d db k))],
      cs_watchedExpiry := Some (AList.update k (expiryMark (alive E d db k)) (case cs_watchedExpiry cs of None \<Rightarrow> [] | Some m \<Rightarrow> m)),
      cs_watchedStale := Some (AList.update k False (case cs_watchedStale cs of None \<Rightarrow> [] | Some m \<Rightarrow> m))\<rparr>"
    and d2: "d2 = snd (Lookup E db k d')"
    using assms(3,5) True L(1) alive_not_stale[of E d db k]
    by (auto simp: watchOne_def Let_def versionMark_def expiryMark_def split: prod.splits option.splits)
  show ?thesis using assms(3,4) L(2,3) new
    by (auto simp: recorded_def cs2 d2 update_conv' split: prod.splits) (metis fst_conv image_eqI option.case(2))+
qed

lemma watch_fold_recorded:
  assumes "env_ok E"
  shows "dict_wf d' \<Longrightarrow> alive E d' = alive E d \<Longrightarrow> recorded E d db K cs \<Longrightarrow>
     fold (watchOne E db) ks (cs, d') = (cs2, d2) \<Longrightarrow> recorded E d db (set ks \<union> K) cs2"
proof (induction ks arbitrary: cs d' K)
  case (Cons k ks)
  obtain cs1 d1 where w: "watchOne E db k (cs, d') = (cs1, d1)" by fastforce
  note R = watchOne_recorded[OF assms Cons.prems(1-3) w]
  show ?case using Cons.IH[of d1 "insert k K" cs1] R Cons.prems(4) w by simp
qed simp

lemma recorded_broken:
  assumes "recorded E d db K cs" "0 \<le> env_now E" "(k, v) \<in> set (cs_watched cs)"
  shows "watchBroken E' cs k v (alive E' d' db k) \<longleftrightarrow> changed (alive E d db k) (alive E' d' db k)"
proof -
  have v: "v = versionMark (alive E d db k)" and m: "\<exists>m m'. cs_watchedExpiry cs = Some m \<and> map_of m k = Some (expiryMark (alive E d db k)) \<and>
                cs_watchedStale cs = Some m' \<and> map_of m' k = Some False" using assms(1,3) by (auto simp: recorded_def)
  then show ?thesis using alive_not_stale[of E' d' db k] alive_expiry_sign[of E d db k] assms(2)
    by (auto simp: watchBroken_def changed_def versionMark_def expiryMark_def split: option.splits)
qed

lemma envOf_ok [simp]: "env_now (envOf W sv) = env_now (w_E W)"
  by (simp add: envOf_def)



text \<open>A deletion followed by a re-creation goes unnoticed: versions start again at one. The value that was
  watched is replaced, and the transaction runs all the same.\<close>

lemma watch_misses_recreation:
  assumes "env_ok E" "dict_wf d" "dlook E d db k = None"
  shows "\<not> changed (alive E (Set E db k ty 0 p d) db k)
                   (alive E (Set E db k ty 0 p' (snd (Delete E db k (Set E db k ty 0 p d)))) db k)"
proof -
  note S = Set_spec[OF assms(2,1), of db k ty 0 p]
  note D = Delete_spec[OF S(2) assms(1), of db k]
  note S' = Set_spec[OF _ assms(1), of "snd (Delete E db k (Set E db k ty 0 p d))" db k ty 0 p']
  show ?thesis using S D S' assms(3)
    by (auto simp: changed_def alive_def set_entry_def Expired_def newEntry_def split: option.splits)
qed

end
