(* ===== verification/Sessions.thy ===== *)
theory Sessions
  imports Transactions
begin

text \<open>
  Whole conversations: a client opens a transaction with \<open>MULTI\<close>, queues commands and ends it with \<open>EXEC\<close>
  (\<open>server.go\<close>, \<open>handle\<close>; \<open>txn.go\<close>). The theorems follow the state of the connection and of the store through the
  sequence of requests.
\<close>

section \<open>Sequences of requests\<close>

text \<open>The protocol library calls \<open>handle\<close> for one request of a connection after the other.\<close>

fun requests ::
  "'e world \<Rightarrow> (string \<Rightarrow> 'e cmdfn) \<Rightarrow> int \<Rightarrow> bytes list list \<Rightarrow> connState \<Rightarrow> 'e Server \<Rightarrow> outcome list \<times> connState \<times> 'e Server" where
  "requests W fb maxBulk [] cs sv = ([], cs, sv)"
| "requests W fb maxBulk (req # reqs) cs sv =
     (let (out, cs1, sv1) = handle W fb maxBulk req cs sv; (outs, cs2, sv2) = requests W fb maxBulk reqs cs1 sv1
      in (out # outs, cs2, sv2))"

text \<open>A request that is queued inside a transaction, or rejected.\<close>

definition queueable :: "bytes list \<Rightarrow> bool" where
  "queueable req \<longleftrightarrow> req \<noteq> [] \<and> upperOf req \<notin> set txnControl"

definition rejection :: "bytes list \<Rightarrow> goerr option" where
  "rejection req =
     (if map_of commandTable (upperOf req) = None then Some (UnknownCommand (go_string (map to_lower (hd req))))
      else validateQueued (upperOf req) (length req))"

definition queueAnswer :: "bytes list \<Rightarrow> outcome" where
  "queueAnswer req = Served [case rejection req of None \<Rightarrow> RString ''QUEUED'' | Some err \<Rightarrow> RError err]"

definition may_run :: "connState \<Rightarrow> 'e Server \<Rightarrow> bool" where
  "may_run cs sv \<longleftrightarrow> cs_authed cs \<or> \<not> requiresAuth (sv_cfg sv)"

lemma requests_append:
  "requests W fb maxBulk (xs @ ys) cs sv =
     (let (outs, cs1, sv1) = requests W fb maxBulk xs cs sv; (outs', cs2, sv2) = requests W fb maxBulk ys cs1 sv1
      in (outs @ outs', cs2, sv2))"
  by (induction xs arbitrary: cs sv) (auto simp: Let_def split: prod.splits)

lemma handle_queues:
  assumes "queueable req" "cs_inTxn cs" "may_run cs sv"
  shows "handle W fb maxBulk req cs sv =
    (queueAnswer req,
     if rejection req = None then cs\<lparr>cs_queue := cs_queue cs @ [req]\<rparr> else cs\<lparr>cs_dirtyTxn := True\<rparr>,
     sv\<lparr>sv_commands := sv_commands sv + 1\<rparr>)"
proof -
  have "length (tl req) + 1 = length req" using assms(1) by (cases req) (simp_all add: queueable_def)
  then show ?thesis using assms
    by (auto simp: handle_def queueable_def rejection_def queueAnswer_def may_run_def Let_def upperOf_def[symmetric] split: option.split)
qed

lemma requests_queue:
  assumes "list_all queueable reqs" "cs_inTxn cs" "may_run cs sv"
  shows "requests W fb maxBulk reqs cs sv =
    (map queueAnswer reqs,
     cs\<lparr>cs_queue := cs_queue cs @ filter (\<lambda>r. rejection r = None) reqs,
        cs_dirtyTxn := (cs_dirtyTxn cs \<or> list_ex (\<lambda>r. rejection r \<noteq> None) reqs)\<rparr>,
     sv\<lparr>sv_commands := sv_commands sv + int (length reqs)\<rparr>)"
  using assms
proof (induction reqs arbitrary: cs sv)
  case (Cons r reqs)
  then show ?case by (auto simp: handle_queues may_run_def Let_def)
qed simp

text \<open>\<open>MULTI\<close> and \<open>EXEC\<close> reach their handlers, whatever the memory and the locks.\<close>

lemma table_control: "map_of commandTable ''MULTI'' = Some (1, False)" "map_of commandTable ''EXEC'' = Some (1, False)"
  by (simp_all add: commandTable_def)

lemma handle_control:
  assumes "upperOf [w] = n" "n = ''MULTI'' \<or> n = ''EXEC''" "may_run cs sv"
  shows "handle W fb maxBulk [w] cs sv = execute W fb maxBulk n [w] cs (sv\<lparr>sv_commands := sv_commands sv + 1\<rparr>)"
proof -
  have "n \<in> set txnControl" "commandKeys n [] = Inr []" "map_of commandTable n = Some (1, False)"
    using assms(2) table_control by (auto simp: txnControl_def commandKeys_def)
  then show ?thesis using assms(1,3)
    by (auto simp: handle_def may_run_def Let_def upperOf_def)
qed

lemma handle_multi:
  assumes "upperOf [w] = ''MULTI''" "\<not> cs_inTxn cs" "may_run cs sv"
  shows "\<exists>sv1. handle W fb maxBulk [w] cs sv = (Served writeOK, cs\<lparr>cs_inTxn := True, cs_queue := [], cs_dirtyTxn := False\<rparr>, sv1) \<and>
    sv_store sv1 = sv_store sv \<and> sv_cfg sv1 = sv_cfg sv"
proof -
  have fn: "commandFn W fb ''MULTI'' = cmdMulti" by (simp add: commandFn_def baseFn_def handlerOf_def connHandlers_def)
  show ?thesis using assms
    by (simp add: handle_control execute_def runCommand_def fn cmdMulti_def arityErr_def checkArgLen_def Let_def)
qed

lemma checkWatched_cong:
  "cs_watchedExpiry cs' = cs_watchedExpiry cs \<Longrightarrow> cs_watchedStale cs' = cs_watchedStale cs \<Longrightarrow>
     checkWatched E db cs' ws d = checkWatched E db cs ws d"
  by (induction ws arbitrary: d) (auto simp: watchBroken_def split: prod.splits option.splits)

lemma handle_exec_dirty:
  assumes "upperOf [w] = ''EXEC''" "cs_inTxn cs" "cs_dirtyTxn cs" "may_run cs sv"
    and "checkWatched (envOf W sv) (cs_db cs) cs (cs_watched cs) (s_dict (sv_store sv)) = (abort, d)"
  shows "\<exists>sv1. handle W fb maxBulk [w] cs sv =
      (Served [if abort then RNull else RError (ProtoError ''EXECABORT Transaction discarded because of previous errors.'')], abortTxn cs, sv1) \<and>
    sv_store sv1 = (sv_store sv)\<lparr>s_dict := d\<rparr>"
proof -
  have fn: "commandFn W fb ''EXEC'' = cmdExec W (baseFn W fb)" by (simp add: commandFn_def)
  show ?thesis using assms
    by (auto simp: handle_control execute_def runCommand_def fn cmdExec_def arityErr_def checkArgLen_def abortTxn_def envOf_def Let_def)
qed

lemma handle_exec_clean:
  assumes "upperOf [w] = ''EXEC''" "cs_inTxn cs" "\<not> cs_dirtyTxn cs" "may_run cs sv"
    and "checkWatched (envOf W sv) (cs_db cs) cs (cs_watched cs) (s_dict (sv_store sv)) = (False, d)"
  shows "\<exists>sv1 rs err db' cs' sv'.
      sv_store sv1 = (sv_store sv)\<lparr>s_dict := d\<rparr> \<and> sv_cfg sv1 = sv_cfg sv \<and>
      execQueue W (baseFn W fb) maxBulk (cs_queue cs) (cs_db cs)
        (cs\<lparr>cs_inTxn := False, cs_queue := [], cs_watched := [], cs_dirtyTxn := False\<rparr>) sv1 = ((rs, err), db', cs', sv') \<and>
      (err = None \<longrightarrow> fst (handle W fb maxBulk [w] cs sv) = Served (RArray (int (length (cs_queue cs))) # rs)) \<and>
      sv_store (snd (snd (handle W fb maxBulk [w] cs sv))) = sv_store sv'"
proof -
  have fn: "commandFn W fb ''EXEC'' = cmdExec W (baseFn W fb)" by (simp add: commandFn_def)
  define cs1 where "cs1 = cs\<lparr>cs_inTxn := False, cs_queue := [], cs_watched := [], cs_dirtyTxn := False\<rparr>"
  define sv1 where "sv1 = sv\<lparr>sv_commands := sv_commands sv + 1, sv_store := (sv_store sv)\<lparr>s_dict := d\<rparr>\<rparr>"
  obtain rs err db' cs' sv' where q:
    "execQueue W (baseFn W fb) maxBulk (cs_queue cs) (cs_db cs) cs1 sv1 = ((rs, err), db', cs', sv')" by (metis surj_pair)
  have e: "envOf W (sv\<lparr>sv_commands := n\<rparr>) = envOf W sv" for n by (simp add: envOf_def)
  have "err = None \<longrightarrow> fst (handle W fb maxBulk [w] cs sv) = Served (RArray (int (length (cs_queue cs))) # rs)"
    "sv_store (snd (snd (handle W fb maxBulk [w] cs sv))) = sv_store sv'"
    using assms q
    by (auto simp: handle_control execute_def runCommand_def fn cmdExec_def arityErr_def checkArgLen_def e Let_def
        cs1_def[symmetric] sv1_def[symmetric] split: option.split)
  with q show ?thesis by (intro exI[of _ sv1]) (auto simp: sv1_def cs1_def)
qed

section \<open>Transactions, from the first request to the last\<close>

text \<open>The connection between \<open>MULTI\<close> and \<open>EXEC\<close>.\<close>

lemma requests_until_exec:
  assumes "upperOf [m] = ''MULTI''" "\<not> cs_inTxn cs" "may_run cs sv" "list_all queueable reqs"
  shows "\<exists>cs1 sv1. requests W fb maxBulk ([m] # reqs) cs sv = (Served writeOK # map queueAnswer reqs, cs1, sv1) \<and>
    cs1 = cs\<lparr>cs_inTxn := True, cs_queue := filter (\<lambda>r. rejection r = None) reqs,
             cs_dirtyTxn := list_ex (\<lambda>r. rejection r \<noteq> None) reqs\<rparr> \<and>
    sv_store sv1 = sv_store sv \<and> sv_cfg sv1 = sv_cfg sv \<and> may_run cs1 sv1"
proof -
  obtain sv1 where m: "handle W fb maxBulk [m] cs sv = (Served writeOK, cs\<lparr>cs_inTxn := True, cs_queue := [], cs_dirtyTxn := False\<rparr>, sv1)"
    "sv_store sv1 = sv_store sv" "sv_cfg sv1 = sv_cfg sv"
    using handle_multi[OF assms(1-3)] by blast
  then have "may_run (cs\<lparr>cs_inTxn := True, cs_queue := [], cs_dirtyTxn := False\<rparr>) sv1" using assms(3) by (simp add: may_run_def)
  from requests_queue[OF assms(4) _ this] show ?thesis using m assms(3) by (simp add: may_run_def)
qed


lemma upper_control: "upperOf [ascii ''multi''] = ''MULTI''" "upperOf [ascii ''exec''] = ''EXEC''"
  "upperOf [ascii ''nosuch''] = ''NOSUCH''" "go_string (map to_lower (ascii ''nosuch'')) = ''nosuch''"
  unfolding upperOf_def by code_simp+

lemma sample_may_run: "may_run sample_conn sample_server" "cs_watched sample_conn = []"
  by (simp_all add: may_run_def sample_conn_ok) (simp add: sample_conn_def newConn_def)

lemma reject_sample: "rejection [ascii ''nosuch''] = Some (UnknownCommand ''nosuch'')" "queueable [ascii ''nosuch'']"
  by (simp_all add: rejection_def queueable_def upper_control commandTable_def txnControl_def)




section \<open>Connections without the password\<close>

text \<open>A request that is no successful \<open>AUTH\<close>.\<close>

definition no_password :: "Config \<Rightarrow> bytes list \<Rightarrow> bool" where
  "no_password cfg req \<longleftrightarrow> upperOf req = ''AUTH'' \<longrightarrow> \<not> (length req \<in> {2, 3} \<and> go_string (last req) = RequirePass cfg)"

definition refused :: "outcome \<Rightarrow> bool" where
  "refused out \<longleftrightarrow> out = Served [] \<or> (\<exists>err. out = Served [RError err])"

definition same_data :: "'e Server \<Rightarrow> 'e Server \<Rightarrow> bool" where
  "same_data sv sv' \<longleftrightarrow> sv_store sv' = sv_store sv \<and> sv_cfg sv' = sv_cfg sv \<and> sv_ps sv' = sv_ps sv \<and>
     sv_cursors sv' = sv_cursors sv \<and> sv_shutdown sv' = sv_shutdown sv"

lemma auth_fails:
  assumes "\<not> cs_authed cs" "requiresAuth (sv_cfg sv)" "no_password (sv_cfg sv) req" "upperOf req = ''AUTH''" "req \<noteq> []"
  shows "\<exists>err sv'. execute W fb maxBulk ''AUTH'' req cs sv = (Served [RError err], cs, sv') \<and> same_data sv sv'"
proof -
  have fn: "commandFn W fb ''AUTH'' = cmdAuth" by (simp add: commandFn_def baseFn_def handlerOf_def connHandlers_def)
  obtain w args where r: "req = w # args" using assms(5) by (cases req) auto
  have cs: "cs\<lparr>cs_authed := False\<rparr> = cs" using assms(1) by (cases cs) simp
  have "length args < 1 \<or> length args > 2 \<or> go_string (last args) \<noteq> RequirePass (sv_cfg sv)"
    using assms(3,4) r by (cases args; cases "tl args") (auto simp: no_password_def)
  then show ?thesis using assms(2) cs r
    by (auto simp: execute_def runCommand_def fn cmdAuth_def checkPassword_def same_data_def Let_def split: option.split)
qed

lemma handle_locked_out:
  assumes "\<not> cs_authed cs" "\<not> cs_inTxn cs" "requiresAuth (sv_cfg sv)" "no_password (sv_cfg sv) req"
    and "handle W fb maxBulk req cs sv = (out, cs', sv')"
  shows "refused out \<and> cs' = cs \<and> same_data sv sv'"
proof (cases "upperOf req = ''AUTH'' \<and> req \<noteq> []")
  case True
  define sv1 where "sv1 = sv\<lparr>sv_commands := sv_commands sv + 1\<rparr>"
  have t: "map_of commandTable ''AUTH'' = Some (-2, False)" "commandKeys ''AUTH'' args = Inr []" for args
    by (simp_all add: commandTable_def commandKeys_def)
  have "handle W fb maxBulk req cs sv = execute W fb maxBulk ''AUTH'' req cs sv1"
    using True assms(2) by (simp add: handle_def upperOf_def sv1_def Let_def t)
  moreover obtain err sv2 where "execute W fb maxBulk ''AUTH'' req cs sv1 = (Served [RError err], cs, sv2)" "same_data sv1 sv2"
    using auth_fails[of cs sv1 req W fb maxBulk] assms(1,3,4) True by (auto simp: sv1_def)
  ultimately show ?thesis using assms(5) by (auto simp: refused_def same_data_def sv1_def)
next
  case False
  then show ?thesis using assms(1,2,3,5)
    by (auto simp: handle_def Let_def refused_def same_data_def upperOf_def[symmetric] split: option.splits if_splits)
qed

text \<open>C19: Without the password nothing happens. On a server with a password, a connection that has not authenticated can send
  any sequence of requests, wrong passwords included: each one is answered with an error (an empty one with nothing),
  and the data, the configuration, the subscriptions, the cursors, the shutdown flag and the connection itself stay as they
  were.\<close>

theorem locked_out:
  assumes "\<not> cs_authed cs" "\<not> cs_inTxn cs" "requiresAuth (sv_cfg sv)" "list_all (no_password (sv_cfg sv)) reqs"
    and "requests W fb maxBulk reqs cs sv = (outs, cs', sv')"
  shows "list_all refused outs \<and> cs' = cs \<and> same_data sv sv'"
  using assms(3-5)
proof (induction reqs arbitrary: sv outs)
  case (Cons r reqs)
  obtain out cs1 sv1 outs2 where h: "handle W fb maxBulk r cs sv = (out, cs1, sv1)"
    "requests W fb maxBulk reqs cs1 sv1 = (outs2, cs', sv')" "outs = out # outs2"
    using Cons.prems(3) by (auto simp: Let_def split: prod.splits)
  have s1: "refused out" "cs1 = cs" "same_data sv sv1"
    using handle_locked_out[OF assms(1,2) Cons.prems(1) _ h(1)] Cons.prems(2) by auto
  then show ?case using Cons.IH[of sv1 outs2] Cons.prems(1,2) h by (auto simp: same_data_def)
qed (simp add: same_data_def)

theorem locked_out_witness:
  "\<exists>outs cs' sv'. requests sample_world no_fb 0 [[ascii ''flushall'']] (sample_conn\<lparr>cs_authed := False\<rparr>)
       (sample_server\<lparr>sv_cfg := (sv_cfg sample_server)\<lparr>RequirePass := ''secret''\<rparr>\<rparr>) = (outs, cs', sv') \<and>
     list_all refused outs \<and> sv_store sv' = empty_store"
proof -
  define sv where "sv = sample_server\<lparr>sv_cfg := (sv_cfg sample_server)\<lparr>RequirePass := ''secret''\<rparr>\<rparr>"
  obtain outs cs' sv' where r: "requests sample_world no_fb 0 [[ascii ''flushall'']] (sample_conn\<lparr>cs_authed := False\<rparr>) sv = (outs, cs', sv')"
    by (metis surj_pair)
  have "upperOf [ascii ''flushall''] = ''FLUSHALL''" unfolding upperOf_def by code_simp
  then have "list_all (no_password (sv_cfg sv)) [[ascii ''flushall'']]" by (simp add: no_password_def)
  from locked_out[OF _ _ _ this r] show ?thesis
    using r by (auto simp: sv_def sample_conn_ok requiresAuth_def same_data_def sample_server_def)
qed

end
