(* ===== verification/HashStore.thy ===== *)
theory HashStore
  imports Hashes Keyspace Simulation
begin

text \<open>
  What a hash is to a client: a map from fields to values under one key, whichever way it is stored. The operations of
  \<open>cmd_hash.go\<close> implement the operations on the map, for a hash that is absent, inline or spread over element keys, and across
  the changes between these representations.
\<close>

section \<open>The abstraction\<close>

text \<open>\<open>hash_at\<close>: the key holds the hash \<open>h\<close> with deadline \<open>x\<close>, or nothing. Element keys exist exactly while the hash is stored
  sparse; fields are shorter than 64 KiB, the bound of the inline encoding.\<close>

type_synonym hash_state = "((bytes \<rightharpoonup> bytes) \<times> int) option"

definition hash_stored :: "(bytes \<rightharpoonup> bytes) \<Rightarrow> dbid \<Rightarrow> bytes \<Rightarrow> bytes \<Rightarrow> (bytes \<rightharpoonup> bytes) \<Rightarrow> bool" where
  "hash_stored m db key payload h \<longleftrightarrow>
     (\<exists>obj. DecodeObjectHeader payload = Inr obj \<and>
        (if o_Enc obj = EncSparse then elems_of m SegHash db key = h
         else elems_of m SegHash db key = (\<lambda>_. None) \<and> (\<exists>al. DecodeHashInline (o_Data obj) = Inr al \<and> gmap_ok al \<and> map_of al = h)))"

definition hash_at :: "('e \<Rightarrow> (bytes \<rightharpoonup> bytes)) \<Rightarrow> Env \<Rightarrow> 'e Store \<Rightarrow> dbid \<Rightarrow> bytes \<Rightarrow> hash_state \<Rightarrow> bool" where
  "hash_at kv E s db key H \<longleftrightarrow>
     (case H of
        None \<Rightarrow> st_live kv E s db key = None \<and> elems_of (kv (s_eng s)) SegHash db key = (\<lambda>_. None)
      | Some (h, x) \<Rightarrow> (\<forall>f\<in>dom h. length f < 2 ^ 16) \<and>
          (\<exists>p. st_live kv E s db key = Some (TypeHash, x, p) \<and> hash_stored (kv (s_eng s)) db key p h))"

definition fields_of :: "hash_state \<Rightarrow> (bytes \<rightharpoonup> bytes)" where
  "fields_of H = (case H of None \<Rightarrow> (\<lambda>_. None) | Some (h, x) \<Rightarrow> h)"

definition deadline_of :: "hash_state \<Rightarrow> int" where
  "deadline_of H = (case H of None \<Rightarrow> 0 | Some (h, x) \<Rightarrow> x)"

text \<open>Writing fields: the later of two values for a field wins, with \<open>nx\<close> existing fields are left alone.\<close>

definition put_all :: "bool \<Rightarrow> (bytes \<times> bytes) list \<Rightarrow> (bytes \<rightharpoonup> bytes) \<Rightarrow> (bytes \<rightharpoonup> bytes)" where
  "put_all nx pairs h = foldl (\<lambda>h (f, v). if nx \<and> h f \<noteq> None then h else h(f \<mapsto> v)) h pairs"

lemma hash_at_sel [simp]:
  "hash_at kv E s db key None \<longleftrightarrow> st_live kv E s db key = None \<and> elems_of (kv (s_eng s)) SegHash db key = (\<lambda>_. None)"
  "fields_of None = (\<lambda>_. None)" "fields_of (Some (h, x)) = h" "deadline_of None = 0" "deadline_of (Some (h, x)) = x"
  by (simp_all add: hash_at_def fields_of_def deadline_of_def)

lemma hash_at_eng: "s_eng s' = s_eng s \<Longrightarrow> hash_at kv E s' = hash_at kv E s"
  by (simp add: fun_eq_iff hash_at_def st_live_def split: option.split)

section \<open>Association lists\<close>

lemma put_all_simps [simp]:
  "put_all nx [] h = h" "put_all nx ((f, v) # pairs) h = put_all nx pairs (if nx \<and> h f \<noteq> None then h else h(f \<mapsto> v))"
  by (simp_all add: put_all_def)

lemma gmap_ok_step: "gmap_ok al \<Longrightarrow> gmap_ok (AList.update f v al)" "gmap_ok al \<Longrightarrow> gmap_ok (AList.delete f al)"
  by (simp_all add: gmap_ok_def distinct_update distinct_delete)

lemma putPairs_map: "map_of (fst (putPairs pairs nx al n)) = put_all nx pairs (map_of al)"
  by (induction pairs arbitrary: al n) (auto simp: update_conv')

lemma putPairs_ok: "gmap_ok al \<Longrightarrow> gmap_ok (fst (putPairs pairs nx al n))"
  by (induction pairs arbitrary: al n) (auto simp: gmap_ok_step)

text \<open>The count of new fields.\<close>

lemma putPairs_count:
  "distinct (map fst pairs) \<Longrightarrow> snd (putPairs pairs nx al n) = n + int (card (fst ` set pairs - dom (map_of al)))"
proof (induction pairs nx al n rule: putPairs.induct)
  case (2 f v pairs nx al n)
  have new: "card (insert f (fst ` set pairs) - dom (map_of al)) = Suc (card (fst ` set pairs - dom (map_of al)))"
    if "map_of al f = None"
  proof -
    have "insert f (fst ` set pairs) - dom (map_of al) = insert f (fst ` set pairs - dom (map_of al))" using that by auto
    then show ?thesis using 2(4) by (simp add: card_insert_if image_iff)
  qed
  have upd: "fst ` set pairs - dom (map_of (AList.update f v al)) = fst ` set pairs - dom (map_of al)"
    using 2(4) by (auto simp: update_conv' image_iff)
  show ?case
  proof (cases "map_of al f")
    case None
    then show ?thesis using 2 new upd by simp
  next
    case (Some w)
    then have "insert f (fst ` set pairs) - dom (map_of al) = fst ` set pairs - dom (map_of al)" by auto
    then show ?thesis using 2 Some upd by (cases nx) auto
  qed
qed simp

lemma put_all_dom: "dom (put_all nx pairs h) = dom h \<union> fst ` set pairs"
proof (induction pairs arbitrary: h)
  case (Cons p pairs)
  obtain f v where p: "p = (f, v)" by fastforce
  show ?case by (simp add: p Cons.IH) blast
qed simp

lemma delFields_map: "map_of (fst (delFields fs al n)) = (map_of al) |` (- set fs)"
proof (induction fs arbitrary: al n)
  case (Cons f fs)
  have "(\<lambda>a. if a = f then None else map_of al a) |` (- set fs) = map_of al |` (- set (f # fs))"
    by (auto simp: restrict_map_def fun_eq_iff)
  moreover have "map_of al |` (- set fs) = map_of al |` (- set (f # fs))" if "map_of al f = None"
    using that by (auto simp: restrict_map_def fun_eq_iff)
  ultimately show ?case by (simp add: Cons.IH delete_conv')
qed (simp add: restrict_map_def)

lemma delFields_ok: "gmap_ok al \<Longrightarrow> gmap_ok (fst (delFields fs al n))"
  by (induction fs arbitrary: al n) (auto simp: gmap_ok_step)

lemma delFields_count: "snd (delFields fs al n) = n + int (card (set fs \<inter> dom (map_of al)))"
proof (induction fs arbitrary: al n)
  case (Cons f fs)
  show ?case
  proof (cases "map_of al f")
    case None
    then show ?thesis by (simp add: Cons.IH Int_insert_left_if0 domIff)
  next
    case (Some v)
    have "insert f (set fs) \<inter> dom (map_of al) = insert f (set fs \<inter> (dom (map_of al) - {f}))" using Some by auto
    then have "card (insert f (set fs) \<inter> dom (map_of al)) = Suc (card (set fs \<inter> (dom (map_of al) - {f})))" by simp
    moreover have "dom (\<lambda>a. if a = f then None else map_of al a) = dom (map_of al) - {f}" by (auto split: if_splits)
    ultimately show ?thesis using Some by (simp add: Cons.IH delete_conv')
  qed
qed simp

section \<open>Loading and saving\<close>

lemma newAgg_sel [simp]:
  "a_typ (newAgg t x) = t" "a_exists (newAgg t x) = False" "a_sparse (newAgg t x) = False" "a_expireAt (newAgg t x) = x"
  "a_origExpire (newAgg t x) = x" "a_hash (newAgg t x) = []" "a_origHash (newAgg t x) = []"
  by (simp_all add: newAgg_def)

lemma hash_segment: "SegHash \<noteq> segData" "SegHash \<noteq> segExpire"
  by (simp_all add: seg_defs)

lemma elems_only_key:
  "only_key m m' a b \<Longrightarrow> seg \<noteq> segData \<Longrightarrow> seg \<noteq> segExpire \<Longrightarrow> elems_of m' seg db key = elems_of m seg db key"
  using ElemPrefix_not_data [of seg db key] by (auto simp: elems_of_def only_key_def fun_eq_iff) (metis prefixI)

text \<open>A loaded aggregate that stands for the hash at a key.\<close>

definition hash_loaded :: "('e \<Rightarrow> (bytes \<rightharpoonup> bytes)) \<Rightarrow> 'e Store \<Rightarrow> dbid \<Rightarrow> bytes \<Rightarrow> hash_state \<Rightarrow> agg \<Rightarrow> bool" where
  "hash_loaded kv s db key H a \<longleftrightarrow> a_typ a = TypeHash \<and> map_of (a_hash a) = fields_of H \<and> a_exists a = (H \<noteq> None) \<and>
     a_expireAt a = deadline_of H \<and> a_origExpire a = expiry_of (kv (s_eng s)) db key \<and> hash_synced (kv (s_eng s)) db key a"

lemma inline_hash_stored:
  assumes "gmap_ok h" "\<forall>f\<in>dom (map_of h). length f < 2 ^ 16" "\<And>f v. (f, v) \<in> set h \<Longrightarrow> length v < 2 ^ 32"
    and "elems_of m SegHash db key = (\<lambda>_. None)"
  shows "hash_stored m db key (EncodeHashInline (sortedKeys h) (\<lambda>f. case map_of h f of None \<Rightarrow> [] | Some v \<Rightarrow> v)) (map_of h)"
proof -
  let ?val = "\<lambda>f. case map_of h f of None \<Rightarrow> [] | Some v \<Rightarrow> v"
  let ?kvs = "map (\<lambda>f. (f, ?val f)) (sortedKeys h)"
  have v: "length (?val f) < 2 ^ 32" for f using assms(3) by (auto split: option.splits dest!: map_of_SomeD)
  have sz: "\<forall>f\<in>fst ` set h. length f < 2 ^ 16" using assms(2) by (simp add: dom_map_of_conv_image_fst)
  have "DecodeHashInline (concat (map enc_field ?kvs)) = Inr ?kvs"
    using assms(1) sz v by (intro DecodeHashInline_concat)
      (auto simp: comp_def sortedKeys_def gmap_ok_def list_all_iff sized_field_def)
  moreover have "gmap_ok ?kvs" using assms(1) by (simp add: gmap_ok_def sortedKeys_def comp_def)
  moreover have "map_of ?kvs = map_of h" by (rule map_of_sorted_pairs)
  ultimately show ?thesis
    using assms(4) unfolding hash_stored_def EncodeHashInline_def DecodeObjectHeader_inline
    by (auto simp: EncInline_def EncSparse_def comp_def)
qed

lemma live_expiry: "st_live kv E s db key = Some (t, x, p) \<Longrightarrow> expiry_of (kv (s_eng s)) db key = x \<and> is_int64 x \<and> \<not> past (env_now E) x"
  using live_SomeD view_int64 by (fastforce simp: st_live_def expiry_of_def)

lemma hash_at_deadline: "hash_at kv E s db key H \<Longrightarrow> is_int64 (deadline_of H) \<and> \<not> past (env_now E) (deadline_of H)"
  by (cases H) (auto simp: hash_at_def past_def dest!: live_expiry)

context pebble_engine
begin

lemma loadAgg_hash_at:
  assumes ok: "st_ok kv E s" and h: "hash_at kv E s db key H" and r: "loadAgg P E db key TypeHash s = (Inr a, s')"
  shows "hash_loaded kv s' db key H a \<and> st_ok kv E s' \<and> hash_at kv E s' db key H \<and> st_live kv E s' = st_live kv E s"
proof (cases H)
  case None
  obtain rd s1 where g1: "getTyped P E db key s = (Inr rd, s1)" using r by (auto simp: loadAgg_def bindE_eq_Inr)
  have none: "st_live kv E s db key = None" using h None by simp
  then have "rd = None" using getTyped_done [OF ok g1] by (simp add: read_ok_def)
  then have a: "a = newAgg TypeHash 0" and g: "getTyped P E db key s = (Inr None, s')" using r g1 by (simp_all add: loadAgg_def)
  note rd = getTyped_done [OF ok g, unfolded read_ok_def]
  have "expiry_of (kv (s_eng s')) db key = 0" using rd none by (simp add: expiry_of_def)
  moreover have "elems_of (kv (s_eng s')) SegHash db key = elems_of (kv (s_eng s)) SegHash db key"
    using rd elems_only_key hash_segment by blast
  ultimately show ?thesis using rd a h None
    by (auto simp: hash_loaded_def hash_synced_def gmap_ok_def)
next
  case (Some hx)
  obtain m x where hx: "hx = (m, x)" by fastforce
  obtain p obj where p: "st_live kv E s db key = Some (TypeHash, x, p)" "DecodeObjectHeader p = Inr obj"
    and rep: "if o_Enc obj = EncSparse then elems_of (kv (s_eng s)) SegHash db key = m
         else elems_of (kv (s_eng s)) SegHash db key = (\<lambda>_. None) \<and> (\<exists>al. DecodeHashInline (o_Data obj) = Inr al \<and> gmap_ok al \<and> map_of al = m)"
    using h Some hx by (auto simp: hash_at_def hash_stored_def)
  have L: "a_expireAt a = x" "a_origExpire a = x" "a_exists a" "a_typ a = TypeHash" "a_sparse a = (o_Enc obj = EncSparse)"
    "a_origHash a = a_hash a" "if o_Enc obj = EncSparse then map_of (a_hash a) = elems_of (kv (s_eng s)) SegHash db key \<and> gmap_ok (a_hash a)
     else DecodeHashInline (o_Data obj) = Inr (a_hash a)" "st_ok kv E s'" "s_eng s' = s_eng s"
    using loadAgg_hash_done [OF ok p(1) r] p(2) by auto
  have live: "st_live kv E s' = st_live kv E s" using L(9) by (simp add: st_live_def)
  have at: "hash_at kv E s' db key H = hash_at kv E s db key H" by (simp add: hash_at_eng [OF L(9)])
  have x: "expiry_of (kv (s_eng s)) db key = x" using live_expiry [OF p(1)] by simp
  have "map_of (a_hash a) = m \<and> gmap_ok (a_hash a)" using rep L(7) by (auto split: if_splits)
  then show ?thesis using L Some hx h at live x rep by (auto simp: hash_loaded_def hash_synced_def split: if_splits)
qed

lemma saveAgg_hash_at:
  assumes ok: "st_ok kv E s" and a: "hash_loaded kv s db key H a" and H: "is_int64 (deadline_of H)" "\<not> past (env_now E) (deadline_of H)"
    and g: "gmap_ok h" and sz: "\<forall>f\<in>dom (map_of h). length f < 2 ^ 16" and r: "saveAgg P E db key (a\<lparr>a_hash := h\<rparr>) s = (Inr u, s')"
  shows "st_ok kv E s' \<and> hash_at kv E s' db key (Some (map_of h, deadline_of H)) \<and>
    (\<forall>a b. (a, b) \<noteq> (db, key) \<longrightarrow> st_live kv E s' a b = st_live kv E s a b)"
proof -
  let ?a = "a\<lparr>a_hash := h\<rparr>"
  have sy: "hash_synced (kv (s_eng s)) db key ?a" using a g by (simp add: hash_loaded_def hash_synced_def)
  have pre: "a_typ ?a = TypeHash" "is_int64 (a_expireAt ?a)" "a_origExpire ?a = expiry_of (kv (s_eng s)) db key"
    using a H by (simp_all add: hash_loaded_def)
  note S = saveAgg_hash_done [OF ok pre sy r]
  let ?pay = "if fitsInline ?a then encodeInline ?a else EncodeSparseHeader TypeHash (length (a_hash ?a)) (a_head ?a) (a_tail ?a)"
  have x: "a_expireAt ?a = deadline_of H" using a by (simp add: hash_loaded_def)
  have live: "st_live kv E s' db key = Some (TypeHash, deadline_of H, ?pay)" using S(2) H(2) x by (simp add: live_val_def)
  have "hash_stored (kv (s_eng s')) db key ?pay (map_of h)"
  proof (cases "fitsInline ?a")
    case False
    then show ?thesis using S(3) by (simp add: hash_stored_def DecodeObjectHeader_sparse)
  next
    case True
    then have "length v < 2 ^ 32" if "(f, v) \<in> set h" for f v
      using that pre(1) by (force simp: fitsInline_def list_all_iff InlineMaxValueSize_def)
    then show ?thesis
      using inline_hash_stored [OF g sz, of "kv (s_eng s')" db key] S(3) True pre(1) by (simp add: encodeInline_def)
  qed
  moreover have "st_live kv E s' a b = st_live kv E s a b" if "(a, b) \<noteq> (db, key)" for a b
    using S(2) that by (auto simp: upd2_def)
  ultimately show ?thesis using S(1) live sz by (auto simp: hash_at_def)
qed

end

section \<open>Point writes\<close>

text \<open>A batch over the element keys of one collection, in which a later operation overrides an earlier one.\<close>

lemma elem_writes:
  shows "elems_of (run_bops (elem_ops seg db key fops) m) seg db key = (\<lambda>f. case map_of (rev fops) f of None \<Rightarrow> elems_of m seg db key f | Some vo \<Rightarrow> vo)"
    and "\<not> prefix (ElemPrefix seg db key) k \<Longrightarrow> run_bops (elem_ops seg db key fops) m k = m k"
proof -
  let ?g = "\<lambda>f. ElemPrefix seg db key @ f"
  have ops: "elem_ops seg db key fops = map bop_of (map (\<lambda>(f, vo). (?g f, id vo)) fops)" by (simp add: elem_ops_def comp_def split_def)
  have inj: "inj ?g" by (simp add: inj_def)
  show "elems_of (run_bops (elem_ops seg db key fops) m) seg db key = (\<lambda>f. case map_of (rev fops) f of None \<Rightarrow> elems_of m seg db key f | Some vo \<Rightarrow> vo)"
    unfolding ops run_key_ops elems_of_def rev_map
    by (auto simp: fun_eq_iff map_of_map_key [OF inj] split: option.splits)
  assume "\<not> prefix (ElemPrefix seg db key) k"
  then have "k \<notin> range ?g" by (auto simp: prefix_def)
  from map_of_map_other [OF this, of id "rev fops"] show "run_bops (elem_ops seg db key fops) m k = m k"
    unfolding ops run_key_ops rev_map by simp
qed

lemma agree_elem_writes: "seg \<noteq> segData \<Longrightarrow> seg \<noteq> segExpire \<Longrightarrow> agree m (run_bops (elem_ops seg db key fops) m) y z"
  using elem_writes(2) ElemPrefix_not_data by (simp add: agree_def)

definition new_pairs :: "bool \<Rightarrow> (bytes \<times> bytes) list \<Rightarrow> (bytes \<rightharpoonup> bytes) \<Rightarrow> (bytes \<times> bytes) list" where
  "new_pairs nx pairs h = filter (\<lambda>(f, v). \<not> (nx \<and> h f \<noteq> None)) pairs"

lemma put_all_overwrite: "put_all False pairs h f = (case map_of (rev pairs) f of None \<Rightarrow> h f | Some v \<Rightarrow> Some v)"
  by (induction pairs arbitrary: h) (auto simp: map_add_def split: option.splits)

lemma put_all_fresh: "put_all True pairs h f = (case h f of None \<Rightarrow> map_of pairs f | Some v \<Rightarrow> Some v)"
  by (induction pairs arbitrary: h) (auto split: option.splits)

lemma map_of_new_pairs: "map_of (new_pairs True pairs h) f = (if h f = None then map_of pairs f else None)"
  by (induction pairs) (auto simp: new_pairs_def)

lemma distinct_new_pairs: "distinct (map fst pairs) \<Longrightarrow> distinct (map fst (new_pairs nx pairs h))"
  unfolding new_pairs_def by (metis distinct_map_filter)

lemma new_pairs_result:
  assumes "nx \<longrightarrow> distinct (map fst pairs)"
  shows "(case map_of (rev (map (\<lambda>(f, v). (f, Some v)) (new_pairs nx pairs h))) f of None \<Rightarrow> h f | Some vo \<Rightarrow> vo) = put_all nx pairs h f"
proof (cases nx)
  case True
  then show ?thesis
    using assms rev_map_of [OF distinct_new_pairs, of pairs True h]
    by (auto simp: rev_map map_of_map_val map_of_new_pairs put_all_fresh split: option.splits)
next
  case False
  then show ?thesis by (auto simp: new_pairs_def rev_map map_of_map_val put_all_overwrite split: option.splits)
qed

context pebble_engine
begin

lemma sparsePairs_done:
  "sparsePairs P e db key pairs nx = Inr (ops, n) \<Longrightarrow>
     ops = elem_ops SegHash db key (map (\<lambda>(f, v). (f, Some v)) (new_pairs nx pairs (elems_of (kv e) SegHash db key))) \<and>
     n = int (length (filter (\<lambda>(f, v). elems_of (kv e) SegHash db key f = None) pairs))"
proof (induction pairs arbitrary: ops n)
  case (Cons p pairs)
  obtain f v where p: "p = (f, v)" by fastforce
  obtain ops1 n1 where r: "sparsePairs P e db key pairs nx = Inr (ops1, n1)"
    using Cons.prems by (auto simp: p Let_def split: sum.splits if_splits)
  note IH = Cons.IH [OF r]
  show ?case
  proof (cases "eng_Get P e (EncodeElemKey SegHash db key f)")
    case (Inl err)
    then have "err = ErrNotFound" using Cons.prems by (auto simp: p split: if_splits)
    then have "elems_of (kv e) SegHash db key f = None"
      using Inl get_missing by (simp add: eng_Get_def elems_of_def EncodeElemKey_eq)
    then show ?thesis using Cons.prems Inl IH r by (auto simp: p new_pairs_def elem_ops_def bop_of_def EncodeElemKey_eq split: if_splits)
  next
    case (Inr old)
    then have "elems_of (kv e) SegHash db key f \<noteq> None"
      using get_found by (simp add: eng_Get_def elems_of_def EncodeElemKey_eq)
    then show ?thesis using Cons.prems Inr IH r
      by (cases nx) (auto simp: p new_pairs_def elem_ops_def bop_of_def EncodeElemKey_eq)
  qed
qed (simp add: elem_ops_def new_pairs_def)

end

section \<open>The operations\<close>

text \<open>What an operation on one hash may change.\<close>

definition hash_changed :: "('e \<Rightarrow> (bytes \<rightharpoonup> bytes)) \<Rightarrow> Env \<Rightarrow> dbid \<Rightarrow> bytes \<Rightarrow> 'e Store \<Rightarrow> hash_state \<Rightarrow> 'e Store \<Rightarrow> bool" where
  "hash_changed kv E db key s H' s' \<longleftrightarrow> st_ok kv E s' \<and> hash_at kv E s' db key H' \<and>
     (\<forall>a b. (a, b) \<noteq> (db, key) \<longrightarrow> st_live kv E s' a b = st_live kv E s a b)"

lemma hash_changed_trans:
  "st_live kv E s1 = st_live kv E s \<Longrightarrow> hash_changed kv E db key s1 H s' \<Longrightarrow> hash_changed kv E db key s H s'"
  by (simp add: hash_changed_def)

lemma new_field_count:
  "distinct (map fst pairs) \<Longrightarrow> length (filter (\<lambda>(f, v). h f = None) pairs) = card (fst ` set pairs - dom h)"
proof -
  assume d: "distinct (map fst pairs)"
  let ?new = "filter (\<lambda>(f, v). h f = None) pairs"
  have "fst ` set ?new = fst ` set pairs - dom h" by force
  moreover have "distinct (map fst ?new)" using d by (metis distinct_map_filter)
  ultimately show ?thesis by (metis distinct_card length_map set_map)
qed

context pebble_engine
begin

lemma aggEncoding_hash_at:
  assumes ok: "st_ok kv E s" and h: "hash_at kv E s db key H" and r: "aggEncoding P E db key TypeHash s = (Inr enc, s')"
  shows "st_ok kv E s' \<and> hash_at kv E s' db key H \<and> st_live kv E s' = st_live kv E s \<and> (enc = None \<longleftrightarrow> H = None) \<and>
    (\<forall>obj x. enc = Some (obj, x) \<and> o_Enc obj = EncSparse \<longrightarrow> x = deadline_of H \<and> elems_of (kv (s_eng s')) SegHash db key = fields_of H)"
proof -
  obtain rd s1 where g1: "getTyped P E db key s = (Inr rd, s1)" using r by (auto simp: aggEncoding_def bindE_eq_Inr)
  have s1: "s1 = s'" using r g1 by (auto simp: aggEncoding_def split: option.splits if_splits sum.splits)
  note rd = getTyped_done [OF ok g1, unfolded read_ok_def s1]
  show ?thesis
  proof (cases H)
    case None
    have "elems_of (kv (s_eng s')) SegHash db key = elems_of (kv (s_eng s)) SegHash db key"
      using rd elems_only_key hash_segment by blast
    then show ?thesis using rd r g1 h None by (auto simp: aggEncoding_def)
  next
    case (Some hx)
    obtain m x where hx: "hx = (m, x)" by fastforce
    obtain p where p: "st_live kv E s db key = Some (TypeHash, x, p)" using h Some hx by (auto simp: hash_at_def)
    then have e: "s_eng s' = s_eng s" using rd by auto
    then have "hash_at kv E s' db key H" using h by (simp only: hash_at_eng [OF e])
    then show ?thesis using rd r g1 h Some hx p e
      by (auto simp: aggEncoding_def hash_at_def hash_stored_def split: sum.splits)
  qed
qed

lemma hashSetLoaded_done:
  assumes ok: "st_ok kv E s" and h: "hash_at kv E s db key H" and sz: "\<forall>f\<in>fst ` set pairs. length f < 2 ^ 16"
    and r: "hashSetLoaded P E db key pairs nx s = (Inr n, s')"
  shows "hash_changed kv E db key s (Some (put_all nx pairs (fields_of H), deadline_of H)) s' \<and>
    (distinct (map fst pairs) \<longrightarrow> n = int (card (fst ` set pairs - dom (fields_of H))))"
proof -
  obtain a s1 where l: "loadAgg P E db key TypeHash s = (Inr a, s1)" using r by (auto simp: hashSetLoaded_def bindE_eq_Inr)
  note L = loadAgg_hash_at [OF ok h l]
  obtain al n' where q: "putPairs pairs nx (a_hash a) 0 = (al, n')" by fastforce
  obtain u s2 where sv: "saveAgg P E db key (a\<lparr>a_hash := al\<rparr>) s1 = (Inr u, s2)" "n' = n" "s2 = s'"
    using r l q by (auto simp: hashSetLoaded_def bindE_eq_Inr)
  have m: "map_of (a_hash a) = fields_of H" "gmap_ok (a_hash a)" using L by (auto simp: hash_loaded_def hash_synced_def)
  have al: "map_of al = put_all nx pairs (fields_of H)" "gmap_ok al"
    "distinct (map fst pairs) \<longrightarrow> n' = int (card (fst ` set pairs - dom (fields_of H)))"
    using putPairs_map [of pairs nx "a_hash a" 0] putPairs_ok [OF m(2), of pairs nx 0] putPairs_count [of pairs nx "a_hash a" 0] q m by auto
  have "\<forall>f\<in>dom (fields_of H). length f < 2 ^ 16" using h by (cases H) (auto simp: hash_at_def)
  then have "\<forall>f\<in>dom (map_of al). length f < 2 ^ 16" using sz by (auto simp: al put_all_dom)
  from saveAgg_hash_at [OF _ _ _ _ al(2) this sv(1)] L hash_at_deadline [OF h] show ?thesis
    using al sv by (auto simp: hash_changed_def)
qed

lemma hashSetSparse_done:
  assumes ok: "st_ok kv E s" and h: "hash_at kv E s db key (Some (m, x))" and e: "elems_of (kv (s_eng s)) SegHash db key = m"
    and sz: "\<forall>f\<in>fst ` set pairs. length f < 2 ^ 16" and nx: "nx \<longrightarrow> distinct (map fst pairs)"
    and r: "hashSetSparse P E db key pairs nx cnt x s = (Inr n, s')"
  shows "hash_changed kv E db key s (Some (put_all nx pairs m, x)) s' \<and>
    (distinct (map fst pairs) \<longrightarrow> n = int (card (fst ` set pairs - dom m)))"
proof -
  obtain ops n1 where q: "sparsePairs P (s_eng s) db key pairs nx = Inr (ops, n1)" using r by (auto simp: hashSetSparse_def split: sum.splits)
  let ?fops = "map (\<lambda>(f, v). (f, Some v)) (new_pairs nx pairs m)"
  have ops: "ops = elem_ops SegHash db key ?fops" "n1 = int (length (filter (\<lambda>(f, v). m f = None) pairs))"
    using sparsePairs_done [OF q] e by simp_all
  have res: "elems_of (run_bops ops (kv (s_eng s))) SegHash db key = put_all nx pairs m"
    unfolding ops(1) elem_writes(1) e using new_pairs_result [OF nx, of m] by (simp add: fun_eq_iff)
  have dl: "is_int64 x" "\<not> past (env_now E) x" "x = expiry_of (kv (s_eng s)) db key"
    using hash_at_deadline [OF h] h live_expiry by (fastforce simp: hash_at_def)+
  have sz': "\<forall>f\<in>dom (put_all nx pairs m). length f < 2 ^ 16" using h sz by (auto simp: put_all_dom hash_at_def)
  have cnt: "distinct (map fst pairs) \<longrightarrow> n1 = int (card (fst ` set pairs - dom m))" by (simp add: ops new_field_count)
  show ?thesis
  proof (cases "ops = []")
    case True
    then have none: "new_pairs nx pairs m = []" by (simp add: ops elem_ops_def)
    then have "put_all nx pairs m = m" using res True e by simp
    moreover have "n1 = 0" using none by (auto simp: ops new_pairs_def filter_empty_conv)
    ultimately show ?thesis using r q True h ok cnt by (auto simp: hashSetSparse_def hash_changed_def)
  next
    case False
    let ?hd = "EncodeSparseHeader TypeHash (nat (cnt + n1)) 0 0"
    have c: "commitAgg P E db key (newAgg TypeHash x) ops ?hd s = (Inr (), s')" "n = n1"
      using r q False by (auto simp: hashSetSparse_def commitAgg_def Let_def bindE_def split: prod.splits sum.splits)
    note d = commitAgg_done [OF ok _ _ _ c(1)]
    have ag: "agree (kv (s_eng s)) (run_bops ops (kv (s_eng s))) y z" for y z unfolding ops by (rule agree_elem_writes [OF hash_segment])
    have "st_live kv E s' = upd2 (st_live kv E s) db key (Some (TypeHash, x, ?hd))" "st_ok kv E s'"
      using d(1,3) [OF _ _ ag] dl by (simp_all add: live_val_def)
    moreover have "elems_of (kv (s_eng s')) SegHash db key = put_all nx pairs m"
      using d(2) [OF _ _ ag] dl res by (simp add: elems_put [OF hash_segment])
    ultimately show ?thesis
      using sz' cnt c(2) by (auto simp: hash_changed_def hash_at_def hash_stored_def DecodeObjectHeader_sparse upd2_def)
  qed
qed

lemma hashSet_done:
  assumes ok: "st_ok kv E s" and h: "hash_at kv E s db key H" and sz: "\<forall>f\<in>fst ` set pairs. length f < 2 ^ 16"
    and nx: "nx \<longrightarrow> distinct (map fst pairs)" and r: "hashSet P E db key pairs nx s = (Inr n, s')"
  shows "hash_changed kv E db key s (Some (put_all nx pairs (fields_of H), deadline_of H)) s' \<and>
    (distinct (map fst pairs) \<longrightarrow> n = int (card (fst ` set pairs - dom (fields_of H))))"
proof -
  obtain enc s1 where g: "aggEncoding P E db key TypeHash s = (Inr enc, s1)" using r by (auto simp: hashSet_def bindE_eq_Inr)
  note A = aggEncoding_hash_at [OF ok h g]
  show ?thesis
  proof (cases "\<exists>obj x. enc = Some (obj, x) \<and> o_Enc obj = EncSparse")
    case True
    then obtain obj x where o: "enc = Some (obj, x)" "o_Enc obj = EncSparse" by blast
    then obtain m where H: "H = Some (m, x)" using A by (cases H) auto
    have "hashSetSparse P E db key pairs nx (o_Count obj) x s1 = (Inr n, s')" using r g o by (simp add: hashSet_def)
    from hashSetSparse_done [OF _ _ _ sz nx this] show ?thesis
      using A H o hash_changed_trans [of kv E s1 s db key _ s'] by auto
  next
    case False
    then have "hashSetLoaded P E db key pairs nx s1 = (Inr n, s')" using r g by (auto simp: hashSet_def split: option.splits)
    from hashSetLoaded_done [OF _ _ sz this] show ?thesis
      using A hash_changed_trans [of kv E s1 s db key _ s'] by auto
  qed
qed

end

lemma TypeString_not_hash: "TypeHash \<noteq> TypeString"
  by (simp add: type_defs)

text \<open>Reading, deleting and counting fields; incrementing a field.\<close>

definition hash_drop :: "bytes list \<Rightarrow> hash_state \<Rightarrow> hash_state" where
  "hash_drop fs H = (let m = fields_of H |` (- set fs) in if m = (\<lambda>_. None) then None else Some (m, deadline_of H))"

definition field_number :: "hash_state \<Rightarrow> bytes \<Rightarrow> int option" where
  "field_number H f = (case fields_of H f of None \<Rightarrow> Some 0 | Some v \<Rightarrow> if v = [] then Some 0 else parse_int v)"

text \<open>The two errors of \<open>HINCRBY\<close>, in the order the code tests for them; the hash is unchanged.\<close>

definition incr_error :: "hash_state \<Rightarrow> bytes \<Rightarrow> int \<Rightarrow> goerr option" where
  "incr_error H f delta = (case field_number H f of None \<Rightarrow> Some ErrNotInteger
     | Some c \<Rightarrow> if is_int64 (c + delta) then None else Some ErrOverflow)"

lemma hash_fields_short: "hash_at kv E s db key H \<Longrightarrow> \<forall>f\<in>dom (fields_of H). length f < 2 ^ 16"
  by (cases H) (auto simp: hash_at_def)

context pebble_engine
begin

lemma hashGet_done:
  assumes ok: "st_ok kv E s" and h: "hash_at kv E s db key H" and r: "hashGet P E db key f s = (Inr v, s')"
  shows "v = fields_of H f \<and> hash_changed kv E db key s H s'"
proof -
  obtain a where l: "loadAgg P E db key TypeHash s = (Inr a, s')" and v: "v = (if a_exists a then map_of (a_hash a) f else None)"
    using r by (auto simp: hashGet_def bindE_eq_Inr split: if_splits)
  from loadAgg_hash_at [OF ok h l] show ?thesis by (cases H) (auto simp: v hash_loaded_def hash_changed_def)
qed

lemma hashLen_done:
  assumes ok: "st_ok kv E s" and h: "hash_at kv E s db key H" and r: "cmdHLen P E db nm [key] s = (Inr rs, s')"
  shows "rs = [RInt (int (card (dom (fields_of H))))] \<and> hash_changed kv E db key s H s'"
proof -
  obtain a where l: "loadAgg P E db key TypeHash s = (Inr a, s')" and v: "rs = [RInt (int (length (a_hash a)))]"
    using r by (auto simp: cmdHLen_def withArity_def bindE_eq_Inr checkArgLen_def)
  note L = loadAgg_hash_at [OF ok h l]
  then have "gmap_ok (a_hash a)" "map_of (a_hash a) = fields_of H" by (auto simp: hash_loaded_def hash_synced_def)
  then have "length (a_hash a) = card (dom (fields_of H))"
    by (metis distinct_card dom_map_of_conv_image_fst gmap_ok_def length_map set_map)
  then show ?thesis using L v by (auto simp: hash_changed_def)
qed

lemma hashDel_done:
  assumes ok: "st_ok kv E s" and h: "hash_at kv E s db key H" and r: "hashDel P E db key fs s = (Inr n, s')"
  shows "n = int (card (set fs \<inter> dom (fields_of H))) \<and> hash_changed kv E db key s (hash_drop fs H) s'"
proof -
  obtain a s1 where l: "loadAgg P E db key TypeHash s = (Inr a, s1)" using r by (auto simp: hashDel_def bindE_eq_Inr)
  note L = loadAgg_hash_at [OF ok h l]
  show ?thesis
  proof (cases H)
    case None
    then show ?thesis using r l L by (auto simp: hashDel_def hash_loaded_def hash_drop_def hash_changed_def restrict_map_def)
  next
    case (Some hx)
    obtain m x where hx: "hx = (m, x)" by fastforce
    obtain al n' where q: "delFields fs (a_hash a) 0 = (al, n')" by fastforce
    have a: "map_of (a_hash a) = m" "gmap_ok (a_hash a)" "a_exists a" using L Some hx by (auto simp: hash_loaded_def hash_synced_def)
    have al: "map_of al = m |` (- set fs)" "gmap_ok al" "n' = int (card (set fs \<inter> dom m))"
      using delFields_map [of fs "a_hash a" 0] delFields_ok [OF a(2), of fs 0] delFields_count [of fs "a_hash a" 0] q a by auto
    have e: "al = [] \<longleftrightarrow> m |` (- set fs) = (\<lambda>_. None)" using al(1) by (metis map_of_eq_empty_iff)
    show ?thesis
    proof (cases "al = []")
      case True
      then obtain b where d: "deleteKey P E db key s1 = (Inr b, s')" "n = n'"
        using r l q a(3) by (auto simp: hashDel_def bindE_eq_Inr)
      obtain p where p: "st_live kv E s1 db key = Some (TypeHash, x, p)" using L Some hx by (auto simp: hash_at_def)
      note D = deleteKey_done [OF _ d(1)]
      have "kv (s_eng s') (ElemPrefix SegHash db key @ f) = None" for f
        using D(5) [OF _ p, of "ElemPrefix SegHash db key @ f"] L TypeString_not_hash by (auto simp: elem_key_def)
      then show ?thesis using D(1,3) L d al e True Some hx
        by (auto simp: hash_changed_def hash_drop_def elems_of_def upd2_def)
    next
      case False
      then obtain u where sv: "saveAgg P E db key (a\<lparr>a_hash := al\<rparr>) s1 = (Inr u, s')" "n = n'"
        using r l q a(3) by (auto simp: hashDel_def bindE_eq_Inr)
      have "\<forall>f\<in>dom (map_of al). length f < 2 ^ 16" using hash_fields_short [OF h] Some hx by (auto simp: al)
      from saveAgg_hash_at [OF _ _ _ _ al(2) this sv(1)] L hash_at_deadline [OF h]
      have "hash_changed kv E db key s (Some (map_of al, deadline_of H)) s'" by (auto simp: hash_changed_def)
      then show ?thesis using al sv e False Some hx by (simp add: hash_drop_def)
    qed
  qed
qed

lemma hashIncrBy_saved:
  assumes ok: "st_ok kv E s" and h: "hash_at kv E s db key H" and d: "is_int64 delta" and r: "hashIncrBy P E db key f delta s = (Inr n, s')"
  shows "\<exists>a s1 c u. loadAgg P E db key TypeHash s = (Inr a, s1) \<and> field_number H f = Some c \<and> n = c + delta \<and> is_int64 n \<and>
    saveAgg P E db key (a\<lparr>a_hash := AList.update f (format_int n) (a_hash a)\<rparr>) s1 = (Inr u, s')"
proof -
  obtain a s1 where l: "loadAgg P E db key TypeHash s = (Inr a, s1)" using r by (auto simp: hashIncrBy_def bindE_eq_Inr)
  have a: "map_of (a_hash a) = fields_of H" using loadAgg_hash_at [OF ok h l] by (simp add: hash_loaded_def)
  let ?cur = "case map_of (a_hash a) f of Some v \<Rightarrow> if length v > 0 then toInt64 v else Inr 0 | None \<Rightarrow> Inr 0"
  obtain c where cur: "?cur = Inr c" and rest: "(if add_overflows c delta then (Inl ErrOverflow, s1)
      else let nxt = wrap64 (c + delta) in bindE (saveAgg P E db key (a\<lparr>a_hash := AList.update f (format_int nxt) (a_hash a)\<rparr>) s1)
        (\<lambda>_ s2. (Inr nxt, s2))) = (Inr n, s')"
    using r l by (cases ?cur) (simp_all add: hashIncrBy_def bindS_def)
  have c: "field_number H f = Some c" using cur by (auto simp: a field_number_def toInt64_def split: option.splits if_splits)
  have no: "\<not> add_overflows c delta" using rest by (auto split: if_splits)
  let ?save = "saveAgg P E db key (a\<lparr>a_hash := AList.update f (format_int (wrap64 (c + delta))) (a_hash a)\<rparr>) s1"
  have "bindE ?save (\<lambda>_ s2. (Inr (wrap64 (c + delta)), s2)) = (Inr n, s')" using rest by (simp only: no if_False Let_def)
  then obtain u where sv: "?save = (Inr u, s')" "n = wrap64 (c + delta)"
    by (simp only: bindE_eq_Inr prod.inject sum.inject) metis
  have "is_int64 c" using c by (auto simp: field_number_def parse_int_int64 split: option.splits if_splits)
  then have n: "n = c + delta" "is_int64 n" using sv(2) no d by (simp_all add: add_overflows_iff)
  show ?thesis using l c n sv(1) [folded sv(2)] by blast
qed

lemma hashIncrBy_done:
  assumes ok: "st_ok kv E s" and h: "hash_at kv E s db key H" and d: "is_int64 delta" and sz: "length f < 2 ^ 16"
    and r: "hashIncrBy P E db key f delta s = (Inr n, s')"
  shows "(\<exists>c. field_number H f = Some c \<and> n = c + delta \<and> is_int64 n) \<and>
      hash_changed kv E db key s (Some ((fields_of H)(f \<mapsto> format_int n), deadline_of H)) s'"
proof -
  obtain a s1 c u where l: "loadAgg P E db key TypeHash s = (Inr a, s1)" and n: "field_number H f = Some c" "n = c + delta" "is_int64 n"
    and sv: "saveAgg P E db key (a\<lparr>a_hash := AList.update f (format_int n) (a_hash a)\<rparr>) s1 = (Inr u, s')"
    using hashIncrBy_saved [OF ok h d r] by blast
  note L = loadAgg_hash_at [OF ok h l]
  then have a: "map_of (a_hash a) = fields_of H" "gmap_ok (a_hash a)" by (auto simp: hash_loaded_def hash_synced_def)
  let ?al = "AList.update f (format_int n) (a_hash a)"
  have al: "map_of ?al = (fields_of H)(f \<mapsto> format_int n)" "gmap_ok ?al" using a gmap_ok_step by (simp_all add: update_conv')
  have "\<forall>f'\<in>dom (map_of ?al). length f' < 2 ^ 16" using hash_fields_short [OF h] sz by (auto simp: al)
  from saveAgg_hash_at [OF _ _ _ _ al(2) this sv] L hash_at_deadline [OF h]
  have "hash_changed kv E db key s (Some (map_of ?al, deadline_of H)) s'" by (auto simp: hash_changed_def)
  then show ?thesis using n al by simp
qed

end

section \<open>The operations return\<close>

text \<open>With a Pebble whose calls succeed and a store whose values decode, no operation fails, except \<open>HINCRBY\<close> on a field that is
  not a number or would overflow.\<close>

lemma decodable_step:
  assumes "decodable m" "only_key m m' db key" "\<forall>v. m' (EncodeDataKey db key) = Some v \<longrightarrow> (\<exists>t. DecodeValue v = Inr t)"
  shows "decodable m'"
proof -
  have "m' (EncodeDataKey a b) = m (EncodeDataKey a b)" if "(a, b) \<noteq> (db, key)" for a b
    using assms(2) that unfolding only_key_def by (auto simp: EncodeDataKey_inj)
  then show ?thesis using assms(1,3) unfolding decodable_def by (metis prod.inject)
qed

context pebble_reliable
begin

lemma getTyped_none:
  assumes "getTyped P E db key s = (Inr None, s')"
  shows "kv (s_eng s') (EncodeDataKey db key) = None"
proof -
  have "kv (s_eng s2) (EncodeDataKey db key) = None" if c: "getCold P E db key c s1 = (Inr None, s2)" for c s1 s2
  proof (cases "kv (s_eng s1) (EncodeDataKey db key)")
    case None
    then show ?thesis using c by (auto simp: getCold_def eng_Get_def get_eq miss_def)
  next
    case (Some v)
    then obtain ty x p where v: "DecodeValue v = Inr (ty, x, p)" "x \<noteq> 0 \<and> x \<le> env_now E"
      using c by (auto simp: getCold_def eng_Get_def get_eq Let_def split: sum.splits if_splits)
    then obtain u s3 where d: "deleteExpired P E db key x s1 = (Inr u, s3)" "s_eng s2 = s_eng s3"
      using c Some by (auto simp: getCold_def eng_Get_def get_eq bindE_eq_Inr miss_def)
    show ?thesis using applyBatch_done [OF d(1) [unfolded deleteExpired_def]] d(2) by simp
  qed
  then show ?thesis using assms by (auto simp: getTyped_def Let_def split: prod.splits option.splits if_splits)
qed

lemma getTyped_decodable:
  assumes ok: "st_ok kv E s" and dec: "decodable (kv (s_eng s))" and r: "getTyped P E db key s = (Inr rd, s')"
  shows "decodable (kv (s_eng s'))"
proof (cases rd)
  case None
  then show ?thesis using getTyped_done [OF ok r] getTyped_none r dec by (auto simp: read_ok_def intro: decodable_step)
next
  case (Some v)
  then show ?thesis using getTyped_done [OF ok r] dec by (simp add: read_ok_def)
qed

lemma scanHash_ok: "\<exists>h. scanHash P db key s = Inr h"
proof -
  let ?p = "ElemPrefix SegHash db key"
  have v: "fst (visit (\<lambda>out k v. (None, g out k v)) kvs st) = None" for g :: "'s \<Rightarrow> bytes \<Rightarrow> bytes \<Rightarrow> 's" and kvs st
    by (induction kvs arbitrary: st) auto
  obtain kvs where "p_iter P (s_eng s) ?p (prefixEnd ?p) None = Inr (kvs, None)" using iter_ok by blast
  then show ?thesis
    using v [of "\<lambda>out k v. AList.update (ElemFromKey ?p k) v out" kvs "[]"]
    by (auto simp: scanHash_def scanned_def Scan_def ScanRange_def iterate_def Let_def split: prod.splits option.splits)
qed

lemma commitAgg_ok: "\<exists>s'. commitAgg P E db key a ops payload s = (Inr (), s')"
  using applyBatch_ok [of "ops @ putValueBatch db key (a_typ a) payload (a_expireAt a) (a_origExpire a)" s] by (auto simp: commitAgg_def)

lemma saveAgg_ok: "\<exists>s'. saveAgg P E db key a s = (Inr (), s')"
  using commitAgg_ok by (simp add: saveAgg_def Let_def split: prod.split)

lemma sparsePairs_ok: "\<exists>r. sparsePairs P e db key pairs nx = Inr r"
  by (induction pairs) (auto simp: eng_Get_def get_eq Let_def split: option.splits sum.splits)

lemma loadAgg_hash_ok:
  assumes ok: "st_ok kv E s" and dec: "decodable (kv (s_eng s))" and h: "hash_at kv E s db key H"
  shows "\<exists>a s'. loadAgg P E db key TypeHash s = (Inr a, s') \<and> decodable (kv (s_eng s'))"
proof -
  obtain rd s1 where g: "getTyped P E db key s = (Inr rd, s1)" using getTyped_returns [OF ok dec] by blast
  note rd = getTyped_done [OF ok g] and d1 = getTyped_decodable [OF ok dec g]
  show ?thesis
  proof (cases rd)
    case None
    then show ?thesis using g d1 by (simp add: loadAgg_def)
  next
    case (Some v)
    then obtain m x p where H: "H = Some (m, x)" "v = (TypeHash, x, p)" "hash_stored (kv (s_eng s)) db key p m"
      using rd h by (cases H) (auto simp: read_ok_def hash_at_def)
    obtain sh where "scanHash P db key s1 = Inr sh" using scanHash_ok by blast
    then show ?thesis using H Some g d1 by (auto simp: loadAgg_def loadElems_def hash_stored_def on_ok_def)
  qed
qed

lemma aggEncoding_hash_ok:
  assumes ok: "st_ok kv E s" and dec: "decodable (kv (s_eng s))" and h: "hash_at kv E s db key H"
  shows "\<exists>enc s'. aggEncoding P E db key TypeHash s = (Inr enc, s') \<and> decodable (kv (s_eng s'))"
proof -
  obtain rd s1 where g: "getTyped P E db key s = (Inr rd, s1)" using getTyped_returns [OF ok dec] by blast
  note rd = getTyped_done [OF ok g] and d1 = getTyped_decodable [OF ok dec g]
  show ?thesis
  proof (cases rd)
    case None
    then show ?thesis using g d1 by (simp add: aggEncoding_def)
  next
    case (Some v)
    then show ?thesis
      using rd h g d1 by (cases H) (auto simp: read_ok_def hash_at_def hash_stored_def aggEncoding_def)
  qed
qed

lemma hashSet_ok:
  assumes ok: "st_ok kv E s" and dec: "decodable (kv (s_eng s))" and h: "hash_at kv E s db key H"
  shows "\<exists>n s'. hashSet P E db key pairs nx s = (Inr n, s')"
proof -
  obtain enc s1 where g: "aggEncoding P E db key TypeHash s = (Inr enc, s1)" "decodable (kv (s_eng s1))"
    using aggEncoding_hash_ok [OF ok dec h] by blast
  have s1: "st_ok kv E s1" "hash_at kv E s1 db key H" using aggEncoding_hash_at [OF ok h g(1)] by simp_all
  have "\<exists>n s'. hashSetLoaded P E db key pairs nx s1 = (Inr n, s')"
  proof -
    obtain a s2 where l: "loadAgg P E db key TypeHash s1 = (Inr a, s2)" using loadAgg_hash_ok [OF s1(1) g(2) s1(2)] by blast
    obtain al n where q: "putPairs pairs nx (a_hash a) 0 = (al, n)" by fastforce
    obtain s3 where "saveAgg P E db key (a\<lparr>a_hash := al\<rparr>) s2 = (Inr (), s3)" using saveAgg_ok by blast
    then show ?thesis by (simp add: hashSetLoaded_def l q)
  qed
  moreover have "\<exists>n s'. hashSetSparse P E db key pairs nx c x s1 = (Inr n, s')" for c x
  proof -
    obtain ops n where q: "sparsePairs P (s_eng s1) db key pairs nx = Inr (ops, n)" using sparsePairs_ok by fastforce
    show ?thesis using applyBatch_ok by (simp add: hashSetSparse_def q Let_def bindE_def split: prod.split) (metis prod.inject sum.case(2))
  qed
  ultimately show ?thesis by (auto simp: hashSet_def g(1) split: option.split)
qed

lemma hashDel_ok:
  assumes ok: "st_ok kv E s" and dec: "decodable (kv (s_eng s))" and h: "hash_at kv E s db key H"
  shows "\<exists>n s'. hashDel P E db key fs s = (Inr n, s')"
proof -
  obtain a s1 where l: "loadAgg P E db key TypeHash s = (Inr a, s1)" "decodable (kv (s_eng s1))"
    using loadAgg_hash_ok [OF ok dec h] by blast
  have s1: "st_ok kv E s1" using loadAgg_hash_at [OF ok h l(1)] by simp
  obtain b s2 where d: "deleteKey P E db key s1 = (Inr b, s2)" using deleteKey_returns [OF s1 l(2)] by blast
  obtain al n where q: "delFields fs (a_hash a) 0 = (al, n)" by fastforce
  obtain s3 where sv: "saveAgg P E db key (a\<lparr>a_hash := al\<rparr>) s1 = (Inr (), s3)" using saveAgg_ok by blast
  show ?thesis by (cases "a_exists a"; cases "al = []") (simp_all add: hashDel_def l(1) q d sv)
qed

lemma hashIncrBy_returns:
  assumes ok: "st_ok kv E s" and dec: "decodable (kv (s_eng s))" and h: "hash_at kv E s db key H" and d: "is_int64 delta"
  shows "case incr_error H f delta of
      None \<Rightarrow> \<exists>n s'. hashIncrBy P E db key f delta s = (Inr n, s')
    | Some err \<Rightarrow> \<exists>s'. hashIncrBy P E db key f delta s = (Inl err, s') \<and> hash_changed kv E db key s H s'"
proof -
  obtain a s1 where l: "loadAgg P E db key TypeHash s = (Inr a, s1)" using loadAgg_hash_ok [OF ok dec h] by blast
  note L = loadAgg_hash_at [OF ok h l]
  then have a: "map_of (a_hash a) = fields_of H" by (auto simp: hash_loaded_def hash_synced_def)
  have un: "hash_changed kv E db key s H s1" using L by (simp add: hash_changed_def)
  let ?cur = "case fields_of H f of Some v \<Rightarrow> if length v > 0 then toInt64 v else Inr 0 | None \<Rightarrow> Inr 0"
  have cur: "?cur = (case field_number H f of None \<Rightarrow> Inl ErrNotInteger | Some c \<Rightarrow> Inr c)"
    by (simp add: field_number_def toInt64_def split: option.split)
  have run: "hashIncrBy P E db key f delta s = bindS (case field_number H f of None \<Rightarrow> Inl ErrNotInteger | Some c \<Rightarrow> Inr c) s1 (\<lambda>c.
      if add_overflows c delta then (Inl ErrOverflow, s1)
      else let nxt = wrap64 (c + delta) in bindE (saveAgg P E db key (a\<lparr>a_hash := AList.update f (format_int nxt) (a_hash a)\<rparr>) s1)
        (\<lambda>_ s2. (Inr nxt, s2)))"
    unfolding hashIncrBy_def l bindE_Inr a cur ..
  show ?thesis
  proof (cases "field_number H f")
    case None
    then show ?thesis using run un by (simp add: incr_error_def bindS_def)
  next
    case (Some c)
    then have ci: "is_int64 c" by (auto simp: field_number_def parse_int_int64 split: option.splits if_splits)
    obtain s2 where "saveAgg P E db key (a\<lparr>a_hash := AList.update f (format_int (c + delta)) (a_hash a)\<rparr>) s1 = (Inr (), s2)"
      using saveAgg_ok by blast
    then show ?thesis using run un Some add_overflows_iff [OF ci d] by (simp add: incr_error_def bindS_def Let_def)
  qed
qed

end

context pebble_reliable
begin

lemma hash_ops_ok:
  assumes ok: "st_ok kv E s" and dec: "decodable (kv (s_eng s))" and h: "hash_at kv E s db key H" and d: "is_int64 delta"
  shows "(\<exists>n s'. hashSet P E db key pairs nx s = (Inr n, s')) \<and> (\<exists>n s'. hashDel P E db key fs s = (Inr n, s')) \<and>
    (\<exists>s'. hashGet P E db key f s = (Inr (fields_of H f), s')) \<and>
    (case incr_error H f delta of
       None \<Rightarrow> \<exists>c s'. field_number H f = Some c \<and> hashIncrBy P E db key f delta s = (Inr (c + delta), s')
     | Some err \<Rightarrow> \<exists>s'. hashIncrBy P E db key f delta s = (Inl err, s') \<and> hash_changed kv E db key s H s')"
proof (intro conjI)
  show "\<exists>n s'. hashSet P E db key pairs nx s = (Inr n, s')" by (rule hashSet_ok [OF ok dec h])
  show "\<exists>n s'. hashDel P E db key fs s = (Inr n, s')" by (rule hashDel_ok [OF ok dec h])
  obtain a s1 where l: "loadAgg P E db key TypeHash s = (Inr a, s1)" using loadAgg_hash_ok [OF ok dec h] by blast
  then obtain v where "hashGet P E db key f s = (Inr v, s1)" by (cases "a_exists a") (auto simp: hashGet_def)
  then show "\<exists>s'. hashGet P E db key f s = (Inr (fields_of H f), s')" using hashGet_done [OF ok h] by blast
  show "case incr_error H f delta of
       None \<Rightarrow> \<exists>c s'. field_number H f = Some c \<and> hashIncrBy P E db key f delta s = (Inr (c + delta), s')
     | Some err \<Rightarrow> \<exists>s'. hashIncrBy P E db key f delta s = (Inl err, s') \<and> hash_changed kv E db key s H s'"
  proof (cases "incr_error H f delta")
    case None
    then obtain n s' where r: "hashIncrBy P E db key f delta s = (Inr n, s')" using hashIncrBy_returns [OF ok dec h d, of f] by auto
    show ?thesis using None hashIncrBy_saved [OF ok h d r] r by auto
  next
    case (Some err)
    then show ?thesis using hashIncrBy_returns [OF ok dec h d, of f] by simp
  qed
qed

end

section \<open>Where the abstraction breaks\<close>

text \<open>Two operations do not know about element keys. \<open>RENAME\<close> copies the stored value, which for a sparse hash is only a header,
  and then deletes the source with all its elements: the destination is a hash without fields. Lazy expiry deletes the value
  and leaves the element keys (as does \<open>SET\<close> over a hash), and they reappear in the next sparse hash at the key.\<close>

context pebble_reliable
begin

lemma rename_loses_fields:
  assumes ok: "st_ok kv E s" and l: "st_live kv E s db src = Some (TypeHash, x, p)" "DecodeObjectHeader p = Inr obj" "o_Enc obj = EncSparse"
    and dst: "src \<noteq> dst" "elems_of (kv (s_eng s)) SegHash db dst = (\<lambda>_. None)"
    and r: "rename P E db src dst False s = (Inr u, s')"
  shows "hash_at kv E s' db dst (Some (\<lambda>_. None, x))"
proof -
  have R: "st_live kv E s' db dst = Some (TypeHash, x, p)"
    using rename_done [OF ok r] l dst by (auto simp: upd2_def)
  obtain rd s1 where g1: "getTyped P E db src s = (Inr rd, s1)" using r by (auto simp: rename_def bindE_eq_Inr)
  have rd: "rd = Some (TypeHash, x, p)" "st_ok kv E s1" "s_eng s1 = s_eng s"
    using getTyped_done [OF ok g1] l by (simp_all add: read_ok_def)
  note g = g1 [unfolded rd(1)] rd(2,3)
  obtain dx s3 where oe: "oldExpiry P E db dst s1 = (dx, s3)" by fastforce
  note o = oldExpiry_exact [OF g(2) oe]
  obtain s4 b where p: "putValue P E db dst TypeHash p x dx s3 = (Inr (), s4)" and d: "deleteKey P E db src s4 = (Inr b, s')"
    using r g dst oe by (auto simp: rename_def bindE_eq_Inr)
  have "dx = expiry_of (kv (s_eng s3)) db dst" using o by simp
  note pv = putValue_done(1,2,4) [OF o(2) _ this p]
  have xi: "is_int64 x" using live_expiry [OF l(1)] by simp
  have el: "elems_of (kv (s_eng s4)) SegHash db dst = (\<lambda>_. None)"
    using elems_only_key [OF pv(3) [OF xi] hash_segment] o(3) g(3) dst(2) by simp
  have "st_live kv E s4 db src = Some (TypeHash, x, p)"
    using pv(2) [OF xi] l(1) dst(1) o(3) g(3) by (simp add: upd2_def st_live_def)
  note D = deleteKey_done(5,6) [OF pv(1) [OF xi] d this]
  have "kv (s_eng s') (ElemPrefix SegHash db dst @ f) = None" for f
  proof (cases "elem_key db src TypeHash (ElemPrefix SegHash db dst @ f)")
    case True
    then show ?thesis using D(1) TypeString_not_hash by simp
  next
    case False
    then have "kv (s_eng s') (ElemPrefix SegHash db dst @ f) = kv (s_eng s4) (ElemPrefix SegHash db dst @ f)"
      using D(2) ElemPrefix_not_data [OF hash_segment, of db dst] by (metis prefixI)
    then show ?thesis using fun_cong [OF el, of f] by (simp add: elems_of_def)
  qed
  then show ?thesis using R l by (simp add: hash_at_def hash_stored_def elems_of_def)
qed

end

context pebble_engine
begin

lemma stale_fields_return:
  assumes ok: "st_ok kv E s" and none: "st_live kv E s db key = None" and stale: "elems_of (kv (s_eng s)) SegHash db key = g"
    and sz: "\<forall>f\<in>dom g. length f < 2 ^ 16" "length f < 2 ^ 16" "InlineMaxValueSize < length v"
    and r: "hashSet P E db key [(f, v)] False s = (Inr n, s')"
  shows "hash_at kv E s' db key (Some (g(f \<mapsto> v), 0))"
proof -
  obtain rd s1 where g1: "getTyped P E db key s = (Inr rd, s1)" using r by (auto simp: hashSet_def aggEncoding_def bindE_eq_Inr)
  note R1 = getTyped_done [OF ok g1]
  then have rd: "rd = None" using none by (simp add: read_ok_def)
  obtain rd2 s2 where g2: "getTyped P E db key s1 = (Inr rd2, s2)"
    using r g1 rd by (auto simp: hashSet_def aggEncoding_def hashSetLoaded_def loadAgg_def bindE_eq_Inr)
  have R2: "read_ok kv E db key s1 rd2 s2" using getTyped_done [OF _ g2] R1 by (simp add: read_ok_def)
  then have rd2: "rd2 = None" using R1 none by (simp add: read_ok_def)
  let ?a = "(newAgg TypeHash 0)\<lparr>a_hash := [(f, v)]\<rparr>"
  have sv: "saveAgg P E db key ?a s2 = (Inr (), s')"
    using r g1 g2 rd rd2 by (auto simp: hashSet_def aggEncoding_def hashSetLoaded_def loadAgg_def bindE_eq_Inr)
  have big: "\<not> fitsInline ?a" using sz(3) by (simp add: fitsInline_def)
  let ?hd = "EncodeSparseHeader TypeHash 1 (a_head ?a) (a_tail ?a)"
  have ops: "hash_ops ?a = [(f, Some v)]" by (simp add: hash_ops_def)
  have c: "commitAgg P E db key (?a\<lparr>a_sparse := True\<rparr>) (elem_ops SegHash db key [(f, Some v)]) ?hd s2 = (Inr (), s')"
    using sv saveAgg_hash_ops [OF _ big, of P E db key s2] by (simp add: ops)
  have x0: "expiry_of (kv (s_eng s2)) db key = 0" using R2 rd2 by (simp add: read_ok_def expiry_of_def)
  note d = commitAgg_done [OF _ _ _ agree_elem_writes [OF hash_segment] c]
  have g: "elems_of (kv (s_eng s2)) SegHash db key = g"
    using R1 R2 stale elems_only_key hash_segment by (metis read_ok_def)
  have pre: "st_ok kv E s2" "is_int64 0" using R2 by (simp_all add: read_ok_def is_int64_def)
  have "st_live kv E s' db key = Some (TypeHash, 0, ?hd)" using d(3) pre x0 by (simp add: live_val_def past_def)
  moreover have "elems_of (kv (s_eng s')) SegHash db key = g(f \<mapsto> v)"
    using d(2) pre x0 by (simp add: elems_put [OF hash_segment] elem_writes(1)) (auto simp: fun_eq_iff fun_cong [OF g])
  ultimately show ?thesis using sz by (auto simp: hash_at_def hash_stored_def DecodeObjectHeader_sparse)
qed

end

section \<open>A hash is a map\<close>

text \<open>The operations of the code on one key, and of a map with a deadline, labelled with what the client is told.\<close>

datatype hash_action =
    HSet "(bytes \<times> bytes) list" bool int
  | HGet bytes "bytes option"
  | HDel "bytes list" int
  | HLen int
  | HIncr bytes int int

inductive hash_serve :: "'e pebble \<Rightarrow> Env \<Rightarrow> dbid \<Rightarrow> bytes \<Rightarrow> hash_action \<Rightarrow> 'e Store \<Rightarrow> 'e Store \<Rightarrow> bool" for P E db key where
  hset: "\<forall>f\<in>fst ` set pairs. length f < 2 ^ 16 \<Longrightarrow> nx \<longrightarrow> distinct (map fst pairs) \<Longrightarrow>
    hashSet P E db key pairs nx s = (Inr n, s') \<Longrightarrow> hash_serve P E db key (HSet pairs nx n) s s'"
| hget: "hashGet P E db key f s = (Inr v, s') \<Longrightarrow> hash_serve P E db key (HGet f v) s s'"
| hdel: "hashDel P E db key fs s = (Inr n, s') \<Longrightarrow> hash_serve P E db key (HDel fs n) s s'"
| hlen: "cmdHLen P E db ''hlen'' [key] s = (Inr [RInt n], s') \<Longrightarrow> hash_serve P E db key (HLen n) s s'"
| hincr: "is_int64 delta \<Longrightarrow> length f < 2 ^ 16 \<Longrightarrow>
    hashIncrBy P E db key f delta s = (Inr n, s') \<Longrightarrow> hash_serve P E db key (HIncr f delta n) s s'"

inductive hash_spec :: "hash_action \<Rightarrow> hash_state \<Rightarrow> hash_state \<Rightarrow> bool" where
  hset: "distinct (map fst pairs) \<longrightarrow> n = int (card (fst ` set pairs - dom (fields_of H))) \<Longrightarrow>
    hash_spec (HSet pairs nx n) H (Some (put_all nx pairs (fields_of H), deadline_of H))"
| hget: "hash_spec (HGet f (fields_of H f)) H H"
| hdel: "hash_spec (HDel fs (int (card (set fs \<inter> dom (fields_of H))))) H (hash_drop fs H)"
| hlen: "hash_spec (HLen (int (card (dom (fields_of H))))) H H"
| hincr: "field_number H f = Some c \<Longrightarrow> is_int64 (c + delta) \<Longrightarrow>
    hash_spec (HIncr f delta (c + delta)) H (Some ((fields_of H)(f \<mapsto> format_int (c + delta)), deadline_of H))"

text \<open>\<open>B\<close> is what the other keys hold.\<close>

definition hash_rel :: "('e \<Rightarrow> (bytes \<rightharpoonup> bytes)) \<Rightarrow> Env \<Rightarrow> dbid \<Rightarrow> bytes \<Rightarrow> (dbid \<Rightarrow> bytes \<Rightarrow> tval option) \<Rightarrow> 'e Store \<Rightarrow> hash_state \<Rightarrow> bool" where
  "hash_rel kv E db key B s H \<longleftrightarrow> st_ok kv E s \<and> hash_at kv E s db key H \<and> (\<forall>a b. (a, b) \<noteq> (db, key) \<longrightarrow> st_live kv E s a b = B a b)"

lemma hash_rel_step: "hash_rel kv E db key B s H \<Longrightarrow> hash_changed kv E db key s H' s' \<Longrightarrow> hash_rel kv E db key B s' H'"
  by (simp add: hash_rel_def hash_changed_def)

context pebble_engine
begin

lemma hash_simulation: "simulation (hash_serve P E db key) hash_spec (hash_rel kv E db key B)"
proof
  fix s H a s'
  assume rel: "hash_rel kv E db key B s H" and step: "hash_serve P E db key a s s'"
  then have ok: "st_ok kv E s" and h: "hash_at kv E s db key H" by (simp_all add: hash_rel_def)
  have "\<exists>H'. hash_spec a H H' \<and> hash_changed kv E db key s H' s'" using step
  proof cases
    case (hset pairs nx n)
    then show ?thesis using hashSet_done [OF ok h hset(2,3,4)] hash_spec.hset by blast
  next
    case (hget f v)
    then show ?thesis using hashGet_done [OF ok h hget(2)] hash_spec.hget by blast
  next
    case (hdel fs n)
    then show ?thesis using hashDel_done [OF ok h hdel(2)] hash_spec.hdel by blast
  next
    case (hlen n)
    then show ?thesis using hashLen_done [OF ok h hlen(2)] hash_spec.hlen by auto
  next
    case (hincr delta f n)
    then show ?thesis using hashIncrBy_done [OF ok h hincr(2-4)] hash_spec.hincr [of H f _ delta] by blast
  qed
  then show "\<exists>H'. hash_spec a H H' \<and> hash_rel kv E db key B s' H'" using hash_rel_step [OF rel] by blast
qed

end

text \<open>The reference engine serves such hashes.\<close>

interpretation small_hash: simulation "hash_serve ref_pebble (small_env 5) 0 [1]" hash_spec "hash_rel map_of (small_env 5) 0 [1] (\<lambda>_ _. None)"
  by (rule ref.hash_simulation)

lemma empty_store_hash: "hash_at map_of (small_env 5) empty_store 0 [1] None"
  using empty_store_facts by (simp add: elems_of_def)



text \<open>C27: With a Pebble whose calls succeed and values that decode, operations on a hash do not fail: \<open>HSET\<close>, \<open>HDEL\<close> and
  \<open>HGET\<close> always return, \<open>HGET\<close> the field's value, and \<open>HINCRBY\<close> returns the sum, unless the field is not a number or the sum leaves
  64 bits: then it returns that error and the hash is unchanged.\<close>

theorem hash_operations_return:
  assumes "pebble_reliable P kv" "st_ok kv E s" "decodable (kv (s_eng s))" "hash_at kv E s db key H" "is_int64 delta"
  shows "(\<exists>n s'. hashSet P E db key pairs nx s = (Inr n, s')) \<and> (\<exists>n s'. hashDel P E db key fs s = (Inr n, s')) \<and>
    (\<exists>s'. hashGet P E db key f s = (Inr (fields_of H f), s')) \<and>
    (case incr_error H f delta of
       None \<Rightarrow> \<exists>c s'. field_number H f = Some c \<and> hashIncrBy P E db key f delta s = (Inr (c + delta), s')
     | Some err \<Rightarrow> \<exists>s'. hashIncrBy P E db key f delta s = (Inl err, s') \<and> hash_changed kv E db key s H s')"
  using pebble_reliable.hash_ops_ok [OF assms] .

theorem hash_operations_return_witness: "\<exists>s'. hashGet ref_pebble (small_env 5) 0 [1] [2] empty_store = (Inr None, s')"
proof -
  have "decodable (map_of (s_eng empty_store))" by (simp add: decodable_def)
  from hash_operations_return [OF ref.pebble_reliable_axioms empty_store_facts(1) this empty_store_hash, of 0]
  show ?thesis by (auto simp: is_int64_def)
qed

end
