(* ===== verification/SetStore.thy ===== *)
theory SetStore
  imports Sets HashStore
begin

text \<open>
  What a set is to a client: a finite set of members under one key with one deadline, whichever way it is stored. The operations of
  \<open>cmd_set.go\<close> on one key implement the operations on the set, for a set that is absent, inline or spread over element keys.
\<close>

section \<open>The abstraction\<close>

type_synonym set_state = "(bytes set \<times> int) option"

definition marked :: "bytes set \<Rightarrow> (bytes \<rightharpoonup> bytes)" where
  "marked S = (\<lambda>m. if m \<in> S then Some [] else None)"

definition set_stored :: "(bytes \<rightharpoonup> bytes) \<Rightarrow> dbid \<Rightarrow> bytes \<Rightarrow> bytes \<Rightarrow> bytes set \<Rightarrow> bool" where
  "set_stored m db key payload S \<longleftrightarrow>
     (\<exists>obj. DecodeObjectHeader payload = Inr obj \<and>
        (if o_Enc obj = EncSparse then elems_of m SegSet db key = marked S
         else elems_of m SegSet db key = marked {} \<and> (\<exists>ms. DecodeSetInline (o_Data obj) = Inr ms \<and> distinct ms \<and> set ms = S)))"

definition members_at :: "set_state \<Rightarrow> bytes set" where
  "members_at H = (case H of None \<Rightarrow> {} | Some (S, x) \<Rightarrow> S)"

definition until :: "set_state \<Rightarrow> int" where
  "until H = (case H of None \<Rightarrow> 0 | Some (S, x) \<Rightarrow> x)"

definition set_at :: "('e \<Rightarrow> (bytes \<rightharpoonup> bytes)) \<Rightarrow> Env \<Rightarrow> 'e Store \<Rightarrow> dbid \<Rightarrow> bytes \<Rightarrow> set_state \<Rightarrow> bool" where
  "set_at kv E s db key H \<longleftrightarrow>
     (case H of
        None \<Rightarrow> st_live kv E s db key = None \<and> elems_of (kv (s_eng s)) SegSet db key = marked {}
      | Some (S, x) \<Rightarrow> (\<forall>m\<in>S. length m < 2 ^ 16) \<and>
          (\<exists>p. st_live kv E s db key = Some (TypeSet, x, p) \<and> set_stored (kv (s_eng s)) db key p S))"

definition set_changed :: "('e \<Rightarrow> (bytes \<rightharpoonup> bytes)) \<Rightarrow> Env \<Rightarrow> dbid \<Rightarrow> bytes \<Rightarrow> 'e Store \<Rightarrow> set_state \<Rightarrow> 'e Store \<Rightarrow> bool" where
  "set_changed kv E db key s H' s' \<longleftrightarrow> st_ok kv E s' \<and> set_at kv E s' db key H' \<and>
     (\<forall>a b. (a, b) \<noteq> (db, key) \<longrightarrow> st_live kv E s' a b = st_live kv E s a b)"

text \<open>Adding and removing: a set without members is no key.\<close>

definition set_insert :: "bytes set \<Rightarrow> set_state \<Rightarrow> set_state" where
  "set_insert M H = (if M \<subseteq> members_at H then H else Some (members_at H \<union> M, until H))"

definition set_remove :: "bytes set \<Rightarrow> set_state \<Rightarrow> set_state" where
  "set_remove M H = (if M \<inter> members_at H = {} then H else if members_at H \<subseteq> M then None else Some (members_at H - M, until H))"

lemma set_at_sel [simp]:
  "set_at kv E s db key None \<longleftrightarrow> st_live kv E s db key = None \<and> elems_of (kv (s_eng s)) SegSet db key = marked {}"
  "members_at None = {}" "members_at (Some (S, x)) = S" "until None = 0" "until (Some (S, x)) = x"
  by (simp_all add: set_at_def members_at_def until_def)

lemma marked_eq [simp]: "marked S = marked T \<longleftrightarrow> S = T" "dom (marked S) = S"
  by (auto simp: marked_def fun_eq_iff split: if_splits)

lemma marked_apply: "marked S m = (if m \<in> S then Some [] else None)"
  by (simp add: marked_def)

lemma set_segment: "SegSet \<noteq> segData" "SegSet \<noteq> segExpire"
  by (simp_all add: seg_defs)

lemma TypeString_not_set: "TypeSet \<noteq> TypeString"
  by (simp add: type_defs)

lemma set_at_eng: "s_eng s' = s_eng s \<Longrightarrow> set_at kv E s' = set_at kv E s"
  by (simp add: fun_eq_iff set_at_def st_live_def split: option.split)

lemma set_at_until: "set_at kv E s db key H \<Longrightarrow> is_int64 (until H) \<and> \<not> past (env_now E) (until H)"
  by (cases H) (auto simp: set_at_def past_def dest!: live_expiry)

lemma set_members_short: "set_at kv E s db key H \<Longrightarrow> \<forall>m\<in>members_at H. length m < 2 ^ 16"
  by (cases H) (auto simp: set_at_def)

lemma set_changed_trans:
  "st_live kv E s1 = st_live kv E s \<Longrightarrow> set_changed kv E db key s1 H s' \<Longrightarrow> set_changed kv E db key s H s'"
  by (simp add: set_changed_def)

section \<open>Lists as sets\<close>

lemma addMembers_set: "distinct st \<Longrightarrow> set (fst (addMembers ms st n)) = set st \<union> set ms \<and> distinct (fst (addMembers ms st n))"
  by (induction ms arbitrary: st n) (auto simp: gset_add_def)

lemma addMembers_count: "snd (addMembers ms st n) = n + int (card (set ms - set st))"
proof (induction ms arbitrary: st n)
  case (Cons m ms)
  show ?case
  proof (cases "m \<in> set st")
    case False
    have "card (insert m (set ms) - set st) = Suc (card (set ms - set (gset_add m st)))"
    proof -
      have "insert m (set ms) - set st = insert m (set ms - set (gset_add m st))" using False by (auto simp: gset_add_def)
      then show ?thesis by (simp add: card_insert_if gset_add_def False)
    qed
    then show ?thesis using False by (simp add: Cons.IH)
  qed (simp add: Cons.IH insert_Diff_if)
qed simp

lemma remMembers_set: "distinct st \<Longrightarrow> set (fst (remMembers ms st n)) = set st - set ms \<and> distinct (fst (remMembers ms st n))"
  by (induction ms arbitrary: st n) auto

lemma remMembers_count: "distinct st \<Longrightarrow> snd (remMembers ms st n) = n + int (card (set ms \<inter> set st))"
proof (induction ms arbitrary: st n)
  case (Cons m ms)
  show ?case
  proof (cases "m \<in> set st")
    case True
    have "insert m (set ms) \<inter> set st = insert m (set ms \<inter> (set st - {m}))" using True by auto
    then have "card (insert m (set ms) \<inter> set st) = Suc (card (set ms \<inter> (set st - {m})))" by simp
    then show ?thesis using True Cons by simp
  qed (use Cons in simp)
qed simp

text \<open>Filling the drawn place with the last element leaves the rest of the pool.\<close>

lemma draw_rest:
  assumes "distinct pool" "i < length pool"
  shows "distinct (butlast (pool[i := last pool])) \<and> set (butlast (pool[i := last pool])) = set pool - {pool ! i}"
proof -
  obtain p l where pool: "pool = p @ [l]" using assms(2) by (metis length_0_conv not_less_zero rev_exhaust)
  show ?thesis
  proof (cases "i = length p")
    case True
    then show ?thesis using assms(1) by (simp add: pool)
  next
    case False
    then have i: "i < length p" using assms(2) by (simp add: pool)
    have u: "butlast (pool[i := last pool]) = p[i := l]" using i by (simp add: pool list_update_append)
    have "distinct (p[i := l])" using assms(1) i by (simp add: pool distinct_list_update)
    moreover have "set (p[i := l]) = insert l (set p - {p ! i})" using assms(1) i by (simp add: pool set_update_distinct)
    ultimately show ?thesis using assms(1) i unfolding u by (auto simp: pool nth_append)
  qed
qed

lemma drawMembers_draws:
  assumes "distinct pool" "n \<le> length pool"
  shows "distinct (drawMembers rnd n pool) \<and> set (drawMembers rnd n pool) \<subseteq> set pool \<and> length (drawMembers rnd n pool) = n"
  using assms
proof (induction n arbitrary: pool)
  case (Suc n)
  let ?i = "rnd n mod length pool"
  let ?rest = "butlast (pool[?i := last pool])"
  have i: "?i < length pool" using Suc.prems by (metis Suc_le_eq gr_implies_not0 linorder_neqE_nat mod_less_divisor)
  have rest: "distinct ?rest \<and> set ?rest = set pool - {pool ! ?i}" by (rule draw_rest [OF Suc.prems(1) i])
  have "n \<le> length ?rest" using Suc.prems(2) by simp
  from Suc.IH [OF _ this] rest have IH: "distinct (drawMembers rnd n ?rest)" "set (drawMembers rnd n ?rest) \<subseteq> set pool - {pool ! ?i}"
    "length (drawMembers rnd n ?rest) = n" by auto
  then show ?case using i by (auto simp: Let_def)
qed simp

section \<open>Loading and saving\<close>

lemma newAgg_set_sel [simp]: "a_set (newAgg t x) = []" "a_origSet (newAgg t x) = []"
  by (simp_all add: newAgg_def)

text \<open>The element keys on disk match the snapshot a loaded set carries; a loaded aggregate that stands for the set at a key.\<close>

definition set_synced :: "(bytes \<rightharpoonup> bytes) \<Rightarrow> dbid \<Rightarrow> bytes \<Rightarrow> agg \<Rightarrow> bool" where
  "set_synced m db key a \<longleftrightarrow> distinct (a_set a) \<and> distinct (a_origSet a) \<and>
     elems_of m SegSet db key = marked (if a_sparse a then set (a_origSet a) else {})"

definition set_loaded :: "('e \<Rightarrow> (bytes \<rightharpoonup> bytes)) \<Rightarrow> 'e Store \<Rightarrow> dbid \<Rightarrow> bytes \<Rightarrow> set_state \<Rightarrow> agg \<Rightarrow> bool" where
  "set_loaded kv s db key H a \<longleftrightarrow> a_typ a = TypeSet \<and> set (a_set a) = members_at H \<and> a_exists a = (H \<noteq> None) \<and>
     a_expireAt a = until H \<and> a_origExpire a = expiry_of (kv (s_eng s)) db key \<and> set_synced (kv (s_eng s)) db key a"

definition set_ops :: "agg \<Rightarrow> (bytes \<times> bytes option) list" where
  "set_ops a =
     (if a_sparse a then
        map (\<lambda>m. (m, None)) (filter (\<lambda>m. m \<notin> set (a_set a)) (a_origSet a))
        @ map (\<lambda>m. (m, Some [])) (filter (\<lambda>m. m \<notin> set (a_origSet a)) (a_set a))
      else map (\<lambda>m. (m, Some [])) (a_set a))"

lemma map_of_const: "map_of (map (\<lambda>m. (m, c)) xs) f = (if f \<in> set xs then Some c else None)"
  by (induction xs) auto

lemma map_of_rev_const: "map_of (rev (map (\<lambda>m. (m, c)) xs)) f = (if f \<in> set xs then Some c else None)"
  by (simp add: rev_map map_of_const)

lemma set_ops_distinct: "set_synced m db key a \<Longrightarrow> distinct (map fst (set_ops a))"
  by (auto simp: set_synced_def set_ops_def comp_def)

lemma set_ops_result:
  assumes "set_synced m db key a"
  shows "(case map_of (set_ops a) f of None \<Rightarrow> elems_of m SegSet db key f | Some vo \<Rightarrow> vo) = marked (set (a_set a)) f"
  using assms by (auto simp: set_synced_def set_ops_def map_of_const map_add_def marked_apply split: option.splits)

lemma saveAgg_set_ops:
  assumes "a_typ a = TypeSet" "\<not> fitsInline a"
  shows "saveAgg P E db key a s =
    commitAgg P E db key (a\<lparr>a_sparse := True\<rparr>) (elem_ops SegSet db key (set_ops a))
      (EncodeSparseHeader TypeSet (length (a_set a)) (a_head a) (a_tail a)) s"
proof -
  have "commitAgg P E db key (a\<lparr>a_sparse := True\<rparr>) ops pay s = commitAgg P E db key a ops pay s" for ops pay
    by (simp add: commitAgg_def)
  moreover have "diffElemsBatch SegSet db key a = elem_ops SegSet db key (set_ops a)" if "a_sparse a"
    using that assms(1) by (simp add: diffElemsBatch_def elem_ops_def set_ops_def bop_of_def EncodeElemKey_eq comp_def)
  moreover have "writeElemsBatch SegSet db key (a\<lparr>a_sparse := True\<rparr>) = (elem_ops SegSet db key (set_ops a), a\<lparr>a_sparse := True\<rparr>)"
    if "\<not> a_sparse a"
    using that assms(1) by (simp add: writeElemsBatch_def elem_ops_def set_ops_def bop_of_def EncodeElemKey_eq comp_def)
  ultimately show ?thesis
    using assms by (cases "a_sparse a") (simp_all add: saveAgg_def the_seg_def agg_len_def Let_def)
qed

lemma inline_set_stored:
  assumes "distinct ms" "\<forall>m\<in>set ms. length m < 2 ^ 16" "elems_of mm SegSet db key = marked {}"
  shows "set_stored mm db key (EncodeSetInline (sort ms)) (set ms)"
proof -
  have "DecodeSetInline (concat (map enc_member (sort ms))) = Inr (sort ms)"
    using assms(1,2) by (intro DecodeSetInline_concat) (auto simp: list_all_iff sized_member_def)
  then show ?thesis
    using assms unfolding set_stored_def EncodeSetInline_def DecodeObjectHeader_inline
    by (auto simp: EncInline_def EncSparse_def)
qed

context pebble_engine
begin

lemma scanSet_done:
  assumes "scanSet P db key s = Inr ms"
  shows "set ms = dom (elems_of (kv (s_eng s)) SegSet db key)" "distinct ms"
proof -
  let ?p = "ElemPrefix SegSet db key"
  have "scanned (Scan P (s_eng s) ?p (\<lambda>out k v. (None, gset_add (ElemFromKey ?p k) out)) []) = Inr ms"
    using assms by (simp add: scanSet_def ScanKeys_def Scan_def ScanRange_def Let_def)
  from Scan_lists [where g = "\<lambda>out k v. gset_add (ElemFromKey ?p k) out", OF refl this]
  obtain kvs where kvs: "lists_range (kv (s_eng s)) ?p (prefixEnd ?p) kvs" "ms = foldl (\<lambda>st kv. gset_add (ElemFromKey ?p (fst kv)) st) [] kvs"
    by auto
  note e = scan_elems [OF kvs(1)]
  let ?f = "map (\<lambda>(k, v). (drop (length ?p) k, v)) kvs"
  have d: "distinct (map fst ?f)" using e(2) by (simp add: strict_sorted_iff)
  have "ms = foldl (\<lambda>st m. gset_add m st) [] (map fst ?f)"
    unfolding kvs(2) by (subst e(1)) (simp add: foldl_map split_def)
  then have ms: "ms = map fst ?f" using foldl_gset_add [of "[]" "map fst ?f"] d by simp
  show "set ms = dom (elems_of (kv (s_eng s)) SegSet db key)"
    unfolding ms e(3) [symmetric] dom_map_of_conv_image_fst set_map ..
  show "distinct ms" using d ms by simp
qed

lemma loadAgg_set_at:
  assumes ok: "st_ok kv E s" and h: "set_at kv E s db key H" and r: "loadAgg P E db key TypeSet s = (Inr a, s')"
  shows "set_loaded kv s' db key H a \<and> set_changed kv E db key s H s' \<and> st_live kv E s' = st_live kv E s"
proof -
  obtain rd s1 where g1: "getTyped P E db key s = (Inr rd, s1)" using r by (auto simp: loadAgg_def bindE_eq_Inr)
  have s1: "s1 = s'" using r g1 by (auto simp: loadAgg_def split: option.splits if_splits sum.splits)
  note rd = getTyped_done [OF ok g1, unfolded read_ok_def s1]
  show ?thesis
  proof (cases H)
    case None
    then have n: "rd = None" using rd h by simp
    then have a: "a = newAgg TypeSet 0" using r g1 by (simp add: loadAgg_def)
    have el: "elems_of (kv (s_eng s')) SegSet db key = marked {}"
      using rd elems_only_key [OF _ set_segment] h None by (metis set_at_sel(1))
    then show ?thesis using rd h None n a
      by (simp add: set_loaded_def set_synced_def set_changed_def expiry_of_def)
  next
    case (Some hx)
    obtain S x where hx: "hx = (S, x)" by fastforce
    obtain p obj where p: "st_live kv E s db key = Some (TypeSet, x, p)" "DecodeObjectHeader p = Inr obj"
      and rep: "if o_Enc obj = EncSparse then elems_of (kv (s_eng s)) SegSet db key = marked S
         else elems_of (kv (s_eng s)) SegSet db key = marked {} \<and> (\<exists>ms. DecodeSetInline (o_Data obj) = Inr ms \<and> distinct ms \<and> set ms = S)"
      using h Some hx by (auto simp: set_at_def set_stored_def)
    have e: "s_eng s' = s_eng s" and v: "rd = Some (TypeSet, x, p)" using rd p by auto
    have at: "set_at kv E s' db key H" using h by (simp only: set_at_eng [OF e])
    have x: "expiry_of (kv (s_eng s)) db key = x" using live_expiry [OF p(1)] by simp
    have L: "a_typ a = TypeSet" "a_exists a" "a_expireAt a = x" "a_origExpire a = x" "a_sparse a = (o_Enc obj = EncSparse)"
      "a_origSet a = a_set a" "if o_Enc obj = EncSparse then scanSet P db key s' = Inr (a_set a) else DecodeSetInline (o_Data obj) = Inr (a_set a)"
      using r g1 v p(2) s1 by (auto simp: loadAgg_def loadElems_def newAgg_def on_ok_def split: sum.splits if_splits)
    have "set (a_set a) = S \<and> distinct (a_set a)"
      using rep L(7) scanSet_done [of db key s'] by (auto simp: e split: if_splits)
    then show ?thesis using L rep Some hx x e at rd by (auto simp: set_loaded_def set_synced_def set_changed_def split: if_splits)
  qed
qed

lemma saveAgg_set_at:
  assumes ok: "st_ok kv E s" and a: "set_loaded kv s db key H a" and H: "is_int64 (until H)" "\<not> past (env_now E) (until H)"
    and g: "distinct ms" and sz: "\<forall>m\<in>set ms. length m < 2 ^ 16" and r: "saveAgg P E db key (a\<lparr>a_set := ms\<rparr>) s = (Inr u, s')"
  shows "set_changed kv E db key s (Some (set ms, until H)) s'"
proof -
  let ?a = "a\<lparr>a_set := ms\<rparr>"
  have sy: "set_synced (kv (s_eng s)) db key ?a" using a g by (simp add: set_loaded_def set_synced_def)
  have pre: "a_typ ?a = TypeSet" "is_int64 (a_expireAt ?a)" "a_origExpire ?a = expiry_of (kv (s_eng s)) db key" "a_expireAt ?a = until H"
    using a H by (simp_all add: set_loaded_def)
  have fin: ?thesis if "st_ok kv E s'" "st_live kv E s' = upd2 (st_live kv E s) db key (live_val (env_now E) (Some (TypeSet, until H, pay)))"
    "set_stored (kv (s_eng s')) db key pay (set ms)" for pay
    using that sz H(2) by (auto simp: set_changed_def set_at_def live_val_def upd2_def)
  show ?thesis
  proof (cases "fitsInline ?a")
    case True
    let ?ops = "if a_sparse a then dropElemsBatch db key TypeSet else []"
    have c: "commitAgg P E db key ?a ?ops (EncodeSetInline (sort ms)) s = (Inr u, s')"
      using r True pre(1) by (auto simp: saveAgg_def encodeInline_def split: if_splits)
    have ag: "agree (kv (s_eng s)) (run_bops ?ops (kv (s_eng s))) y z" for y z by (simp add: agree_dropElems)
    note d = commitAgg_done [OF ok pre(2,3) ag c]
    have "elems_of (run_bops ?ops (kv (s_eng s))) SegSet db key = marked {}"
      using sy elems_dropped [of TypeSet SegSet] by (simp add: set_synced_def) (simp add: marked_def)
    then have "elems_of (kv (s_eng s')) SegSet db key = marked {}" using d(2) by (simp add: elems_put [OF set_segment])
    then show ?thesis using fin [OF d(1) _ inline_set_stored [OF g sz]] d(3) pre by simp
  next
    case False
    have c: "commitAgg P E db key (?a\<lparr>a_sparse := True\<rparr>) (elem_ops SegSet db key (set_ops ?a))
        (EncodeSparseHeader TypeSet (length ms) (a_head a) (a_tail a)) s = (Inr u, s')"
      using r by (simp add: saveAgg_set_ops [OF pre(1) False])
    note d = commitAgg_done [OF ok _ _ agree_elem_ops [OF set_ops_distinct [OF sy] set_segment] c]
    have "elems_of (run_bops (elem_ops SegSet db key (set_ops ?a)) (kv (s_eng s))) SegSet db key = marked (set ms)"
      using set_ops_result [OF sy] by (simp add: run_elem_ops(1) [OF set_ops_distinct [OF sy] refl] fun_eq_iff)
    then have "elems_of (kv (s_eng s')) SegSet db key = marked (set ms)"
      using d(2) pre by (simp add: elems_put [OF set_segment])
    then show ?thesis using fin d(1,3) pre by (simp add: set_stored_def DecodeObjectHeader_sparse)
  qed
qed

end

section \<open>The operations\<close>

context pebble_engine
begin

lemma aggEncoding_set_at:
  assumes ok: "st_ok kv E s" and h: "set_at kv E s db key H" and r: "aggEncoding P E db key TypeSet s = (Inr enc, s')"
  shows "set_changed kv E db key s H s' \<and> st_live kv E s' = st_live kv E s \<and> (enc = None \<longleftrightarrow> H = None) \<and>
    (\<forall>obj x. enc = Some (obj, x) \<and> o_Enc obj = EncSparse \<longrightarrow> x = until H \<and> elems_of (kv (s_eng s')) SegSet db key = marked (members_at H))"
proof -
  obtain rd s1 where g1: "getTyped P E db key s = (Inr rd, s1)" using r by (auto simp: aggEncoding_def bindE_eq_Inr)
  have s1: "s1 = s'" using r g1 by (auto simp: aggEncoding_def split: option.splits if_splits sum.splits)
  note rd = getTyped_done [OF ok g1, unfolded read_ok_def s1]
  show ?thesis
  proof (cases H)
    case None
    have "elems_of (kv (s_eng s')) SegSet db key = marked {}"
      using rd elems_only_key [OF _ set_segment] h None by (metis set_at_sel(1))
    then show ?thesis using rd r g1 h None by (auto simp: aggEncoding_def set_changed_def)
  next
    case (Some hx)
    obtain S x where hx: "hx = (S, x)" by fastforce
    obtain p where p: "st_live kv E s db key = Some (TypeSet, x, p)" using h Some hx by (auto simp: set_at_def)
    then have e: "s_eng s' = s_eng s" using rd by auto
    then have "set_at kv E s' db key H" using h by (simp only: set_at_eng [OF e])
    then show ?thesis using rd r g1 h Some hx p e
      by (auto simp: aggEncoding_def set_at_def set_stored_def set_changed_def split: sum.splits)
  qed
qed

lemma sparseMembers_done:
  "sparseMembers P e db key ms = Inr (ops, n) \<Longrightarrow> elems_of (kv e) SegSet db key = marked S \<Longrightarrow>
     ops = elem_ops SegSet db key (map (\<lambda>m. (m, Some [])) (filter (\<lambda>m. m \<notin> S) ms)) \<and> n = int (length (filter (\<lambda>m. m \<notin> S) ms))"
proof (induction ms arbitrary: ops n)
  case (Cons m ms)
  have el: "elems_of (kv e) SegSet db key m = (if m \<in> S then Some [] else None)" using Cons.prems(2) by (simp add: marked_apply)
  show ?case
  proof (cases "eng_Get P e (EncodeElemKey SegSet db key m)")
    case (Inl err)
    then have "err = ErrNotFound" using Cons.prems by (auto split: if_splits)
    then have "m \<notin> S" using Inl get_missing el by (auto simp: eng_Get_def elems_of_def EncodeElemKey_eq split: if_splits)
    then show ?thesis using Cons Inl by (auto simp: elem_ops_def bop_of_def EncodeElemKey_eq Let_def split: if_splits sum.splits)
  next
    case (Inr old)
    then have "m \<in> S" using get_found el by (auto simp: eng_Get_def elems_of_def EncodeElemKey_eq split: if_splits)
    then show ?thesis using Cons Inr by simp
  qed
qed (simp add: elem_ops_def)

lemma new_member_count: "distinct ms \<Longrightarrow> length (filter (\<lambda>m. m \<notin> S) ms) = card (set ms - S)"
proof -
  assume d: "distinct ms"
  have "set (filter (\<lambda>m. m \<notin> S) ms) = set ms - S" by auto
  then show ?thesis using d by (metis distinct_card distinct_filter)
qed

lemma setAddLoaded_done:
  assumes ok: "st_ok kv E s" and h: "set_at kv E s db key H" and sz: "\<forall>m\<in>set ms. length m < 2 ^ 16"
    and r: "setAddLoaded P E db key ms s = (Inr n, s')"
  shows "set_changed kv E db key s (set_insert (set ms) H) s' \<and> n = int (card (set ms - members_at H))"
proof -
  obtain a s1 where l: "loadAgg P E db key TypeSet s = (Inr a, s1)" using r by (auto simp: setAddLoaded_def bindE_eq_Inr)
  note L = loadAgg_set_at [OF ok h l]
  have a: "distinct (a_set a)" "set (a_set a) = members_at H" using L by (auto simp: set_loaded_def set_synced_def)
  obtain st k where q: "addMembers ms (a_set a) 0 = (st, k)" by fastforce
  have st: "set st = members_at H \<union> set ms" "distinct st" "k = int (card (set ms - members_at H))"
    using addMembers_set [OF a(1), of ms 0] addMembers_count [of ms "a_set a" 0] q a by auto
  have k0: "k = 0 \<longleftrightarrow> set ms \<subseteq> members_at H" by (auto simp: st)
  show ?thesis
  proof (cases "k = 0")
    case True
    then show ?thesis using r l q L st k0 by (simp add: setAddLoaded_def set_insert_def)
  next
    case False
    then obtain u where sv: "saveAgg P E db key (a\<lparr>a_set := st\<rparr>) s1 = (Inr u, s')" "n = k"
      using r l q by (auto simp: setAddLoaded_def bindE_eq_Inr)
    have "\<forall>m\<in>set st. length m < 2 ^ 16" using sz set_members_short [OF h] by (auto simp: st)
    from saveAgg_set_at [OF _ _ _ _ st(2) this sv(1)] L set_at_until [OF h]
    have "set_changed kv E db key s1 (Some (set st, until H)) s'" by (auto simp: set_changed_def)
    then have "set_changed kv E db key s (Some (set st, until H)) s'" using set_changed_trans L by blast
    then show ?thesis using st sv k0 False by (simp add: set_insert_def)
  qed
qed

lemma setAddSparse_done:
  assumes ok: "st_ok kv E s" and h: "set_at kv E s db key (Some (S, x))" and e: "elems_of (kv (s_eng s)) SegSet db key = marked S"
    and sz: "\<forall>m\<in>set ms. length m < 2 ^ 16" and r: "setAddSparse P E db key ms cnt x s = (Inr n, s')"
  shows "set_changed kv E db key s (set_insert (set ms) (Some (S, x))) s' \<and> n = int (length (filter (\<lambda>m. m \<notin> S) ms))"
proof -
  obtain ops k where q: "sparseMembers P (s_eng s) db key ms = Inr (ops, k)" using r by (auto simp: setAddSparse_def split: sum.splits)
  let ?new = "filter (\<lambda>m. m \<notin> S) ms"
  have ops: "ops = elem_ops SegSet db key (map (\<lambda>m. (m, Some [])) ?new)" "k = int (length ?new)"
    using sparseMembers_done [OF q e] by simp_all
  have k0: "k = 0 \<longleftrightarrow> set ms \<subseteq> S" by (auto simp: ops filter_empty_conv)
  show ?thesis
  proof (cases "k = 0")
    case True
    then show ?thesis using r q h ok k0 ops by (auto simp: setAddSparse_def set_insert_def set_changed_def)
  next
    case False
    let ?hd = "EncodeSparseHeader TypeSet (nat (cnt + k)) 0 0"
    have c: "commitAgg P E db key (newAgg TypeSet x) ops ?hd s = (Inr (), s')" "n = k"
      using r q False by (auto simp: setAddSparse_def commitAgg_def Let_def bindE_def split: prod.splits sum.splits)
    note d = commitAgg_done [OF ok _ _ agree_elem_writes [OF set_segment] c(1) [unfolded ops(1)], folded ops(1)]
    have dl: "is_int64 x" "\<not> past (env_now E) x" "x = expiry_of (kv (s_eng s)) db key"
      using set_at_until [OF h] h live_expiry by (fastforce simp: set_at_def)+
    have "elems_of (run_bops ops (kv (s_eng s))) SegSet db key = marked (S \<union> set ms)"
      unfolding ops(1) elem_writes(1) e map_of_rev_const by (auto simp: fun_eq_iff marked_apply)
    then have "elems_of (kv (s_eng s')) SegSet db key = marked (S \<union> set ms)" using d(2) dl by (simp add: elems_put [OF set_segment])
    moreover have "st_live kv E s' = upd2 (st_live kv E s) db key (Some (TypeSet, x, ?hd))" "st_ok kv E s'"
      using d(1,3) dl by (simp_all add: live_val_def)
    moreover have "\<forall>m\<in>S \<union> set ms. length m < 2 ^ 16" using sz set_members_short [OF h] by auto
    ultimately show ?thesis
      using c(2) k0 False ops(2) by (auto simp: set_changed_def set_insert_def set_at_def set_stored_def DecodeObjectHeader_sparse upd2_def)
  qed
qed

lemma setAdd_done:
  assumes ok: "st_ok kv E s" and h: "set_at kv E s db key H" and sz: "\<forall>m\<in>set ms. length m < 2 ^ 16"
    and r: "setAdd P E db key ms s = (Inr n, s')"
  shows "set_changed kv E db key s (set_insert (set ms) H) s' \<and> (distinct ms \<longrightarrow> n = int (card (set ms - members_at H)))"
proof -
  obtain enc s1 where g: "aggEncoding P E db key TypeSet s = (Inr enc, s1)" using r by (auto simp: setAdd_def bindE_eq_Inr)
  note A = aggEncoding_set_at [OF ok h g]
  have s1: "st_ok kv E s1" "set_at kv E s1 db key H" using A by (simp_all add: set_changed_def)
  show ?thesis
  proof (cases "\<exists>obj x. enc = Some (obj, x) \<and> o_Enc obj = EncSparse")
    case True
    then obtain obj x where o: "enc = Some (obj, x)" "o_Enc obj = EncSparse" by blast
    then obtain S where H: "H = Some (S, x)" using A by (cases H) auto
    have "setAddSparse P E db key ms (o_Count obj) x s1 = (Inr n, s')" using r g o by (simp add: setAdd_def)
    from setAddSparse_done [OF s1(1) s1(2) [unfolded H] _ sz this] show ?thesis
      using A H o set_changed_trans [of kv E s1 s db key _ s'] by (auto simp: new_member_count)
  next
    case False
    then have "setAddLoaded P E db key ms s1 = (Inr n, s')" using r g by (auto simp: setAdd_def split: option.splits)
    from setAddLoaded_done [OF s1 sz this] show ?thesis
      using A set_changed_trans [of kv E s1 s db key _ s'] by auto
  qed
qed

lemma setRem_done:
  assumes ok: "st_ok kv E s" and h: "set_at kv E s db key H" and r: "setRem P E db key ms s = (Inr n, s')"
  shows "n = int (card (set ms \<inter> members_at H)) \<and> set_changed kv E db key s (set_remove (set ms) H) s'"
proof -
  obtain a s1 where l: "loadAgg P E db key TypeSet s = (Inr a, s1)" using r by (auto simp: setRem_def bindE_eq_Inr)
  note L = loadAgg_set_at [OF ok h l]
  have a: "distinct (a_set a)" "set (a_set a) = members_at H" "a_exists a = (H \<noteq> None)" using L by (auto simp: set_loaded_def set_synced_def)
  obtain st k where q: "remMembers ms (a_set a) 0 = (st, k)" by fastforce
  have st: "set st = members_at H - set ms" "distinct st" "k = int (card (set ms \<inter> members_at H))"
    using remMembers_set [OF a(1), of ms 0] remMembers_count [OF a(1), of ms 0] q a by auto
  have k0: "k = 0 \<longleftrightarrow> set ms \<inter> members_at H = {}" by (simp add: st(3))
  have e: "st = [] \<longleftrightarrow> members_at H \<subseteq> set ms" using st(1) by (metis Diff_eq_empty_iff set_empty)
  consider "H = None" | "H \<noteq> None" "k = 0" | "H \<noteq> None" "k \<noteq> 0" "st = []" | "H \<noteq> None" "k \<noteq> 0" "st \<noteq> []" by blast
  then show ?thesis
  proof cases
    case 1
    then show ?thesis using r l L a by (auto simp: setRem_def set_remove_def)
  next
    case 2
    then show ?thesis using r l L a q st k0 by (auto simp: setRem_def set_remove_def)
  next
    case 3
    then obtain b where d: "deleteKey P E db key s1 = (Inr b, s')" "n = k"
      using r l q a(3) by (auto simp: setRem_def bindE_eq_Inr)
    obtain x p where p: "st_live kv E s1 db key = Some (TypeSet, x, p)" using L 3 by (auto simp: set_changed_def set_at_def)
    have s1: "st_ok kv E s1" using L by (simp add: set_changed_def)
    note D = deleteKey_done [OF s1 d(1)]
    have "kv (s_eng s') (ElemPrefix SegSet db key @ f) = None" for f
      using D(5) [OF p, of "ElemPrefix SegSet db key @ f"] TypeString_not_set by (auto simp: elem_key_def)
    then have "elems_of (kv (s_eng s')) SegSet db key = marked {}" by (simp add: elems_of_def marked_def)
    then show ?thesis using D(1,3) L d st(3) e k0 3 by (auto simp: set_changed_def set_remove_def upd2_def)
  next
    case 4
    then obtain u where sv: "saveAgg P E db key (a\<lparr>a_set := st\<rparr>) s1 = (Inr u, s')" "n = k"
      using r l q a(3) by (auto simp: setRem_def bindE_eq_Inr)
    have "\<forall>m\<in>set st. length m < 2 ^ 16" using set_members_short [OF h] by (auto simp: st)
    from saveAgg_set_at [OF _ _ _ _ st(2) this sv(1)] L set_at_until [OF h]
    have "set_changed kv E db key s1 (Some (set st, until H)) s'" by (auto simp: set_changed_def)
    then have "set_changed kv E db key s (Some (set st, until H)) s'" using set_changed_trans L by blast
    then show ?thesis using st sv k0 e 4 by (simp add: set_remove_def)
  qed
qed

end

context pebble_engine
begin

lemma set_reads_done:
  assumes ok: "st_ok kv E s" and h: "set_at kv E s db key H"
  shows "setIsMember P E db key m s = (Inr b, s') \<Longrightarrow> b = (m \<in> members_at H) \<and> set_changed kv E db key s H s'"
    "setMembers P E db key s = (Inr ms, s') \<Longrightarrow> ms = sorted_list_of_set (members_at H) \<and> set_changed kv E db key s H s'"
    "cmdSCard P E db nm [key] s = (Inr rs, s') \<Longrightarrow> rs = [RInt (int (card (members_at H)))] \<and> set_changed kv E db key s H s'"
proof -
  have load: "set (a_set a) = members_at H \<and> distinct (a_set a) \<and> set_changed kv E db key s H s'"
    if "loadAgg P E db key TypeSet s = (Inr a, s')" for a
    using loadAgg_set_at [OF ok h that] by (simp add: set_loaded_def set_synced_def)
  show "setIsMember P E db key m s = (Inr b, s') \<Longrightarrow> b = (m \<in> members_at H) \<and> set_changed kv E db key s H s'"
    using load by (auto simp: setIsMember_def bindE_eq_Inr)
  show "setMembers P E db key s = (Inr ms, s') \<Longrightarrow> ms = sorted_list_of_set (members_at H) \<and> set_changed kv E db key s H s'"
  proof -
    assume "setMembers P E db key s = (Inr ms, s')"
    then obtain a where a: "loadAgg P E db key TypeSet s = (Inr a, s')" "ms = sort (a_set a)" by (auto simp: setMembers_def bindE_eq_Inr)
    then show ?thesis using load [OF a(1)] sorted_list_of_set_sort_remdups [of "a_set a"] by (simp add: distinct_remdups_id)
  qed
  show "cmdSCard P E db nm [key] s = (Inr rs, s') \<Longrightarrow> rs = [RInt (int (card (members_at H)))] \<and> set_changed kv E db key s H s'"
    using load distinct_card by (fastforce simp: cmdSCard_def withArity_def checkArgLen_def bindE_eq_Inr)
qed

lemma setPop_done:
  assumes ok: "st_ok kv E s" and h: "set_at kv E s db key H" and r: "setPop P E rnd db key n s = (Inr out, s')"
  shows "distinct out \<and> set out \<subseteq> members_at H \<and> length out = min n (card (members_at H)) \<and>
    set_changed kv E db key s (set_remove (set out) H) s'"
proof -
  obtain a s1 where l: "loadAgg P E db key TypeSet s = (Inr a, s1)" using r by (auto simp: setPop_def bindE_eq_Inr)
  note L = loadAgg_set_at [OF ok h l]
  have a: "set (a_set a) = members_at H" "distinct (a_set a)" "length (a_set a) = card (members_at H)"
    using L by (auto simp: set_loaded_def set_synced_def distinct_card [symmetric])
  have s1: "st_ok kv E s1" "set_at kv E s1 db key H" using L by (simp_all add: set_changed_def)
  show ?thesis
  proof (cases "a_set a = []")
    case True
    then show ?thesis using r l L a by (auto simp: setPop_def set_remove_def)
  next
    case False
    let ?out = "drawMembers rnd (min n (length (a_set a))) (sort (a_set a))"
    have d: "distinct ?out \<and> set ?out \<subseteq> set (sort (a_set a)) \<and> length ?out = min n (length (a_set a))"
      by (rule drawMembers_draws) (use a in simp_all)
    have "bindE (setRem P E db key ?out s1) (\<lambda>_ s2. (Inr ?out, s2)) = (Inr out, s')"
      using r False by (simp add: setPop_def l Let_def)
    then obtain k where k: "setRem P E db key ?out s1 = (Inr k, s')" "out = ?out"
      by (simp only: bindE_eq_Inr prod.inject sum.inject) metis
    have "set_changed kv E db key s (set_remove (set out) H) s'"
      using setRem_done [OF s1 k(1)] L set_changed_trans k(2) by blast
    then show ?thesis using d a k(2) by simp
  qed
qed

end

text \<open>With reliable calls and values that decode, members can be added.\<close>

context pebble_reliable
begin

lemma loadAgg_set_ok:
  assumes ok: "st_ok kv E s" and dec: "decodable (kv (s_eng s))" and h: "set_at kv E s db key H"
  shows "\<exists>a s'. loadAgg P E db key TypeSet s = (Inr a, s')"
proof -
  obtain rd s1 where g: "getTyped P E db key s = (Inr rd, s1)" using getTyped_returns [OF ok dec] by blast
  note rd = getTyped_done [OF ok g]
  obtain kvs where it: "p_iter P (s_eng s1) (ElemPrefix SegSet db key) (prefixEnd (ElemPrefix SegSet db key)) None = Inr (kvs, None)"
    using iter_ok by blast
  have sc: "\<exists>sh. scanSet P db key s1 = Inr sh"
    by (simp add: scanSet_def scanned_def ScanKeys_def iterate_def it Let_def
        visit_fold [of _ "\<lambda>out k v. gset_add (ElemFromKey (ElemPrefix SegSet db key) k) out"])
  show ?thesis
  proof (cases rd)
    case None
    then show ?thesis using g by (simp add: loadAgg_def)
  next
    case (Some v)
    then obtain S x p where H: "H = Some (S, x)" "v = (TypeSet, x, p)" "set_stored (kv (s_eng s)) db key p S"
      using rd h by (cases H) (auto simp: read_ok_def set_at_def)
    then show ?thesis using Some g sc by (auto simp: loadAgg_def loadElems_def set_stored_def on_ok_def)
  qed
qed

lemma setAdd_ok:
  assumes ok: "st_ok kv E s" and dec: "decodable (kv (s_eng s))" and h: "set_at kv E s db key H"
  shows "\<exists>n s'. setAdd P E db key ms s = (Inr n, s')"
proof -
  obtain rd s1 where g: "getTyped P E db key s = (Inr rd, s1)" using getTyped_returns [OF ok dec] by blast
  note rd = getTyped_done [OF ok g] and dec1 = getTyped_decodable [OF ok dec g]
  obtain enc where e: "aggEncoding P E db key TypeSet s = (Inr enc, s1)"
    using rd h g by (cases H) (auto simp: aggEncoding_def read_ok_def set_at_def set_stored_def split: option.splits)
  have s1: "st_ok kv E s1" "set_at kv E s1 db key H" using aggEncoding_set_at [OF ok h e] by (simp_all add: set_changed_def)
  have "\<exists>n s'. setAddLoaded P E db key ms s1 = (Inr n, s')"
  proof -
    obtain a s2 where l: "loadAgg P E db key TypeSet s1 = (Inr a, s2)" using loadAgg_set_ok [OF s1(1) dec1 s1(2)] by blast
    obtain st k where q: "addMembers ms (a_set a) 0 = (st, k)" by fastforce
    obtain s3 where "saveAgg P E db key (a\<lparr>a_set := st\<rparr>) s2 = (Inr (), s3)" using saveAgg_ok by blast
    then show ?thesis by (simp add: setAddLoaded_def l q)
  qed
  moreover have "\<exists>n s'. setAddSparse P E db key ms c x s1 = (Inr n, s')" for c x
  proof -
    have "\<exists>r. sparseMembers P (s_eng s1) db key ms = Inr r"
      by (induction ms) (auto simp: eng_Get_def get_eq Let_def split: option.splits sum.splits)
    then obtain ops k where q: "sparseMembers P (s_eng s1) db key ms = Inr (ops, k)" by auto
    show ?thesis using applyBatch_ok by (simp add: setAddSparse_def q Let_def bindE_def split: prod.split) (metis prod.inject sum.case(2))
  qed
  ultimately show ?thesis by (auto simp: setAdd_def e split: option.split)
qed

end

text \<open>A member repeated in one \<open>SADD\<close> to a sparse set is looked up twice before the batch is applied, and counted twice; the
  inline form counts it once. The count goes to the client and into the header.\<close>

context pebble_engine
begin

lemma repeated_member_counted_twice:
  assumes "st_ok kv E s" "set_at kv E s db key (Some (S, x))" "elems_of (kv (s_eng s)) SegSet db key = marked S"
    and "m \<notin> S" "length m < 2 ^ 16" "setAddSparse P E db key [m, m] cnt x s = (Inr n, s')"
  shows "n = 2"
  using setAddSparse_done [OF assms(1-3) _ assms(6)] assms(4,5) by simp

end

section \<open>A set is a set\<close>

datatype set_action =
    SAdd "bytes list" int
  | SRem "bytes list" int
  | SIsMember bytes bool
  | SMembers "bytes list"
  | SCard int
  | SPop nat "bytes list"

inductive set_serve :: "'e pebble \<Rightarrow> Env \<Rightarrow> dbid \<Rightarrow> bytes \<Rightarrow> set_action \<Rightarrow> 'e Store \<Rightarrow> 'e Store \<Rightarrow> bool" for P E db key where
  sadd: "\<forall>m\<in>set ms. length m < 2 ^ 16 \<Longrightarrow> setAdd P E db key ms s = (Inr n, s') \<Longrightarrow> set_serve P E db key (SAdd ms n) s s'"
| srem: "setRem P E db key ms s = (Inr n, s') \<Longrightarrow> set_serve P E db key (SRem ms n) s s'"
| sismember: "setIsMember P E db key m s = (Inr b, s') \<Longrightarrow> set_serve P E db key (SIsMember m b) s s'"
| smembers: "setMembers P E db key s = (Inr ms, s') \<Longrightarrow> set_serve P E db key (SMembers ms) s s'"
| scard: "cmdSCard P E db ''scard'' [key] s = (Inr [RInt n], s') \<Longrightarrow> set_serve P E db key (SCard n) s s'"
| spop: "setPop P E rnd db key k s = (Inr out, s') \<Longrightarrow> set_serve P E db key (SPop k out) s s'"

inductive set_spec :: "set_action \<Rightarrow> set_state \<Rightarrow> set_state \<Rightarrow> bool" where
  sadd: "distinct ms \<longrightarrow> n = int (card (set ms - members_at H)) \<Longrightarrow> set_spec (SAdd ms n) H (set_insert (set ms) H)"
| srem: "set_spec (SRem ms (int (card (set ms \<inter> members_at H)))) H (set_remove (set ms) H)"
| sismember: "set_spec (SIsMember m (m \<in> members_at H)) H H"
| smembers: "set_spec (SMembers (sorted_list_of_set (members_at H))) H H"
| scard: "set_spec (SCard (int (card (members_at H)))) H H"
| spop: "distinct out \<Longrightarrow> set out \<subseteq> members_at H \<Longrightarrow> length out = min k (card (members_at H)) \<Longrightarrow>
    set_spec (SPop k out) H (set_remove (set out) H)"

text \<open>\<open>B\<close> is what the other keys hold.\<close>

definition set_rel :: "('e \<Rightarrow> (bytes \<rightharpoonup> bytes)) \<Rightarrow> Env \<Rightarrow> dbid \<Rightarrow> bytes \<Rightarrow> (dbid \<Rightarrow> bytes \<Rightarrow> tval option) \<Rightarrow> 'e Store \<Rightarrow> set_state \<Rightarrow> bool" where
  "set_rel kv E db key B s H \<longleftrightarrow> st_ok kv E s \<and> set_at kv E s db key H \<and> (\<forall>a b. (a, b) \<noteq> (db, key) \<longrightarrow> st_live kv E s a b = B a b)"

lemma set_rel_step: "set_rel kv E db key B s H \<Longrightarrow> set_changed kv E db key s H' s' \<Longrightarrow> set_rel kv E db key B s' H'"
  by (simp add: set_rel_def set_changed_def)

context pebble_engine
begin

lemma set_simulation: "simulation (set_serve P E db key) set_spec (set_rel kv E db key B)"
proof
  fix s H a s'
  assume rel: "set_rel kv E db key B s H" and step: "set_serve P E db key a s s'"
  then have ok: "st_ok kv E s" and h: "set_at kv E s db key H" by (simp_all add: set_rel_def)
  note reads = set_reads_done [OF ok h]
  have "\<exists>H'. set_spec a H H' \<and> set_changed kv E db key s H' s'" using step
  proof cases
    case (sadd ms n)
    then show ?thesis using setAdd_done [OF ok h sadd(2,3)] set_spec.sadd by blast
  next
    case (srem ms n)
    then show ?thesis using setRem_done [OF ok h srem(2)] set_spec.srem by blast
  next
    case (sismember m b)
    then show ?thesis using reads(1) [OF sismember(2)] set_spec.sismember by blast
  next
    case (smembers ms)
    then show ?thesis using reads(2) [OF smembers(2)] set_spec.smembers by blast
  next
    case (scard n)
    then show ?thesis using reads(3) [OF scard(2)] set_spec.scard by auto
  next
    case (spop rnd k out)
    then show ?thesis using setPop_done [OF ok h spop(2)] set_spec.spop by blast
  qed
  then show "\<exists>H'. set_spec a H H' \<and> set_rel kv E db key B s' H'" using set_rel_step [OF rel] by blast
qed

end

text \<open>The reference engine serves such sets.\<close>

interpretation small_set: simulation "set_serve ref_pebble (small_env 5) 0 [1]" set_spec "set_rel map_of (small_env 5) 0 [1] (\<lambda>_ _. None)"
  by (rule ref.set_simulation)

lemma empty_store_set: "set_at map_of (small_env 5) empty_store 0 [1] None"
  using empty_store_facts by (simp add: elems_of_def marked_def)



end
