(* ===== verification/ZOrder.thy ===== *)
theory ZOrder
  imports ZCommands Lists
begin

text \<open>
  The order of sorted sets and what an index means: ranks, index ranges, score ranges and pops of \<open>cmd_zset.go\<close>, and the slices
  of lists, against their definitions by counting.
\<close>

section \<open>Index ranges\<close>

text \<open>A negative index counts from the end; a range selects the positions between its two ends, both included, however far
  the ends lie outside.\<close>

definition from_end :: "nat \<Rightarrow> int \<Rightarrow> int" where
  "from_end n i = (if i < 0 then i + int n else i)"

definition selected :: "'a list \<Rightarrow> int \<Rightarrow> int \<Rightarrow> 'a list" where
  "selected xs a b = map (\<lambda>i. xs ! i) (filter (\<lambda>i. from_end (length xs) a \<le> int i \<and> int i \<le> from_end (length xs) b) [0..<length xs])"

lemma filter_between: "filter (\<lambda>i. lo \<le> int i \<and> int i \<le> hi) [0..<n] = [nat lo..<min n (nat (hi + 1))]"
proof (induction n)
  case (Suc n)
  show ?case
  proof (cases "lo \<le> int n \<and> int n \<le> hi")
    case True
    then have "min (Suc n) (nat (hi + 1)) = Suc n" "min n (nat (hi + 1)) = n" "nat lo \<le> n" by auto
    then show ?thesis using Suc True by simp
  next
    case False
    then consider "hi < int n" | "int n < lo" by linarith
    then show ?thesis
    proof cases
      case 1
      then have "min (Suc n) (nat (hi + 1)) = min n (nat (hi + 1))" by auto
      then show ?thesis using Suc False by simp
    next
      case 2
      then have "[nat lo..<min (Suc n) (nat (hi + 1))] = []" "[nat lo..<min n (nat (hi + 1))] = []" by auto
      then show ?thesis using Suc False by (simp only: upt_Suc_append filter_append) simp
    qed
  qed
qed simp

lemma nth_range: "map (\<lambda>i. xs ! i) [a..<min (length xs) b] = take (b - a) (drop a xs)"
  by (rule nth_equalityI) (simp_all add: nth_upt less_diff_conv add.commute)

lemma selected_eq:
  "selected xs a b = take (nat (from_end (length xs) b + 1) - nat (from_end (length xs) a)) (drop (nat (from_end (length xs) a)) xs)"
  unfolding selected_def filter_between nth_range ..

lemma slice_selects: "indexRange xs a b = selected xs a b" "sliceRange ys a b = selected ys a b"
proof -
  have sel: "(let n = int (length xs); start1 = (if a < 0 then a + n else a); stop1 = (if b < 0 then b + n else b);
      start = (if start1 < 0 then 0 else start1); stop = (if stop1 \<ge> n then n - 1 else stop1)
    in if start > stop \<or> start \<ge> n \<or> n = 0 then [] else take (nat (stop - start + 1)) (drop (nat start) xs)) = selected xs a b"
    for xs :: "'x list"
  proof -
    let ?a = "from_end (length xs) a" and ?b = "from_end (length xs) b"
    let ?start = "if ?a < 0 then 0 else ?a" and ?stop = "if ?b \<ge> int (length xs) then int (length xs) - 1 else ?b"
    have "(if ?start > ?stop \<or> ?start \<ge> int (length xs) \<or> int (length xs) = 0 then [] else take (nat (?stop - ?start + 1)) (drop (nat ?start) xs))
      = take (nat (?b + 1) - nat ?a) (drop (nat ?a) xs)"
    proof (cases "?start > ?stop \<or> ?start \<ge> int (length xs) \<or> int (length xs) = 0")
      case True
      then have "nat (?b + 1) \<le> nat ?a \<or> length xs \<le> nat ?a" by (auto split: if_splits)
      then show ?thesis using True by auto
    next
      case False
      then have e: "nat ?start = nat ?a" "nat (?stop - ?start + 1) = nat (?b + 1) - nat ?a \<or>
          length xs - nat ?a \<le> nat (?stop - ?start + 1) \<and> length xs - nat ?a \<le> nat (?b + 1) - nat ?a"
        by (auto split: if_splits)
      then have "take (nat (?stop - ?start + 1)) (drop (nat ?a) xs) = take (nat (?b + 1) - nat ?a) (drop (nat ?a) xs)" by auto
      then show ?thesis using False e(1) by simp
    qed
    then show ?thesis unfolding selected_eq by (simp only: Let_def from_end_def)
  qed
  show "indexRange xs a b = selected xs a b" unfolding indexRange_def by (rule sel)
  show "sliceRange ys a b = selected ys a b" unfolding sliceRange_def by (rule sel)
qed

section \<open>Ranks\<close>

text \<open>The comparison of the code: by score, then by member.\<close>

definition comes_before :: "Member \<Rightarrow> Member \<Rightarrow> bool" where
  "comes_before a b \<longleftrightarrow> f64_less (m_score a) (m_score b) \<or> f64_eq (m_score a) (m_score b) \<and> m_member a < m_member b"

definition numbers :: "(bytes \<times> f64) list \<Rightarrow> bool" where
  "numbers z \<longleftrightarrow> (\<forall>(m, sc)\<in>set z. \<not> f64_nan sc)"

lemma comes_before_rank:
  "numbers z \<Longrightarrow> a \<in> set (members_of z) \<Longrightarrow> b \<in> set (members_of z) \<Longrightarrow> comes_before a b \<longleftrightarrow> member_rank a < member_rank b"
  by (auto simp: comes_before_def member_rank_def numbers_def members_of_def f64_less_def f64_eq_def less_prod_def')

lemma sortedMembers_asc:
  assumes "gmap_ok z"
  shows "set (sortedMembers z False) = set (members_of z)" "distinct (map m_member (sortedMembers z False))"
    "sorted_wrt (\<lambda>a b. member_rank a < member_rank b) (sortedMembers z False)"
proof -
  let ?asc = "sort_key member_rank (members_of z)"
  have asc: "sortedMembers z False = ?asc" by (simp add: sortedMembers_def Let_def)
  show "set (sortedMembers z False) = set (members_of z)" by (simp add: asc)
  have "distinct (map m_member (members_of z))" using assms by (simp add: members_of_def gmap_ok_def comp_def split_def)
  then show d: "distinct (map m_member (sortedMembers z False))" by (simp add: asc distinct_map)
  have "distinct (map member_rank ?asc)" using d unfolding asc by (auto simp: distinct_map inj_on_def member_rank_def)
  moreover have "sorted (map member_rank ?asc)" by simp
  ultimately have "sorted_wrt (<) (map member_rank ?asc)" by (simp add: strict_sorted_iff)
  then show "sorted_wrt (\<lambda>a b. member_rank a < member_rank b) (sortedMembers z False)" by (simp add: asc sorted_wrt_map)
qed

lemma rank_by_counting:
  assumes "sorted_wrt (\<lambda>a b. r a < (r b :: 'k :: linorder)) xs" "i < length xs"
  shows "card {y \<in> set xs. r y < r (xs ! i)} = i" "card {y \<in> set xs. r (xs ! i) < r y} = length xs - Suc i"
proof -
  have lt: "r (xs ! j) < r (xs ! k) \<longleftrightarrow> j < k" if "j < length xs" "k < length xs" for j k
    using sorted_wrt_nth_less [OF assms(1)] that by (metis linorder_neqE_nat not_less_iff_gr_or_eq)
  have inj: "inj_on ((!) xs) {..<length xs}" using lt by (intro inj_onI) (metis lessThan_iff linorder_neqE_nat not_less_iff_gr_or_eq)
  have at: "{y \<in> set xs. Q y} = (!) xs ` {j. j < length xs \<and> Q (xs ! j)}" for Q by (auto simp: in_set_conv_nth)
  have count: "card {y \<in> set xs. Q y} = card {j. j < length xs \<and> Q (xs ! j)}" for Q
    unfolding at by (rule card_image) (rule inj_on_subset [OF inj], auto)
  have "{j. j < length xs \<and> r (xs ! j) < r (xs ! i)} = {..<i}" using lt assms(2) by auto
  then show "card {y \<in> set xs. r y < r (xs ! i)} = i" unfolding count by simp
  have "{j. j < length xs \<and> r (xs ! i) < r (xs ! j)} = {Suc i..<length xs}" using lt assms(2) by auto
  then show "card {y \<in> set xs. r (xs ! i) < r y} = length xs - Suc i" unfolding count by simp
qed

lemma rankIn_nth: "distinct (map m_member ms) \<Longrightarrow> i < length ms \<Longrightarrow> rankIn (m_member (ms ! i)) ms k = Some (k + i)"
proof (induction ms arbitrary: i k)
  case (Cons m ms)
  then show ?case by (cases i) (auto simp: image_iff)
qed simp

text \<open>The place of a member, counted from the front or from the back.\<close>

definition place :: "(bytes \<times> f64) list \<Rightarrow> bool \<Rightarrow> Member \<Rightarrow> nat" where
  "place z desc x = card {y \<in> set (members_of z). if desc then comes_before x y else comes_before y x}"

definition in_order :: "bool \<Rightarrow> Member \<Rightarrow> Member \<Rightarrow> bool" where
  "in_order desc x y = (if desc then comes_before y x else comes_before x y)"

lemma sortedMembers_place:
  assumes z: "gmap_ok z" "numbers z"
  shows "set (sortedMembers z desc) = set (members_of z)" "length (sortedMembers z desc) = length z"
    "distinct (map m_member (sortedMembers z desc))" "sorted_wrt (in_order desc) (sortedMembers z desc)"
    "i < length z \<Longrightarrow> place z desc (sortedMembers z desc ! i) = i"
proof -
  let ?asc = "sortedMembers z False"
  note A = sortedMembers_asc [OF z(1)]
  have len: "length ?asc = length z" by (simp add: sortedMembers_def members_of_def Let_def)
  have desc: "sortedMembers z desc = (if desc then rev ?asc else ?asc)" by (simp add: sortedMembers_def Let_def)
  show set: "set (sortedMembers z desc) = set (members_of z)" and "length (sortedMembers z desc) = length z"
    and "distinct (map m_member (sortedMembers z desc))"
    using A len by (simp_all add: desc flip: rev_map)
  have cb: "comes_before a b \<longleftrightarrow> member_rank a < member_rank b" if "a \<in> set ?asc" "b \<in> set ?asc" for a b
    using comes_before_rank [OF z(2)] that A(1) by simp
  have so: "sorted_wrt comes_before ?asc" by (rule sorted_wrt_mono_rel [OF _ A(3)]) (simp add: cb)
  then show "sorted_wrt (in_order desc) (sortedMembers z desc)"
    unfolding desc in_order_def [abs_def] by (simp add: sorted_wrt_rev)
  have pl: "place z d (?asc ! j) = (if d then length z - Suc j else j)" if j: "j < length z" for d j
  proof -
    have m: "?asc ! j \<in> set ?asc" using j len by simp
    have "{y \<in> set (members_of z). if d then comes_before (?asc ! j) y else comes_before y (?asc ! j)} =
      {y \<in> set ?asc. if d then member_rank (?asc ! j) < member_rank y else member_rank y < member_rank (?asc ! j)}"
      unfolding A(1) [symmetric] using cb m by auto
    then show ?thesis using rank_by_counting [OF A(3), of j] j len by (cases d) (simp_all add: place_def)
  qed
  assume i: "i < length z"
  show "place z desc (sortedMembers z desc ! i) = i"
  proof (cases desc)
    case True
    have "length z - Suc (length z - Suc i) = i" using i by simp
    moreover have "sortedMembers z desc ! i = ?asc ! (length z - Suc i)" using True i len unfolding desc by (simp add: rev_nth)
    ultimately show ?thesis using pl [of "length z - Suc i" True] i True by simp
  next
    case False
    then show ?thesis using pl [OF i, of False] by (simp add: desc)
  qed
qed

lemma selected_places:
  assumes "gmap_ok z" "numbers z"
  shows "set (selected (sortedMembers z desc) a b) =
    {x \<in> set (members_of z). from_end (length z) a \<le> int (place z desc x) \<and> int (place z desc x) \<le> from_end (length z) b}"
proof -
  note S = sortedMembers_place [OF assms, where desc = desc]
  let ?m = "sortedMembers z desc"
  have "set (selected ?m a b) = (!) ?m ` {i. i < length z \<and> from_end (length z) a \<le> int i \<and> int i \<le> from_end (length z) b}"
    by (auto simp: selected_def S(2))
  also have "\<dots> = {x \<in> set ?m. from_end (length z) a \<le> int (place z desc x) \<and> int (place z desc x) \<le> from_end (length z) b}"
    using S(5) by (auto simp: in_set_conv_nth S(2)) 
  finally show ?thesis by (simp add: S(1))
qed

lemma sorted_wrt_selected: "sorted_wrt R xs \<Longrightarrow> sorted_wrt R (selected xs a b)"
  unfolding selected_eq by (intro sorted_wrt_take sorted_wrt_drop)

lemma scoreInRange_iff:
  assumes "\<not> f64_nan mn" "\<not> f64_nan mx" "\<not> f64_nan (m_score x)"
  shows "scoreInRange mn mx minEx maxEx x \<longleftrightarrow>
    (if minEx then f64_less mn (m_score x) else f64_le mn (m_score x)) \<and> (if maxEx then f64_less (m_score x) mx else f64_le (m_score x) mx)"
  using assms by (auto simp: scoreInRange_def f64_le_def f64_less_def f64_eq_def)

lemma zRangeItems_done:
  assumes z: "gmap_ok z" "numbers z" and opt: "\<not> zr_byLex opt" and r: "zRangeItems opt lo hi z = Inr items"
  shows "sorted_wrt (in_order (zr_rev opt)) items \<and>
    (if zr_byScore opt then
       \<exists>mn minEx mx maxEx. parseScoreBound lo = Inr (mn, minEx) \<and> parseScoreBound hi = Inr (mx, maxEx) \<and>
         (\<not> f64_nan mn \<longrightarrow> \<not> f64_nan mx \<longrightarrow> set items = {x \<in> set (members_of z).
            (if minEx then f64_less mn (m_score x) else f64_le mn (m_score x)) \<and>
            (if maxEx then f64_less (m_score x) mx else f64_le (m_score x) mx)})
     else
       \<exists>a b. toInt64 lo = Inr a \<and> toInt64 hi = Inr b \<and>
         set items = {x \<in> set (members_of z). from_end (length z) a \<le> int (place z (zr_rev opt) x) \<and>
            int (place z (zr_rev opt) x) \<le> from_end (length z) b})"
proof (cases "zr_byScore opt")
  case True
  then obtain mn minEx mx maxEx where b: "parseScoreBound lo = Inr (mn, minEx)" "parseScoreBound hi = Inr (mx, maxEx)"
    using r by (auto simp: zRangeItems_def split: sum.splits)
  let ?items = "filterByScoreRange (sortedMembers z False) mn mx minEx maxEx"
  have items: "items = (if zr_rev opt then rev ?items else ?items)" using r True b by (auto simp: zRangeItems_def Let_def)
  note S = sortedMembers_place [OF z, where desc = False]
  have "sorted_wrt (in_order False) ?items" unfolding filterByScoreRange_def by (rule sorted_wrt_filter [OF S(4)])
  then have so: "sorted_wrt (in_order (zr_rev opt)) items" by (simp add: items sorted_wrt_rev in_order_def [abs_def])
  have num: "\<not> f64_nan (m_score x)" if "x \<in> set (members_of z)" for x using z(2) that by (auto simp: numbers_def members_of_def)
  have "set items = {x \<in> set (members_of z). scoreInRange mn mx minEx maxEx x}" using S(1) by (auto simp: items filterByScoreRange_def)
  then have "\<not> f64_nan mn \<longrightarrow> \<not> f64_nan mx \<longrightarrow> set items = {x \<in> set (members_of z).
      (if minEx then f64_less mn (m_score x) else f64_le mn (m_score x)) \<and> (if maxEx then f64_less (m_score x) mx else f64_le (m_score x) mx)}"
    using num scoreInRange_iff by blast
  then show ?thesis using so b True by simp
next
  case False
  then obtain a b where ab: "toInt64 lo = Inr a" "toInt64 hi = Inr b" "items = indexRange (sortedMembers z (zr_rev opt)) a b"
    using r opt by (auto simp: zRangeItems_def split: sum.splits)
  have "sorted_wrt (in_order (zr_rev opt)) items" unfolding ab(3) slice_selects(1) by (rule sorted_wrt_selected) (rule sortedMembers_place(4) [OF z])
  then show ?thesis using selected_places [OF z, of "zr_rev opt" a b] False ab by (simp add: slice_selects(1))
qed

lemma zRank_done:
  assumes l: "loadAgg P E db key TypeZSet s = (Inr a, s')" and z: "gmap_ok (a_zset a)" "numbers (a_zset a)"
  shows "zRank P E db key member desc s =
    (Inr (map_option (\<lambda>sc. place (a_zset a) desc \<lparr>m_member = member, m_score = sc\<rparr>) (map_of (a_zset a) member)), s')"
proof (cases "map_of (a_zset a) member")
  case None
  then show ?thesis by (simp add: zRank_def l)
next
  case (Some sc)
  note S = sortedMembers_place [OF z, where desc = desc]
  let ?x = "\<lparr>m_member = member, m_score = sc\<rparr>"
  have "?x \<in> set (sortedMembers (a_zset a) desc)" using map_of_SomeD [OF Some] by (force simp: S(1) members_of_def)
  then obtain i where i: "i < length (a_zset a)" "sortedMembers (a_zset a) desc ! i = ?x" by (auto simp: in_set_conv_nth S(2))
  have "rankIn member (sortedMembers (a_zset a) desc) 0 = Some i" using rankIn_nth [OF S(3), of i 0] i by (simp add: S(2))
  moreover have "place (a_zset a) desc ?x = i" using S(5) [OF i(1)] i(2) by simp
  ultimately show ?thesis using Some by (simp add: zRank_def l)
qed

section \<open>Properties\<close>

text \<open>C30: \<open>ZRANK\<close> is the number of members that come before the member, by score and then by name, and \<open>ZREVRANK\<close> the number
  that come after it; a member that is not there has no rank.\<close>

theorem zrank_counts:
  assumes "loadAgg P E db key TypeZSet s = (Inr a, s')" "gmap_ok (a_zset a)" "numbers (a_zset a)"
  shows "zRank P E db key member desc s =
    (Inr (map_option (\<lambda>sc. card {y \<in> set (members_of (a_zset a)).
        if desc then comes_before \<lparr>m_member = member, m_score = sc\<rparr> y else comes_before y \<lparr>m_member = member, m_score = sc\<rparr>})
      (map_of (a_zset a) member)), s')"
  using zRank_done [OF assms] by (simp add: place_def)

theorem zrank_counts_witness: "\<exists>s'. zRank ref_pebble (small_env 5) 0 [1] [2] False empty_store = (Inr None, s')"
proof -
  obtain s' where "getTyped ref_pebble (small_env 5) 0 [1] empty_store = (Inr None, s')" using empty_store_miss by blast
  then have "loadAgg ref_pebble (small_env 5) 0 [1] TypeZSet empty_store = (Inr (newAgg TypeZSet 0), s')" by (simp add: loadAgg_def)
  from zrank_counts [OF this, of "[2]" False] show ?thesis by (simp add: newAgg_def gmap_ok_def numbers_def)
qed

text \<open>C29: \<open>ZRANGE\<close> selects what it says. By index it returns the members whose place, the number of members before them in
  the order by score and then by name, lies between the two indexes, of which negative ones count from the end and which may lie
  outside; by score, the members whose score lies within the bounds, open or closed; in ascending order, or with \<open>REV\<close> in descending
  order with places counted from the back.\<close>

theorem zrange_selects:
  assumes "gmap_ok z" "numbers z" "\<not> zr_byLex opt" "zRangeItems opt lo hi z = Inr items"
  shows "sorted_wrt (in_order (zr_rev opt)) items \<and>
    (if zr_byScore opt then
       \<exists>mn minEx mx maxEx. parseScoreBound lo = Inr (mn, minEx) \<and> parseScoreBound hi = Inr (mx, maxEx) \<and>
         (\<not> f64_nan mn \<longrightarrow> \<not> f64_nan mx \<longrightarrow> set items = {x \<in> set (members_of z).
            (if minEx then f64_less mn (m_score x) else f64_le mn (m_score x)) \<and>
            (if maxEx then f64_less (m_score x) mx else f64_le (m_score x) mx)})
     else
       \<exists>a b. toInt64 lo = Inr a \<and> toInt64 hi = Inr b \<and>
         set items = {x \<in> set (members_of z). from_end (length z) a \<le> int (place z (zr_rev opt) x) \<and>
            int (place z (zr_rev opt) x) \<le> from_end (length z) b})"
  using zRangeItems_done [OF assms] .

theorem zrange_selects_witness:
  "\<exists>items. zRangeItems noZRange (ascii ''0'') (ascii ''-1'') [([1], 0), ([2], 0)] = Inr items \<and>
     set items = set (members_of [([1], 0), ([2], 0)])"
proof -
  let ?z = "[([1], 0), ([2], 0)] :: (bytes \<times> f64) list"
  have p: "toInt64 (ascii ''0'') = Inr 0" "toInt64 (ascii ''-1'') = Inr (-1)" by code_simp+
  have z: "gmap_ok ?z" "numbers ?z" by (simp_all add: gmap_ok_def numbers_def f64_nan_def)
  obtain items where r: "zRangeItems noZRange (ascii ''0'') (ascii ''-1'') ?z = Inr items"
    using p by (simp add: zRangeItems_def noZRange_def)
  have lt: "place ?z False x < 2" if "x \<in> set (members_of ?z)" for x
  proof -
    have "{y \<in> set (members_of ?z). comes_before y x} \<subseteq> set (members_of ?z) - {x}" by (auto simp: comes_before_def f64_less_def)
    then have "card {y \<in> set (members_of ?z). comes_before y x} \<le> card (set (members_of ?z) - {x})" by (intro card_mono) auto
    also have "\<dots> < 2" using that by (auto simp: members_of_def card_insert_if)
    finally show ?thesis by (simp add: place_def)
  qed
  from zrange_selects [OF z _ r] have "set items = {x \<in> set (members_of ?z). int (place ?z False x) \<le> 1}"
    by (simp add: noZRange_def p from_end_def)
  then have "set items = set (members_of ?z)" using lt by force
  then show ?thesis using r by blast
qed

end
