(* ===== verification/Spec2Isabelle.thy ===== *)
theory Spec2Isabelle
  imports Glob Evict System Api Sessions HashStore SetStore ZOrder
begin

text \<open>
  \<^bold>\<open>Pebbis: a verification library.\<close>

  Pebbis is a key-value server that speaks the Redis protocol and keeps its data in Pebble, an ordered
  key-value store on disk. The library models the program under \<open>src/\<close> function by function and proves what makes
  its parts correct. Go code becomes HOL functions on explicit state; errors are values of the sum type
  \<open>goerr + 'a\<close>, a panic is the error \<open>GoPanic\<close>, every early return is a branch.

  \<^bold>\<open>How the program is put together, and where each part is modelled.\<close>

  \<^item> \<^emph>\<open>Bytes and keys on disk.\<close> One Pebble keyspace holds data keys, the expiry index and the element keys of
    large aggregates. \<open>Prelude\<close> (words, byte strings, \<open>int64\<close>, decimal numbers), \<open>Errors\<close> (\<open>errors.go\<close>, \<open>ctx.go\<close>), \<open>Codec\<close>
    (\<open>storage/codec.go\<close>), \<open>Objects\<close> (\<open>storage/object.go\<close>), \<open>Engine\<close> (\<open>storage/pebble.go\<close>), \<open>Counters\<close> (\<open>storage/merge.go\<close> and the
    increment commands). Shown: keys and values decode to what was encoded, key order is the order of deadlines and scores,
    the keys of one aggregate never meet those of another, scans visit exactly their range and resume where they stopped, and
    the merge operator adds.
  \<^item> \<^emph>\<open>Memory.\<close> A sharded index of entries with an LRU or LFU word and an account of the bytes used. \<open>Config\<close>
    (\<open>config/config.go\<close>), \<open>Entries\<close> (\<open>memory/clock.go\<close>, \<open>memory/entry.go\<close>), \<open>Dict\<close> and \<open>Accounting\<close> (\<open>memory/dict.go\<close>), \<open>Evict\<close>
    (\<open>memory/evict.go\<close>), \<open>Expire\<close> (\<open>memory/expire.go\<close>), \<open>Floats\<close> (the doubles these use). Shown: every operation keeps the
    representation invariant, the index is a map, eviction takes only eligible keys and makes progress, an expiry
    cycle removes what is due and nothing else.
  \<^item> \<^emph>\<open>The store.\<close> \<open>State\<close> and \<open>View\<close> (\<open>store.go\<close>: the shared state and its abstraction), \<open>Data\<close> (\<open>data.go\<close>), \<open>Options\<close>
    (\<open>option.go\<close>), \<open>Refine\<close> and \<open>Keyspace\<close> (each operation of the data path against its specification), \<open>Recovery\<close> and
    \<open>Lifecycle\<close> (\<open>Open\<close>, \<open>Close\<close>, \<open>loadAll\<close>, the options of the engine and the server, the connection limit), \<open>System\<close> (all
    operations, both workers, the clock and restarts in any order, against one map with deadlines, by the simulation
    argument of \<open>Simulation\<close>), \<open>Api\<close> (\<open>api.go\<close>, the
    embedded interface).
  \<^item> \<^emph>\<open>Data types.\<close> \<open>Aggregate\<close> (\<open>aggregate.go\<close>), \<open>Strings\<close>, \<open>Lists\<close>, \<open>Hashes\<close>, \<open>Sets\<close>, \<open>ZSets\<close>, \<open>ZCommands\<close>, \<open>ZOps\<close>, \<open>Streams\<close>,
    \<open>StreamCmds\<close>, \<open>Bits\<close>, \<open>Generic\<close>, \<open>Sort\<close>, \<open>Completion\<close> (the \<open>cmd_*.go\<close> files and \<open>stream.go\<close>), with \<open>Numerals\<close> for the number
    formats of \<open>strconv\<close> and \<open>Glob\<close> for \<open>glob/glob.go\<close>. \<open>HashStore\<close> and \<open>SetStore\<close> relate aggregates to maps and sets: one hash (set),
    absent, inline or spread over element keys, behaves as a map (a finite set) with a deadline under any sequence of operations.
    \<open>ZOrder\<close> gives ranks and ranges of sorted sets by counting. Shown among others: the matcher agrees with a reference
    definition, \<open>SORT\<close> sorts, \<open>LCS\<close> is a longest common subsequence, bit operations touch the bits they should, and a client
    that follows scan cursors ends and sees every element once.
  \<^item> \<^emph>\<open>Serving.\<close> \<open>Handlers\<close>, \<open>Replies\<close> and \<open>Wire\<close> (what handlers share, the grammar of RESP replies, that each handler
    writes exactly one), \<open>Locks\<close> (\<open>keys.go\<close> and the lock table of \<open>store.go\<close>), \<open>Blocking\<close> and \<open>Waiting\<close> (\<open>blocking.go\<close> and the
    blocking commands), \<open>Admin\<close> and \<open>Info\<close> (\<open>admin.go\<close>, \<open>cmd_server.go\<close>), \<open>PubSub\<close> (\<open>pubsub.go\<close>), \<open>Server\<close> (\<open>dispatch.go\<close>,
    \<open>server.go\<close>, \<open>txn.go\<close>, \<open>cmd_conn.go\<close>), \<open>Transactions\<close> and \<open>Sessions\<close>. Shown: one reply per request, locking neither
    deadlocks nor lets conflicting commands overlap, a blocked command is not left asleep, the transaction state is
    an invariant, a transaction runs as a whole or not at all, watches are honoured, and nothing happens without the password.

  \<^bold>\<open>State and operations.\<close> \<open>'e Store\<close> is the store: the engine of type \<open>'e\<close>, the index, the counters and the blocker.
  An operation of the data path takes the calls of the library, the environment \<open>Env\<close> (clock, configuration, hash, coin), the
  database and its arguments, and maps a store to a result and a store. A handler returns the replies it writes. A command
  of the server also sees the connection and the server (\<open>cmdfn\<close>). \<open>st_ok\<close> is the invariant of the store, \<open>st_live\<close> the map
  a client sees. Concurrency is modelled where the program's correctness rests on it, as step relations:
  \<open>lock_step\<close> for commands taking key locks, \<open>blk_step\<close> for blocked commands, \<open>conn_step\<close> for connections, \<open>serve\<close> for the store with
  its workers. A Go map is an association list, a Go set a list without repetition; where the program ranges over a map the
  order is a parameter or irrelevant.

  \<^bold>\<open>Parameters.\<close> Code outside the repository is an argument of the definitions that use it. The calls of Pebble are the
  record \<open>'e pebble\<close>; its laws are the locale \<open>pebble_engine\<close> (what a successful call does) and \<open>pebble_reliable\<close> (calls do not fail),
  both interpreted on a reference engine, \<open>ref_pebble\<close>. Further arguments are the merge and flush calls, the opening of a
  database, the text reader of \<open>big.Float\<close>, random draws and the order of map iteration, wall-clock times, and the
  deliveries and confirmations of the protocol library. \<open>fb\<close> stands for what a blocking command does once it is
  asleep, which \<open>Blocking\<close> describes.

  \<^bold>\<open>Bounds and termination.\<close> Loops are structural recursion or have a measure; there is no fuel. An eviction runs
  at most \<open>roundLimit\<close> rounds, as in the code. Integers of the program that can overflow are words or go through \<open>wrap64\<close>. A
  double is its 64 bits; arithmetic on doubles is exact arithmetic followed by rounding to nearest even. \<open>big.Float\<close> values are dyadic
  numbers rounded to 128 bits.

  \<^bold>\<open>Behaviour that is proved but not intended\<close> is stated next to the definitions it concerns, such as
  \<open>rename_loses_fields\<close>, \<open>stale_fields_return\<close>, \<open>repeated_member_counted_twice\<close>, \<open>watch_misses_recreation\<close>, \<open>counter_stands_still\<close>, \<open>late_version_loses_wakeup\<close>, \<open>lcs_idx_malformed\<close> and \<open>itoa_format\<close>.

  \<^bold>\<open>Not modelled.\<close> The network listener, TLS and the parsing of requests belong to the protocol library, and
  \<open>cmd/pebbisd/main.go\<close> only reads flags and signals and starts it. \<open>Checkpoint\<close> and \<open>Metrics\<close> hand a call on to Pebble. Log lines are
  left out. The goroutines of the workers and of the clock are single ticks that \<open>serve\<close> interleaves. The commands of one
  request run as one step: their interleaving under the key locks is modelled in \<open>Locks\<close>, on the locks alone. The files
  under \<open>tests/\<close> are clients and a reference server for testing.
\<close>

end
